(* ===== verification/Muse_Prelude.thy ===== *)
theory Muse_Prelude
  imports Main "HOL-Library.Word"
begin

text \<open>
  Shared vocabulary of the development: the error type and result type in which
  every \<open>FC_ASSERT\<close>, \<open>FC_THROW\<close> and checked-arithmetic failure of the C++ code is a
  value, the sequencing and folding operators over it, the overflow-checked 64-bit
  integer that \<open>share_type\<close> (\<open>fc::safe<int64_t>\<close>) is, and generic lemmas on association lists
  sorted by key, which stand for the ordered containers of the program.
\<close>

section \<open>Results\<close>

datatype exn =
    Assert_exn            \<comment> \<open>FC_ASSERT\<close>
  | Overflow_exn          \<comment> \<open>fc::safe overflow or underflow\<close>
  | Div_by_zero_exn
  | Not_found_exn         \<comment> \<open>get of an absent object, at() out of range\<close>
  | Uniqueness_exn        \<comment> \<open>an ordered_unique index refused an object\<close>
  | Unlinkable_exn        \<comment> \<open>unlinkable_block_exception\<close>
  | Missing_auth_exn      \<comment> \<open>tx_missing_*_auth and friends\<close>
  | Irrelevant_sig_exn    \<comment> \<open>tx_irrelevant_sig\<close>
  | Other_exn

type_synonym 'a res = "exn + 'a"

named_theorems res_simps \<open>unfolding of the result operators\<close>
named_theorems chain_eval \<open>definitions unfolded to evaluate the model on a concrete state\<close>

definition bindE :: "'a res \<Rightarrow> ('a \<Rightarrow> 'b res) \<Rightarrow> 'b res" where
  "bindE m f = (case m of Inl e \<Rightarrow> Inl e | Inr x \<Rightarrow> f x)"

definition assertE :: "bool \<Rightarrow> unit res" where
  "assertE P = (if P then Inr () else Inl Assert_exn)"

text \<open>\<open>guardE P k\<close>: an \<open>FC_ASSERT(P)\<close> followed by the rest \<open>k\<close> of the function body.\<close>

definition guardE :: "bool \<Rightarrow> 'a res \<Rightarrow> 'a res" where
  "guardE P k = (if P then k else Inl Assert_exn)"

definition getE :: "'a option \<Rightarrow> 'a res" where
  "getE x = (case x of None \<Rightarrow> Inl Not_found_exn | Some y \<Rightarrow> Inr y)"

fun foldE :: "('a \<Rightarrow> 's \<Rightarrow> 's res) \<Rightarrow> 'a list \<Rightarrow> 's \<Rightarrow> 's res" where
  "foldE f [] s = Inr s"
| "foldE f (x # xs) s = bindE (f x s) (foldE f xs)"

lemma bindE_simps [simp]:
  "bindE (Inl e) f = Inl e"
  "bindE (Inr x) f = f x"
  by (simp_all add: bindE_def)

lemma bindE_Inr_iff [res_simps]: "bindE m f = Inr y \<longleftrightarrow> (\<exists>x. m = Inr x \<and> f x = Inr y)"
  by (cases m) simp_all

lemma bindE_assoc: "bindE (bindE m f) g = bindE m (\<lambda>x. bindE (f x) g)"
  by (cases m) simp_all

lemma bindE_cong [fundef_cong]:
  "m = m' \<Longrightarrow> (\<And>x. m' = Inr x \<Longrightarrow> f x = g x) \<Longrightarrow> bindE m f = bindE m' g"
  by (cases m') simp_all

lemma assertE_Inr_iff [res_simps]: "assertE P = Inr u \<longleftrightarrow> P"
  by (simp add: assertE_def)

lemma guardE_Inr_iff [res_simps]: "guardE P k = Inr y \<longleftrightarrow> P \<and> k = Inr y"
  by (simp add: guardE_def)

lemma guardE_True [simp]: "guardE True k = k" and guardE_False [simp]: "guardE False k = Inl Assert_exn"
  by (simp_all add: guardE_def)

lemma getE_Inr_iff [res_simps]: "getE x = Inr y \<longleftrightarrow> x = Some y"
  by (cases x) (simp_all add: getE_def)

lemma getE_Some [simp]: "getE (Some x) = Inr x" and getE_None [simp]: "getE None = Inl Not_found_exn"
  by (simp_all add: getE_def)

lemma if_Inr_iff [res_simps]:
  "(if P then Inl e else k) = Inr y \<longleftrightarrow> \<not> P \<and> k = Inr y"
  "(if P then k else Inl e) = Inr y \<longleftrightarrow> P \<and> k = Inr y"
  by simp_all

lemma foldE_append: "foldE f (xs @ ys) s = bindE (foldE f xs s) (foldE f ys)"
  by (induction xs arbitrary: s) (simp_all add: bindE_assoc cong: bindE_cong)

text \<open>The two fold rules that carry loop proofs: a loop keeps an invariant of its state, and a
  loop whose every iteration succeeds under an invariant returns.\<close>

lemma foldE_invariant:
  assumes "foldE f xs s = Inr s'" and "I s"
    and "\<And>x t t'. x \<in> set xs \<Longrightarrow> I t \<Longrightarrow> f x t = Inr t' \<Longrightarrow> I t'"
  shows "I s'"
  using assms by (induction xs arbitrary: s) (auto simp: res_simps)

lemma foldE_returns:
  assumes "I s" and "\<And>x t. x \<in> set xs \<Longrightarrow> I t \<Longrightarrow> \<exists>t'. f x t = Inr t' \<and> I t'"
  shows "\<exists>s'. foldE f xs s = Inr s' \<and> I s'"
  using assms
proof (induction xs arbitrary: s)
  case (Cons x xs)
  obtain t where "f x s = Inr t" "I t" using Cons.prems by auto
  then show ?case using Cons.IH [of t] Cons.prems(2) by simp
qed simp

text \<open>A quantity that every iteration leaves unchanged is unchanged by the loop.\<close>

lemma foldE_preserves:
  assumes "foldE f xs s = Inr s'"
    and "\<And>x t t'. x \<in> set xs \<Longrightarrow> f x t = Inr t' \<Longrightarrow> q t' = q t"
  shows "q s' = q s"
  using assms
proof (induction xs arbitrary: s)
  case (Cons x xs)
  then obtain t where "f x s = Inr t" "foldE f xs t = Inr s'" by (auto simp: res_simps)
  then show ?case using Cons.IH [of t] Cons.prems(2) by (metis list.set_intros)
qed simp

section \<open>Overflow-checked 64-bit integers\<close>

text \<open>\<open>share_type\<close> is \<open>fc::safe<int64_t>\<close>: an \<open>int64_t\<close> whose operators raise on overflow
  instead of wrapping. A value is an \<open>int\<close> in range; each operation checks its result.\<close>

type_synonym share = int

definition int64_min :: int where "int64_min = - (2 ^ 63)"
definition int64_max :: int where "int64_max = 2 ^ 63 - 1"

definition in_int64 :: "int \<Rightarrow> bool" where
  "in_int64 x \<longleftrightarrow> int64_min \<le> x \<and> x \<le> int64_max"

definition safeE :: "int \<Rightarrow> share res" where
  "safeE x = (if in_int64 x then Inr x else Inl Overflow_exn)"

definition safe_add :: "share \<Rightarrow> share \<Rightarrow> share res" where "safe_add a b = safeE (a + b)"
definition safe_sub :: "share \<Rightarrow> share \<Rightarrow> share res" where "safe_sub a b = safeE (a - b)"
definition safe_mul :: "share \<Rightarrow> share \<Rightarrow> share res" where "safe_mul a b = safeE (a * b)"

text \<open>C++ division truncates towards zero.\<close>

definition cdiv :: "int \<Rightarrow> int \<Rightarrow> int" where
  "cdiv a b = (if (0 \<le> a) = (0 \<le> b) then \<bar>a\<bar> div \<bar>b\<bar> else - (\<bar>a\<bar> div \<bar>b\<bar>))"

definition safe_div :: "share \<Rightarrow> share \<Rightarrow> share res" where
  "safe_div a b = (if b = 0 then Inl Div_by_zero_exn else safeE (cdiv a b))"

lemma safeE_Inr_iff [res_simps]: "safeE x = Inr y \<longleftrightarrow> y = x \<and> in_int64 x"
  by (auto simp: safeE_def)

lemma safe_ops_Inr_iff [res_simps]:
  "safe_add a b = Inr y \<longleftrightarrow> y = a + b \<and> in_int64 (a + b)"
  "safe_sub a b = Inr y \<longleftrightarrow> y = a - b \<and> in_int64 (a - b)"
  "safe_mul a b = Inr y \<longleftrightarrow> y = a * b \<and> in_int64 (a * b)"
  "safe_div a b = Inr y \<longleftrightarrow> b \<noteq> 0 \<and> y = cdiv a b \<and> in_int64 (cdiv a b)"
  by (auto simp: safe_add_def safe_sub_def safe_mul_def safe_div_def res_simps)

lemma cdiv_nonneg [simp]: "0 \<le> a \<Longrightarrow> 0 < b \<Longrightarrow> cdiv a b = a div b"
  by (simp add: cdiv_def)

lemma in_int64_nonneg: "0 \<le> x \<Longrightarrow> in_int64 x \<longleftrightarrow> x < 2 ^ 63"
  by (auto simp: in_int64_def int64_min_def int64_max_def)

lemma in_int64_mono: "in_int64 y \<Longrightarrow> 0 \<le> x \<Longrightarrow> x \<le> y \<Longrightarrow> in_int64 x"
  by (auto simp: in_int64_def int64_min_def)

section \<open>Tables sorted by key\<close>

text \<open>An ordered map or a \<open>multi_index_container\<close> read through its \<open>by_id\<close> key is an association
  list with strictly increasing keys; two such lists with the same lookups are equal.\<close>

type_synonym ('k, 'v) table = "('k \<times> 'v) list"

definition table_ok :: "('k::linorder, 'v) table \<Rightarrow> bool" where
  "table_ok t \<longleftrightarrow> sorted (map fst t) \<and> distinct (map fst t)"

definition table_insert :: "'k::linorder \<Rightarrow> 'v \<Rightarrow> ('k, 'v) table \<Rightarrow> ('k, 'v) table" where
  "table_insert k v t = insort_key fst (k, v) t"

definition table_update :: "'k \<Rightarrow> 'v \<Rightarrow> ('k, 'v) table \<Rightarrow> ('k, 'v) table" where
  "table_update k v t = map (\<lambda>(k', v'). (k', if k' = k then v else v')) t"

definition table_delete :: "'k \<Rightarrow> ('k, 'v) table \<Rightarrow> ('k, 'v) table" where
  "table_delete k t = filter (\<lambda>(k', v'). k' \<noteq> k) t"

named_theorems table_simps \<open>lookups and keys after table updates\<close>

lemma table_ok_Nil [simp]: "table_ok []"
  by (simp add: table_ok_def)

lemma map_of_table_insert [table_simps]:
  "k \<notin> fst ` set t \<Longrightarrow> map_of (table_insert k v t) = (map_of t)(k \<mapsto> v)"
  by (induction t) (auto simp: table_insert_def fun_eq_iff)

lemma map_of_table_update [table_simps]:
  "map_of (table_update k v t) = (if k \<in> fst ` set t then (map_of t)(k \<mapsto> v) else map_of t)"
  by (induction t) (auto simp: table_update_def fun_eq_iff)

lemma map_of_table_delete [table_simps]: "map_of (table_delete k t) = (map_of t)(k := None)"
  by (induction t) (auto simp: table_delete_def fun_eq_iff)

lemma keys_table_update [table_simps]: "map fst (table_update k v t) = map fst t"
  by (auto simp: table_update_def)

lemma table_ok_insert [table_simps]: "table_ok t \<Longrightarrow> k \<notin> fst ` set t \<Longrightarrow> table_ok (table_insert k v t)"
  by (auto simp: table_ok_def table_insert_def sorted_insort_key distinct_map
      set_insort_key distinct_insort inj_on_def image_iff)

lemma table_ok_update [table_simps]: "table_ok t \<Longrightarrow> table_ok (table_update k v t)"
  by (simp add: table_ok_def keys_table_update)

lemma table_ok_delete [table_simps]: "table_ok t \<Longrightarrow> table_ok (table_delete k t)"
  by (auto simp: table_ok_def table_delete_def sorted_filter distinct_map_filter)

lemma table_ext:
  assumes "table_ok s" "table_ok t" "map_of s = map_of t"
  shows "s = t"
proof -
  have "set s = set t" using assms
    by (metis map_of_eq_Some_iff subrelI subset_antisym table_ok_def)
  then show ?thesis using assms
    by (metis map_sorted_distinct_set_unique table_ok_def distinct_map set_eq_subset sup.idem)
qed

lemma fold_insert_set [simp]: "set (fold List.insert xs ys) = set xs \<union> set ys"
  by (induction xs arbitrary: ys) auto

lemma fold_insert_distinct [simp]: "distinct ys \<Longrightarrow> distinct (fold List.insert xs ys)"
  by (induction xs arbitrary: ys) auto

section \<open>Words\<close>

lemma unat_push_bit_word: "unat (x :: 'a::len word) * 2 ^ k < 2 ^ LENGTH('a) \<Longrightarrow> unat (push_bit k x) = unat x * 2 ^ k"
  by (simp add: unsigned_push_bit_eq take_bit_nat_def push_bit_nat_def)

lemma unat_add_word: "unat (x :: 'a::len word) + unat y < 2 ^ LENGTH('a) \<Longrightarrow> unat (x + y) = unat x + unat y"
  by (simp add: unat_word_ariths)

lemma unat_ucast_32_64: "unat (ucast (x :: 32 word) :: 64 word) = unat x"
proof -
  have "unat x < 2 ^ 32" using unsigned_less [of x] by simp
  then show ?thesis by (simp add: unsigned_ucast_eq take_bit_nat_def)
qed

lemma unat_drop_bit_word: "unat (drop_bit k (x :: 'a::len word)) = unat x div 2 ^ k"
  by (simp add: unsigned_drop_bit_eq drop_bit_nat_def take_bit_nat_eq_self)

lemma unat_less_numeral: "unat (n :: 32 word) < 2 ^ 32" "unat (k :: 64 word) < 2 ^ 64" "unat (j :: 16 word) < 2 ^ 16"
  using unsigned_less [of n, where ?'a = nat] unsigned_less [of k, where ?'a = nat]
    unsigned_less [of j, where ?'a = nat] by simp_all

lemma unat_ucast_small: "unat (x :: 'a::len word) < 2 ^ LENGTH('b::len) \<Longrightarrow> unat (ucast x :: 'b word) = unat x"
  by (simp add: unsigned_ucast_eq take_bit_nat_eq_self)

lemma sint_small: "unat (x :: 'a::len word) < 2 ^ (LENGTH('a) - 1) \<Longrightarrow> sint x = int (unat x)"
proof -
  assume a: "unat x < 2 ^ (LENGTH('a) - 1)"
  have "int (unat x) < 2 ^ (LENGTH('a) - 1)" using a by (metis of_nat_less_iff of_nat_numeral of_nat_power)
  moreover have "- (2 ^ (LENGTH('a) - 1)) \<le> int (unat x)" by (rule order_trans [of _ 0]) simp_all
  ultimately have "signed_take_bit (LENGTH('a) - 1) (int (unat x)) = int (unat x)"
    by (metis signed_take_bit_int_eq_self)
  then show ?thesis by (metis One_nat_def sint_uint uint_nat)
qed

end
