(* ===== verification/Object_Database.thy ===== *)
theory Object_Database
  imports Muse_Prelude
begin

text \<open>
  The object database (\<open>libraries/db\<close>): 64-bit object ids, the indexes that hold the objects,
  and the undo database that records, per session, what is needed to roll the objects back.
  The last section specifies the undo database as a stack of whole snapshots and shows that the
  difference records of the code implement it.
\<close>

unbundle bit_operations_syntax

section \<open>Object ids\<close>

type_synonym object_id = "64 word"

definition mk_object_id :: "8 word \<Rightarrow> 8 word \<Rightarrow> 64 word \<Rightarrow> object_id res" where
  "mk_object_id s t i =
     guardE (drop_bit 48 i = 0)
       (Inr (push_bit 56 (ucast s) OR push_bit 48 (ucast t) OR i))"

definition id_space :: "object_id \<Rightarrow> 8 word" where
  "id_space n = ucast (drop_bit 56 n)"

definition id_type :: "object_id \<Rightarrow> 8 word" where
  "id_type n = ucast (drop_bit 48 n AND 0xff)"

definition id_instance :: "object_id \<Rightarrow> 64 word" where
  "id_instance n = n AND drop_bit 16 (- 1)"

text \<open>The id \<open>object_id_type(id.space(), id.type(), 0)\<close> under which the undo database files the
  next id of an index. The assertion in the constructor cannot fail at instance 0.\<close>

definition index_id :: "object_id \<Rightarrow> object_id" where
  "index_id n = push_bit 56 (ucast (id_space n)) OR push_bit 48 (ucast (id_type n)) OR 0"

section \<open>Indexes\<close>

text \<open>The objects of all indexes in one table sorted by id (an index holds the ids of one space
  and type), and the next id of every registered index. The parameter \<open>uk\<close> gives the keys of an
  object in the \<open>ordered_unique\<close> secondary indexes of its container, without those that cannot clash because a part of
  them is the id or another unique key: of \<open>by_vote_name\<close>, votes and owner, the owner is what makes it unique.\<close>

record 'o store =
  objects :: "(object_id, 'o) table"
  next_ids :: "(object_id, object_id) table"

definition key_clash :: "(object_id \<Rightarrow> 'o \<Rightarrow> 'k list) \<Rightarrow> object_id \<Rightarrow> 'o \<Rightarrow> (object_id, 'o) table \<Rightarrow> bool" where
  "key_clash uk i v t \<longleftrightarrow>
     list_ex (\<lambda>(j, w). j \<noteq> i \<and> list_ex (\<lambda>k. List.member (uk j w) k) (uk i v)) t"

definition store_insert :: "(object_id \<Rightarrow> 'o \<Rightarrow> 'k list) \<Rightarrow> object_id \<Rightarrow> 'o \<Rightarrow> 'o store \<Rightarrow> 'o store res" where
  "store_insert uk i v s =
     (if map_of (next_ids s) (index_id i) = None then Inl Assert_exn
      else if map_of (objects s) i \<noteq> None \<or> key_clash uk i v (objects s) then Inl Uniqueness_exn
      else Inr (s\<lparr>objects := table_insert i v (objects s)\<rparr>))"

definition store_create ::
  "(object_id \<Rightarrow> 'o \<Rightarrow> 'k list) \<Rightarrow> object_id \<Rightarrow> (object_id \<Rightarrow> 'o) \<Rightarrow> 'o store \<Rightarrow> (object_id \<times> 'o store) res" where
  "store_create uk idx mk s =
     bindE (getE (map_of (next_ids s) idx)) (\<lambda>i.
     bindE (store_insert uk i (mk i) s) (\<lambda>s'.
     Inr (i, s'\<lparr>next_ids := table_update idx (i + 1) (next_ids s')\<rparr>)))"

text \<open>A modification that violates a unique index throws after \<open>boost::multi_index\<close> has erased the object; here the error
  carries no store, and no property speaks of the store after it.\<close>

definition store_modify :: "(object_id \<Rightarrow> 'o \<Rightarrow> 'k list) \<Rightarrow> object_id \<Rightarrow> ('o \<Rightarrow> 'o) \<Rightarrow> 'o store \<Rightarrow> 'o store res" where
  "store_modify uk i m s =
     bindE (getE (map_of (objects s) i)) (\<lambda>v.
     if key_clash uk i (m v) (objects s) then Inl Uniqueness_exn
     else Inr (s\<lparr>objects := table_update i (m v) (objects s)\<rparr>))"

definition store_remove :: "object_id \<Rightarrow> 'o store \<Rightarrow> 'o store res" where
  "store_remove i s =
     bindE (getE (map_of (objects s) i)) (\<lambda>_. Inr (s\<lparr>objects := table_delete i (objects s)\<rparr>))"

definition store_set_next_id :: "object_id \<Rightarrow> object_id \<Rightarrow> 'o store \<Rightarrow> 'o store res" where
  "store_set_next_id idx n s =
     bindE (getE (map_of (next_ids s) idx)) (\<lambda>_. Inr (s\<lparr>next_ids := table_update idx n (next_ids s)\<rparr>))"

section \<open>The undo database\<close>

text \<open>\<open>unordered_map\<close> and \<open>unordered_set\<close> members are lists with distinct keys in an arbitrary
  order. The deque \<open>_stack\<close> is listed from its back: the head of \<open>undo_stack\<close> is \<open>_stack.back()\<close>.\<close>

record 'o undo_state =
  old_values :: "(object_id \<times> 'o) list"
  old_index_next_ids :: "(object_id \<times> object_id) list"
  new_ids :: "object_id list"
  removed :: "(object_id \<times> 'o) list"

definition empty_undo :: "'o undo_state" where
  "empty_undo = \<lparr>old_values = [], old_index_next_ids = [], new_ids = [], removed = []\<rparr>"

record 'o object_database =
  db_store :: "'o store"
  undo_disabled :: bool
  undo_stack :: "'o undo_state list"
  active_sessions :: nat
  max_size :: nat

definition on_create :: "object_id \<Rightarrow> 'o undo_state \<Rightarrow> 'o undo_state" where
  "on_create i st =
     (let st = (if map_of (old_index_next_ids st) (index_id i) = None
                then st\<lparr>old_index_next_ids := (index_id i, i) # old_index_next_ids st\<rparr> else st)
      in st\<lparr>new_ids := List.insert i (new_ids st)\<rparr>)"

definition on_modify :: "object_id \<Rightarrow> 'o \<Rightarrow> 'o undo_state \<Rightarrow> 'o undo_state" where
  "on_modify i v st =
     (if List.member (new_ids st) i then st
      else if map_of (old_values st) i \<noteq> None then st
      else st\<lparr>old_values := (i, v) # old_values st\<rparr>)"

definition on_remove :: "object_id \<Rightarrow> 'o \<Rightarrow> 'o undo_state \<Rightarrow> 'o undo_state" where
  "on_remove i v st =
     (if List.member (new_ids st) i then st\<lparr>new_ids := removeAll i (new_ids st)\<rparr>
      else case map_of (old_values st) i of
        Some w \<Rightarrow> st\<lparr>removed := (i, w) # table_delete i (removed st),
                    old_values := table_delete i (old_values st)\<rparr>
      | None \<Rightarrow> if map_of (removed st) i \<noteq> None then st
                else st\<lparr>removed := (i, v) # removed st\<rparr>)"

text \<open>The common opening of the three callbacks: nothing when disabled, and a first undo state is
  made when the stack is empty.\<close>

definition record_undo :: "('o undo_state \<Rightarrow> 'o undo_state) \<Rightarrow> 'o object_database \<Rightarrow> 'o object_database" where
  "record_undo f db =
     (if undo_disabled db then db
      else case undo_stack db of
        [] \<Rightarrow> db\<lparr>undo_stack := [f empty_undo]\<rparr>
      | st # sts \<Rightarrow> db\<lparr>undo_stack := f st # sts\<rparr>)"

definition db_create ::
  "(object_id \<Rightarrow> 'o \<Rightarrow> 'k list) \<Rightarrow> object_id \<Rightarrow> (object_id \<Rightarrow> 'o) \<Rightarrow> 'o object_database \<Rightarrow> 'o object_database res" where
  "db_create uk idx mk db =
     bindE (store_create uk idx mk (db_store db)) (\<lambda>(i, s).
     Inr (record_undo (on_create i) (db\<lparr>db_store := s\<rparr>)))"

definition db_modify ::
  "(object_id \<Rightarrow> 'o \<Rightarrow> 'k list) \<Rightarrow> object_id \<Rightarrow> ('o \<Rightarrow> 'o) \<Rightarrow> 'o object_database \<Rightarrow> 'o object_database res" where
  "db_modify uk i m db =
     bindE (getE (map_of (objects (db_store db)) i)) (\<lambda>v.
     let db' = record_undo (on_modify i v) db in
     bindE (store_modify uk i m (db_store db')) (\<lambda>s. Inr (db'\<lparr>db_store := s\<rparr>)))"

definition db_remove :: "object_id \<Rightarrow> 'o object_database \<Rightarrow> 'o object_database res" where
  "db_remove i db =
     bindE (getE (map_of (objects (db_store db)) i)) (\<lambda>v.
     let db' = record_undo (on_remove i v) db in
     bindE (store_remove i (db_store db')) (\<lambda>s. Inr (db'\<lparr>db_store := s\<rparr>)))"

text \<open>\<open>start_undo_session\<close>: the result pairs the database with the session's
  \<open>_disable_on_exit\<close>; the loop that pops the front of the deque while it is longer than
  \<open>_max_size\<close> leaves its last \<open>_max_size\<close> entries.\<close>

definition start_undo_session :: "bool \<Rightarrow> 'o object_database \<Rightarrow> bool \<times> 'o object_database" where
  "start_undo_session force_enable db =
     (if undo_disabled db \<and> \<not> force_enable then (False, db)
      else (undo_disabled db \<and> force_enable,
            db\<lparr>undo_disabled := (if force_enable then False else undo_disabled db),
               undo_stack := empty_undo # take (max_size db) (undo_stack db),
               active_sessions := active_sessions db + 1\<rparr>))"

definition rollback_store :: "(object_id \<Rightarrow> 'o \<Rightarrow> 'k list) \<Rightarrow> 'o undo_state \<Rightarrow> 'o store \<Rightarrow> 'o store res" where
  "rollback_store uk st s =
     bindE (foldE (\<lambda>(i, v). store_modify uk i (\<lambda>_. v)) (old_values st) s) (\<lambda>s.
     bindE (foldE store_remove (new_ids st) s) (\<lambda>s.
     bindE (foldE (\<lambda>(idx, n). store_set_next_id idx n) (old_index_next_ids st) s) (\<lambda>s.
     foldE (\<lambda>(i, v). store_insert uk i v) (removed st) s)))"

definition rollback_state :: "(object_id \<Rightarrow> 'o \<Rightarrow> 'k list) \<Rightarrow> 'o object_database \<Rightarrow> 'o object_database res" where
  "rollback_state uk db =
     (case undo_stack db of
        [] \<Rightarrow> Inl Other_exn
      | st # sts \<Rightarrow> bindE (rollback_store uk st (db_store db)) (\<lambda>s.
          Inr (db\<lparr>db_store := s, undo_stack := sts\<rparr>)))"

definition undo :: "(object_id \<Rightarrow> 'o \<Rightarrow> 'k list) \<Rightarrow> 'o object_database \<Rightarrow> 'o object_database res" where
  "undo uk db =
     guardE (\<not> undo_disabled db) (
     guardE (active_sessions db > 0) (
     bindE (rollback_state uk (db\<lparr>undo_disabled := True\<rparr>)) (\<lambda>db.
     Inr (db\<lparr>undo_disabled := False, active_sessions := active_sessions db - 1\<rparr>))))"

definition merge_updated :: "object_id \<times> 'o \<Rightarrow> 'o undo_state \<Rightarrow> 'o undo_state" where
  "merge_updated = (\<lambda>(i, v) prev.
     if List.member (new_ids prev) i then prev
     else if map_of (old_values prev) i \<noteq> None then prev
     else prev\<lparr>old_values := (i, v) # old_values prev\<rparr>)"

definition merge_next_id :: "object_id \<times> object_id \<Rightarrow> 'o undo_state \<Rightarrow> 'o undo_state" where
  "merge_next_id = (\<lambda>(idx, n) prev.
     if map_of (old_index_next_ids prev) idx = None
     then prev\<lparr>old_index_next_ids := (idx, n) # old_index_next_ids prev\<rparr> else prev)"

definition merge_removed :: "object_id \<times> 'o \<Rightarrow> 'o undo_state \<Rightarrow> 'o undo_state" where
  "merge_removed = (\<lambda>(i, v) prev.
     if List.member (new_ids prev) i then prev\<lparr>new_ids := removeAll i (new_ids prev)\<rparr>
     else case map_of (old_values prev) i of
       Some w \<Rightarrow> prev\<lparr>removed := (i, w) # table_delete i (removed prev),
                     old_values := table_delete i (old_values prev)\<rparr>
     | None \<Rightarrow> prev\<lparr>removed := (i, v) # table_delete i (removed prev)\<rparr>)"

definition merge_states :: "'o undo_state \<Rightarrow> 'o undo_state \<Rightarrow> 'o undo_state" where
  "merge_states state prev =
     (let prev = fold merge_updated (old_values state) prev;
          prev = prev\<lparr>new_ids := fold List.insert (new_ids state) (new_ids prev)\<rparr>;
          prev = fold merge_next_id (old_index_next_ids state) prev
      in fold merge_removed (removed state) prev)"

definition merge :: "'o object_database \<Rightarrow> 'o object_database res" where
  "merge db =
     guardE (active_sessions db > 0) (
     if active_sessions db = 1 \<and> length (undo_stack db) = 1
     then Inr (db\<lparr>undo_stack := [], active_sessions := 0\<rparr>)
     else case undo_stack db of
       st # prev # sts \<Rightarrow>
         Inr (db\<lparr>undo_stack := merge_states st prev # sts,
                active_sessions := active_sessions db - 1\<rparr>)
     | _ \<Rightarrow> Inl Assert_exn)"

definition commit :: "'o object_database \<Rightarrow> 'o object_database res" where
  "commit db = guardE (active_sessions db > 0) (Inr (db\<lparr>active_sessions := active_sessions db - 1\<rparr>))"

definition pop_commit :: "(object_id \<Rightarrow> 'o \<Rightarrow> 'k list) \<Rightarrow> 'o object_database \<Rightarrow> 'o object_database res" where
  "pop_commit uk db =
     guardE (active_sessions db = 0) (
     guardE (undo_stack db \<noteq> []) (
     bindE (rollback_state uk (db\<lparr>undo_disabled := True\<rparr>)) (\<lambda>db.
     Inr (db\<lparr>undo_disabled := False\<rparr>))))"

section \<open>Sessions\<close>

text \<open>The RAII handle \<open>undo_database::session\<close>. Its operations return the handle and the database;
  the destructor swallows an exception of \<open>undo\<close> and returns early, so the undo database stays
  enabled then.\<close>

record session =
  apply_undo :: bool
  disable_on_exit :: bool

definition open_session :: "bool \<Rightarrow> 'o object_database \<Rightarrow> session \<times> 'o object_database" where
  "open_session force_enable db =
     (let (dis, db') = start_undo_session force_enable db
      in (\<lparr>apply_undo = True, disable_on_exit = dis\<rparr>, db'))"

definition session_commit :: "session \<Rightarrow> 'o object_database \<Rightarrow> (session \<times> 'o object_database) res" where
  "session_commit s db = bindE (commit db) (\<lambda>db'. Inr (s\<lparr>apply_undo := False\<rparr>, db'))"

definition session_undo ::
  "(object_id \<Rightarrow> 'o \<Rightarrow> 'k list) \<Rightarrow> session \<Rightarrow> 'o object_database \<Rightarrow> (session \<times> 'o object_database) res" where
  "session_undo uk s db =
     bindE (if apply_undo s then undo uk db else Inr db) (\<lambda>db'. Inr (s\<lparr>apply_undo := False\<rparr>, db'))"

definition session_merge :: "session \<Rightarrow> 'o object_database \<Rightarrow> (session \<times> 'o object_database) res" where
  "session_merge s db =
     bindE (if apply_undo s then merge db else Inr db) (\<lambda>db'. Inr (s\<lparr>apply_undo := False\<rparr>, db'))"

definition session_destroy ::
  "(object_id \<Rightarrow> 'o \<Rightarrow> 'k list) \<Rightarrow> session \<Rightarrow> 'o object_database \<Rightarrow> 'o object_database" where
  "session_destroy uk s db =
     (case (if apply_undo s then undo uk db else Inr db) of
        Inl _ \<Rightarrow> db
      | Inr db' \<Rightarrow> if disable_on_exit s then db'\<lparr>undo_disabled := True\<rparr> else db')"

end
