(* ===== verification/Undo_Refinement.thy ===== *)
theory Undo_Refinement
  imports Object_Database
begin

text \<open>
  Correctness of the undo database: the relation \<open>covers\<close> between a difference record and the two
  stores it stands between, the effect of each callback, of \<open>rollback_state\<close> and of \<open>merge\<close> on it.
\<close>

unbundle bit_operations_syntax

section \<open>Ids\<close>

lemma index_id_alt: "index_id n = push_bit 48 (drop_bit 48 n)"
proof -
  have m: "(0xff :: 64 word) = mask 8" by (simp add: mask_eq_exp_minus_1)
  have w: "LENGTH(64) = 64" "LENGTH(8) = 8" by simp_all
  show ?thesis
  proof (rule bit_word_eqI)
    fix k assume "k < LENGTH(64)"
    then show "bit (index_id n) k = bit (push_bit 48 (drop_bit 48 n)) k"
      unfolding index_id_def id_space_def id_type_def m
      by (cases "56 \<le> k") (auto simp: bit_simps bit_or_iff bit_and_iff bit_mask_iff possible_bit_word)
  qed
qed

lemma index_id_idem [simp]: "index_id (index_id n) = index_id n"
  by (rule bit_word_eqI) (auto simp: index_id_alt bit_simps)

lemma unat_index_id: "unat (index_id n) = unat n div 2 ^ 48 * 2 ^ 48"
proof -
  have "unat n div 2 ^ 48 * 2 ^ 48 \<le> unat n" by simp
  also have "unat n < 2 ^ 64" using unsigned_less [of n] by simp
  finally have "unat n div 2 ^ 48 * 2 ^ 48 < 2 ^ 64" .
  then show ?thesis
    by (simp add: index_id_alt unsigned_push_bit_eq unsigned_drop_bit_eq take_bit_nat_def
        push_bit_nat_def drop_bit_nat_def)
qed

lemma id_instance_alt: "id_instance n = take_bit 48 n"
  by (rule bit_word_eqI) (auto simp: id_instance_def bit_simps)

text \<open>\<open>use_next_id\<close> increments the whole 64-bit number: it stays in its index as long as the
  instance does not reach its 48-bit maximum.\<close>

definition id_exhausted :: "object_id \<Rightarrow> bool" where
  "id_exhausted n \<longleftrightarrow> unat n mod 2 ^ 48 = 2 ^ 48 - 1"

lemma unat_next_id: "\<not> id_exhausted n \<Longrightarrow> unat (n + 1) = unat n + 1"
proof -
  assume a: "\<not> id_exhausted n"
  have "n \<noteq> - 1"
  proof
    assume "n = - 1"
    then have "unat n = 2 ^ 64 - 1" by (simp add: unsigned_minus_1_eq_mask mask_eq_exp_minus_1)
    then show False using a by (simp add: id_exhausted_def)
  qed
  then have "1 + n \<noteq> 0" by (metis add_eq_0_iff2 add.commute)
  then show ?thesis using unatSuc [of n] by (simp add: add.commute)
qed

lemma next_id_greater: "\<not> id_exhausted n \<Longrightarrow> n < n + 1"
  by (simp add: word_less_nat_alt unat_next_id)

lemma Suc_div_same: "a mod k \<noteq> k - 1 \<Longrightarrow> 0 < k \<Longrightarrow> Suc a div k = a div (k :: nat)"
  by (auto simp: div_Suc mod_Suc)

lemma next_id_index: "\<not> id_exhausted n \<Longrightarrow> index_id (n + 1) = index_id n"
  using Suc_div_same [of "unat n" "2 ^ 48"]
  by (simp add: word_unat_eq_iff unat_index_id unat_next_id id_exhausted_def)

lemma drop_bit_zero_iff: "drop_bit 48 (i :: 64 word) = 0 \<longleftrightarrow> (\<forall>k. 48 \<le> k \<longrightarrow> \<not> bit i k)"
proof
  assume a: "drop_bit 48 i = 0"
  show "\<forall>k. 48 \<le> k \<longrightarrow> \<not> bit i k"
  proof (intro allI impI)
    fix k :: nat assume "48 \<le> k"
    then have "bit (drop_bit 48 i) (k - 48) = bit i k" by (simp add: bit_simps)
    then show "\<not> bit i k" using a by simp
  qed
qed (auto intro!: bit_word_eqI simp: bit_simps)

lemma id_fields_bit:
  "bit (id_space n) k \<longleftrightarrow> k < 8 \<and> bit n (56 + k)"
  "bit (id_type n) k \<longleftrightarrow> k < 8 \<and> bit n (48 + k)"
  "bit (id_instance n) k \<longleftrightarrow> k < 48 \<and> bit n k"
proof -
  have m: "(0xff :: 64 word) = mask 8" by (simp add: mask_eq_exp_minus_1)
  show "bit (id_space n) k \<longleftrightarrow> k < 8 \<and> bit n (56 + k)"
    by (auto simp: id_space_def bit_simps)
  show "bit (id_type n) k \<longleftrightarrow> k < 8 \<and> bit n (48 + k)"
    unfolding id_type_def m by (auto simp: bit_simps bit_and_iff)
  show "bit (id_instance n) k \<longleftrightarrow> k < 48 \<and> bit n k"
    unfolding id_instance_alt by (auto simp: bit_simps)
qed

lemma mk_id_bit:
  "bit (push_bit 56 (ucast (s :: 8 word)) OR push_bit 48 (ucast (t :: 8 word)) OR (i :: 64 word)) k \<longleftrightarrow>
     (56 \<le> k \<and> k < 64 \<and> bit s (k - 56)) \<or> (48 \<le> k \<and> k < 56 \<and> bit t (k - 48)) \<or> bit i k"
  by (auto simp: bit_simps bit_or_iff dest: bit_imp_le_length)

text \<open>An object id is determined by and determines its space, type and instance: building one and
  reading it back loses nothing, and an instance of more than 48 bits is refused.\<close>

theorem object_id_roundtrip:
  "mk_object_id s t i = Inr n \<longleftrightarrow> id_space n = s \<and> id_type n = t \<and> id_instance n = i"
proof
  assume "mk_object_id s t i = Inr n"
  then have n: "n = push_bit 56 (ucast s) OR push_bit 48 (ucast t) OR i" and i: "\<And>k. 48 \<le> k \<Longrightarrow> \<not> bit i k"
    by (auto simp: mk_object_id_def res_simps drop_bit_zero_iff)
  show "id_space n = s \<and> id_type n = t \<and> id_instance n = i"
    using i by (auto intro!: bit_word_eqI simp: id_fields_bit mk_id_bit n dest: bit_imp_le_length) (meson linorder_not_le)
next
  assume a: "id_space n = s \<and> id_type n = t \<and> id_instance n = i"
  have "push_bit 56 (ucast s) OR push_bit 48 (ucast t) OR i = n"
  proof (rule bit_word_eqI)
    fix k assume "k < LENGTH(64)"
    then show "bit (push_bit 56 (ucast s) OR push_bit 48 (ucast t) OR i) k = bit n k"
      unfolding mk_id_bit using a by (cases "k < 48"; cases "k < 56") (auto simp: id_fields_bit)
  qed
  moreover have "drop_bit 48 i = 0" using a by (auto simp: drop_bit_zero_iff id_fields_bit)
  ultimately show "mk_object_id s t i = Inr n" by (simp add: mk_object_id_def)
qed
section \<open>Well-formed stores\<close>

abbreviation obj_at :: "'o store \<Rightarrow> object_id \<rightharpoonup> 'o" where
  "obj_at s \<equiv> map_of (objects s)"

abbreviation next_at :: "'o store \<Rightarrow> object_id \<rightharpoonup> object_id" where
  "next_at s \<equiv> map_of (next_ids s)"

definition uniq_keys :: "(object_id \<Rightarrow> 'o \<Rightarrow> 'k list) \<Rightarrow> (object_id \<rightharpoonup> 'o) \<Rightarrow> bool" where
  "uniq_keys uk m \<longleftrightarrow> (\<forall>i j v w. m i = Some v \<longrightarrow> m j = Some w \<longrightarrow> i \<noteq> j \<longrightarrow> set (uk i v) \<inter> set (uk j w) = {})"

definition store_ok :: "(object_id \<Rightarrow> 'o \<Rightarrow> 'k list) \<Rightarrow> 'o store \<Rightarrow> bool" where
  "store_ok uk s \<longleftrightarrow> table_ok (objects s) \<and> table_ok (next_ids s) \<and> uniq_keys uk (obj_at s) \<and>
     (\<forall>i v. obj_at s i = Some v \<longrightarrow> (\<exists>n. next_at s (index_id i) = Some n \<and> i < n)) \<and>
     (\<forall>idx n. next_at s idx = Some n \<longrightarrow> index_id n = idx)"

lemma key_clash_iff:
  "table_ok t \<Longrightarrow> key_clash uk i v t \<longleftrightarrow>
     (\<exists>j w. map_of t j = Some w \<and> j \<noteq> i \<and> set (uk i v) \<inter> set (uk j w) \<noteq> {})"
  by (force simp: key_clash_def list_ex_iff table_ok_def)

lemma uniq_keys_upd:
  "uniq_keys uk m \<Longrightarrow> (\<And>j w. m j = Some w \<Longrightarrow> j \<noteq> i \<Longrightarrow> set (uk i v) \<inter> set (uk j w) = {}) \<Longrightarrow>
   uniq_keys uk (m(i \<mapsto> v))"
  by (fastforce simp: uniq_keys_def)

lemma uniq_keys_sub: "uniq_keys uk m' \<Longrightarrow> m \<subseteq>\<^sub>m m' \<Longrightarrow> uniq_keys uk m"
  unfolding uniq_keys_def map_le_def by (metis domI)

lemma store_modify_effect:
  assumes "store_modify uk i m s = Inr s'" "table_ok (objects s)"
  obtains v where "obj_at s i = Some v" "objects s' = table_update i (m v) (objects s)"
    "obj_at s' = (obj_at s)(i \<mapsto> m v)" "next_ids s' = next_ids s"
    "\<not> key_clash uk i (m v) (objects s)"
proof -
  from assms(1) obtain v where v: "obj_at s i = Some v" "\<not> key_clash uk i (m v) (objects s)"
    "s' = s\<lparr>objects := table_update i (m v) (objects s)\<rparr>"
    by (auto simp: store_modify_def res_simps split: if_splits)
  have "i \<in> fst ` set (objects s)" using v(1) by (metis domI dom_map_of_conv_image_fst)
  then show ?thesis using that v by (simp add: map_of_table_update)
qed

lemma store_modify_ok:
  assumes "table_ok (objects s)" "uniq_keys uk (obj_at s)" "obj_at s i = Some v" "uk i v' = uk i v"
  shows "store_modify uk i (\<lambda>_. v') s = Inr (s\<lparr>objects := table_update i v' (objects s)\<rparr>)"
    "table_ok (table_update i v' (objects s))"
    "map_of (table_update i v' (objects s)) = (obj_at s)(i \<mapsto> v')"
    "uniq_keys uk ((obj_at s)(i \<mapsto> v'))"
proof -
  have none: "\<And>j w. obj_at s j = Some w \<Longrightarrow> j \<noteq> i \<Longrightarrow> set (uk i v') \<inter> set (uk j w) = {}"
    using assms by (metis uniq_keys_def)
  then have "\<not> key_clash uk i v' (objects s)" using assms(1) by (auto simp: key_clash_iff)
  then show "store_modify uk i (\<lambda>_. v') s = Inr (s\<lparr>objects := table_update i v' (objects s)\<rparr>)"
    using assms by (simp add: store_modify_def)
  show "table_ok (table_update i v' (objects s))" using assms by (simp add: table_simps)
  have "i \<in> fst ` set (objects s)" using assms(3) by (metis domI dom_map_of_conv_image_fst)
  then show "map_of (table_update i v' (objects s)) = (obj_at s)(i \<mapsto> v')"
    by (simp add: map_of_table_update)
  show "uniq_keys uk ((obj_at s)(i \<mapsto> v'))" using uniq_keys_upd assms(2) none by metis
qed

section \<open>The four loops of \<open>rollback_state\<close>\<close>

lemma map_add_shift: "i \<notin> fst ` set xs \<Longrightarrow> m(i \<mapsto> v) ++ map_of xs = m ++ map_of ((i, v) # xs)"
  by (simp add: map_add_upd_left dom_map_of_conv_image_fst)

lemma restore_old_values:
  assumes "distinct (map fst ov)" "table_ok (objects s)" "uniq_keys uk (obj_at s)"
    and "\<And>i v. (i, v) \<in> set ov \<Longrightarrow> \<exists>w. obj_at s i = Some w \<and> uk i v = uk i w"
  shows "\<exists>t. foldE (\<lambda>(i, v). store_modify uk i (\<lambda>_. v)) ov s = Inr t \<and> table_ok (objects t) \<and>
    uniq_keys uk (obj_at t) \<and> obj_at t = obj_at s ++ map_of ov \<and> next_ids t = next_ids s"
  using assms
proof (induction ov arbitrary: s)
  case (Cons p ov)
  obtain i v where p: "p = (i, v)" by (cases p)
  obtain w where w: "obj_at s i = Some w" "uk i v = uk i w" using Cons.prems(4) p by auto
  note mod = store_modify_ok [OF Cons.prems(2,3) w]
  let ?s = "s\<lparr>objects := table_update i v (objects s)\<rparr>"
  have m: "obj_at ?s = (obj_at s)(i \<mapsto> v)" using mod(3) by simp
  have "\<exists>w. obj_at ?s j = Some w \<and> uk j u = uk j w" if "(j, u) \<in> set ov" for j u
    using Cons.prems(1) Cons.prems(4) [of j u] that p m by (auto simp: rev_image_eqI)
  then obtain t where t: "foldE (\<lambda>(i, v). store_modify uk i (\<lambda>_. v)) ov ?s = Inr t"
      "table_ok (objects t)" "uniq_keys uk (obj_at t)" "obj_at t = obj_at ?s ++ map_of ov"
      "next_ids t = next_ids s"
    using Cons.IH [of ?s] Cons.prems(1) mod(2) mod(4) [folded mod(3)] by force
  have eq: "obj_at ?s ++ map_of ov = obj_at s ++ map_of (p # ov)"
    by (subst m, unfold p, rule map_add_shift) (use Cons.prems(1) p in simp)
  have "foldE (\<lambda>(i, v). store_modify uk i (\<lambda>_. v)) (p # ov) s = Inr t" using mod(1) t(1) p by simp
  then show ?case using t unfolding eq by blast
qed auto

lemma remove_new_ids:
  assumes "distinct ns" "table_ok (objects s)" "set ns \<subseteq> dom (obj_at s)"
  shows "\<exists>t. foldE store_remove ns s = Inr t \<and> table_ok (objects t) \<and>
    obj_at t = obj_at s |` (- set ns) \<and> next_ids t = next_ids s"
  using assms
proof (induction ns arbitrary: s)
  case (Cons i ns)
  let ?s = "s\<lparr>objects := table_delete i (objects s)\<rparr>"
  have st: "store_remove i s = Inr ?s" using Cons.prems by (auto simp: store_remove_def)
  have "set ns \<subseteq> dom (obj_at ?s)" "table_ok (objects ?s)"
    using Cons.prems by (auto simp: map_of_table_delete table_ok_delete)
  then obtain t where t: "foldE store_remove ns ?s = Inr t" "table_ok (objects t)"
      "obj_at t = obj_at ?s |` (- set ns)" "next_ids t = next_ids s"
    using Cons.IH [of ?s] Cons.prems(1) by force
  have eq: "obj_at ?s |` (- set ns) = obj_at s |` (- set (i # ns))"
    by (auto simp: table_simps restrict_map_def)
  have "foldE store_remove (i # ns) s = Inr t" using st t(1) by simp
  then show ?case using t unfolding eq by blast
qed auto

lemma reset_next_ids:
  assumes "distinct (map fst ns)" "table_ok (next_ids s)" "fst ` set ns \<subseteq> dom (next_at s)"
  shows "\<exists>t. foldE (\<lambda>(idx, n). store_set_next_id idx n) ns s = Inr t \<and> table_ok (next_ids t) \<and>
    next_at t = next_at s ++ map_of ns \<and> objects t = objects s"
  using assms
proof (induction ns arbitrary: s)
  case (Cons p ns)
  obtain i n where p: "p = (i, n)" by (cases p)
  let ?s = "s\<lparr>next_ids := table_update i n (next_ids s)\<rparr>"
  have i: "i \<in> fst ` set (next_ids s)" using Cons.prems(3) p by (simp add: dom_map_of_conv_image_fst)
  have m: "next_at ?s = (next_at s)(i \<mapsto> n)" using i by (simp add: map_of_table_update)
  have st: "store_set_next_id i n s = Inr ?s" using Cons.prems p by (auto simp: store_set_next_id_def)
  have "fst ` set ns \<subseteq> dom (next_at ?s)" "table_ok (next_ids ?s)"
    unfolding m using Cons.prems i by (auto simp: table_ok_update)
  then obtain t where t: "foldE (\<lambda>(idx, n). store_set_next_id idx n) ns ?s = Inr t"
      "table_ok (next_ids t)" "next_at t = next_at ?s ++ map_of ns" "objects t = objects s"
    using Cons.IH [of ?s] Cons.prems(1) by force
  have eq: "next_at ?s ++ map_of ns = next_at s ++ map_of (p # ns)"
    by (subst m, unfold p, rule map_add_shift) (use Cons.prems(1) p in simp)
  have "foldE (\<lambda>(idx, n). store_set_next_id idx n) (p # ns) s = Inr t" using st t(1) p by simp
  then show ?case using t unfolding eq by blast
qed auto

lemma reinsert_removed:
  assumes "distinct (map fst rm)" "table_ok (objects s)" "fst ` set rm \<inter> dom (obj_at s) = {}"
    "uniq_keys uk (obj_at s ++ map_of rm)" "\<And>i v. (i, v) \<in> set rm \<Longrightarrow> next_at s (index_id i) \<noteq> None"
  shows "\<exists>t. foldE (\<lambda>(i, v). store_insert uk i v) rm s = Inr t \<and> table_ok (objects t) \<and>
    obj_at t = obj_at s ++ map_of rm \<and> next_ids t = next_ids s"
  using assms
proof (induction rm arbitrary: s)
  case (Cons p rm)
  obtain i v where p: "p = (i, v)" by (cases p)
  let ?s = "s\<lparr>objects := table_insert i v (objects s)\<rparr>"
  have fresh: "obj_at s i = None" "i \<notin> fst ` set (objects s)"
    using Cons.prems(3) p by (auto simp: map_of_eq_None_iff dom_map_of_conv_image_fst)
  have m: "obj_at ?s = (obj_at s)(i \<mapsto> v)" using fresh by (simp add: table_simps)
  have eq: "obj_at ?s ++ map_of rm = obj_at s ++ map_of (p # rm)"
    by (subst m, unfold p, rule map_add_shift) (use Cons.prems(1) p in simp)
  have "set (uk i v) \<inter> set (uk j w) = {}" if jw: "obj_at s j = Some w" "j \<noteq> i" for j w
  proof -
    have "map_of (p # rm) j = None"
      using Cons.prems(3) jw by (metis disjoint_iff domI map_of_eq_None_iff)
    then have "(obj_at s ++ map_of (p # rm)) j = Some w" using jw by (simp add: map_add_def)
    moreover have "(obj_at s ++ map_of (p # rm)) i = Some v" using p by (simp add: map_add_def)
    ultimately show ?thesis using Cons.prems(4) jw(2) by (metis uniq_keys_def)
  qed
  then have "\<not> key_clash uk i v (objects s)" using Cons.prems(2) by (auto simp: key_clash_iff)
  then have st: "store_insert uk i v s = Inr ?s"
    using Cons.prems(5) p fresh by (auto simp: store_insert_def)
  have d: "fst ` set rm \<inter> dom (obj_at ?s) = {}" unfolding m using Cons.prems(1,3) p by auto
  have to: "table_ok (objects ?s)" using Cons.prems(2) fresh by (simp add: table_simps)
  have u: "uniq_keys uk (obj_at ?s ++ map_of rm)" unfolding eq by (rule Cons.prems(4))
  have "distinct (map fst rm)" "\<And>i v. (i, v) \<in> set rm \<Longrightarrow> next_at ?s (index_id i) \<noteq> None"
    using Cons.prems(1,5) by auto
  then obtain t where t: "foldE (\<lambda>(i, v). store_insert uk i v) rm ?s = Inr t" "table_ok (objects t)"
      "obj_at t = obj_at ?s ++ map_of rm" "next_ids t = next_ids ?s"
    using Cons.IH [OF _ to d u] by metis
  have "foldE (\<lambda>(i, v). store_insert uk i v) (p # rm) s = Inr t" using st t(1) p by simp
  moreover have "next_ids t = next_ids s" using t(4) by simp
  ultimately show ?case using t(2,3) unfolding eq by blast
qed auto

section \<open>Difference records\<close>

text \<open>The four relationships of an object to an undo state that the comment in \<open>merge\<close> names.\<close>

datatype 'o change = Change_new | Change_upd 'o | Change_del 'o | Change_nop

definition change_of :: "'o undo_state \<Rightarrow> object_id \<Rightarrow> 'o change" where
  "change_of st i =
     (if List.member (new_ids st) i then Change_new
      else case map_of (old_values st) i of
        Some v \<Rightarrow> Change_upd v
      | None \<Rightarrow> (case map_of (removed st) i of Some v \<Rightarrow> Change_del v | None \<Rightarrow> Change_nop))"

definition undo_wf :: "'o undo_state \<Rightarrow> bool" where
  "undo_wf st \<longleftrightarrow> distinct (map fst (old_values st)) \<and> distinct (map fst (old_index_next_ids st)) \<and>
     distinct (new_ids st) \<and> distinct (map fst (removed st)) \<and>
     set (new_ids st) \<inter> dom (map_of (old_values st)) = {} \<and>
     set (new_ids st) \<inter> dom (map_of (removed st)) = {} \<and>
     dom (map_of (old_values st)) \<inter> dom (map_of (removed st)) = {}"

fun change_rel :: "('o \<Rightarrow> 'k list) \<Rightarrow> 'o change \<Rightarrow> 'o option \<Rightarrow> 'o option \<Rightarrow> bool" where
  "change_rel k Change_new a b \<longleftrightarrow> a = None \<and> b \<noteq> None"
| "change_rel k (Change_upd v) a b \<longleftrightarrow> a = Some v \<and> b \<noteq> None \<and> k (the b) = k v"
| "change_rel k (Change_del v) a b \<longleftrightarrow> a = Some v \<and> b = None"
| "change_rel k Change_nop a b \<longleftrightarrow> a = b"

text \<open>\<open>covers uk st old cur\<close>: the record \<open>st\<close> describes exactly how the store changed from \<open>old\<close>
  to \<open>cur\<close>.\<close>

definition covers :: "(object_id \<Rightarrow> 'o \<Rightarrow> 'k list) \<Rightarrow> 'o undo_state \<Rightarrow> 'o store \<Rightarrow> 'o store \<Rightarrow> bool" where
  "covers uk st old cur \<longleftrightarrow> undo_wf st \<and>
     (\<forall>i. change_rel (uk i) (change_of st i) (obj_at old i) (obj_at cur i)) \<and>
     (\<forall>i \<in> set (new_ids st). \<exists>n. next_at old (index_id i) = Some n \<and> n \<le> i) \<and>
     (\<forall>idx n. map_of (old_index_next_ids st) idx = Some n \<longrightarrow> next_at old idx = Some n) \<and>
     (\<forall>idx. map_of (old_index_next_ids st) idx = None \<longrightarrow> next_at old idx = next_at cur idx) \<and>
     (\<forall>idx n. next_at old idx = Some n \<longrightarrow> (\<exists>m. next_at cur idx = Some m \<and> n \<le> m)) \<and>
     dom (next_at old) = dom (next_at cur)"

lemma covers_change: "covers uk st old cur \<Longrightarrow> change_rel (uk i) (change_of st i) (obj_at old i) (obj_at cur i)"
  by (simp add: covers_def)

lemma covers_next_None:
  "covers uk st old cur \<Longrightarrow> map_of (old_index_next_ids st) idx = None \<Longrightarrow> next_at old idx = next_at cur idx"
  by (simp add: covers_def)

lemma covers_next_Some:
  "covers uk st old cur \<Longrightarrow> map_of (old_index_next_ids st) idx = Some n \<Longrightarrow> next_at old idx = Some n"
  by (simp add: covers_def)

lemma covers_next_mono:
  "covers uk st old cur \<Longrightarrow> next_at old idx = Some n \<Longrightarrow> \<exists>m. next_at cur idx = Some m \<and> n \<le> m"
  by (simp add: covers_def)

lemma change_of_new: "List.member (new_ids st) i \<Longrightarrow> change_of st i = Change_new"
  by (simp add: change_of_def)

lemma change_of_upd: "undo_wf st \<Longrightarrow> map_of (old_values st) i = Some v \<Longrightarrow> change_of st i = Change_upd v"
  by (auto simp: change_of_def undo_wf_def dom_def)

lemma change_of_del: "undo_wf st \<Longrightarrow> map_of (removed st) i = Some v \<Longrightarrow> change_of st i = Change_del v"
  unfolding change_of_def undo_wf_def List.member_iff
  by (cases "map_of (old_values st) i") (auto simp del: map_of_eq_Some_iff intro: domI)

lemma change_ofD:
  "change_of st i = Change_new \<Longrightarrow> i \<in> set (new_ids st)"
  "change_of st i = Change_upd v \<Longrightarrow> i \<notin> set (new_ids st) \<and> map_of (old_values st) i = Some v"
  "change_of st i = Change_del v \<Longrightarrow>
     i \<notin> set (new_ids st) \<and> map_of (old_values st) i = None \<and> map_of (removed st) i = Some v"
  "change_of st i = Change_nop \<Longrightarrow>
     i \<notin> set (new_ids st) \<and> map_of (old_values st) i = None \<and> map_of (removed st) i = None"
  by (simp_all add: change_of_def split: if_splits option.splits)

lemma covers_empty: "covers uk empty_undo s s"
  by (simp add: covers_def empty_undo_def undo_wf_def change_of_def)

text \<open>Rolling a record back gives exactly the store it started from, and cannot fail: first the
  objects that survive, then the next ids and the objects that had been removed.\<close>

lemma rollback_survivors:
  assumes c: "covers uk st old cur" and ok: "store_ok uk cur"
  obtains s1 s2 where "foldE (\<lambda>(i, v). store_modify uk i (\<lambda>_. v)) (old_values st) cur = Inr s1"
    "foldE store_remove (new_ids st) s1 = Inr s2" "table_ok (objects s2)" "next_ids s2 = next_ids cur"
    "obj_at s2 = (obj_at cur ++ map_of (old_values st)) |` (- set (new_ids st))"
proof -
  have wf: "undo_wf st" using c by (simp add: covers_def)
  note [simp] = wf [unfolded undo_wf_def]
  have t: "table_ok (objects cur)" "uniq_keys uk (obj_at cur)"
    using ok by (simp_all add: store_ok_def)
  have "\<exists>w. obj_at cur i = Some w \<and> uk i v = uk i w" if "(i, v) \<in> set (old_values st)" for i v
    using covers_change [OF c, of i] change_of_upd [OF wf, of i v] that by force
  then obtain s1 where s1: "foldE (\<lambda>(i, v). store_modify uk i (\<lambda>_. v)) (old_values st) cur = Inr s1"
      "table_ok (objects s1)" "obj_at s1 = obj_at cur ++ map_of (old_values st)" "next_ids s1 = next_ids cur"
    using restore_old_values [of "old_values st" cur uk] t by auto
  have "obj_at cur i \<noteq> None" if "i \<in> set (new_ids st)" for i
    using covers_change [OF c, of i] change_of_new [of st i] that by (simp add: List.member_iff)
  then have "set (new_ids st) \<subseteq> dom (obj_at s1)" unfolding s1(3) by (auto simp: dom_def)
  then show ?thesis
    using remove_new_ids [of "new_ids st" s1] s1 that by (metis wf undo_wf_def)
qed

lemma rollback_next_ids:
  assumes c: "covers uk st old cur" and nx: "next_ids s = next_ids cur" and "table_ok (next_ids cur)"
  obtains t where "foldE (\<lambda>(idx, n). store_set_next_id idx n) (old_index_next_ids st) s = Inr t"
    "table_ok (next_ids t)" "next_at t = next_at old" "objects t = objects s"
proof -
  have "fst ` set (old_index_next_ids st) \<subseteq> dom (next_at s)"
  proof
    fix idx assume "idx \<in> fst ` set (old_index_next_ids st)"
    then obtain n where "map_of (old_index_next_ids st) idx = Some n"
      by (metis domD dom_map_of_conv_image_fst)
    then show "idx \<in> dom (next_at s)"
      using covers_next_Some [OF c] c nx by (metis covers_def domI)
  qed
  moreover have "distinct (map fst (old_index_next_ids st))" using c by (simp add: covers_def undo_wf_def)
  ultimately obtain t where t: "foldE (\<lambda>(idx, n). store_set_next_id idx n) (old_index_next_ids st) s = Inr t"
      "table_ok (next_ids t)" "next_at t = next_at cur ++ map_of (old_index_next_ids st)" "objects t = objects s"
    using reset_next_ids [of "old_index_next_ids st" s] assms by auto
  have "next_at t = next_at old"
    using covers_next_None [OF c] covers_next_Some [OF c]
    by (auto simp: t(3) fun_eq_iff map_add_def simp del: map_of_eq_Some_iff split: option.split)
  then show ?thesis using that t by blast
qed

lemma rollback_covers:
  assumes c: "covers uk st old cur" and ok: "store_ok uk old" "store_ok uk cur"
  shows "rollback_store uk st cur = Inr old"
proof -
  have wf: "undo_wf st" using c by (simp add: covers_def)
  obtain s1 s2 where s12: "foldE (\<lambda>(i, v). store_modify uk i (\<lambda>_. v)) (old_values st) cur = Inr s1"
      "foldE store_remove (new_ids st) s1 = Inr s2" and s2: "table_ok (objects s2)" "next_ids s2 = next_ids cur"
      "obj_at s2 = (obj_at cur ++ map_of (old_values st)) |` (- set (new_ids st))"
    using rollback_survivors [OF c ok(2)] .
  obtain s3 where s3: "foldE (\<lambda>(idx, n). store_set_next_id idx n) (old_index_next_ids st) s2 = Inr s3"
      "table_ok (next_ids s3)" "next_at s3 = next_at old" "objects s3 = objects s2"
    using rollback_next_ids [OF c s2(2)] ok(2) by (auto simp: store_ok_def)
  have rm: "obj_at s3 i = (case map_of (removed st) i of Some v \<Rightarrow> None | None \<Rightarrow> obj_at old i) \<and>
      (map_of (removed st) i \<noteq> None \<longrightarrow> obj_at old i = map_of (removed st) i)" for i
    using covers_change [OF c, of i] change_of_del [OF wf, of i] change_of_upd [OF wf, of i]
    by (cases "map_of (removed st) i")
      (auto simp: s2(3) s3(4) map_add_def change_of_def restrict_map_def List.member_iff
        simp del: map_of_eq_Some_iff split: option.splits if_splits)
  then have obj: "obj_at s3 ++ map_of (removed st) = obj_at old"
    by (auto simp: fun_eq_iff map_add_def simp del: map_of_eq_Some_iff split: option.splits)
  have "fst ` set (removed st) \<inter> dom (obj_at s3) = {}"
    using rm by (auto simp: dom_map_of_conv_image_fst [symmetric] simp del: map_of_eq_Some_iff)
  moreover have "next_at s3 (index_id i) \<noteq> None" if "(i, v) \<in> set (removed st)" for i v
  proof -
    have "map_of (removed st) i = Some v" using that wf by (simp add: undo_wf_def)
    then have "obj_at old i = Some v" using rm [of i] by simp
    then show ?thesis using ok(1) s3(3) by (auto simp: store_ok_def)
  qed
  ultimately obtain s4 where s4: "foldE (\<lambda>(i, v). store_insert uk i v) (removed st) s3 = Inr s4"
      "table_ok (objects s4)" "obj_at s4 = obj_at old" "next_ids s4 = next_ids s3"
    using reinsert_removed [of "removed st" s3 uk] s2(1) s3(4) obj ok(1) wf
    by (auto simp: store_ok_def undo_wf_def)
  have "objects s4 = objects old" using table_ext [of "objects s4" "objects old"] s4 ok by (simp add: store_ok_def)
  moreover have "next_ids s4 = next_ids old"
    using table_ext [of "next_ids s3" "next_ids old"] s3 s4(4) ok by (simp add: store_ok_def)
  ultimately have "s4 = old" by simp
  then show ?thesis using s12 s3(1) s4(1) by (simp add: rollback_store_def)
qed

section \<open>The callbacks\<close>

text \<open>Each mutation of the store, recorded by its callback, extends the span of the newest record.\<close>

lemma change_of_on_create: "change_of (on_create i st) = (change_of st)(i := Change_new)"
  by (auto simp: on_create_def change_of_def fun_eq_iff List.member_iff Let_def split: option.split)

lemma change_of_on_modify:
  "change_of (on_modify i v st) =
     (case change_of st i of Change_new \<Rightarrow> change_of st | Change_upd _ \<Rightarrow> change_of st
      | _ \<Rightarrow> (change_of st)(i := Change_upd v))"
  by (auto simp: on_modify_def change_of_def fun_eq_iff split: option.split)

lemma change_of_on_remove:
  "undo_wf st \<Longrightarrow> change_of (on_remove i v st) =
     (case change_of st i of Change_new \<Rightarrow> (change_of st)(i := Change_nop)
      | Change_upd w \<Rightarrow> (change_of st)(i := Change_del w)
      | Change_del _ \<Rightarrow> change_of st
      | Change_nop \<Rightarrow> (change_of st)(i := Change_del v))"
  by (auto simp: on_remove_def change_of_def fun_eq_iff List.member_iff map_of_table_delete undo_wf_def
      simp del: map_of_eq_Some_iff split: option.split)

lemma on_create_next_ids:
  "map_of (old_index_next_ids (on_create i st)) =
     (if map_of (old_index_next_ids st) (index_id i) = None
      then (map_of (old_index_next_ids st))(index_id i \<mapsto> i) else map_of (old_index_next_ids st))"
  by (simp add: on_create_def Let_def)

lemma undo_wf_on_create:
  assumes "undo_wf st" "change_of st i = Change_new \<or> change_of st i = Change_nop"
  shows "undo_wf (on_create i st)"
  using assms
  by (auto simp: on_create_def undo_wf_def change_of_def Let_def map_of_eq_None_iff
      split: if_splits option.splits) (force intro: rev_image_eqI)+

lemma undo_wf_on_modify:
  assumes "undo_wf st" "\<forall>w. change_of st i \<noteq> Change_del w"
  shows "undo_wf (on_modify i v st)"
  using assms
  by (auto simp: on_modify_def undo_wf_def change_of_def List.member_iff map_of_eq_None_iff
      split: if_splits option.splits) (force intro: rev_image_eqI)+

lemma undo_wf_on_remove:
  assumes "undo_wf st"
  shows "undo_wf (on_remove i v st)"
  using assms
  by (auto simp: on_remove_def undo_wf_def List.member_iff map_of_table_delete distinct_removeAll
      table_delete_def distinct_map_filter dom_def map_of_eq_None_iff split: option.splits)

section \<open>Mutations keep stores well-formed and records exact\<close>

lemma store_create_effect:
  assumes "store_create uk idx mk s = Inr (i, s')" "store_ok uk s"
  shows "next_at s idx = Some i" "index_id i = idx" "obj_at s i = None"
    "obj_at s' = (obj_at s)(i \<mapsto> mk i)" "next_at s' = (next_at s)(idx \<mapsto> i + 1)"
    "table_ok (objects s')" "table_ok (next_ids s')"
    "\<And>j w. obj_at s j = Some w \<Longrightarrow> set (uk i (mk i)) \<inter> set (uk j w) = {}"
proof -
  from assms(1) show n: "next_at s idx = Some i"
    by (auto simp: store_create_def res_simps)
  then show "index_id i = idx" using assms(2) by (simp add: store_ok_def)
  from assms(1) n have e: "obj_at s i = None" "\<not> key_clash uk i (mk i) (objects s)"
      "s' = s\<lparr>objects := table_insert i (mk i) (objects s), next_ids := table_update idx (i + 1) (next_ids s)\<rparr>"
    by (auto simp: store_create_def store_insert_def res_simps split: if_splits)
  then show "obj_at s i = None" by simp
  then have "i \<notin> fst ` set (objects s)" by (simp add: map_of_eq_None_iff)
  moreover have "idx \<in> fst ` set (next_ids s)" using n by (metis domI dom_map_of_conv_image_fst)
  ultimately show "obj_at s' = (obj_at s)(i \<mapsto> mk i)" "next_at s' = (next_at s)(idx \<mapsto> i + 1)"
      "table_ok (objects s')" "table_ok (next_ids s')"
    using e(3) assms(2) by (simp_all add: table_simps store_ok_def)
  show "set (uk i (mk i)) \<inter> set (uk j w) = {}" if "obj_at s j = Some w" for j w
    using that e(1,2) assms(2) by (metis key_clash_iff option.distinct(1) store_ok_def)
qed

lemma store_create_ok:
  assumes "store_create uk idx mk s = Inr (i, s')" "store_ok uk s" "\<not> id_exhausted i"
  shows "store_ok uk s'"
proof -
  note e = store_create_effect [OF assms(1,2)]
  have "uniq_keys uk (obj_at s')" unfolding e(4)
    using uniq_keys_upd [of uk "obj_at s" i "mk i"] assms(2) e(8) by (auto simp: store_ok_def)
  moreover have "\<exists>n. next_at s' (index_id j) = Some n \<and> j < n" if "obj_at s' j = Some v" for j v
  proof (cases "j = i")
    case True
    then show ?thesis using e(2,5) next_id_greater [OF assms(3)] by simp
  next
    case False
    then have "obj_at s j = Some v" using that e(4) by simp
    then obtain n where "next_at s (index_id j) = Some n" "j < n" using assms(2) by (auto simp: store_ok_def)
    then show ?thesis using e(1,5) next_id_greater [OF assms(3)] by auto
  qed
  moreover have "index_id n = jdx" if "next_at s' jdx = Some n" for jdx n
    using that e(2,5) assms(2) next_id_index [OF assms(3)] by (auto simp: store_ok_def split: if_splits)
  ultimately show ?thesis using e(6,7) by (auto simp: store_ok_def)
qed

lemma store_modify_store_ok:
  assumes "store_modify uk i m s = Inr s'" "store_ok uk s"
  shows "store_ok uk s'"
proof -
  obtain v where v: "obj_at s i = Some v" "objects s' = table_update i (m v) (objects s)"
      "obj_at s' = (obj_at s)(i \<mapsto> m v)" "next_ids s' = next_ids s" "\<not> key_clash uk i (m v) (objects s)"
    using store_modify_effect assms by (metis store_ok_def)
  have "uniq_keys uk (obj_at s')" unfolding v(3)
    using uniq_keys_upd [of uk "obj_at s" i "m v"] assms(2) v(5) by (auto simp: store_ok_def key_clash_iff)
  then show ?thesis using v assms(2) by (auto simp: store_ok_def table_simps split: if_splits)
qed

lemma store_remove_effect:
  assumes "store_remove i s = Inr s'"
  shows "obj_at s i \<noteq> None" "obj_at s' = (obj_at s)(i := None)" "next_ids s' = next_ids s"
    "objects s' = table_delete i (objects s)"
  using assms by (auto simp: store_remove_def res_simps table_simps)

lemma store_remove_store_ok:
  assumes "store_remove i s = Inr s'" "store_ok uk s"
  shows "store_ok uk s'"
proof -
  note e = store_remove_effect [OF assms(1)]
  have "uniq_keys uk (obj_at s')"
    by (rule uniq_keys_sub [of uk "obj_at s"]) (use assms(2) e(2) in \<open>auto simp: store_ok_def map_le_def\<close>)
  then show ?thesis using e assms(2) by (auto simp: store_ok_def table_simps split: if_splits)
qed

text \<open>A new id lies above every id of an older store, because next ids never decrease.\<close>

lemma fresh_in_old:
  assumes "covers uk st old cur" "store_ok uk old" "next_at cur (index_id i) = Some i"
  shows "obj_at old i = None"
proof (rule ccontr)
  assume "obj_at old i \<noteq> None"
  then obtain n where "next_at old (index_id i) = Some n" "i < n" using assms(2) by (auto simp: store_ok_def)
  then show False using assms(1,3) unfolding covers_def by (metis leD option.inject)
qed

lemma covers_create:
  assumes c: "covers uk st old cur" and ok: "store_ok uk old" "store_ok uk cur"
    and s: "store_create uk idx mk cur = Inr (i, cur')" "\<not> id_exhausted i"
  shows "covers uk (on_create i st) old cur'"
proof -
  note e = store_create_effect [OF s(1) ok(2)]
  have o: "obj_at old i = None" using fresh_in_old [OF c ok(1)] e(1,2) by simp
  have wf: "undo_wf st" using c by (simp add: covers_def)
  have "change_of st i = Change_new \<or> change_of st i = Change_nop"
    using covers_change [OF c, of i] o e(3) by (cases "change_of st i") auto
  with wf have "undo_wf (on_create i st)" by (rule undo_wf_on_create)
  moreover have "change_rel (uk j) (change_of (on_create i st) j) (obj_at old j) (obj_at cur' j)" for j
    using covers_change [OF c, of j] o e(4) by (simp add: change_of_on_create)
  moreover have "next_at old jdx = Some n" if "map_of (old_index_next_ids (on_create i st)) jdx = Some n" for jdx n
    using that covers_next_None [OF c, of jdx] covers_next_Some [OF c, of jdx] e(1,2)
    by (auto simp: on_create_next_ids simp del: map_of_eq_Some_iff split: if_splits)
  moreover have "next_at old jdx = next_at cur' jdx"
    if "map_of (old_index_next_ids (on_create i st)) jdx = None" for jdx
    using that covers_next_None [OF c, of jdx] e(2,5)
    by (auto simp: on_create_next_ids simp del: map_of_eq_Some_iff split: if_splits)
  moreover have "\<exists>n. next_at old (index_id j) = Some n \<and> n \<le> j" if "j \<in> set (new_ids (on_create i st))" for j
  proof (cases "j = i")
    case True
    then show ?thesis using c e(1,2) covers_next_mono [OF c]
      by (metis (no_types, lifting) covers_def domD domI option.inject)
  next
    case False
    then have "j \<in> set (new_ids st)" using that by (auto simp: on_create_def Let_def split: if_splits)
    then show ?thesis using c by (simp add: covers_def)
  qed
  moreover have "\<exists>m. next_at cur' jdx = Some m \<and> n \<le> m" if "next_at old jdx = Some n" for jdx n
    using covers_next_mono [OF c that] e(1,5) next_id_greater [OF s(2)] by auto
  moreover have "dom (next_at old) = dom (next_at cur')"
    using c e(1,5) by (auto simp: covers_def simp del: map_of_eq_Some_iff)
  ultimately show ?thesis by (auto simp: covers_def)
qed

lemma covers_modify:
  assumes c: "covers uk st old cur" and ok: "store_ok uk cur" and key: "\<And>v. uk i (m v) = uk i v"
    and s: "store_modify uk i m cur = Inr cur'" "obj_at cur i = Some v"
  shows "covers uk (on_modify i v st) old cur'"
proof -
  have e: "obj_at cur' = (obj_at cur)(i \<mapsto> m v)" "next_ids cur' = next_ids cur"
    using store_modify_effect [OF s(1)] ok s(2) by (metis option.inject store_ok_def)+
  have wf: "undo_wf st" using c by (simp add: covers_def)
  have "\<forall>w. change_of st i \<noteq> Change_del w" using covers_change [OF c, of i] s(2) by auto
  with wf have "undo_wf (on_modify i v st)" by (rule undo_wf_on_modify)
  moreover have "change_rel (uk j) (change_of (on_modify i v st) j) (obj_at old j) (obj_at cur' j)" for j
    using covers_change [OF c, of j] covers_change [OF c, of i] s(2) key [of v]
    by (cases "change_of st i"; cases "j = i") (simp_all add: change_of_on_modify e(1))
  moreover have "old_index_next_ids (on_modify i v st) = old_index_next_ids st"
    "new_ids (on_modify i v st) = new_ids st"
    by (simp_all add: on_modify_def)
  ultimately show ?thesis using c e(2) by (simp add: covers_def)
qed

lemma covers_remove:
  assumes c: "covers uk st old cur" and s: "store_remove i cur = Inr cur'" "obj_at cur i = Some v"
  shows "covers uk (on_remove i v st) old cur'"
proof -
  note e = store_remove_effect [OF s(1)]
  have wf: "undo_wf st" using c by (simp add: covers_def)
  have "change_rel (uk j) (change_of (on_remove i v st) j) (obj_at old j) (obj_at cur' j)" for j
    using covers_change [OF c, of j] covers_change [OF c, of i] s(2) e(2)
    by (cases "change_of st i") (auto simp: change_of_on_remove [OF wf] simp del: map_of_eq_Some_iff)
  moreover have "old_index_next_ids (on_remove i v st) = old_index_next_ids st"
    "set (new_ids (on_remove i v st)) \<subseteq> set (new_ids st)"
    by (auto simp: on_remove_def split: option.splits if_splits)
  ultimately show ?thesis using c e(3) undo_wf_on_remove [OF wf] unfolding covers_def by auto
qed

section \<open>Merging two records\<close>

text \<open>The composition table drawn in the comment of \<open>merge\<close>, rows the older record; the entries
  marked N/A there are the last equation's.\<close>

fun change_comp :: "'o change \<Rightarrow> 'o change \<Rightarrow> 'o change" where
  "change_comp Change_nop b = b"
| "change_comp a Change_nop = a"
| "change_comp Change_new (Change_upd _) = Change_new"
| "change_comp Change_new (Change_del _) = Change_nop"
| "change_comp (Change_upd x) (Change_upd _) = Change_upd x"
| "change_comp (Change_upd x) (Change_del _) = Change_del x"
| "change_comp _ b = b"

lemma change_comp_rel:
  "change_rel k a x y \<Longrightarrow> change_rel k b y z \<Longrightarrow> (b = Change_new \<longrightarrow> x = None) \<Longrightarrow>
   change_rel k (change_comp a b) x z"
  by (cases a; cases b) auto

lemma merge_updated_fold:
  "new_ids (fold merge_updated xs p) = new_ids p" "removed (fold merge_updated xs p) = removed p"
  "old_index_next_ids (fold merge_updated xs p) = old_index_next_ids p"
  by (induction xs arbitrary: p; simp add: merge_updated_def split: prod.split)+

lemma merge_updated_step:
  "map_of (old_values (merge_updated x p)) i =
     (if map_of (old_values p) i \<noteq> None then map_of (old_values p) i
      else if List.member (new_ids p) i then None else map_of [x] i)"
  "new_ids (merge_updated x p) = new_ids p"
  by (cases x; auto simp: merge_updated_def)+

lemma merge_updated_old_values:
  "map_of (old_values (fold merge_updated xs p)) i =
     (if map_of (old_values p) i \<noteq> None then map_of (old_values p) i
      else if List.member (new_ids p) i then None else map_of xs i)"
  by (induction xs arbitrary: p) (auto simp: merge_updated_step split: if_splits)

lemma merge_updated_distinct:
  "distinct (map fst (old_values p)) \<Longrightarrow> distinct (map fst (old_values (fold merge_updated xs p)))"
  by (induction xs arbitrary: p) (auto simp: merge_updated_def map_of_eq_None_iff split: prod.split)

lemma merge_next_id_fold:
  "new_ids (fold merge_next_id xs p) = new_ids p" "removed (fold merge_next_id xs p) = removed p"
  "old_values (fold merge_next_id xs p) = old_values p"
  by (induction xs arbitrary: p; simp add: merge_next_id_def split: prod.split)+

lemma merge_next_id_step:
  "map_of (old_index_next_ids (merge_next_id x p)) i =
     (if map_of (old_index_next_ids p) i \<noteq> None then map_of (old_index_next_ids p) i else map_of [x] i)"
  by (cases x) (auto simp: merge_next_id_def)

lemma merge_next_id_map:
  "map_of (old_index_next_ids (fold merge_next_id xs p)) i =
     (if map_of (old_index_next_ids p) i \<noteq> None then map_of (old_index_next_ids p) i else map_of xs i)"
  by (induction xs arbitrary: p) (auto simp: merge_next_id_step split: if_splits)

lemma merge_next_id_distinct:
  "distinct (map fst (old_index_next_ids p)) \<Longrightarrow> distinct (map fst (old_index_next_ids (fold merge_next_id xs p)))"
  by (induction xs arbitrary: p) (auto simp: merge_next_id_def map_of_eq_None_iff split: prod.split)

lemma change_of_merge_removed:
  "change_of (merge_removed (i, v) p) =
     (case change_of p i of
        Change_new \<Rightarrow> (change_of p)(i := case map_of (old_values p) i of Some w \<Rightarrow> Change_upd w
          | None \<Rightarrow> case map_of (removed p) i of Some w \<Rightarrow> Change_del w | None \<Rightarrow> Change_nop)
      | Change_upd w \<Rightarrow> (change_of p)(i := Change_del w)
      | _ \<Rightarrow> (change_of p)(i := Change_del v))"
  by (auto simp: merge_removed_def change_of_def fun_eq_iff List.member_iff map_of_table_delete
      simp del: map_of_eq_Some_iff split: option.split)

lemma undo_wf_merge_removed: "undo_wf p \<Longrightarrow> undo_wf (merge_removed (i, v) p)"
  by (auto simp: merge_removed_def undo_wf_def List.member_iff map_of_table_delete distinct_removeAll
      table_delete_def distinct_map_filter dom_def map_of_eq_None_iff split: option.splits)

lemma merge_removed_step:
  assumes "undo_wf p"
  shows "change_of (merge_removed (i, v) p) = (change_of p)(i :=
    (case change_of p i of Change_new \<Rightarrow> Change_nop | Change_upd w \<Rightarrow> Change_del w | _ \<Rightarrow> Change_del v))"
  using assms
  by (auto simp: change_of_merge_removed undo_wf_def change_of_def List.member_iff fun_eq_iff
      simp del: map_of_eq_Some_iff split: option.split)

lemma merge_removed_fold:
  assumes "undo_wf p" "distinct (map fst xs)"
  shows "undo_wf (fold merge_removed xs p) \<and>
    old_index_next_ids (fold merge_removed xs p) = old_index_next_ids p \<and>
    (\<forall>i. change_of (fold merge_removed xs p) i =
      (case map_of xs i of None \<Rightarrow> change_of p i
       | Some v \<Rightarrow> (case change_of p i of Change_new \<Rightarrow> Change_nop
                    | Change_upd w \<Rightarrow> Change_del w | _ \<Rightarrow> Change_del v)))"
  using assms
proof (induction xs arbitrary: p)
  case (Cons x xs)
  obtain i v where x: "x = (i, v)" by (cases x)
  have i: "map_of xs i = None" using Cons.prems(2) x by (simp add: map_of_eq_None_iff)
  have "old_index_next_ids (merge_removed (i, v) p) = old_index_next_ids p"
    by (auto simp: merge_removed_def split: option.split)
  then show ?case
    using Cons.IH [OF undo_wf_merge_removed [OF Cons.prems(1), of i v]] Cons.prems x i
    by (auto simp: merge_removed_step simp del: map_of_eq_Some_iff split: option.split change.split)
qed simp

text \<open>The record before the removals of the newer state are merged.\<close>

definition merge_front :: "'o undo_state \<Rightarrow> 'o undo_state \<Rightarrow> 'o undo_state" where
  "merge_front state prev =
     fold merge_next_id (old_index_next_ids state)
       ((fold merge_updated (old_values state) prev)\<lparr>new_ids := fold List.insert (new_ids state) (new_ids prev)\<rparr>)"

lemma merge_states_front: "merge_states state prev = fold merge_removed (removed state) (merge_front state prev)"
  by (simp add: merge_states_def merge_front_def merge_updated_fold)

lemma merge_front_simps:
  "set (new_ids (merge_front B A)) = set (new_ids B) \<union> set (new_ids A)"
  "removed (merge_front B A) = removed A"
  "map_of (old_values (merge_front B A)) i =
     (if map_of (old_values A) i \<noteq> None then map_of (old_values A) i
      else if List.member (new_ids A) i then None else map_of (old_values B) i)"
  "map_of (old_index_next_ids (merge_front B A)) idx =
     (if map_of (old_index_next_ids A) idx \<noteq> None then map_of (old_index_next_ids A) idx
      else map_of (old_index_next_ids B) idx)"
  by (simp_all add: merge_front_def merge_next_id_fold merge_updated_fold merge_next_id_map
      merge_updated_old_values)

lemma covers_new_fresh:
  assumes "covers uk A s0 s1" "covers uk B s1 s2" "store_ok uk s0" "List.member (new_ids B) i"
  shows "change_of A i = Change_nop" "obj_at s0 i = None" "obj_at s1 i = None"
proof -
  show o1: "obj_at s1 i = None" using covers_change [OF assms(2), of i] assms(4) by (simp add: change_of_new)
  show o0: "obj_at s0 i = None"
  proof (rule ccontr)
    assume "obj_at s0 i \<noteq> None"
    then obtain n where n: "next_at s0 (index_id i) = Some n" "i < n" using assms(3) by (auto simp: store_ok_def)
    then obtain m where "next_at s1 (index_id i) = Some m" "n \<le> m" using covers_next_mono [OF assms(1)] by blast
    moreover obtain m' where "next_at s1 (index_id i) = Some m'" "m' \<le> i"
      using assms(2,4) unfolding covers_def List.member_iff by blast
    ultimately show False using n(2) by simp
  qed
  show "change_of A i = Change_nop"
    using covers_change [OF assms(1), of i] o0 o1 by (cases "change_of A i") auto
qed

lemma merge_front_wf:
  assumes c: "covers uk A s0 s1" "covers uk B s1 s2" and ok: "store_ok uk s0"
  shows "undo_wf (merge_front B A)"
proof -
  have wf: "undo_wf A" "undo_wf B" using c by (simp_all add: covers_def)
  have "distinct (map fst (old_values (merge_front B A)))" "distinct (new_ids (merge_front B A))"
      "distinct (map fst (old_index_next_ids (merge_front B A)))" "distinct (map fst (removed (merge_front B A)))"
    using wf by (simp_all add: merge_front_def merge_next_id_fold merge_updated_fold undo_wf_def
        merge_updated_distinct merge_next_id_distinct)
  moreover have "map_of (old_values (merge_front B A)) i = None \<and> map_of (removed A) i = None"
    if "i \<in> set (new_ids B) \<union> set (new_ids A)" for i
  proof (cases "i \<in> set (new_ids B)")
    case True
    then show ?thesis
      using covers_new_fresh [OF c ok, of i] wf(2)
      by (auto simp: merge_front_simps change_of_def List.member_iff undo_wf_def simp del: map_of_eq_Some_iff
          split: option.splits if_splits)
  next
    case False
    then show ?thesis using that wf(1)
      by (auto simp: merge_front_simps List.member_iff undo_wf_def simp del: map_of_eq_Some_iff)
  qed
  moreover have "map_of (removed A) i = None" if a: "map_of (old_values (merge_front B A)) i \<noteq> None" for i
  proof (cases "map_of (old_values A) i")
    case None
    then obtain v where "map_of (old_values B) i = Some v"
      using a by (auto simp: merge_front_simps simp del: map_of_eq_Some_iff split: if_splits)
    then have "obj_at s1 i \<noteq> None" using covers_change [OF c(2), of i] change_of_upd [OF wf(2)] by force
    then show ?thesis using covers_change [OF c(1), of i] change_of_del [OF wf(1), of i]
      by (cases "map_of (removed A) i") auto
  next
    case (Some v)
    then show ?thesis using wf(1) by (auto simp: undo_wf_def simp del: map_of_eq_Some_iff)
  qed
  ultimately show ?thesis
    unfolding undo_wf_def merge_front_simps(1,2) disjoint_iff by (metis domIff)
qed

lemma change_of_merge:
  assumes c: "covers uk A s0 s1" "covers uk B s1 s2" and ok: "store_ok uk s0"
  shows "change_of (merge_states B A) i = change_comp (change_of A i) (change_of B i)"
proof -
  have wf: "undo_wf A" "undo_wf B" using c by (simp_all add: covers_def)
  have front: "change_of (merge_front B A) i =
      (if List.member (new_ids B) i \<or> List.member (new_ids A) i then Change_new
       else case map_of (old_values A) i of Some v \<Rightarrow> Change_upd v
       | None \<Rightarrow> (case map_of (old_values B) i of Some v \<Rightarrow> Change_upd v
         | None \<Rightarrow> (case map_of (removed A) i of Some v \<Rightarrow> Change_del v | None \<Rightarrow> Change_nop)))"
    by (auto simp: change_of_def merge_front_simps List.member_iff simp del: map_of_eq_Some_iff split: option.split)
  have "distinct (map fst (removed B))" using wf by (simp add: undo_wf_def)
  then have m: "change_of (merge_states B A) i =
      (case map_of (removed B) i of None \<Rightarrow> change_of (merge_front B A) i
       | Some v \<Rightarrow> (case change_of (merge_front B A) i of Change_new \<Rightarrow> Change_nop
                    | Change_upd w \<Rightarrow> Change_del w | _ \<Rightarrow> Change_del v))"
    using merge_removed_fold [OF merge_front_wf [OF c ok], of "removed B"]
    unfolding merge_states_front by blast
  note rel = covers_change [OF c(1), of i] covers_change [OF c(2), of i]
  have rmB: "map_of (removed B) i = None" if "\<And>v. change_of B i \<noteq> Change_del v"
    using that change_of_del [OF wf(2), of i] by (cases "map_of (removed B) i") auto
  show ?thesis
  proof (cases "change_of B i")
    case Change_new
    note n = change_ofD(1) [OF this]
    show ?thesis using covers_new_fresh(1) [OF c ok, of i] Change_new rmB n by (simp add: m front)
  next
    case (Change_upd v)
    note B = change_ofD(2) [OF this]
    show ?thesis
      using rel Change_upd rmB B
      by (cases "change_of A i") (auto simp: m front dest!: change_ofD)
  next
    case (Change_del v)
    note B = change_ofD(3) [OF this]
    show ?thesis
      using rel Change_del B
      by (cases "change_of A i") (auto simp: m front dest!: change_ofD)
  next
    case Change_nop
    note B = change_ofD(4) [OF this]
    show ?thesis
      using Change_nop B
      by (cases "change_of A i") (auto simp: m front dest!: change_ofD)
  qed
qed

lemma merge_states_new_ids: "set (new_ids (fold merge_removed xs p)) \<subseteq> set (new_ids p)"
proof (induction xs arbitrary: p)
  case (Cons x xs)
  have "set (new_ids (merge_removed x p)) \<subseteq> set (new_ids p)"
    by (cases x) (auto simp: merge_removed_def split: option.splits if_splits)
  then show ?case using Cons.IH [of "merge_removed x p"] by auto
qed simp

lemma covers_merge:
  assumes c: "covers uk A s0 s1" "covers uk B s1 s2" and ok: "store_ok uk s0"
  shows "covers uk (merge_states B A) s0 s2"
proof -
  have "distinct (map fst (removed B))" using c(2) by (simp add: covers_def undo_wf_def)
  note rm = merge_removed_fold [OF merge_front_wf [OF c ok] this]
  have wf: "undo_wf (merge_states B A)"
      and nx: "old_index_next_ids (merge_states B A) = old_index_next_ids (merge_front B A)"
    unfolding merge_states_front using rm by blast+
  have "change_rel (uk i) (change_of (merge_states B A) i) (obj_at s0 i) (obj_at s2 i)" for i
  proof -
    have "obj_at s0 i = None" if "change_of B i = Change_new"
      using covers_new_fresh(2) [OF c ok, of i] that by (simp add: change_of_def split: if_splits option.splits)
    then show ?thesis
      unfolding change_of_merge [OF c ok] using change_comp_rel covers_change c by blast
  qed
  moreover have "\<exists>n. next_at s0 (index_id i) = Some n \<and> n \<le> i" if i: "i \<in> set (new_ids (merge_states B A))" for i
  proof -
    have "i \<in> set (new_ids B) \<or> i \<in> set (new_ids A)"
      using i merge_states_new_ids [of "removed B" "merge_front B A"]
      by (auto simp: merge_states_front merge_front_simps)
    then show ?thesis
    proof
      assume "i \<in> set (new_ids B)"
      then obtain n where n: "next_at s1 (index_id i) = Some n" "n \<le> i" using c(2) by (auto simp: covers_def)
      moreover have "dom (next_at s0) = dom (next_at s1)" using c(1) by (simp add: covers_def)
      ultimately obtain n0 where "next_at s0 (index_id i) = Some n0" by (metis domD domI)
      then show ?thesis using covers_next_mono [OF c(1)] n by (metis option.inject order_trans)
    qed (use c(1) in \<open>simp add: covers_def\<close>)
  qed
  moreover have "next_at s0 idx = Some n" if "map_of (old_index_next_ids (merge_states B A)) idx = Some n" for idx n
    using that covers_next_Some [OF c(1), of idx] covers_next_Some [OF c(2), of idx] covers_next_None [OF c(1), of idx]
    by (auto simp: nx merge_front_simps simp del: map_of_eq_Some_iff split: if_splits)
  moreover have "next_at s0 idx = next_at s2 idx" if "map_of (old_index_next_ids (merge_states B A)) idx = None" for idx
    using that covers_next_None [OF c(1), of idx] covers_next_None [OF c(2), of idx]
    by (auto simp: nx merge_front_simps simp del: map_of_eq_Some_iff split: if_splits)
  moreover have "\<exists>m. next_at s2 idx = Some m \<and> n \<le> m" if "next_at s0 idx = Some n" for idx n
    using covers_next_mono [OF c(1) that] covers_next_mono [OF c(2)] by (metis order_trans)
  moreover have "dom (next_at s0) = dom (next_at s2)" using c by (simp add: covers_def)
  ultimately show ?thesis using wf unfolding covers_def by blast
qed

end
