(* ===== verification/Undo_Sessions.thy ===== *)
theory Undo_Sessions
  imports Undo_Refinement
begin

text \<open>
  Sessions of the undo database as its clients use them. A locale states what a client relies on
  (a history of snapshots, restored by \<open>undo\<close> and coalesced by \<open>merge\<close>), derives from it that nested
  sessions are all-or-nothing, and is interpreted on the difference-recording undo database.
\<close>

section \<open>Nested runs\<close>

text \<open>\<open>nested_run d\<close>: a sequence of mutations and of complete nested sessions, each ended by undo or
  merge, nested at most \<open>d\<close> deep.\<close>

inductive nested_run ::
  "('db \<Rightarrow> 'db \<Rightarrow> bool) \<Rightarrow> ('db \<Rightarrow> 'db) \<Rightarrow> ('db \<Rightarrow> 'db res) \<Rightarrow> ('db \<Rightarrow> 'db res) \<Rightarrow> nat \<Rightarrow> 'db \<Rightarrow> 'db \<Rightarrow> bool"
  for step start undo merge where
    run_done: "nested_run step start undo merge d db db"
  | run_step: "nested_run step start undo merge d db db1 \<Longrightarrow> step db1 db2 \<Longrightarrow>
      nested_run step start undo merge d db db2"
  | run_undo: "nested_run step start undo merge (Suc d) db db1 \<Longrightarrow>
      nested_run step start undo merge d (start db1) db2 \<Longrightarrow> undo db2 = Inr db3 \<Longrightarrow>
      nested_run step start undo merge (Suc d) db db3"
  | run_merge: "nested_run step start undo merge (Suc d) db db1 \<Longrightarrow>
      nested_run step start undo merge d (start db1) db2 \<Longrightarrow> merge db2 = Inr db3 \<Longrightarrow>
      nested_run step start undo merge (Suc d) db db3"

locale session_store =
  fixes view :: "'db \<Rightarrow> 'v" and hist :: "'db \<Rightarrow> 'v list \<Rightarrow> bool"
    and active :: "'db \<Rightarrow> nat" and cap :: "'db \<Rightarrow> nat"
    and step :: "'db \<Rightarrow> 'db \<Rightarrow> bool" and start :: "'db \<Rightarrow> 'db"
    and undo :: "'db \<Rightarrow> 'db res" and merge :: "'db \<Rightarrow> 'db res"
  assumes start_law: "hist db vs \<Longrightarrow> hist (start db) (view db # take (cap db) vs) \<and>
      view (start db) = view db \<and> active (start db) = Suc (active db) \<and> cap (start db) = cap db"
    and step_law: "hist db (v # vs) \<Longrightarrow> step db db' \<Longrightarrow>
      hist db' (v # vs) \<and> active db' = active db \<and> cap db' = cap db"
    and undo_law: "hist db (v # vs) \<Longrightarrow> 0 < active db \<Longrightarrow>
      \<exists>db'. undo db = Inr db' \<and> hist db' vs \<and> view db' = v \<and> Suc (active db') = active db \<and> cap db' = cap db"
    and merge_law: "hist db (v # w # vs) \<Longrightarrow> 0 < active db \<Longrightarrow>
      \<exists>db'. merge db = Inr db' \<and> hist db' (w # vs) \<and> view db' = view db \<and> Suc (active db') = active db \<and>
        cap db' = cap db"
begin

lemma run_keeps_history:
  assumes "nested_run step start undo merge d db db'" "hist db (us @ vs)" "us \<noteq> []"
    "length us + d \<le> Suc (cap db)"
  shows "\<exists>k. hist db' (us @ take k vs) \<and> active db' = active db \<and> cap db' = cap db"
  using assms
proof (induction arbitrary: us vs rule: nested_run.induct)
  case (run_done d db)
  then show ?case by (metis order_refl take_all)
next
  case (run_step d db db1 db2)
  from run_step.IH [OF run_step.prems] obtain k where
    k: "hist db1 (us @ take k vs)" "active db1 = active db" "cap db1 = cap db" by blast
  obtain u us' where "us = u # us'" using run_step.prems(2) by (cases us) auto
  then show ?case using step_law [of db1 u "us' @ take k vs" db2] run_step.hyps(2) k by auto
next
  case (run_undo d db db1 db2 db3)
  from run_undo.IH(1) [OF run_undo.prems] obtain k where
    k: "hist db1 (us @ take k vs)" "active db1 = active db" "cap db1 = cap db" by blast
  note s = start_law [OF k(1)]
  let ?c = "cap db"
  have "take ?c (us @ take k vs) = us @ take (?c - length us) (take k vs)"
    using run_undo.prems(3) by simp
  then have h: "hist (start db1) ((view db1 # us) @ take (?c - length us) (take k vs))" using s k(3) by simp
  obtain k' where k': "hist db2 ((view db1 # us) @ take k' (take (?c - length us) (take k vs)))"
      "active db2 = Suc (active db)" "cap db2 = cap db"
    using run_undo.IH(2) [OF h] run_undo.prems(3) s k by auto
  then obtain db3' where "undo db2 = Inr db3'" "hist db3' (us @ take k' (take (?c - length us) (take k vs)))"
      "Suc (active db3') = active db2" "cap db3' = cap db2"
    using undo_law [of db2] by (metis append_Cons zero_less_Suc)
  then show ?case using run_undo.hyps(3) k' by (auto simp: take_take)
next
  case (run_merge d db db1 db2 db3)
  from run_merge.IH(1) [OF run_merge.prems] obtain k where
    k: "hist db1 (us @ take k vs)" "active db1 = active db" "cap db1 = cap db" by blast
  note s = start_law [OF k(1)]
  let ?c = "cap db"
  obtain u us' where us: "us = u # us'" using run_merge.prems(2) by (cases us) auto
  have "take ?c (us @ take k vs) = us @ take (?c - length us) (take k vs)"
    using run_merge.prems(3) by simp
  then have h: "hist (start db1) ((view db1 # us) @ take (?c - length us) (take k vs))" using s k(3) by simp
  obtain k' where k': "hist db2 ((view db1 # us) @ take k' (take (?c - length us) (take k vs)))"
      "active db2 = Suc (active db)" "cap db2 = cap db"
    using run_merge.IH(2) [OF h] run_merge.prems(3) s k by auto
  then obtain db3' where "merge db2 = Inr db3'" "hist db3' (us @ take k' (take (?c - length us) (take k vs)))"
      "Suc (active db3') = active db2" "cap db3' = cap db2"
    using merge_law [of db2] us by (metis append_Cons zero_less_Suc)
  then show ?case using run_merge.hyps(3) k' by (auto simp: take_take)
qed

text \<open>A session that is undone, whatever happened in it, leaves the view as it was.\<close>

lemma undo_restores_view:
  assumes "hist db vs" "nested_run step start undo merge d (start db) db'" "d \<le> cap db"
  shows "\<exists>db''. undo db' = Inr db'' \<and> view db'' = view db \<and> active db'' = active db"
proof -
  note s = start_law [OF assms(1)]
  have "hist (start db) ([view db] @ take (cap db) vs)" using s by simp
  then obtain k where "hist db' ([view db] @ take k (take (cap db) vs))" "active db' = Suc (active db)"
    using run_keeps_history [OF assms(2)] assms(3) s by fastforce
  then show ?thesis using undo_law by fastforce
qed

text \<open>A session merged into an enclosing one keeps its effect and is undone with it.\<close>

lemma merge_then_undo:
  assumes "hist db vs" "nested_run step start undo merge d (start db) db1"
    "nested_run step start undo merge d (start db1) db2" "Suc d \<le> cap db"
  shows "\<exists>db3 db4. merge db2 = Inr db3 \<and> view db3 = view db2 \<and> undo db3 = Inr db4 \<and> view db4 = view db"
proof -
  note s = start_law [OF assms(1)]
  have "hist (start db) ([view db] @ take (cap db) vs)" using s by simp
  then obtain k where k: "hist db1 ([view db] @ take k (take (cap db) vs))" "active db1 = Suc (active db)" "cap db1 = cap db"
    using run_keeps_history [OF assms(2)] assms(4) s by fastforce
  note s1 = start_law [OF k(1)]
  let ?r = "take (cap db - 1) (take k (take (cap db) vs))"
  have "hist (start db1) ([view db1, view db] @ ?r)" using s1 k(3) assms(4) by (simp add: take_Cons')
  then obtain k2 where "hist db2 ([view db1, view db] @ take k2 ?r)" "active db2 = Suc (Suc (active db))"
    using run_keeps_history [OF assms(3)] assms(4) s1 k by fastforce
  then obtain db3 where db3: "merge db2 = Inr db3" "hist db3 (view db # take k2 ?r)" "view db3 = view db2"
      "Suc (active db3) = active db2" "active db2 = Suc (Suc (active db))"
    using merge_law [of db2 "view db1" "view db"] by fastforce
  then show ?thesis using undo_law [OF db3(2)] by auto
qed

end

section \<open>The undo database is a session store\<close>

text \<open>\<open>snapshots uk sts vs cur\<close>: the records \<open>sts\<close>, newest first, lead from \<open>cur\<close> back through the
  stores \<open>vs\<close>.\<close>

fun snapshots :: "(object_id \<Rightarrow> 'o \<Rightarrow> 'k list) \<Rightarrow> 'o undo_state list \<Rightarrow> 'o store list \<Rightarrow> 'o store \<Rightarrow> bool" where
  "snapshots uk [] [] cur \<longleftrightarrow> True"
| "snapshots uk (st # sts) (v # vs) cur \<longleftrightarrow> covers uk st v cur \<and> store_ok uk v \<and> snapshots uk sts vs v"
| "snapshots uk _ _ cur \<longleftrightarrow> False"

definition undo_history :: "(object_id \<Rightarrow> 'o \<Rightarrow> 'k list) \<Rightarrow> 'o object_database \<Rightarrow> 'o store list \<Rightarrow> bool" where
  "undo_history uk db vs \<longleftrightarrow> \<not> undo_disabled db \<and> store_ok uk (db_store db) \<and>
     snapshots uk (undo_stack db) vs (db_store db)"

text \<open>One mutation through the object database: an object is created under the next id of its index
  (not the last one), modified without changing its unique keys, or removed.\<close>

inductive db_step :: "(object_id \<Rightarrow> 'o \<Rightarrow> 'k list) \<Rightarrow> 'o object_database \<Rightarrow> 'o object_database \<Rightarrow> bool"
  for uk where
    step_create: "db_create uk idx mk db = Inr db' \<Longrightarrow> map_of (next_ids (db_store db)) idx = Some i \<Longrightarrow>
      \<not> id_exhausted i \<Longrightarrow> db_step uk db db'"
  | step_modify: "db_modify uk i m db = Inr db' \<Longrightarrow> (\<And>v. uk i (m v) = uk i v) \<Longrightarrow> db_step uk db db'"
  | step_remove: "db_remove i db = Inr db' \<Longrightarrow> db_step uk db db'"

lemma snapshots_take: "snapshots uk sts vs cur \<Longrightarrow> snapshots uk (take n sts) (take n vs) cur"
  by (induction uk sts vs cur arbitrary: n rule: snapshots.induct) (auto simp: take_Cons')

lemma snapshots_ConsE:
  assumes "snapshots uk sts (v # vs) cur"
  obtains st sts' where "sts = st # sts'" "covers uk st v cur" "store_ok uk v" "snapshots uk sts' vs v"
  using assms by (cases sts) auto

lemma record_undo_simps [simp]:
  "db_store (record_undo f db) = db_store db" "undo_disabled (record_undo f db) = undo_disabled db"
  "active_sessions (record_undo f db) = active_sessions db" "max_size (record_undo f db) = max_size db"
  by (auto simp: record_undo_def split: list.split)

lemma record_undo_store: "record_undo f (db\<lparr>db_store := s\<rparr>) = (record_undo f db)\<lparr>db_store := s\<rparr>"
  by (simp add: record_undo_def split: list.split)

text \<open>A mutation whose callback keeps the newest record exact keeps the whole history.\<close>

lemma history_record:
  assumes "undo_history uk db (v # vs)"
    and "\<And>st. covers uk st v (db_store db) \<Longrightarrow> store_ok uk v \<Longrightarrow> covers uk (f st) v s'" "store_ok uk s'"
  shows "undo_history uk ((record_undo f db)\<lparr>db_store := s'\<rparr>) (v # vs)"
proof -
  obtain st sts where "undo_stack db = st # sts" "covers uk st v (db_store db)" "store_ok uk v" "snapshots uk sts vs v"
    using assms(1) by (auto simp: undo_history_def elim: snapshots_ConsE)
  then show ?thesis using assms by (simp add: undo_history_def record_undo_def)
qed

lemma history_step:
  assumes h: "undo_history uk db (v # vs)" and s: "db_step uk db db'"
  shows "undo_history uk db' (v # vs) \<and> active_sessions db' = active_sessions db \<and> max_size db' = max_size db"
  using s
proof cases
  case (step_create idx mk i)
  have ok: "store_ok uk (db_store db)" using h by (simp add: undo_history_def)
  from step_create(1) obtain j s' where c: "store_create uk idx mk (db_store db) = Inr (j, s')"
      and db': "db' = (record_undo (on_create j) db)\<lparr>db_store := s'\<rparr>"
    by (auto simp: db_create_def res_simps record_undo_store)
  have "j = i" using store_create_effect(1) [OF c ok] step_create(2) by simp
  then show ?thesis
    using history_record [OF h, of "on_create j" s'] covers_create [OF _ _ ok c] store_create_ok [OF c ok]
      step_create(3) by (auto simp: db')
next
  case (step_modify i m)
  have ok: "store_ok uk (db_store db)" using h by (simp add: undo_history_def)
  from step_modify(1) obtain w s' where c: "store_modify uk i m (db_store db) = Inr s'" "obj_at (db_store db) i = Some w"
      and db': "db' = (record_undo (on_modify i w) db)\<lparr>db_store := s'\<rparr>"
    by (auto simp: db_modify_def res_simps Let_def)
  show ?thesis
    using history_record [OF h, of "on_modify i w" s'] covers_modify [OF _ ok step_modify(2) c]
      store_modify_store_ok [OF c(1) ok] by (auto simp: db')
next
  case (step_remove i)
  have ok: "store_ok uk (db_store db)" using h by (simp add: undo_history_def)
  from step_remove obtain w s' where c: "store_remove i (db_store db) = Inr s'" "obj_at (db_store db) i = Some w"
      and db': "db' = (record_undo (on_remove i w) db)\<lparr>db_store := s'\<rparr>"
    by (auto simp: db_remove_def res_simps Let_def)
  show ?thesis
    using history_record [OF h, of "on_remove i w" s'] covers_remove [OF _ c]
      store_remove_store_ok [OF c(1) ok] by (auto simp: db')
qed

lemma history_rollback:
  assumes "undo_history uk db (v # vs)"
  shows "rollback_state uk (db\<lparr>undo_disabled := True\<rparr>) =
    Inr (db\<lparr>undo_disabled := True, db_store := v, undo_stack := tl (undo_stack db)\<rparr>)"
    "undo_history uk (db\<lparr>db_store := v, undo_stack := tl (undo_stack db)\<rparr>) vs"
proof -
  obtain st sts where st: "undo_stack db = st # sts" "covers uk st v (db_store db)" "store_ok uk v" "snapshots uk sts vs v"
    using assms by (auto simp: undo_history_def elim: snapshots_ConsE)
  have "rollback_store uk st (db_store db) = Inr v"
    using rollback_covers [OF st(2,3)] assms by (simp add: undo_history_def)
  then show "rollback_state uk (db\<lparr>undo_disabled := True\<rparr>) =
      Inr (db\<lparr>undo_disabled := True, db_store := v, undo_stack := tl (undo_stack db)\<rparr>)"
    using st(1) by (simp add: rollback_state_def)
  show "undo_history uk (db\<lparr>db_store := v, undo_stack := tl (undo_stack db)\<rparr>) vs"
    using assms st by (simp add: undo_history_def)
qed

lemma history_undo:
  assumes "undo_history uk db (v # vs)" "0 < active_sessions db"
  shows "undo uk db = Inr (db\<lparr>db_store := v, undo_stack := tl (undo_stack db),
    active_sessions := active_sessions db - 1\<rparr>)"
    "undo_history uk (db\<lparr>db_store := v, undo_stack := tl (undo_stack db),
      active_sessions := active_sessions db - 1\<rparr>) vs"
  using assms history_rollback [OF assms(1)] by (simp_all add: undo_def undo_history_def)

lemma history_merge:
  assumes "undo_history uk db (v # w # vs)" "0 < active_sessions db"
  shows "\<exists>db'. merge db = Inr db' \<and> undo_history uk db' (w # vs) \<and> db_store db' = db_store db \<and>
    Suc (active_sessions db') = active_sessions db \<and> max_size db' = max_size db"
proof -
  obtain B A sts where st: "undo_stack db = B # A # sts" "covers uk B v (db_store db)" "store_ok uk v"
      "covers uk A w v" "store_ok uk w" "snapshots uk sts vs w"
    using assms(1) by (auto simp: undo_history_def elim!: snapshots_ConsE)
  have "covers uk (merge_states B A) w (db_store db)" using covers_merge st by blast
  then show ?thesis using st assms by (simp add: merge_def undo_history_def)
qed

interpretation undo_db: session_store db_store "undo_history uk" active_sessions max_size
  "db_step uk" "\<lambda>db. snd (start_undo_session False db)" "undo uk" merge
proof unfold_locales
  fix db :: "'a object_database" and vs
  assume h: "undo_history uk db vs"
  then have "snapshots uk (take n (undo_stack db)) (take n vs) (db_store db)" for n
    by (simp add: undo_history_def snapshots_take)
  then show "undo_history uk (snd (start_undo_session False db)) (db_store db # take (max_size db) vs) \<and>
      db_store (snd (start_undo_session False db)) = db_store db \<and>
      active_sessions (snd (start_undo_session False db)) = Suc (active_sessions db) \<and>
      max_size (snd (start_undo_session False db)) = max_size db"
    using h by (simp add: start_undo_session_def undo_history_def covers_empty)
next
  fix db :: "'a object_database" and v vs
  assume "undo_history uk db (v # vs)" "0 < active_sessions db"
  from history_undo [OF this] \<open>0 < active_sessions db\<close>
  show "\<exists>db'. undo uk db = Inr db' \<and> undo_history uk db' vs \<and> db_store db' = v \<and>
      Suc (active_sessions db') = active_sessions db \<and> max_size db' = max_size db" by simp
qed (use history_step history_merge in \<open>blast+\<close>)

section \<open>Properties\<close>

abbreviation undo_run :: "(object_id \<Rightarrow> 'o \<Rightarrow> 'k list) \<Rightarrow> nat \<Rightarrow> 'o object_database \<Rightarrow> 'o object_database \<Rightarrow> bool" where
  "undo_run uk \<equiv> nested_run (db_step uk) (\<lambda>db. snd (start_undo_session False db)) (undo uk) merge"

text \<open>Property C4. Whatever is created, removed, and modified without a change of its unique keys in a session, with
  sessions nested in it undone or merged, undoing the session succeeds and leaves every object and every next id
  exactly as they were when it started, as long as not more sessions are open than the database keeps.\<close>

theorem undo_session_restores:
  assumes "undo_history uk db vs" "undo_run uk d (snd (start_undo_session False db)) db'" "d \<le> max_size db"
  shows "\<exists>db''. undo uk db' = Inr db'' \<and> db_store db'' = db_store db \<and> active_sessions db'' = active_sessions db"
  using undo_db.undo_restores_view [OF assms] .

text \<open>A database of two indexes used by the witnesses: objects are numbers, and each number is its
  own unique key.\<close>

definition demo_key :: "object_id \<Rightarrow> nat \<Rightarrow> nat list" where
  "demo_key i v = [v mod 10]"

definition demo_db :: "nat object_database" where
  "demo_db = \<lparr>db_store = \<lparr>objects = [(0x0102000000000000, 11), (0x0102000000000001, 22)],
                          next_ids = [(0x0102000000000000, 0x0102000000000002), (0x0103000000000000, 0x0103000000000000)]\<rparr>,
     undo_disabled = False, undo_stack = [], active_sessions = 0, max_size = 256\<rparr>"

lemma demo_history: "undo_history demo_key demo_db []"
  by (auto simp: undo_history_def demo_db_def store_ok_def table_ok_def uniq_keys_def demo_key_def
      index_id_alt split: if_splits)

definition demo_start :: "nat object_database" where
  "demo_start = snd (start_undo_session False demo_db)"

definition demo_after :: "nat object_database" where
  "demo_after = demo_start\<lparr>
     db_store := \<lparr>objects = [(0x0102000000000001, 32), (0x0103000000000000, 5)],
                 next_ids = [(0x0102000000000000, 0x0102000000000002), (0x0103000000000000, 0x0103000000000001)]\<rparr>,
     undo_stack := [\<lparr>old_values = [(0x0102000000000001, 22)],
                     old_index_next_ids = [(0x0103000000000000, 0x0103000000000000)],
                     new_ids = [0x0103000000000000], removed = [(0x0102000000000000, 11)]\<rparr>]\<rparr>"

lemmas undo_eval = start_undo_session_def db_remove_def db_modify_def db_create_def store_remove_def
  record_undo_def on_remove_def on_create_def on_modify_def Let_def table_delete_def store_modify_def
  key_clash_def table_update_def store_create_def store_insert_def table_insert_def
  index_id_alt empty_undo_def

lemma demo_steps:
  "bindE (db_remove 0x0102000000000000 demo_start) (\<lambda>d1.
   bindE (db_modify demo_key 0x0102000000000001 (\<lambda>n. n + 10) d1)
     (db_create demo_key 0x0103000000000000 (\<lambda>_. 5))) = Inr demo_after"
  by (simp add: undo_eval demo_start_def demo_db_def demo_after_def demo_key_def)

lemma demo_run: "undo_run demo_key d demo_start demo_after"
proof -
  obtain d1 d2 where d: "db_remove 0x0102000000000000 demo_start = Inr d1"
      "db_modify demo_key 0x0102000000000001 (\<lambda>n. n + 10) d1 = Inr d2"
      "db_create demo_key 0x0103000000000000 (\<lambda>_. 5) d2 = Inr demo_after"
    using demo_steps by (auto simp: bindE_Inr_iff)
  have "next_at (db_store d2) 0x0103000000000000 = Some 0x0103000000000000"
    using d(1,2) by (auto simp: undo_eval demo_start_def demo_db_def demo_key_def split: if_splits)
  moreover have "\<not> id_exhausted 0x0103000000000000" by (simp add: id_exhausted_def)
  ultimately have "db_step demo_key d2 demo_after" using step_create d(3) by metis
  moreover have "db_step demo_key d1 d2" by (rule step_modify [OF d(2)]) (simp add: demo_key_def)
  moreover have "db_step demo_key demo_start d1" by (rule step_remove [OF d(1)])
  ultimately show ?thesis by (meson run_done run_step)
qed

theorem undo_session_restores_witness:
  "\<exists>db''. undo demo_key demo_after = Inr db'' \<and> db_store db'' = db_store demo_db \<and> active_sessions db'' = 0"
  using undo_session_restores [OF demo_history demo_run [of 0, unfolded demo_start_def]]
  by (simp add: demo_db_def)

text \<open>The condition on unique keys is needed: \<open>rollback_state\<close> restores the old values before it removes the new objects. When a
  session changes the key of an object and then creates another object with the old key, undoing it meets that
  object and throws.\<close>

definition demo_takeover :: "nat object_database res" where
  "demo_takeover = bindE (db_modify demo_key 0x0102000000000000 (\<lambda>_. 13) (snd (start_undo_session False demo_db)))
     (db_create demo_key 0x0102000000000000 (\<lambda>_. 41))"

lemma taken_over_key_breaks_undo: "case demo_takeover of Inl _ \<Rightarrow> False | Inr db \<Rightarrow> undo demo_key db = Inl Uniqueness_exn"
  by (simp add: demo_takeover_def demo_db_def demo_key_def start_undo_session_def db_modify_def db_create_def record_undo_def on_modify_def
      on_create_def store_modify_def store_create_def store_insert_def key_clash_def undo_def rollback_state_def rollback_store_def getE_def bindE_def
      table_update_def table_insert_def Let_def empty_undo_def index_id_alt)

text \<open>A session merged into the session around it keeps its changes, and undoing the outer session then
  undoes the changes of both: the merged record is as good as two.\<close>

theorem merge_keeps_then_undo_restores:
  assumes "undo_history uk db vs" "undo_run uk d (snd (start_undo_session False db)) db1"
    "undo_run uk d (snd (start_undo_session False db1)) db2" "Suc d \<le> max_size db"
  shows "\<exists>db3 db4. merge db2 = Inr db3 \<and> db_store db3 = db_store db2 \<and>
    undo uk db3 = Inr db4 \<and> db_store db4 = db_store db"
  using undo_db.merge_then_undo [OF assms] .

theorem merge_keeps_then_undo_restores_witness:
  "\<exists>db3 db4. merge (snd (start_undo_session False demo_after)) = Inr db3 \<and> db_store db3 = db_store demo_after \<and>
    undo demo_key db3 = Inr db4 \<and> db_store db4 = db_store demo_db"
proof -
  have "db_store (snd (start_undo_session False demo_after)) = db_store demo_after"
    by (simp add: start_undo_session_def)
  then show ?thesis
    using merge_keeps_then_undo_restores [OF demo_history demo_run [of 0, unfolded demo_start_def] run_done]
    by (simp add: demo_db_def)
qed

text \<open>\<open>merge\<close> composes, object by object, what the two merged undo states say as the table in its
  comment prescribes (new, updated, deleted or untouched; the older state's value wins).\<close>

theorem merge_follows_table:
  assumes "covers uk A s0 s1" "covers uk B s1 s2" "store_ok uk s0"
  shows "change_of (merge_states B A) i = change_comp (change_of A i) (change_of B i)"
  using change_of_merge [OF assms] .

theorem merge_follows_table_witness:
  "change_of (merge_states empty_undo (hd (undo_stack demo_after))) 0x0102000000000001 =
   change_comp (Change_upd 22) Change_nop"
proof -
  have "undo_history demo_key demo_after [db_store demo_db]"
    using undo_db.run_keeps_history [OF demo_run [of 0], of "[db_store demo_db]" "[]"]
      undo_db.start_law [OF demo_history] by (simp add: demo_start_def demo_db_def)
  then have "covers demo_key (hd (undo_stack demo_after)) (db_store demo_db) (db_store demo_after)"
      "store_ok demo_key (db_store demo_db)"
    by (auto simp: undo_history_def elim: snapshots_ConsE)
  from merge_follows_table [OF this(1) covers_empty this(2), of "0x0102000000000001"]
  show ?thesis by (simp add: change_of_def demo_after_def empty_undo_def)
qed

text \<open>A committed session stays poppable: after \<open>commit\<close> of the only session, \<open>pop_commit\<close>
  (which \<open>pop_block\<close> uses) succeeds and restores the objects from before it.\<close>

theorem pop_commit_restores:
  assumes "undo_history uk db vs" "active_sessions db = 0"
    "undo_run uk d (snd (start_undo_session False db)) db1" "d \<le> max_size db"
  shows "\<exists>db2 db3. commit db1 = Inr db2 \<and> db_store db2 = db_store db1 \<and>
    pop_commit uk db2 = Inr db3 \<and> db_store db3 = db_store db"
proof -
  have h: "undo_history uk (snd (start_undo_session False db)) ([db_store db] @ take (max_size db) vs)"
    and a: "active_sessions (snd (start_undo_session False db)) = 1"
      "max_size (snd (start_undo_session False db)) = max_size db"
    using undo_db.start_law [OF assms(1)] assms(2) by simp_all
  obtain k where k: "undo_history uk db1 (db_store db # take k (take (max_size db) vs))" "active_sessions db1 = 1"
    using undo_db.run_keeps_history [OF assms(3) h] assms(4) a by auto
  let ?db2 = "db1\<lparr>active_sessions := 0\<rparr>"
  have c: "commit db1 = Inr ?db2" using k(2) by (simp add: commit_def)
  have h2: "undo_history uk ?db2 (db_store db # take k (take (max_size db) vs))"
    using k(1) by (simp add: undo_history_def)
  have "undo_stack ?db2 \<noteq> []" using k(1) by (auto simp: undo_history_def elim: snapshots_ConsE)
  then show ?thesis using c history_rollback(1) [OF h2] by (simp add: pop_commit_def)
qed

theorem pop_commit_restores_witness:
  "\<exists>db2 db3. commit demo_after = Inr db2 \<and> db_store db2 = db_store demo_after \<and>
    pop_commit demo_key db2 = Inr db3 \<and> db_store db3 = db_store demo_db"
  using pop_commit_restores [OF demo_history _ demo_run [of 0, unfolded demo_start_def]]
  by (simp add: demo_db_def)

end
