(* ===== verification/Assets.thy ===== *)
theory Assets
  imports Muse_Prelude
begin

text \<open>
  Assets, prices and the arithmetic of rewards (\<open>protocol/asset.hpp\<close>, \<open>protocol/asset.cpp\<close>,
  \<open>compound.hpp\<close>, \<open>detail::isqrt\<close>). Amounts are overflow-checked 64-bit integers; products are taken
  in \<open>fc::uint128\<close>, here \<open>128 word\<close>, into which a signed 64-bit value is sign-extended.
\<close>

unbundle bit_operations_syntax

section \<open>Assets\<close>

type_synonym asset_id = nat

definition MUSE_SYMBOL :: asset_id where "MUSE_SYMBOL = 0"
definition MBD_SYMBOL :: asset_id where "MBD_SYMBOL = 2"
definition VESTS_SYMBOL :: asset_id where "VESTS_SYMBOL = 1"

record asset =
  amount :: share
  asset_id :: asset_id

abbreviation mk_asset :: "share \<Rightarrow> asset_id \<Rightarrow> asset" where
  "mk_asset a i \<equiv> \<lparr>amount = a, asset_id = i\<rparr>"

definition asset_add :: "asset \<Rightarrow> asset \<Rightarrow> asset res" where
  "asset_add a b = guardE (asset_id a = asset_id b)
     (bindE (safe_add (amount a) (amount b)) (\<lambda>x. Inr (mk_asset x (asset_id a))))"

definition asset_sub :: "asset \<Rightarrow> asset \<Rightarrow> asset res" where
  "asset_sub a b = guardE (asset_id a = asset_id b)
     (bindE (safe_sub (amount a) (amount b)) (\<lambda>x. Inr (mk_asset x (asset_id a))))"

definition asset_neg :: "asset \<Rightarrow> asset res" where
  "asset_neg a = bindE (safeE (- amount a)) (\<lambda>x. Inr (mk_asset x (asset_id a)))"

definition asset_lt :: "asset \<Rightarrow> asset \<Rightarrow> bool res" where
  "asset_lt a b = guardE (asset_id a = asset_id b) (Inr (amount a < amount b))"

definition asset_le :: "asset \<Rightarrow> asset \<Rightarrow> bool res" where
  "asset_le a b = (if a = b then Inr True else asset_lt a b)"

definition asset_gt :: "asset \<Rightarrow> asset \<Rightarrow> bool res" where
  "asset_gt a b = bindE (asset_le a b) (\<lambda>r. Inr (\<not> r))"

definition asset_ge :: "asset \<Rightarrow> asset \<Rightarrow> bool res" where
  "asset_ge a b = bindE (asset_lt a b) (\<lambda>r. Inr (\<not> r))"

definition static_precision :: int where "static_precision = 1000000"

fun scaled_precision_loop :: "nat \<Rightarrow> share \<Rightarrow> share res" where
  "scaled_precision_loop 0 r = Inr r"
| "scaled_precision_loop (Suc n) r = bindE (safe_mul r 10) (scaled_precision_loop n)"

definition scaled_precision :: "nat \<Rightarrow> share res" where
  "scaled_precision decimals = guardE (decimals < 19) (scaled_precision_loop decimals 1)"

section \<open>Prices\<close>

record price =
  base :: asset
  quote :: asset

abbreviation mk_price :: "asset \<Rightarrow> asset \<Rightarrow> price" where
  "mk_price b q \<equiv> \<lparr>base = b, quote = q\<rparr>"

definition u128 :: "int \<Rightarrow> 128 word" where "u128 x = word_of_int x"

definition price_eq :: "price \<Rightarrow> price \<Rightarrow> bool" where
  "price_eq a b \<longleftrightarrow>
     (if (asset_id (base a), asset_id (quote a)) \<noteq> (asset_id (base b), asset_id (quote b)) then False
      else u128 (amount (quote b)) * u128 (amount (base a)) = u128 (amount (quote a)) * u128 (amount (base b)))"

definition price_lt :: "price \<Rightarrow> price \<Rightarrow> bool" where
  "price_lt a b \<longleftrightarrow>
     (if asset_id (base a) < asset_id (base b) then True
      else if asset_id (base a) > asset_id (base b) then False
      else if asset_id (quote a) < asset_id (quote b) then True
      else if asset_id (quote a) > asset_id (quote b) then False
      else u128 (amount (quote b)) * u128 (amount (base a)) < u128 (amount (quote a)) * u128 (amount (base b)))"

definition price_le :: "price \<Rightarrow> price \<Rightarrow> bool" where "price_le a b \<longleftrightarrow> price_eq a b \<or> price_lt a b"
definition price_gt :: "price \<Rightarrow> price \<Rightarrow> bool" where "price_gt a b \<longleftrightarrow> \<not> price_le a b"
definition price_ge :: "price \<Rightarrow> price \<Rightarrow> bool" where "price_ge a b \<longleftrightarrow> \<not> price_lt a b"

text \<open>The narrowing of a \<open>uint64_t\<close> into a \<open>share_type\<close>.\<close>

definition share_of_u64 :: "128 word \<Rightarrow> share" where
  "share_of_u64 w = sint (ucast w :: 64 word)"

definition asset_mul_price :: "asset \<Rightarrow> price \<Rightarrow> asset res" where
  "asset_mul_price a b =
     (if asset_id a = asset_id (base b) then
        guardE (amount (base b) > 0) (
        let result = (u128 (amount a) * u128 (amount (quote b))) div u128 (amount (base b)) in
        guardE (drop_bit 64 result = 0) (Inr (mk_asset (share_of_u64 result) (asset_id (quote b)))))
      else if asset_id a = asset_id (quote b) then
        guardE (amount (quote b) > 0) (
        let result = (u128 (amount a) * u128 (amount (base b))) div u128 (amount (quote b)) in
        guardE (drop_bit 64 result = 0) (Inr (mk_asset (share_of_u64 result) (asset_id (base b)))))
      else Inl Assert_exn)"

definition asset_div_asset :: "asset \<Rightarrow> asset \<Rightarrow> price res" where
  "asset_div_asset b q = guardE (asset_id b \<noteq> asset_id q) (Inr (mk_price b q))"

definition price_invert :: "price \<Rightarrow> price" where "price_invert p = mk_price (quote p) (base p)"

definition null_price :: price where
  "null_price = mk_price (mk_asset 0 MUSE_SYMBOL) (mk_asset 0 MUSE_SYMBOL)"

definition price_is_null :: "price \<Rightarrow> bool" where "price_is_null p \<longleftrightarrow> price_eq p null_price"

definition price_validate :: "price \<Rightarrow> bool" where
  "price_validate p \<longleftrightarrow> amount (base p) > 0 \<and> amount (quote p) > 0 \<and> asset_id (base p) \<noteq> asset_id (quote p)"

section \<open>Rewards and the integer square root\<close>

definition calc_percent_reward :: "nat \<Rightarrow> nat \<Rightarrow> nat \<Rightarrow> share \<Rightarrow> share" where
  "calc_percent_reward percent multiply_constant shift_constant current_supply =
     (let half = push_bit (shift_constant - 1) (1 :: 128 word);
          reward = u128 current_supply;
          reward = reward * word_of_nat (percent * multiply_constant);
          reward = reward + half
      in share_of_u64 (drop_bit shift_constant reward))"

definition MUSE_APR_PERCENT_MULTIPLY_PER_BLOCK :: nat where
  "MUSE_APR_PERCENT_MULTIPLY_PER_BLOCK = 0x5ccce802de5f"
definition MUSE_APR_PERCENT_MULTIPLY_PER_BLOCK_0_2 :: nat where
  "MUSE_APR_PERCENT_MULTIPLY_PER_BLOCK_0_2 = 0x3e214e64a7380"
definition MUSE_APR_PERCENT_MULTIPLY_PER_DAY :: nat where
  "MUSE_APR_PERCENT_MULTIPLY_PER_DAY =
     unat (push_bit 20 0x1347 OR push_bit 10 0xdcd1 OR (0x906D :: 64 word))"
definition MUSE_APR_PERCENT_MULTIPLY_PER_DAY_0_2 :: nat where
  "MUSE_APR_PERCENT_MULTIPLY_PER_DAY_0_2 = 0x369c2966a19c8"

definition calc_percent_reward_per_block :: "nat \<Rightarrow> share \<Rightarrow> share" where
  "calc_percent_reward_per_block percent = calc_percent_reward percent MUSE_APR_PERCENT_MULTIPLY_PER_BLOCK 87"
definition calc_percent_reward_per_block_0_2 :: "nat \<Rightarrow> share \<Rightarrow> share" where
  "calc_percent_reward_per_block_0_2 percent = calc_percent_reward percent MUSE_APR_PERCENT_MULTIPLY_PER_BLOCK_0_2 91"
definition calc_percent_reward_per_day :: "nat \<Rightarrow> share \<Rightarrow> share" where
  "calc_percent_reward_per_day percent = calc_percent_reward percent MUSE_APR_PERCENT_MULTIPLY_PER_DAY 73"
definition calc_percent_reward_per_day_0_2 :: "nat \<Rightarrow> share \<Rightarrow> share" where
  "calc_percent_reward_per_day_0_2 percent = calc_percent_reward percent MUSE_APR_PERCENT_MULTIPLY_PER_DAY_0_2 76"

fun isqrt_loop :: "nat \<Rightarrow> 64 word \<Rightarrow> 64 word \<Rightarrow> 32 word \<Rightarrow> 32 word" where
  "isqrt_loop 0 a r root = drop_bit 1 root"
| "isqrt_loop (Suc n) a r root =
     (let root = push_bit 1 root;
          r = push_bit 2 r;
          r = r + drop_bit 62 a;
          a = push_bit 2 a
      in if ucast root < r
         then let root = root + 1; r = r - ucast root; root = root + 1 in isqrt_loop n a r root
         else isqrt_loop n a r root)"

definition isqrt :: "64 word \<Rightarrow> 32 word" where
  "isqrt a = isqrt_loop 32 a 0 0"

end
