(* ===== verification/Asset_Laws.thy ===== *)
theory Asset_Laws
  imports Complex_Main Assets
begin

text \<open>
  Laws of assets, prices and integer square roots: 128-bit products never wrap on amounts that are
  valid, so price comparison is comparison of fractions and \<open>asset * price\<close> is the floor of the
  exact product; \<open>isqrt\<close> is the floor of the square root below \<open>2\<^sup>6\<^sup>2\<close>.
\<close>

unbundle bit_operations_syntax

section \<open>Integer square root\<close>

lemma sq_bound: "s ^ 2 \<le> p \<Longrightarrow> p < 4 ^ k \<Longrightarrow> s < (2 :: nat) ^ k"
proof -
  assume "s ^ 2 \<le> p" "p < 4 ^ k"
  moreover have "(4 :: nat) ^ k = (2 ^ k) ^ 2" using power_mult [of "2 :: nat" 2 k] power_mult [of "2 :: nat" k 2] by (simp add: mult.commute)
  ultimately have "s ^ 2 < (2 ^ k) ^ 2" by linarith
  then show ?thesis using power_less_imp_less_base by blast
qed

text \<open>One round: from the root \<open>s\<close> of \<open>p\<close> to the root of \<open>4p + b\<close>.\<close>

lemma isqrt_round:
  fixes s p b :: nat
  assumes "s ^ 2 \<le> p" "p < (s + 1) ^ 2" "b < 4"
  shows "4 * s < 4 * (p - s ^ 2) + b \<Longrightarrow>
      (2 * s + 1) ^ 2 \<le> 4 * p + b \<and> 4 * p + b < (2 * s + 2) ^ 2 \<and>
      4 * (p - s ^ 2) + b - (4 * s + 1) = (4 * p + b) - (2 * s + 1) ^ 2"
    "\<not> 4 * s < 4 * (p - s ^ 2) + b \<Longrightarrow>
      (2 * s) ^ 2 \<le> 4 * p + b \<and> 4 * p + b < (2 * s + 1) ^ 2 \<and>
      4 * (p - s ^ 2) + b = (4 * p + b) - (2 * s) ^ 2"
  using assms by (auto simp: power2_eq_square algebra_simps)

text \<open>Reading the next two bits: \<open>q\<close> is what remains of the argument, \<open>n + 1\<close> pairs of bits.\<close>

lemma isqrt_shift:
  fixes a :: "64 word" and q :: nat
  assumes a: "unat a = q * 4 ^ (32 - Suc n)" and q: "q < 4 ^ Suc n" and n: "Suc n \<le> 32"
  shows "unat (drop_bit 62 a) = q div 4 ^ n" "unat (push_bit 2 a) = (q mod 4 ^ n) * 4 ^ (32 - n)"
proof -
  have e: "(4 :: nat) ^ (32 - Suc n) * 4 ^ n = 4 ^ 31" using n by (simp add: power_add [symmetric])
  have e2: "(4 :: nat) * 4 ^ (32 - Suc n) = 4 ^ (32 - n)"
    using n by (simp add: power_Suc [symmetric] Suc_diff_Suc del: power_Suc)
  have e3: "(4 :: nat) ^ n * 4 ^ (32 - n) = 4 ^ 32" using n by (simp add: power_add [symmetric])
  define b q' where bq: "b = q div 4 ^ n" "q' = q mod 4 ^ n"
  have q': "q = b * 4 ^ n + q'" "q' < 4 ^ n" by (simp_all add: bq div_mult_mod_eq)
  have "unat a = b * 4 ^ 31 + q' * 4 ^ (32 - Suc n)" using a q'(1) e by (simp add: algebra_simps)
  moreover have "q' * 4 ^ (32 - Suc n) < 4 ^ 31"
    using q'(2) e by (metis mult.commute mult_less_mono2 zero_less_numeral zero_less_power)
  ultimately show "unat (drop_bit 62 a) = q div 4 ^ n" by (simp add: unat_drop_bit_word bq(1))
  have "unat a * 4 = b * 4 ^ 32 + q' * 4 ^ (32 - n)" using a q'(1) e e2 by (simp add: algebra_simps)
  moreover have "q' * 4 ^ (32 - n) < 4 ^ 32" using q'(2) e3 by (metis mult_less_mono1 zero_less_numeral zero_less_power)
  ultimately have "unat a * 4 mod 4 ^ 32 = q' * 4 ^ (32 - n)" by simp
  then show "unat (push_bit 2 a) = (q mod 4 ^ n) * 4 ^ (32 - n)"
    by (simp add: unsigned_push_bit_eq take_bit_nat_def push_bit_nat_def bq(2))
qed

lemma isqrt_loop_correct:
  assumes "unat rt = 2 * s" "s ^ 2 \<le> p" "p < (s + 1) ^ 2" "unat r = p - s ^ 2"
    "unat a = q * 4 ^ (32 - n)" "q < 4 ^ n" "p * 4 ^ n + q < 4 ^ 31" "n \<le> 32"
  shows "(unat (isqrt_loop n a r rt)) ^ 2 \<le> p * 4 ^ n + q \<and>
    p * 4 ^ n + q < (unat (isqrt_loop n a r rt) + 1) ^ 2"
  using assms
proof (induction n arbitrary: rt s p r a q)
  case 0
  then show ?case by (simp add: unat_drop_bit_word)
next
  case (Suc n)
  define b where "b = q div 4 ^ n"
  define q' where "q' = q mod 4 ^ n"
  have q: "q = b * 4 ^ n + q'" "q' < 4 ^ n" by (simp_all add: b_def q'_def div_mult_mod_eq)
  have b: "b < 4" using Suc.prems(6) by (simp add: b_def less_mult_imp_div_less)
  have tot: "(4 * p + b) * 4 ^ n + q' = p * 4 ^ Suc n + q" using q by (simp add: algebra_simps)
  then have "(4 * p + b) * 4 ^ n < 4 ^ 31" using Suc.prems(7) by linarith
  then have "4 * p + b < 4 ^ 31"
    by (metis (no_types, lifting) le_less_trans mult_le_mono2 nat_mult_1_right one_le_power one_le_numeral)
  then have "p < 4 ^ 30" by simp
  then have s: "s < 2 ^ 30" using sq_bound Suc.prems(2) by blast
  have r2: "unat r \<le> 2 * s" using Suc.prems(3,4) by (simp add: power2_eq_square)
  have ab: "unat (drop_bit 62 a) = b" and aq: "unat (push_bit 2 a) = q' * 4 ^ (32 - n)"
    using isqrt_shift [of a q n] Suc.prems(5,6,8) by (simp_all add: b_def q'_def)
  have rt: "unat (push_bit 1 rt) = 4 * s"
    using unat_push_bit_word [of rt 1] Suc.prems(1) s by simp
  have r: "unat (push_bit 2 r + drop_bit 62 a) = 4 * (p - s ^ 2) + b"
    using r2 s b ab Suc.prems(4) by (simp add: unat_push_bit_word unat_add_word)
  note step = isqrt_round [OF Suc.prems(2,3) b]
  show ?case
  proof (cases "4 * s < 4 * (p - s ^ 2) + b")
    case True
    have r1: "unat (push_bit 1 rt + 1) = 4 * s + 1" using unat_add_word [of "push_bit 1 rt" 1] rt s by simp
    have r2': "unat (push_bit 1 rt + 1 + 1) = 2 * (2 * s + 1)" using unat_add_word [of "push_bit 1 rt + 1" 1] r1 s by simp
    let ?r = "push_bit 2 r + drop_bit 62 a - ucast (push_bit 1 rt + 1)"
    have "unat ?r = (4 * p + b) - (2 * s + 1) ^ 2"
      using True step(1) r r1 by (simp add: unat_sub word_le_nat_alt unat_ucast_32_64)
    then have ih: "(unat (isqrt_loop n (push_bit 2 a) ?r (push_bit 1 rt + 1 + 1))) ^ 2 \<le> (4 * p + b) * 4 ^ n + q' \<and>
        (4 * p + b) * 4 ^ n + q' < (unat (isqrt_loop n (push_bit 2 a) ?r (push_bit 1 rt + 1 + 1)) + 1) ^ 2"
      using Suc.IH [of "push_bit 1 rt + 1 + 1" "2 * s + 1" "4 * p + b" ?r "push_bit 2 a" q']
        r2' aq q(2) step(1) [OF True] tot Suc.prems(7,8) by simp
    have "ucast (push_bit 1 rt) < push_bit 2 r + drop_bit 62 a"
      using True rt r by (simp add: word_less_nat_alt unat_ucast_32_64)
    then have "isqrt_loop (Suc n) a r rt = isqrt_loop n (push_bit 2 a) ?r (push_bit 1 rt + 1 + 1)"
      by (simp only: isqrt_loop.simps Let_def if_True)
    then show ?thesis using ih unfolding tot by simp
  next
    case False
    have "\<not> ucast (push_bit 1 rt) < push_bit 2 r + drop_bit 62 a"
      using False rt r by (simp add: word_less_nat_alt unat_ucast_32_64)
    then have "isqrt_loop (Suc n) a r rt = isqrt_loop n (push_bit 2 a) (push_bit 2 r + drop_bit 62 a) (push_bit 1 rt)"
      by (simp only: isqrt_loop.simps Let_def if_False)
    then show ?thesis
      using Suc.IH [of "push_bit 1 rt" "2 * s" "4 * p + b" _ "push_bit 2 a" q'] rt r aq q(2)
        step(2) [OF False] tot Suc.prems(7,8) by simp
  qed
qed

lemma isqrt_correct:
  assumes "unat a < 2 ^ 62"
  shows "(unat (isqrt a)) ^ 2 \<le> unat a \<and> unat a < (unat (isqrt a) + 1) ^ 2"
proof -
  have "unat a < 4 ^ 32" using unsigned_less [of a] by simp
  then show ?thesis
    using isqrt_loop_correct [of 0 0 0 0 a "unat a" 32] assms by (simp add: isqrt_def)
qed

lemma isqrt_loop_zero: "isqrt_loop n 0 0 rt = drop_bit 1 (push_bit n rt)"
  by (induction n arbitrary: rt) (simp_all add: Let_def mult.commute push_bit_double)

section \<open>Prices\<close>

lemma u128_unat: "0 \<le> x \<Longrightarrow> in_int64 x \<Longrightarrow> unat (u128 x) = nat x"
  by (simp add: u128_def in_int64_nonneg unat_eq_nat_uint uint_word_of_int)

lemma nat_mul_bound: "0 \<le> x \<Longrightarrow> in_int64 x \<Longrightarrow> 0 \<le> y \<Longrightarrow> in_int64 y \<Longrightarrow> nat x * nat y < 2 ^ 126"
proof -
  assume "0 \<le> x" "in_int64 x" "0 \<le> y" "in_int64 y"
  then have "nat x < 2 ^ 63" "nat y < 2 ^ 63" by (simp_all add: in_int64_nonneg nat_less_iff)
  then have "nat x * nat y < 2 ^ 63 * 2 ^ 63" by (intro mult_strict_mono') auto
  then show ?thesis by simp
qed

lemma u128_mult:
  assumes "0 \<le> x" "in_int64 x" "0 \<le> y" "in_int64 y"
  shows "unat (u128 x * u128 y) = nat x * nat y"
  using nat_mul_bound [OF assms] assms by (simp add: unat_word_ariths u128_unat)

lemma u128_high_zero: "drop_bit 64 (w :: 128 word) = 0 \<longleftrightarrow> unat w < 2 ^ 64"
  by (simp add: word_unat_eq_iff unat_drop_bit_word div_eq_0_iff)

lemma share_of_u64_small: "unat w < 2 ^ 63 \<Longrightarrow> share_of_u64 w = int (unat w)"
  using unat_ucast_small [of w, where 'b = 64] sint_small [of "ucast w :: 64 word"]
  by (simp add: share_of_u64_def)

text \<open>The common core of both branches of \<open>asset * price\<close>.\<close>

lemma mul_div_value:
  assumes "0 \<le> a" "in_int64 a" "0 \<le> n" "in_int64 n" "0 < d" "in_int64 d"
  shows "unat ((u128 a * u128 n) div u128 d) = nat (a * n div d)"
  using assms by (simp add: unat_div u128_mult u128_unat nat_div_distrib nat_mult_distrib)

definition price_amounts_ok :: "price \<Rightarrow> bool" where
  "price_amounts_ok p \<longleftrightarrow> 0 < amount (base p) \<and> in_int64 (amount (base p)) \<and>
     0 < amount (quote p) \<and> in_int64 (amount (quote p))"

lemma asset_mul_price_base:
  assumes "price_amounts_ok p" "0 \<le> amount a" "in_int64 (amount a)" "asset_id a = asset_id (base p)"
    "in_int64 (amount a * amount (quote p) div amount (base p))"
  shows "asset_mul_price a p = Inr (mk_asset (amount a * amount (quote p) div amount (base p)) (asset_id (quote p)))"
proof -
  let ?w = "(u128 (amount a) * u128 (amount (quote p))) div u128 (amount (base p))"
  let ?v = "amount a * amount (quote p) div amount (base p)"
  have v: "0 \<le> ?v" "?v < 2 ^ 63" using assms by (simp_all add: price_amounts_ok_def in_int64_nonneg pos_imp_zdiv_nonneg_iff)
  have w: "unat ?w = nat ?v" using mul_div_value assms by (simp add: price_amounts_ok_def)
  then have "drop_bit 64 ?w = 0" "share_of_u64 ?w = ?v"
    using v by (simp_all add: u128_high_zero share_of_u64_small nat_less_iff)
  then show ?thesis using assms by (simp add: asset_mul_price_def price_amounts_ok_def Let_def)
qed

lemma asset_mul_price_quote:
  assumes "price_amounts_ok p" "0 \<le> amount a" "in_int64 (amount a)" "asset_id a = asset_id (quote p)"
    "asset_id (base p) \<noteq> asset_id (quote p)" "in_int64 (amount a * amount (base p) div amount (quote p))"
  shows "asset_mul_price a p = Inr (mk_asset (amount a * amount (base p) div amount (quote p)) (asset_id (base p)))"
proof -
  have "asset_mul_price a p = asset_mul_price a (price_invert p)"
    using assms by (simp add: asset_mul_price_def price_invert_def)
  moreover have "price_amounts_ok (price_invert p)" using assms by (simp add: price_amounts_ok_def price_invert_def)
  ultimately show ?thesis using asset_mul_price_base [of "price_invert p" a] assms by (simp add: price_invert_def)
qed

text \<open>A product that is accepted and is not negative is the exact quotient; a quotient between \<open>2^63\<close>
  and \<open>2^64\<close> is accepted and comes out negative.\<close>

lemma share_of_u64_nonneg: "0 \<le> share_of_u64 w \<Longrightarrow> drop_bit 64 w = 0 \<Longrightarrow> share_of_u64 w = int (unat w)"
proof -
  assume a: "0 \<le> share_of_u64 w" "drop_bit 64 w = 0"
  let ?x = "ucast w :: 64 word"
  have lt: "unat w < 2 ^ 64" using a(2) by (simp add: u128_high_zero)
  have "sint ?x < 2 ^ 63" using sint_less [of ?x] by simp
  then have "take_bit 64 (sint ?x) = sint ?x" using a(1) by (simp add: share_of_u64_def take_bit_int_eq_self_iff)
  then have "uint ?x = sint ?x" using uint_sint [of ?x] by simp
  moreover have "unat ?x = unat w" using lt by (simp add: unat_ucast_small)
  ultimately show ?thesis by (metis share_of_u64_def uint_nat)
qed

lemma asset_mul_price_base_Inr:
  assumes "asset_mul_price a p = Inr r" "price_amounts_ok p" "0 \<le> amount a" "in_int64 (amount a)"
    "asset_id a = asset_id (base p)" "0 \<le> amount r"
  shows "r = mk_asset (amount a * amount (quote p) div amount (base p)) (asset_id (quote p))"
proof -
  let ?w = "(u128 (amount a) * u128 (amount (quote p))) div u128 (amount (base p))"
  have w: "unat ?w = nat (amount a * amount (quote p) div amount (base p))"
    using mul_div_value assms by (simp add: price_amounts_ok_def)
  have r: "r = mk_asset (share_of_u64 ?w) (asset_id (quote p))" "drop_bit 64 ?w = 0"
    using assms(1,2,5) by (auto simp: asset_mul_price_def price_amounts_ok_def guardE_Inr_iff Let_def)
  have "0 \<le> amount a * amount (quote p) div amount (base p)"
    using assms(2,3) by (simp add: price_amounts_ok_def pos_imp_zdiv_nonneg_iff)
  then show ?thesis using share_of_u64_nonneg [OF _ r(2)] assms(6) r(1) w by simp
qed

lemma asset_mul_price_quote_Inr:
  assumes "asset_mul_price a p = Inr r" "price_amounts_ok p" "0 \<le> amount a" "in_int64 (amount a)"
    "asset_id a = asset_id (quote p)" "asset_id (base p) \<noteq> asset_id (quote p)" "0 \<le> amount r"
  shows "r = mk_asset (amount a * amount (base p) div amount (quote p)) (asset_id (base p))"
proof -
  have "asset_mul_price a (price_invert p) = Inr r"
    using assms by (simp add: asset_mul_price_def price_invert_def)
  moreover have "price_amounts_ok (price_invert p)" using assms by (simp add: price_amounts_ok_def price_invert_def)
  ultimately show ?thesis using asset_mul_price_base_Inr [of a "price_invert p" r] assms by (simp add: price_invert_def)
qed

lemma price_lt_iff:
  assumes "price_amounts_ok p" "price_amounts_ok q"
    "asset_id (base p) = asset_id (base q)" "asset_id (quote p) = asset_id (quote q)"
  shows "price_lt p q \<longleftrightarrow> amount (base p) * amount (quote q) < amount (base q) * amount (quote p)"
    "price_eq p q \<longleftrightarrow> amount (base p) * amount (quote q) = amount (base q) * amount (quote p)"
proof -
  have m: "unat (u128 (amount (quote q)) * u128 (amount (base p))) = nat (amount (base p) * amount (quote q))"
      "unat (u128 (amount (quote p)) * u128 (amount (base q))) = nat (amount (base q) * amount (quote p))"
    using assms(1,2) by (simp_all add: u128_mult price_amounts_ok_def nat_mult_distrib)
  moreover have "0 \<le> amount (base p) * amount (quote q)" "0 \<le> amount (base q) * amount (quote p)"
    using assms(1,2) by (simp_all add: price_amounts_ok_def)
  ultimately show "price_lt p q \<longleftrightarrow> amount (base p) * amount (quote q) < amount (base q) * amount (quote p)"
      "price_eq p q \<longleftrightarrow> amount (base p) * amount (quote q) = amount (base q) * amount (quote p)"
    using assms(3,4) by (auto simp: price_lt_def price_eq_def word_less_nat_alt word_unat_eq_iff)
qed
lemma int_floor: "0 < d \<Longrightarrow> (n div d) * d \<le> n \<and> n < (n div d + 1) * (d :: int)"
  unfolding distrib_right
  using div_mult_mod_eq [of n d] pos_mod_sign [of d n] pos_mod_bound [of d n] by linarith

lemma int_div_less: "0 < d \<Longrightarrow> n < k * d \<Longrightarrow> n div d < (k :: int)"
  using int_floor [of d n] by (smt (verit) mult_right_mono)

section \<open>Properties\<close>

text \<open>\<open>isqrt\<close> returns the floor of the square root of every argument below \<open>2\<^sup>6\<^sup>2\<close>. (Above it the
  doubled 32-bit \<open>root\<close> of the last round no longer fits.)\<close>

theorem isqrt_floor:
  assumes "unat a < 2 ^ 62"
  shows "(unat (isqrt a)) ^ 2 \<le> unat a \<and> unat a < (unat (isqrt a) + 1) ^ 2"
  using isqrt_correct [OF assms] .

theorem isqrt_floor_witness: "unat (isqrt 1000000) ^ 2 \<le> 1000000 \<and> 1000000 < (unat (isqrt 1000000) + 1) ^ 2"
  using isqrt_floor [of 1000000] by simp

text \<open>Above that bound the 32-bit root wraps: the square root of \<open>2\<^sup>6\<^sup>2\<close>, which is \<open>2\<^sup>3\<^sup>1\<close>,
  is computed as 0.\<close>

theorem isqrt_wraps: "isqrt 0x4000000000000000 = 0 \<and> (2 ^ 31 :: nat) ^ 2 = 0x4000000000000000"
proof -
  have z: "(0x10000000000000000 :: 64 word) = 0" by (simp add: word_unat_eq_iff)
  have "isqrt_loop (Suc n) 0x4000000000000000 0 0 = isqrt_loop n 0 0 2" for n by (simp, simp only: z)
  from this [of 31] have "isqrt_loop 32 0x4000000000000000 0 0 = isqrt_loop 31 0 0 2" by simp
  also have "\<dots> = 0" unfolding isqrt_loop_zero by simp
  finally show ?thesis by (simp add: isqrt_def)
qed

text \<open>Property C27. Multiplying an asset by a price in either direction returns the exact product rounded down, in
  the other asset of the price, whenever that fits a \<open>share_type\<close>: no value is created.\<close>

theorem asset_mul_price_floor:
  assumes "price_amounts_ok p" "asset_id (base p) \<noteq> asset_id (quote p)" "0 \<le> x" "in_int64 x"
    "x * amount (quote p) < 2 ^ 63 * amount (base p)" "x * amount (base p) < 2 ^ 63 * amount (quote p)"
  shows "\<exists>y z. asset_mul_price (mk_asset x (asset_id (base p))) p = Inr (mk_asset y (asset_id (quote p))) \<and>
      y * amount (base p) \<le> x * amount (quote p) \<and> x * amount (quote p) < (y + 1) * amount (base p) \<and>
      asset_mul_price (mk_asset x (asset_id (quote p))) p = Inr (mk_asset z (asset_id (base p))) \<and>
      z * amount (quote p) \<le> x * amount (base p) \<and> x * amount (base p) < (z + 1) * amount (quote p)"
proof -
  have pos: "0 < amount (base p)" "0 < amount (quote p)" using assms(1) by (simp_all add: price_amounts_ok_def)
  have fit: "in_int64 (x * amount (quote p) div amount (base p))" "in_int64 (x * amount (base p) div amount (quote p))"
    using assms(3) pos int_div_less [OF pos(1) assms(5)] int_div_less [OF pos(2) assms(6)]
    by (simp_all add: in_int64_nonneg pos_imp_zdiv_nonneg_iff)
  show ?thesis
    using asset_mul_price_base [OF assms(1), of "mk_asset x (asset_id (base p))"]
      asset_mul_price_quote [OF assms(1), of "mk_asset x (asset_id (quote p))"]
      assms(2-4) fit int_floor [OF pos(1)] int_floor [OF pos(2)] by simp
qed

theorem asset_mul_price_floor_witness:
  "\<exists>y z. asset_mul_price (mk_asset 10 0) (mk_price (mk_asset 3 0) (mk_asset 7 2)) = Inr (mk_asset y 2) \<and>
      y * 3 \<le> 10 * 7 \<and> 10 * 7 < (y + 1) * 3 \<and>
      asset_mul_price (mk_asset 10 2) (mk_price (mk_asset 3 0) (mk_asset 7 2)) = Inr (mk_asset z 0) \<and>
      z * 7 \<le> 10 * 3 \<and> 10 * 3 < (z + 1) * 7"
  using asset_mul_price_floor [of "mk_price (mk_asset 3 0) (mk_asset 7 2)" 10]
  by (simp add: price_amounts_ok_def in_int64_def int64_min_def int64_max_def)

text \<open>Prices of one market are ordered as the fractions base over quote: comparison by cross products in
  128 bits is exact, total and transitive, and equality is equality of fractions.\<close>

theorem price_order_exact:
  assumes "price_amounts_ok p" "price_amounts_ok q"
    "asset_id (base p) = asset_id (base q)" "asset_id (quote p) = asset_id (quote q)"
  shows "(price_lt p q \<longleftrightarrow> rat_of_int (amount (base p)) / rat_of_int (amount (quote p)) < rat_of_int (amount (base q)) / rat_of_int (amount (quote q))) \<and>
    (price_eq p q \<longleftrightarrow> rat_of_int (amount (base p)) / rat_of_int (amount (quote p)) = rat_of_int (amount (base q)) / rat_of_int (amount (quote q))) \<and>
    (price_gt p q \<longleftrightarrow> price_lt q p)"
proof -
  have pos: "0 < amount (quote p)" "0 < amount (quote q)" using assms(1,2) by (simp_all add: price_amounts_ok_def)
  have lt: "rat_of_int a / rat_of_int b < rat_of_int c / rat_of_int d \<longleftrightarrow> a * d < c * b"
    and eq: "rat_of_int a / rat_of_int b = rat_of_int c / rat_of_int d \<longleftrightarrow> a * d = c * b"
    if "0 < b" "0 < d" for a b c d :: int
    using that by (simp_all add: divide_less_eq less_divide_eq frac_eq_eq of_int_mult [symmetric] del: of_int_mult)
  note pq = price_lt_iff [OF assms] and qp = price_lt_iff [OF assms(2,1) assms(3,4) [symmetric]]
  show ?thesis
    unfolding pq qp price_gt_def price_le_def lt [OF pos] eq [OF pos] by auto
qed

theorem price_order_exact_witness:
  "price_lt (mk_price (mk_asset 1 0) (mk_asset 3 2)) (mk_price (mk_asset 1 0) (mk_asset 2 2))"
  using price_order_exact [of "mk_price (mk_asset 1 0) (mk_asset 3 2)" "mk_price (mk_asset 1 0) (mk_asset 2 2)"]
  by (simp add: price_amounts_ok_def in_int64_def int64_min_def int64_max_def)

end
