(* ===== verification/Blocks.thy ===== *)
theory Blocks
  imports Muse_Prelude "HOL-Library.Countable"
begin

text \<open>
  Blocks and their ids (\<open>protocol/block.cpp\<close>, \<open>protocol/block_header.hpp\<close>, \<open>protocol/version.cpp\<close>). A
  block id is a hash whose first word is overwritten with the block number. Hash functions are
  parameters; transactions are a type parameter.
\<close>

unbundle bit_operations_syntax

section \<open>Versions\<close>

record version = v_num :: "32 word"

definition mk_version :: "8 word \<Rightarrow> 8 word \<Rightarrow> 16 word \<Rightarrow> version" where
  "mk_version m h r =
     (let v = push_bit 8 (ucast m);
          v = push_bit 16 (v OR ucast h)
      in \<lparr>v_num = v OR ucast r\<rparr>)"

definition hardfork_version :: "version \<Rightarrow> version" where
  "hardfork_version v = \<lparr>v_num = v_num v AND 0xFFFF0000\<rparr>"

definition version_lt :: "version \<Rightarrow> version \<Rightarrow> bool" where "version_lt a b \<longleftrightarrow> v_num a < v_num b"
definition version_le :: "version \<Rightarrow> version \<Rightarrow> bool" where "version_le a b \<longleftrightarrow> v_num a \<le> v_num b"
definition version_gt :: "version \<Rightarrow> version \<Rightarrow> bool" where "version_gt a b \<longleftrightarrow> v_num a > v_num b"

record hardfork_version_vote =
  hf_version :: version
  hf_time :: nat

datatype block_header_extension =
    Ext_void | Ext_version version | Ext_hardfork_vote hardfork_version_vote

section \<open>Blocks\<close>

record block_id =
  bid_num :: "32 word"    \<comment> \<open>first word of the hash, read big-endian\<close>
  bid_hash :: "128 word"

definition null_block_id :: block_id where "null_block_id = \<lparr>bid_num = 0, bid_hash = 0\<rparr>"

definition num_from_id :: "block_id \<Rightarrow> 32 word" where "num_from_id i = bid_num i"

record 'tx signed_block =
  previous :: block_id
  timestamp :: nat
  witness :: string
  transaction_merkle_root :: nat
  extensions :: "block_header_extension list"
  witness_signature :: nat
  transactions :: "'tx list"

definition block_num :: "'tx signed_block \<Rightarrow> 32 word" where
  "block_num b = num_from_id (previous b) + 1"

text \<open>\<open>sha\<close> stands for the words of \<open>fc::sha224::hash\<close> of the signed header after the first.\<close>

definition signed_block_id :: "('tx signed_block \<Rightarrow> 128 word) \<Rightarrow> 'tx signed_block \<Rightarrow> block_id" where
  "signed_block_id sha b = \<lparr>bid_num = block_num b, bid_hash = sha b\<rparr>"

text \<open>\<open>pair_hash\<close> hashes two digests, \<open>root_hash\<close> shortens the last one to a checksum. One round of the
  loop replaces the digests by the hashes of neighbouring pairs and keeps an odd last one.\<close>

fun hash_pairs :: "(nat \<Rightarrow> nat \<Rightarrow> nat) \<Rightarrow> nat list \<Rightarrow> nat list" where
  "hash_pairs ph (a # b # ids) = ph a b # hash_pairs ph ids"
| "hash_pairs ph ids = ids"

lemma length_hash_pairs: "length (hash_pairs ph ids) = (length ids + 1) div 2"
  by (induction ph ids rule: hash_pairs.induct) auto

function merkle_loop :: "(nat \<Rightarrow> nat \<Rightarrow> nat) \<Rightarrow> nat list \<Rightarrow> nat list" where
  "merkle_loop ph ids = (if length ids > 1 then merkle_loop ph (hash_pairs ph ids) else ids)"
  by pat_completeness auto
termination
  by (relation "measure (\<lambda>(ph, ids). length ids)") (auto simp: length_hash_pairs)

declare merkle_loop.simps [simp del]

definition calculate_merkle_root ::
  "(nat \<Rightarrow> nat \<Rightarrow> nat) \<Rightarrow> (nat \<Rightarrow> nat) \<Rightarrow> ('tx \<Rightarrow> nat) \<Rightarrow> 'tx signed_block \<Rightarrow> nat" where
  "calculate_merkle_root ph rh merkle_digest b =
     (if length (transactions b) = 0 then 0
      else rh (hd (merkle_loop ph (map merkle_digest (transactions b)))))"

section \<open>Laws\<close>

text \<open>The number of a block can be read off its id.\<close>

lemma num_from_signed_block_id [simp]: "num_from_id (signed_block_id sha b) = block_num b"
  by (simp add: num_from_id_def signed_block_id_def)

lemma unat_mk_version: "unat (v_num (mk_version m h r)) = unat m * 2 ^ 24 + unat h * 2 ^ 16 + unat r"
proof -
  have b: "unat m < 2 ^ 8" "unat h < 2 ^ 8" "unat r < 2 ^ 16"
    using unsigned_less [of m] unsigned_less [of h] unsigned_less [of r] by simp_all
  have u: "unat (ucast m :: 32 word) = unat m" "unat (ucast h :: 32 word) = unat h" "unat (ucast r :: 32 word) = unat r"
    using b by (simp_all add: unat_ucast_small)
  have d1: "push_bit 8 (ucast m) AND (ucast h :: 32 word) = 0"
    by (rule bit_word_eqI) (auto simp: bit_simps dest: bit_imp_le_length)
  have d2: "push_bit 16 (push_bit 8 (ucast m) OR ucast h) AND (ucast r :: 32 word) = 0"
    by (rule bit_word_eqI) (auto simp: bit_simps dest: bit_imp_le_length)
  have s1: "unat (push_bit 8 (ucast m :: 32 word)) = unat m * 2 ^ 8"
    using b u by (simp add: unat_push_bit_word)
  have s2: "unat (push_bit 8 (ucast m :: 32 word) OR ucast h) = unat m * 2 ^ 8 + unat h"
    using b u s1 disjunctive_add_eq_or [OF d1] unat_add_word [of "push_bit 8 (ucast m) :: 32 word" "ucast h"] by simp
  have s3: "unat (push_bit 16 (push_bit 8 (ucast m :: 32 word) OR ucast h)) = (unat m * 2 ^ 8 + unat h) * 2 ^ 16"
    using b s2 unat_push_bit_word [of "push_bit 8 (ucast m :: 32 word) OR ucast h" 16] by simp
  show ?thesis
    using b u s3 disjunctive_add_eq_or [OF d2]
      unat_add_word [of "push_bit 16 (push_bit 8 (ucast m :: 32 word) OR ucast h)" "ucast r"]
    by (simp add: mk_version_def Let_def)
qed

text \<open>The pairs that the loop hashes, round after round. The digests are truncated by the hashes, so collisions exist;
  the law of the root says what a forger has to find.\<close>

fun pairs_of :: "nat list \<Rightarrow> (nat \<times> nat) list" where
  "pairs_of (a # b # ids) = (a, b) # pairs_of ids"
| "pairs_of ids = []"

function hashed_pairs :: "(nat \<Rightarrow> nat \<Rightarrow> nat) \<Rightarrow> nat list \<Rightarrow> (nat \<times> nat) list" where
  "hashed_pairs ph ids = (if length ids > 1 then pairs_of ids @ hashed_pairs ph (hash_pairs ph ids) else [])"
  by pat_completeness auto
termination
  by (relation "measure (\<lambda>(ph, ids). length ids)") (auto simp: length_hash_pairs)

declare hashed_pairs.simps [simp del]

definition pair_collision :: "(nat \<Rightarrow> nat \<Rightarrow> nat) \<Rightarrow> (nat \<times> nat) list \<Rightarrow> (nat \<times> nat) list \<Rightarrow> bool" where
  "pair_collision ph ps qs \<longleftrightarrow>
     list_ex (\<lambda>(a, b). list_ex (\<lambda>(c, d). (a, b) \<noteq> (c, d) \<and> ph a b = ph c d) qs) ps"

lemma pair_collision_mono: "pair_collision ph ps qs \<Longrightarrow> set ps \<subseteq> set ps' \<Longrightarrow> set qs \<subseteq> set qs' \<Longrightarrow> pair_collision ph ps' qs'"
  unfolding pair_collision_def list_ex_iff by blast

lemma hash_pairs_collide:
  "length xs = length ys \<Longrightarrow> hash_pairs ph xs = hash_pairs ph ys \<Longrightarrow> xs \<noteq> ys \<Longrightarrow> pair_collision ph (pairs_of xs) (pairs_of ys)"
proof (induction ph xs arbitrary: ys rule: hash_pairs.induct)
  case (1 ph a b ids)
  then obtain c d ids' where ys: "ys = c # d # ids'" by (cases ys; cases "tl ys") auto
  then have h: "ph a b = ph c d" "hash_pairs ph ids = hash_pairs ph ids'" using "1.prems"(2) by simp_all
  show ?case
  proof (cases "(a, b) = (c, d)")
    case True
    then have "pair_collision ph (pairs_of ids) (pairs_of ids')" using 1 ys h by simp
    then show ?thesis using ys by (auto intro: pair_collision_mono)
  next
    case False
    then show ?thesis using h ys by (auto simp: pair_collision_def)
  qed
qed (auto simp: Suc_length_conv)

lemma merkle_loop_collides:
  "length xs = length ys \<Longrightarrow> xs \<noteq> ys \<Longrightarrow> hd (merkle_loop ph xs) = hd (merkle_loop ph ys) \<Longrightarrow>
   pair_collision ph (hashed_pairs ph xs) (hashed_pairs ph ys)"
proof (induction ph xs arbitrary: ys rule: merkle_loop.induct)
  case (1 ph xs)
  show ?case
  proof (cases "length xs > 1")
    case True
    have p: "hashed_pairs ph xs = pairs_of xs @ hashed_pairs ph (hash_pairs ph xs)"
      "hashed_pairs ph ys = pairs_of ys @ hashed_pairs ph (hash_pairs ph ys)"
      using True "1.prems"(1) by (simp_all add: hashed_pairs.simps [of ph xs] hashed_pairs.simps [of ph ys])
    have l: "hd (merkle_loop ph (hash_pairs ph xs)) = hd (merkle_loop ph (hash_pairs ph ys))"
      using "1.prems" True merkle_loop.simps [of ph xs] merkle_loop.simps [of ph ys] by simp
    have "pair_collision ph (pairs_of xs) (pairs_of ys) \<or>
        pair_collision ph (hashed_pairs ph (hash_pairs ph xs)) (hashed_pairs ph (hash_pairs ph ys))"
      using "1.IH" [OF True _ _ l] hash_pairs_collide [OF "1.prems"(1) _ "1.prems"(2)] "1.prems"(1) by (auto simp: length_hash_pairs)
    then show ?thesis unfolding p by (auto intro: pair_collision_mono)
  next
    case False
    then have "length xs = 1" using "1.prems"(1,2) by (cases xs) auto
    then obtain x y where "xs = [x]" "ys = [y]" using "1.prems"(1) by (metis One_nat_def Suc_length_conv length_0_conv)
    then show ?thesis using "1.prems"(2,3) by (simp add: merkle_loop.simps)
  qed
qed

section \<open>Properties\<close>

text \<open>Property C28. Whatever the hashes are, two blocks with equally many transactions and the same Merkle root either carry the
  same transaction digests in the same order, or exhibit a collision: two different last digests with the same
  checksum, or two different pairs among those hashed in the two computations with the same hash. So the root commits to
  the digests and their order as far as the hashes resist collisions.\<close>

theorem merkle_root_commits:
  assumes "length (transactions b) = length (transactions b')"
    "calculate_merkle_root ph rh md b = calculate_merkle_root ph rh md b'"
    "map md (transactions b) \<noteq> map md (transactions b')"
  defines "x \<equiv> hd (merkle_loop ph (map md (transactions b)))" and "y \<equiv> hd (merkle_loop ph (map md (transactions b')))"
  shows "x \<noteq> y \<and> rh x = rh y \<or>
    pair_collision ph (hashed_pairs ph (map md (transactions b))) (hashed_pairs ph (map md (transactions b')))"
proof -
  have "transactions b \<noteq> []" "transactions b' \<noteq> []" using assms(1,3) by auto
  then have "rh x = rh y" using assms(2) by (simp add: calculate_merkle_root_def x_def y_def)
  then show ?thesis using merkle_loop_collides [of "map md (transactions b)" "map md (transactions b')" ph] assms(1,3)
    by (auto simp: x_def y_def)
qed

definition demo_block :: "nat list \<Rightarrow> nat signed_block" where
  "demo_block txs = \<lparr>previous = null_block_id, timestamp = 0, witness = [], transaction_merkle_root = 0,
     extensions = [], witness_signature = 0, transactions = txs\<rparr>"

text \<open>Two blocks with different digests and the same root under a hash that keeps two bits: the pairs \<open>(1, 2)\<close> and \<open>(2, 0)\<close>
  collide.\<close>

definition demo_pair_hash :: "nat \<Rightarrow> nat \<Rightarrow> nat" where "demo_pair_hash a b = (2 * a + b) mod 4"

lemmas demo_hash_eval = demo_block_def demo_pair_hash_def merkle_loop.simps hashed_pairs.simps calculate_merkle_root_def pair_collision_def

theorem merkle_root_commits_witness:
  "calculate_merkle_root demo_pair_hash id id (demo_block [1, 2, 3]) = calculate_merkle_root demo_pair_hash id id (demo_block [2, 0, 3]) \<and>
   hashed_pairs demo_pair_hash [1, 2, 3] = [(1, 2), (0, 3)] \<and>
   pair_collision demo_pair_hash (hashed_pairs demo_pair_hash [1, 2, 3]) (hashed_pairs demo_pair_hash [2, 0, 3])"
proof -
  have r: "calculate_merkle_root demo_pair_hash id id (demo_block [1, 2, 3]) = calculate_merkle_root demo_pair_hash id id (demo_block [2, 0, 3])"
    "hashed_pairs demo_pair_hash [1, 2, 3] = [(1, 2), (0, 3)]"
    by (simp_all add: demo_hash_eval)
  have t: "transactions (demo_block xs) = xs" for xs by (simp add: demo_block_def)
  show ?thesis using merkle_root_commits [OF _ r(1)] r by (simp add: t)
qed

text \<open>Versions compare as their major, hardfork and revision numbers do lexicographically, and
  \<open>hardfork_version\<close> forgets exactly the revision.\<close>

theorem version_order:
  "(version_lt (mk_version m h r) (mk_version m' h' r') \<longleftrightarrow>
      m < m' \<or> m = m' \<and> (h < h' \<or> h = h' \<and> r < r')) \<and>
   hardfork_version (mk_version m h r) = mk_version m h 0"
proof
  have b: "unat r < 2 ^ 16" "unat r' < 2 ^ 16" "unat h < 2 ^ 8" "unat h' < 2 ^ 8"
    using unsigned_less [of r] unsigned_less [of r'] unsigned_less [of h] unsigned_less [of h'] by simp_all
  show "version_lt (mk_version m h r) (mk_version m' h' r') \<longleftrightarrow>
      m < m' \<or> m = m' \<and> (h < h' \<or> h = h' \<and> r < r')"
    unfolding version_lt_def word_less_nat_alt unat_mk_version word_unat_eq_iff using b by auto
  have mask: "(0xFFFF0000 :: 32 word) = push_bit 16 (mask 16)" by (simp add: mask_eq_exp_minus_1)
  have "bit r n \<Longrightarrow> n < 16" for n using bit_imp_le_length [of r n] by simp
  then show "hardfork_version (mk_version m h r) = mk_version m h 0"
    unfolding hardfork_version_def mk_version_def Let_def mask
    by (fastforce intro!: bit_word_eqI simp: bit_simps bit_mask_iff)
qed

end
