(* ===== verification/Fork_Database.thy ===== *)
theory Fork_Database
  imports Blocks
begin

text \<open>
  The fork database (\<open>fork_database.cpp\<close>): the tree of recent blocks, its head, and the branches
  between two of its blocks. The weak parent pointer of an item is the parent's id; locking it looks
  the id up among the items that are still alive, those of the index and the head. A parent that was removed and pushed again
  is found that way, where the pointer of the code has expired and the code asserts.
\<close>

section \<open>State and operations\<close>

record 'tx fork_item =
  fi_num :: "32 word"
  fi_id :: block_id
  fi_prev :: "block_id option"
  fi_invalid :: bool
  fi_data :: "'tx signed_block"

definition mk_fork_item :: "('tx signed_block \<Rightarrow> 128 word) \<Rightarrow> 'tx signed_block \<Rightarrow> 'tx fork_item" where
  "mk_fork_item sha b = \<lparr>fi_num = block_num b, fi_id = signed_block_id sha b, fi_prev = None,
     fi_invalid = False, fi_data = b\<rparr>"

abbreviation fi_previous_id :: "'tx fork_item \<Rightarrow> block_id" where
  "fi_previous_id it \<equiv> previous (fi_data it)"

record 'tx fork_db =
  fd_index :: "'tx fork_item list"
  fd_unlinked :: "'tx fork_item list"
  fd_head :: "'tx fork_item option"
  fd_max_size :: "32 word"

definition find_item :: "block_id \<Rightarrow> 'tx fork_item list \<Rightarrow> 'tx fork_item option" where
  "find_item i its = find (\<lambda>it. fi_id it = i) its"

definition index_insert :: "'tx fork_item \<Rightarrow> 'tx fork_item list \<Rightarrow> 'tx fork_item list" where
  "index_insert it its = (if find_item (fi_id it) its = None then its @ [it] else its)"

definition lock :: "'tx fork_db \<Rightarrow> block_id option \<Rightarrow> 'tx fork_item option" where
  "lock db p = (case p of None \<Rightarrow> None
     | Some i \<Rightarrow> (case find_item i (fd_index db) of
         Some it \<Rightarrow> Some it
       | None \<Rightarrow> (case fd_head db of
           Some h \<Rightarrow> if fi_id h = i then Some h else None
         | None \<Rightarrow> None)))"

definition fork_reset :: "'tx fork_db \<Rightarrow> 'tx fork_db" where
  "fork_reset db = db\<lparr>fd_head := None, fd_index := []\<rparr>"

definition fork_pop_block :: "'tx fork_db \<Rightarrow> 'tx fork_db res" where
  "fork_pop_block db =
     (case fd_head db of None \<Rightarrow> Inl Assert_exn
      | Some h \<Rightarrow> (case lock db (fi_prev h) of None \<Rightarrow> Inl Assert_exn
          | Some p \<Rightarrow> Inr (db\<lparr>fd_head := Some p\<rparr>)))"

definition start_block :: "('tx signed_block \<Rightarrow> 128 word) \<Rightarrow> 'tx signed_block \<Rightarrow> 'tx fork_db \<Rightarrow> 'tx fork_db" where
  "start_block sha b db =
     (let it = mk_fork_item sha b
      in db\<lparr>fd_index := index_insert it (fd_index db), fd_head := Some it\<rparr>)"

text \<open>\<open>link_item\<close> is the part of \<open>_push_block\<close> that finds the parent; \<open>insert_item\<close> the rest. The loop
  that erases the smallest numbers below \<open>min_num\<close> keeps exactly the items at or above it.\<close>

definition link_item :: "'tx fork_item \<Rightarrow> 'tx fork_db \<Rightarrow> 'tx fork_item res" where
  "link_item it db =
     (case fd_head db of None \<Rightarrow> Inr it
      | Some h \<Rightarrow>
        guardE (uint (fi_num it) > max 0 (uint (fi_num h) - uint (fd_max_size db))) (
        if fi_previous_id it \<noteq> null_block_id then
          (case find_item (fi_previous_id it) (fd_index db) of
             None \<Rightarrow> Inl Unlinkable_exn
           | Some p \<Rightarrow> guardE (\<not> fi_invalid p) (Inr (it\<lparr>fi_prev := Some (fi_id p)\<rparr>)))
        else Inr it))"

definition insert_item :: "'tx fork_item \<Rightarrow> 'tx fork_db \<Rightarrow> 'tx fork_db" where
  "insert_item it db =
     (let db = db\<lparr>fd_index := index_insert it (fd_index db)\<rparr>
      in case fd_head db of
           None \<Rightarrow> db\<lparr>fd_head := Some it\<rparr>
         | Some h \<Rightarrow>
             if fi_num it > fi_num h then
               let min_num = fi_num it - min (fd_max_size db) (fi_num it) in
               db\<lparr>fd_head := Some it,
                  fd_index := filter (\<lambda>x. \<not> fi_num x < min_num) (fd_index db),
                  fd_unlinked := filter (\<lambda>x. fi_num x \<noteq> fi_num it - fd_max_size db) (fd_unlinked db)\<rparr>
             else db)"

definition fork_push_item :: "'tx fork_item \<Rightarrow> 'tx fork_db \<Rightarrow> 'tx fork_db res" where
  "fork_push_item it db = bindE (link_item it db) (\<lambda>it. Inr (insert_item it db))"

text \<open>\<open>push_block\<close> rethrows \<open>unlinkable_block_exception\<close> before the statement that would cache the
  block, so an unlinkable block leaves the database unchanged.\<close>

definition fork_push_block ::
  "('tx signed_block \<Rightarrow> 128 word) \<Rightarrow> 'tx signed_block \<Rightarrow> 'tx fork_db \<Rightarrow> ('tx fork_item option \<times> 'tx fork_db) res" where
  "fork_push_block sha b db =
     bindE (fork_push_item (mk_fork_item sha b) db) (\<lambda>db'. Inr (fd_head db', db'))"

definition fork_set_max_size :: "32 word \<Rightarrow> 'tx fork_db \<Rightarrow> 'tx fork_db" where
  "fork_set_max_size s db =
     (let db = db\<lparr>fd_max_size := s\<rparr>
      in case fd_head db of None \<Rightarrow> db
         | Some h \<Rightarrow>
           let keep = (\<lambda>x. \<not> uint (fi_num x) < max 0 (uint (fi_num h) - uint s)) in
           db\<lparr>fd_index := filter keep (fd_index db), fd_unlinked := filter keep (fd_unlinked db)\<rparr>)"

definition fork_is_known_block :: "block_id \<Rightarrow> 'tx fork_db \<Rightarrow> bool" where
  "fork_is_known_block i db \<longleftrightarrow>
     (if find_item i (fd_index db) \<noteq> None then True else find_item i (fd_unlinked db) \<noteq> None)"

definition fork_fetch_block :: "block_id \<Rightarrow> 'tx fork_db \<Rightarrow> 'tx fork_item option" where
  "fork_fetch_block i db =
     (case find_item i (fd_index db) of Some it \<Rightarrow> Some it | None \<Rightarrow> find_item i (fd_unlinked db))"

definition fork_fetch_by_number :: "32 word \<Rightarrow> 'tx fork_db \<Rightarrow> 'tx fork_item list" where
  "fork_fetch_by_number n db = filter (\<lambda>it. fi_num it = n) (fd_index db)"

definition fork_set_head :: "'tx fork_item \<Rightarrow> 'tx fork_db \<Rightarrow> 'tx fork_db" where
  "fork_set_head h db = db\<lparr>fd_head := Some h\<rparr>"

definition fork_remove :: "block_id \<Rightarrow> 'tx fork_db \<Rightarrow> 'tx fork_db" where
  "fork_remove i db = db\<lparr>fd_index := filter (\<lambda>it. fi_id it \<noteq> i) (fd_index db)\<rparr>"

text \<open>The loops of \<open>fetch_branch_from\<close>, each with fuel (\<open>None\<close> only when it runs out). \<open>climb\<close> walks the
  first argument's branch down to a given height.\<close>

fun climb :: "nat \<Rightarrow> 'tx fork_db \<Rightarrow> 'tx fork_item \<Rightarrow> 32 word \<Rightarrow> ('tx fork_item list \<times> 'tx fork_item) res option" where
  "climb 0 db it n = None"
| "climb (Suc f) db it n =
     (if fi_num it > n then
        (case lock db (fi_prev it) of
           None \<Rightarrow> Some (Inl Assert_exn)
         | Some p \<Rightarrow> map_option (\<lambda>r. bindE r (\<lambda>(br, top). Inr (it # br, top))) (climb f db p n))
      else Some (Inr ([], it)))"

fun climb_both ::
  "nat \<Rightarrow> 'tx fork_db \<Rightarrow> 'tx fork_item \<Rightarrow> 'tx fork_item \<Rightarrow> ('tx fork_item list \<times> 'tx fork_item list) res option" where
  "climb_both 0 db a b = None"
| "climb_both (Suc f) db a b =
     (if fi_previous_id a \<noteq> fi_previous_id b then
        (case lock db (fi_prev a) of
           None \<Rightarrow> Some (Inl Assert_exn)
         | Some pa \<Rightarrow>
           (case lock db (fi_prev b) of
              None \<Rightarrow> Some (Inl Assert_exn)
            | Some pb \<Rightarrow> map_option (\<lambda>r. bindE r (\<lambda>(x, y). Inr (a # x, b # y))) (climb_both f db pa pb)))
      else Some (Inr ([a], [b])))"

definition fetch_branch_from ::
  "nat \<Rightarrow> 'tx fork_db \<Rightarrow> block_id \<Rightarrow> block_id \<Rightarrow> ('tx fork_item list \<times> 'tx fork_item list) res option" where
  "fetch_branch_from fuel db i1 i2 =
     (case (find_item i1 (fd_index db), find_item i2 (fd_index db)) of
        (Some a, Some b) \<Rightarrow>
          (case climb fuel db a (fi_num b) of
             None \<Rightarrow> None
           | Some (Inl e) \<Rightarrow> Some (Inl e)
           | Some (Inr (xs, a')) \<Rightarrow>
             (case climb fuel db b (fi_num a') of
                None \<Rightarrow> None
              | Some (Inl e) \<Rightarrow> Some (Inl e)
              | Some (Inr (ys, b')) \<Rightarrow>
                  map_option (\<lambda>r. bindE r (\<lambda>(u, v). Inr (xs @ u, ys @ v))) (climb_both fuel db a' b')))
      | _ \<Rightarrow> Some (Inl Assert_exn))"

end
