(* ===== verification/Fork_Laws.thy ===== *)
theory Fork_Laws
  imports Fork_Database
begin

text \<open>
  Laws of the fork database: every operation keeps its items consistent with their blocks, pushing
  makes the highest block the head, and \<open>fetch_branch_from\<close> returns two linked branches that meet.
\<close>

section \<open>The invariant\<close>

definition item_ok :: "('tx signed_block \<Rightarrow> 128 word) \<Rightarrow> 'tx fork_item \<Rightarrow> bool" where
  "item_ok sha it \<longleftrightarrow> fi_num it = block_num (fi_data it) \<and> fi_id it = signed_block_id sha (fi_data it) \<and>
     (fi_prev it = None \<or> fi_prev it = Some (fi_previous_id it)) \<and>
     num_from_id (fi_previous_id it) \<noteq> - 1"

definition fork_items :: "'tx fork_db \<Rightarrow> 'tx fork_item set" where
  "fork_items db = set (fd_index db) \<union> set_option (fd_head db)"

definition fork_ok :: "('tx signed_block \<Rightarrow> 128 word) \<Rightarrow> 'tx fork_db \<Rightarrow> bool" where
  "fork_ok sha db \<longleftrightarrow> (\<forall>it \<in> fork_items db. item_ok sha it) \<and> distinct (map fi_id (fd_index db))"

lemma find_item_Some: "find_item i its = Some it \<Longrightarrow> it \<in> set its \<and> fi_id it = i"
  by (auto simp: find_item_def find_Some_iff)

lemma find_item_None: "find_item i its = None \<longleftrightarrow> i \<notin> fi_id ` set its"
  by (auto simp: find_item_def find_None_iff)

lemma find_item_mem: "distinct (map fi_id its) \<Longrightarrow> it \<in> set its \<Longrightarrow> find_item (fi_id it) its = Some it"
proof -
  assume d: "distinct (map fi_id its)" and m: "it \<in> set its"
  obtain it' where f: "find_item (fi_id it) its = Some it'"
    using m find_item_None [of "fi_id it" its] by (cases "find_item (fi_id it) its") auto
  then show ?thesis using find_item_Some [OF f] d m by (metis distinct_map inj_onD)
qed

lemma item_num: "item_ok sha it \<Longrightarrow> fi_num it = num_from_id (fi_id it)"
  by (simp add: item_ok_def)

lemma lock_Some: "lock db p = Some it \<Longrightarrow> p = Some (fi_id it) \<and> it \<in> fork_items db"
  by (auto simp: lock_def fork_items_def dest: find_item_Some split: option.splits if_splits)

lemma unat_block_num: "num_from_id (previous b) \<noteq> - 1 \<Longrightarrow> unat (block_num b) = unat (num_from_id (previous b)) + 1"
proof -
  assume "num_from_id (previous b) \<noteq> - 1"
  then have "1 + num_from_id (previous b) \<noteq> 0" by (metis add_eq_0_iff2 add.commute)
  then show ?thesis using unatSuc [of "num_from_id (previous b)"] by (simp add: block_num_def add.commute)
qed

text \<open>A parent is one block lower than its child, and is the block the child names.\<close>

lemma lock_parent:
  assumes "fork_ok sha db" "it \<in> fork_items db" "lock db (fi_prev it) = Some p"
  shows "p \<in> fork_items db" "fi_id p = fi_previous_id it" "unat (fi_num it) = unat (fi_num p) + 1"
proof -
  note l = lock_Some [OF assms(3)]
  then show p: "p \<in> fork_items db" by simp
  have ok: "item_ok sha it" "item_ok sha p" using assms(1,2) p by (auto simp: fork_ok_def)
  show e: "fi_id p = fi_previous_id it" using l ok(1) by (auto simp: item_ok_def)
  have "num_from_id (fi_id p) = fi_num p" using ok(2) by (simp add: item_ok_def)
  then show "unat (fi_num it) = unat (fi_num p) + 1"
    using ok(1) e unat_block_num [of "fi_data it"] by (simp add: item_ok_def)
qed

section \<open>Operations keep it\<close>

lemma item_ok_mk: "num_from_id (previous b) \<noteq> - 1 \<Longrightarrow> item_ok sha (mk_fork_item sha b)"
  by (simp add: item_ok_def mk_fork_item_def)

lemma index_insert_distinct: "distinct (map fi_id its) \<Longrightarrow> distinct (map fi_id (index_insert it its))"
  by (auto simp: index_insert_def find_item_None)

lemma index_insert_set: "set (index_insert it its) \<subseteq> insert it (set its)"
  by (auto simp: index_insert_def)

lemma distinct_map_filter_fi: "distinct (map f xs) \<Longrightarrow> distinct (map f (filter P xs))"
  by (rule distinct_map_filter)

lemma link_item_ok:
  assumes "link_item it db = Inr it'" "item_ok sha it" "fork_ok sha db"
  shows "item_ok sha it' \<and> fi_num it' = fi_num it \<and> fi_id it' = fi_id it \<and> fi_data it' = fi_data it"
  using assms
  by (auto simp: link_item_def res_simps item_ok_def dest: find_item_Some split: option.splits if_splits)

lemma insert_item_ok:
  assumes "item_ok sha it" "fork_ok sha db"
  shows "fork_ok sha (insert_item it db)"
  using assms index_insert_set [of it "fd_index db"] index_insert_distinct [of "fd_index db" it]
  by (fastforce simp: fork_ok_def fork_items_def insert_item_def Let_def distinct_map_filter split: option.splits)

lemma fork_push_item_ok:
  assumes "fork_push_item it db = Inr db'" "item_ok sha it" "fork_ok sha db"
  shows "fork_ok sha db'"
  using assms by (auto simp: fork_push_item_def res_simps dest!: link_item_ok intro: insert_item_ok)

lemma fork_ops_ok:
  assumes "fork_ok sha db"
  shows "fork_ok sha (fork_reset db)" "fork_pop_block db = Inr db' \<Longrightarrow> fork_ok sha db'"
    "fork_ok sha (fork_set_max_size s db)" "fork_ok sha (fork_remove i db)"
    "num_from_id (previous b) \<noteq> - 1 \<Longrightarrow> fork_ok sha (start_block sha b db)"
    "h \<in> fork_items db \<Longrightarrow> fork_ok sha (fork_set_head h db)"
proof -
  show "fork_ok sha (fork_reset db)" by (simp add: fork_reset_def fork_ok_def fork_items_def)
  show "fork_ok sha db'" if "fork_pop_block db = Inr db'"
  proof -
    from that obtain p where "p \<in> fork_items db" and db': "db' = db\<lparr>fd_head := Some p\<rparr>"
      by (simp add: fork_pop_block_def split: option.splits) (metis lock_Some)
    then show ?thesis using assms db' by (auto simp: fork_ok_def fork_items_def)
  qed
  show "fork_ok sha (fork_set_max_size s db)"
    using assms by (auto simp: fork_set_max_size_def fork_ok_def fork_items_def Let_def distinct_map_filter split: option.splits)
  show "fork_ok sha (fork_remove i db)"
    using assms by (auto simp: fork_remove_def fork_ok_def fork_items_def distinct_map_filter)
  show "fork_ok sha (start_block sha b db)" if "num_from_id (previous b) \<noteq> - 1"
    using assms item_ok_mk [OF that] index_insert_set [of "mk_fork_item sha b" "fd_index db"]
    by (auto simp: start_block_def fork_ok_def fork_items_def Let_def index_insert_distinct)
  show "fork_ok sha (fork_set_head h db)" if "h \<in> fork_items db"
    using assms that by (auto simp: fork_set_head_def fork_ok_def fork_items_def)
qed

section \<open>Branches\<close>

text \<open>A branch lists blocks from the newest down, each the parent of the one before.\<close>

fun linked :: "'tx fork_item list \<Rightarrow> bool" where
  "linked (x # y # zs) \<longleftrightarrow> fi_previous_id x = fi_id y \<and> linked (y # zs)"
| "linked _ \<longleftrightarrow> True"

lemma linked_append:
  "linked xs \<Longrightarrow> linked ys \<Longrightarrow> xs = [] \<or> ys = [] \<or> fi_previous_id (last xs) = fi_id (hd ys) \<Longrightarrow> linked (xs @ ys)"
  by (induction xs rule: linked.induct) (auto, (cases ys; simp)+)

lemma climb_spec:
  assumes ok: "fork_ok sha db" and m: "it \<in> fork_items db" and f: "unat (fi_num it) < unat n + f" "0 < f"
  shows "\<exists>r. climb f db it n = Some r \<and> (\<forall>br top. r = Inr (br, top) \<longrightarrow>
     top \<in> fork_items db \<and> linked (br @ [top]) \<and> hd (br @ [top]) = it \<and>
     (fi_num it \<le> n \<longrightarrow> br = [] \<and> top = it) \<and> (n \<le> fi_num it \<longrightarrow> fi_num top = n))"
  using m f
proof (induction f arbitrary: it)
  case (Suc f)
  show ?case
  proof (cases "fi_num it > n")
    case True
    show ?thesis
    proof (cases "lock db (fi_prev it)")
      case (Some p)
      note par = lock_parent [OF ok Suc.prems(1) Some]
      have "n < fi_num it" by (rule True)
      then have lt: "unat n < unat (fi_num it)" by (simp add: word_less_nat_alt)
      have np: "n \<le> fi_num p" using lt par(3) by (simp add: word_le_nat_alt)
      have f: "0 < f" "unat (fi_num p) < unat n + f" using Suc.prems(2) lt par(3) by linarith+
      obtain r where r: "climb f db p n = Some r" "\<forall>br top. r = Inr (br, top) \<longrightarrow>
          top \<in> fork_items db \<and> linked (br @ [top]) \<and> hd (br @ [top]) = p \<and>
          (fi_num p \<le> n \<longrightarrow> br = [] \<and> top = p) \<and> (n \<le> fi_num p \<longrightarrow> fi_num top = n)"
        using Suc.IH [OF par(1) f(2,1)] by blast
      have "linked (it # br @ [top])" if "r = Inr (br, top)" for br top
        using r(2) that par(2) linked_append [of "[it]" "br @ [top]"] by auto
      then show ?thesis using True Some r np by (cases r) (auto simp: res_simps)
    qed (use True in simp)
  qed (use Suc.prems in auto)
qed simp

lemma climb_both_spec:
  assumes ok: "fork_ok sha db" and m: "a \<in> fork_items db" "b \<in> fork_items db" and f: "unat (fi_num a) < f"
  shows "\<exists>r. climb_both f db a b = Some r \<and> (\<forall>x y. r = Inr (x, y) \<longrightarrow>
     linked x \<and> linked y \<and> length x = length y \<and> x \<noteq> [] \<and> y \<noteq> [] \<and> hd x = a \<and> hd y = b \<and>
     fi_previous_id (last x) = fi_previous_id (last y) \<and>
     (\<forall>k. Suc k < length x \<longrightarrow> fi_previous_id (x ! k) \<noteq> fi_previous_id (y ! k)))"
  using m f
proof (induction f arbitrary: a b)
  case (Suc f)
  show ?case
  proof (cases "fi_previous_id a \<noteq> fi_previous_id b \<and> lock db (fi_prev a) \<noteq> None \<and> lock db (fi_prev b) \<noteq> None")
    case True
    then obtain pa pb where p: "lock db (fi_prev a) = Some pa" "lock db (fi_prev b) = Some pb" by auto
    note pa = lock_parent [OF ok Suc.prems(1) p(1)] and pb = lock_parent [OF ok Suc.prems(2) p(2)]
    have "unat (fi_num pa) < f" using Suc.prems(3) pa(3) by linarith
    then obtain r where r: "climb_both f db pa pb = Some r" "\<forall>x y. r = Inr (x, y) \<longrightarrow>
       linked x \<and> linked y \<and> length x = length y \<and> x \<noteq> [] \<and> y \<noteq> [] \<and> hd x = pa \<and> hd y = pb \<and>
       fi_previous_id (last x) = fi_previous_id (last y) \<and>
       (\<forall>k. Suc k < length x \<longrightarrow> fi_previous_id (x ! k) \<noteq> fi_previous_id (y ! k))"
      using Suc.IH [OF pa(1) pb(1)] by blast
    have "linked (a # x) \<and> linked (b # y) \<and> (\<forall>k. Suc k < length (a # x) \<longrightarrow>
        fi_previous_id ((a # x) ! k) \<noteq> fi_previous_id ((b # y) ! k))" if rxy: "r = Inr (x, y)" for x y
    proof -
      have "x \<noteq> []" "y \<noteq> []" using r(2) rxy by auto
      then obtain x0 x' y0 y' where xy: "x = x0 # x'" "y = y0 # y'" by (metis list.exhaust)
      moreover have "fi_previous_id ((a # x) ! k) \<noteq> fi_previous_id ((b # y) ! k)" if "Suc k < length (a # x)" for k
        using r(2) rxy True that by (cases k) auto
      ultimately show ?thesis using r(2) rxy pa(2) pb(2) by auto
    qed
    note step = this
    show ?thesis
    proof (cases r)
      case (Inl e)
      then show ?thesis using True p r(1) by simp
    next
      case (Inr q)
      obtain x y where xy: "r = Inr (x, y)" using Inr by (cases q) auto
      note s = r(2) [rule_format, OF xy]
      have "climb_both (Suc f) db a b = Some (Inr (a # x, b # y))" using True p r(1) xy by simp
      moreover have "last (a # x) = last x" "last (b # y) = last y" using s by simp_all
      ultimately show ?thesis using s step [OF xy] by simp
    qed
  qed (auto split: option.split)
qed simp

text \<open>A database whose index is one tree: every block but the root has its parent in the index.\<close>

definition fork_tree :: "'tx fork_db \<Rightarrow> 'tx fork_item \<Rightarrow> bool" where
  "fork_tree db r \<longleftrightarrow> r \<in> set (fd_index db) \<and>
     (\<forall>it \<in> set (fd_index db). it = r \<or> (\<exists>p \<in> set (fd_index db). fi_prev it = Some (fi_id p)))"

lemma fork_tree_parent:
  assumes "fork_ok sha db" "fork_tree db r" "it \<in> set (fd_index db)" "it \<noteq> r"
  obtains p where "p \<in> set (fd_index db)" "lock db (fi_prev it) = Some p" "unat (fi_num it) = unat (fi_num p) + 1"
proof -
  obtain p where p: "p \<in> set (fd_index db)" "fi_prev it = Some (fi_id p)"
    using assms(2-4) by (auto simp: fork_tree_def)
  then have l: "lock db (fi_prev it) = Some p"
    using assms(1) by (simp add: lock_def find_item_mem fork_ok_def)
  moreover have "it \<in> fork_items db" using assms(3) by (simp add: fork_items_def)
  ultimately show ?thesis using that p(1) lock_parent(3) [OF assms(1)] by blast
qed

lemma fork_tree_root_lowest:
  assumes ok: "fork_ok sha db" and t: "fork_tree db r"
  shows "it \<in> set (fd_index db) \<Longrightarrow> it = r \<or> unat (fi_num r) < unat (fi_num it)"
proof (induction "unat (fi_num it)" arbitrary: it rule: less_induct)
  case less
  show ?case
  proof (cases "it = r")
    case False
    then obtain p where "p \<in> set (fd_index db)" "unat (fi_num it) = unat (fi_num p) + 1"
      using fork_tree_parent [OF ok t less.prems] by blast
    then show ?thesis using less.hyps [of p] by auto
  qed simp
qed

lemma climb_tree:
  assumes ok: "fork_ok sha db" and t: "fork_tree db r" and n: "fi_num r \<le> n"
  shows "it \<in> set (fd_index db) \<Longrightarrow> climb f db it n = Some q \<Longrightarrow> \<exists>br top. q = Inr (br, top) \<and> top \<in> set (fd_index db)"
proof (induction f arbitrary: it q)
  case (Suc f)
  show ?case
  proof (cases "fi_num it > n")
    case True
    then have "it \<noteq> r" using n by auto
    then obtain p where "p \<in> set (fd_index db)" "lock db (fi_prev it) = Some p"
      using fork_tree_parent [OF ok t Suc.prems(1)] by blast
    then show ?thesis using Suc.IH [of p] Suc.prems True by (auto simp: res_simps)
  qed (use Suc.prems in auto)
qed simp

lemma climb_both_tree:
  assumes ok: "fork_ok sha db" and t: "fork_tree db r"
  shows "a \<in> set (fd_index db) \<Longrightarrow> b \<in> set (fd_index db) \<Longrightarrow> fi_num a = fi_num b \<Longrightarrow>
    climb_both f db a b = Some q \<Longrightarrow> \<exists>x y. q = Inr (x, y)"
proof (induction f arbitrary: a b q)
  case (Suc f)
  show ?case
  proof (cases "fi_previous_id a \<noteq> fi_previous_id b")
    case True
    have "a \<noteq> r \<and> b \<noteq> r"
      using fork_tree_root_lowest [OF ok t Suc.prems(1)] fork_tree_root_lowest [OF ok t Suc.prems(2)] Suc.prems(3) True
      by auto
    then obtain pa pb where p: "pa \<in> set (fd_index db)" "lock db (fi_prev a) = Some pa" "unat (fi_num a) = unat (fi_num pa) + 1"
        "pb \<in> set (fd_index db)" "lock db (fi_prev b) = Some pb" "unat (fi_num b) = unat (fi_num pb) + 1"
      using fork_tree_parent [OF ok t Suc.prems(1)] fork_tree_parent [OF ok t Suc.prems(2)] by metis
    then have "fi_num pa = fi_num pb" using Suc.prems(3) by (simp add: word_unat_eq_iff)
    then show ?thesis using Suc.IH [OF p(1,4)] Suc.prems True p by (auto simp: res_simps)
  qed (use Suc.prems in auto)
qed simp

lemma climb_Inr:
  assumes "fork_ok sha db" "it \<in> fork_items db" "2 ^ 32 \<le> f" "climb f db it n = Some (Inr (br, tp))"
  shows "tp \<in> fork_items db" "linked (br @ [tp])" "hd (br @ [tp]) = it" "n \<le> fi_num it \<Longrightarrow> fi_num tp = n"
    "fi_num it \<le> n \<Longrightarrow> tp = it"
proof -
  have "unat (fi_num it) < unat n + f" "0 < f" using unat_less_numeral(1) [of "fi_num it"] assms(3) by linarith+
  from climb_spec [OF assms(1,2) this] assms(4)
  show "tp \<in> fork_items db" "linked (br @ [tp])" "hd (br @ [tp]) = it" "n \<le> fi_num it \<Longrightarrow> fi_num tp = n"
    "fi_num it \<le> n \<Longrightarrow> tp = it" by auto
qed

lemma climb_returns: "fork_ok sha db \<Longrightarrow> it \<in> fork_items db \<Longrightarrow> 2 ^ 32 \<le> f \<Longrightarrow> \<exists>r. climb f db it n = Some r"
proof -
  assume a: "fork_ok sha db" "it \<in> fork_items db" "2 ^ 32 \<le> f"
  have "unat (fi_num it) < unat n + f" "0 < f" using unat_less_numeral(1) [of "fi_num it"] a(3) by linarith+
  from climb_spec [OF a(1,2) this] show ?thesis by blast
qed

lemma climb_both_returns:
  "fork_ok sha db \<Longrightarrow> a \<in> fork_items db \<Longrightarrow> b \<in> fork_items db \<Longrightarrow> 2 ^ 32 \<le> f \<Longrightarrow> \<exists>r. climb_both f db a b = Some r"
  using climb_both_spec [of sha db a b f] unat_less_numeral(1) [of "fi_num a"] by fastforce

lemma climb_both_Inr:
  assumes "fork_ok sha db" "a \<in> fork_items db" "b \<in> fork_items db" "2 ^ 32 \<le> f" "climb_both f db a b = Some (Inr (x, y))"
  shows "linked x" "linked y" "x \<noteq> []" "y \<noteq> []" "hd x = a" "hd y = b" "fi_previous_id (last x) = fi_previous_id (last y)"
proof -
  have "unat (fi_num a) < f" using unat_less_numeral(1) [of "fi_num a"] assms(4) by linarith
  from climb_both_spec [OF assms(1-3) this] assms(5)
  show "linked x" "linked y" "x \<noteq> []" "y \<noteq> []" "hd x = a" "hd y = b" "fi_previous_id (last x) = fi_previous_id (last y)"
    by auto
qed

text \<open>The shape of a call of \<open>fetch_branch_from\<close>: it returns the error of the first phase that fails, and
  otherwise the concatenated branches.\<close>

lemma fetch_branch_Some:
  assumes "find_item i1 (fd_index db) = Some a" "find_item i2 (fd_index db) = Some b"
    "climb f db a (fi_num b) = Some (Inr (xs, a'))" "climb f db b (fi_num a') = Some (Inr (ys, b'))"
    "climb_both f db a' b' = Some r"
  shows "fetch_branch_from f db i1 i2 = Some (bindE r (\<lambda>(u, v). Inr (xs @ u, ys @ v)))"
  using assms by (simp add: fetch_branch_from_def)

lemma fetch_branch_InrD:
  assumes "fetch_branch_from f db i1 i2 = Some (Inr (x, y))"
  obtains a b xs a' ys b' u v where
    "find_item i1 (fd_index db) = Some a" "find_item i2 (fd_index db) = Some b"
    "climb f db a (fi_num b) = Some (Inr (xs, a'))" "climb f db b (fi_num a') = Some (Inr (ys, b'))"
    "climb_both f db a' b' = Some (Inr (u, v))" "x = xs @ u" "y = ys @ v"
  using assms by (auto simp: fetch_branch_from_def res_simps split: option.splits sum.splits)

text \<open>What the two branches promise: they start at the two given blocks, every block is followed by the
  block it names as previous, and the last blocks of both name the same previous block.\<close>

definition branches_meet :: "block_id \<Rightarrow> block_id \<Rightarrow> 'tx fork_item list \<Rightarrow> 'tx fork_item list \<Rightarrow> bool" where
  "branches_meet i1 i2 x y \<longleftrightarrow> x \<noteq> [] \<and> y \<noteq> [] \<and> fi_id (hd x) = i1 \<and> fi_id (hd y) = i2 \<and>
     linked x \<and> linked y \<and> fi_previous_id (last x) = fi_previous_id (last y)"

lemma linked_glue:
  "linked (xs @ [t]) \<Longrightarrow> linked u \<Longrightarrow> u \<noteq> [] \<Longrightarrow> hd u = t \<Longrightarrow> linked (xs @ u) \<and> hd (xs @ u) = hd (xs @ [t])"
proof (induction xs rule: linked.induct)
  case (1 x y zs)
  then show ?case by (cases zs) auto
qed (cases u; auto)+

lemma index_items: "find_item i (fd_index db) = Some a \<Longrightarrow> a \<in> fork_items db \<and> fi_id a = i"
  by (auto simp: fork_items_def dest: find_item_Some)

lemma fetch_branch_meets:
  assumes ok: "fork_ok sha db" and f: "2 ^ 32 \<le> f" and r: "fetch_branch_from f db i1 i2 = Some (Inr (x, y))"
  shows "branches_meet i1 i2 x y"
proof -
  from r obtain a b xs a' ys b' u v where
    s: "find_item i1 (fd_index db) = Some a" "find_item i2 (fd_index db) = Some b"
      "climb f db a (fi_num b) = Some (Inr (xs, a'))" "climb f db b (fi_num a') = Some (Inr (ys, b'))"
      "climb_both f db a' b' = Some (Inr (u, v))" "x = xs @ u" "y = ys @ v"
    by (rule fetch_branch_InrD)
  note ia = index_items [OF s(1)] and ib = index_items [OF s(2)]
  note xs = climb_Inr [OF ok conjunct1 [OF ia] f s(3)] and ys = climb_Inr [OF ok conjunct1 [OF ib] f s(4)]
  note uv = climb_both_Inr [OF ok xs(1) ys(1) f s(5)]
  show ?thesis
    using linked_glue [OF xs(2) uv(1,3,5)] linked_glue [OF ys(2) uv(2,4,6)] xs(3) ys(3) ia ib uv s(6,7)
    by (simp add: branches_meet_def)
qed

lemma fetch_branch_returns:
  assumes ok: "fork_ok sha db" and f: "2 ^ 32 \<le> f"
  shows "\<exists>r. fetch_branch_from f db i1 i2 = Some r"
proof (cases "find_item i1 (fd_index db) = None \<or> find_item i2 (fd_index db) = None")
  case False
  then obtain a b where ab: "find_item i1 (fd_index db) = Some a" "find_item i2 (fd_index db) = Some b" by auto
  note ia = index_items [OF ab(1)] and ib = index_items [OF ab(2)]
  obtain r1 where r1: "climb f db a (fi_num b) = Some r1" using climb_returns [OF ok conjunct1 [OF ia] f] by blast
  show ?thesis
  proof (cases r1)
    case (Inr p)
    obtain xs a' where p: "r1 = Inr (xs, a')" using Inr by (cases p) simp
    obtain r2 where r2: "climb f db b (fi_num a') = Some r2" using climb_returns [OF ok conjunct1 [OF ib] f] by blast
    show ?thesis
    proof (cases r2)
      case (Inr q)
      obtain ys b' where q: "r2 = Inr (ys, b')" using Inr by (cases q) simp
      have "a' \<in> fork_items db" "b' \<in> fork_items db"
        using climb_Inr(1) [OF ok _ f] ia ib r1 r2 p q by blast+
      then obtain r3 where "climb_both f db a' b' = Some r3" using climb_both_returns [OF ok _ _ f] by blast
      then show ?thesis using ab r1 r2 p q by (simp add: fetch_branch_from_def)
    qed (use ab r1 r2 p in \<open>simp add: fetch_branch_from_def\<close>)
  qed (use ab r1 in \<open>simp add: fetch_branch_from_def\<close>)
qed (auto simp: fetch_branch_from_def split: option.split)

lemma fetch_branch_tree:
  assumes ok: "fork_ok sha db" and ft: "fork_tree db r" and f: "2 ^ 32 \<le> f"
    and i: "i1 \<in> fi_id ` set (fd_index db)" "i2 \<in> fi_id ` set (fd_index db)"
  shows "\<exists>x y. fetch_branch_from f db i1 i2 = Some (Inr (x, y))"
proof -
  have d: "distinct (map fi_id (fd_index db))" using ok by (simp add: fork_ok_def)
  obtain a b where ab: "a \<in> set (fd_index db)" "find_item i1 (fd_index db) = Some a"
      "b \<in> set (fd_index db)" "find_item i2 (fd_index db) = Some b"
    using i find_item_mem [OF d] by (metis imageE)
  note ia = conjunct1 [OF index_items [OF ab(2)]] and ib = conjunct1 [OF index_items [OF ab(4)]]
  have low: "fi_num r \<le> fi_num it" if "it \<in> set (fd_index db)" for it
    using fork_tree_root_lowest [OF ok ft that] by (auto simp: word_le_nat_alt)
  obtain xs a' where xs: "climb f db a (fi_num b) = Some (Inr (xs, a'))" "a' \<in> set (fd_index db)"
    using climb_returns [OF ok ia f] climb_tree [OF ok ft low [OF ab(3)] ab(1)] by metis
  obtain ys b' where ys: "climb f db b (fi_num a') = Some (Inr (ys, b'))" "b' \<in> set (fd_index db)"
    using climb_returns [OF ok ib f] climb_tree [OF ok ft low [OF xs(2)] ab(3)] by metis
  note cx = climb_Inr [OF ok ia f xs(1)] and cy = climb_Inr [OF ok ib f ys(1)]
  have "fi_num a' = fi_num b'"
    by (metis cx(4,5) cy(4,5) linear)
  then obtain u v where "climb_both f db a' b' = Some (Inr (u, v))"
    using climb_both_returns [OF ok cx(1) cy(1) f] climb_both_tree [OF ok ft xs(2) ys(2)] by metis
  then show ?thesis using fetch_branch_Some [OF ab(2,4) xs(1) ys(1)] by simp
qed

section \<open>Properties\<close>

text \<open>Property C22. \<open>fetch_branch_from\<close> always returns. When it succeeds, the branches start at the two given blocks,
  are linked parent by parent, and end in blocks with the same previous block; in a database that is
  one tree it succeeds for any two of its blocks.\<close>

theorem fetch_branch_from_meets:
  assumes "fork_ok sha db"
  shows "(\<exists>r. fetch_branch_from (2 ^ 32) db i1 i2 = Some r) \<and>
    (\<forall>x y. fetch_branch_from (2 ^ 32) db i1 i2 = Some (Inr (x, y)) \<longrightarrow> branches_meet i1 i2 x y) \<and>
    (\<forall>r. fork_tree db r \<and> i1 \<in> fi_id ` set (fd_index db) \<and> i2 \<in> fi_id ` set (fd_index db) \<longrightarrow>
      (\<exists>x y. fetch_branch_from (2 ^ 32) db i1 i2 = Some (Inr (x, y)) \<and> branches_meet i1 i2 x y))"
  using fetch_branch_returns [OF assms order_refl, of i1 i2] fetch_branch_meets [OF assms order_refl]
    fetch_branch_tree [OF assms _ order_refl] by blast

text \<open>A root block and two blocks on top of it, for the witnesses.\<close>

definition demo_hash :: "nat signed_block \<Rightarrow> 128 word" where
  "demo_hash b = of_nat (timestamp b)"

definition demo_root :: "nat signed_block" where
  "demo_root = demo_block []"

definition demo_child :: "nat \<Rightarrow> nat signed_block" where
  "demo_child t = (demo_block [])\<lparr>previous := signed_block_id demo_hash demo_root, timestamp := t\<rparr>"

definition demo_item :: "nat \<Rightarrow> nat fork_item" where
  "demo_item t = (mk_fork_item demo_hash (demo_child t))\<lparr>fi_prev := Some (signed_block_id demo_hash demo_root)\<rparr>"

definition demo_forks :: "nat fork_db" where
  "demo_forks = \<lparr>fd_index = [mk_fork_item demo_hash demo_root, demo_item 1, demo_item 2], fd_unlinked = [],
     fd_head = Some (demo_item 1), fd_max_size = 1024\<rparr>"

lemmas demo_fork_defs = demo_forks_def demo_item_def demo_child_def demo_root_def demo_block_def demo_hash_def
  mk_fork_item_def signed_block_id_def block_num_def num_from_id_def null_block_id_def

lemma demo_forks_ok: "fork_ok demo_hash demo_forks"
  by (simp add: fork_ok_def fork_items_def item_ok_def demo_fork_defs)

lemma demo_forks_tree: "fork_tree demo_forks (mk_fork_item demo_hash demo_root)"
  by (simp add: fork_tree_def demo_fork_defs)

theorem fetch_branch_from_meets_witness:
  "\<exists>x y. fetch_branch_from (2 ^ 32) demo_forks (fi_id (demo_item 1)) (fi_id (demo_item 2)) = Some (Inr (x, y)) \<and>
    branches_meet (fi_id (demo_item 1)) (fi_id (demo_item 2)) x y"
proof -
  have "fi_id (demo_item 1) \<in> fi_id ` set (fd_index demo_forks)" "fi_id (demo_item 2) \<in> fi_id ` set (fd_index demo_forks)"
    by (simp_all add: demo_forks_def)
  then show ?thesis
    using fetch_branch_from_meets [OF demo_forks_ok, of "fi_id (demo_item 1)" "fi_id (demo_item 2)"] demo_forks_tree
    by blast
qed

text \<open>Property C23. Pushing a block that links keeps the items consistent, stores the block under its id, and makes
  it the head exactly when it is higher than the head: the head is always a longest branch seen, the
  first one on a tie.\<close>

theorem fork_push_block_head:
  assumes "fork_ok sha db" "num_from_id (previous b) \<noteq> - 1" "fd_head db = Some h"
    "fork_push_block sha b db = Inr (ret, db')"
  shows "fork_ok sha db' \<and> ret = fd_head db' \<and> find_item (signed_block_id sha b) (fd_index db') \<noteq> None \<and>
    (\<exists>h'. fd_head db' = Some h' \<and> fi_num h' = max (fi_num h) (block_num b) \<and>
      (if block_num b > fi_num h then fi_data h' = b else h' = h))"
proof -
  from assms(4) obtain it where it: "link_item (mk_fork_item sha b) db = Inr it" and db': "db' = insert_item it db"
      and ret: "ret = fd_head db'"
    by (auto simp: fork_push_block_def fork_push_item_def res_simps)
  note ok = link_item_ok [OF it item_ok_mk [OF assms(2)] assms(1)]
  then have f: "fi_num it = block_num b" "fi_id it = signed_block_id sha b" "fi_data it = b"
    by (simp_all add: mk_fork_item_def)
  have "fi_num it - min (fd_max_size db) (fi_num it) \<le> fi_num it" by (metis min.cobounded2 word_sub_le)
  moreover obtain x where x: "x \<in> set (index_insert it (fd_index db))" "fi_id x = fi_id it"
    by (cases "find_item (fi_id it) (fd_index db)") (auto simp: index_insert_def dest: find_item_Some)
  moreover have "fi_num x = fi_num it"
  proof -
    have "item_ok sha x" using x(1) index_insert_set [of it "fd_index db"] ok assms(1)
      by (auto simp: fork_ok_def fork_items_def)
    then show ?thesis using item_num x(2) ok by metis
  qed
  ultimately have "x \<in> set (fd_index db')"
    using assms(3) by (auto simp: db' insert_item_def Let_def linorder_not_less)
  then have "find_item (fi_id it) (fd_index db') \<noteq> None" using x(2) by (metis find_item_None image_eqI)
  moreover have "fork_ok sha db'" using insert_item_ok ok assms(1) db' by blast
  ultimately show ?thesis using assms(3) ret f by (auto simp: db' insert_item_def Let_def max_def)
qed

theorem fork_push_block_head_witness:
  "\<exists>ret db'. fork_push_block demo_hash (demo_child 3) demo_forks = Inr (ret, db') \<and>
    fork_ok demo_hash db' \<and> ret = Some (demo_item 1)"
proof -
  let ?r = "fork_push_block demo_hash (demo_child 3) demo_forks"
  obtain ret db' where r: "?r = Inr (ret, db')"
    by (simp add: fork_push_block_def fork_push_item_def link_item_def insert_item_def find_item_def demo_fork_defs
        bindE_def Let_def)
  have "num_from_id (previous (demo_child 3)) \<noteq> - 1" "fd_head demo_forks = Some (demo_item 1)"
    "\<not> block_num (demo_child 3) > fi_num (demo_item 1)"
    by (simp_all add: demo_fork_defs)
  then have "fork_ok demo_hash db' \<and> ret = Some (demo_item 1)"
    using fork_push_block_head [OF demo_forks_ok _ _ r] by auto
  then show ?thesis using r by blast
qed

end
