(* ===== verification/Block_Store.thy ===== *)
theory Block_Store
  imports Blocks
begin

text \<open>
  The block database (\<open>block_database.cpp\<close>): an append-only file of packed blocks and an index file of
  fixed-size entries, one per block number. The index file is a list of entries (a hole left by
  seeking past its end reads as zero entries), the block file a list of bytes. Packing and unpacking
  are parameters; a thrown exception of the unpacker is \<open>None\<close>.
\<close>

section \<open>State and operations\<close>

record index_entry =
  ie_pos :: nat
  ie_size :: nat
  ie_id :: block_id

definition zero_entry :: index_entry where
  "zero_entry = \<lparr>ie_pos = 0, ie_size = 0, ie_id = null_block_id\<rparr>"

record block_store =
  bs_blocks :: "8 word list"
  bs_index :: "index_entry list"

definition write_entry :: "nat \<Rightarrow> index_entry \<Rightarrow> index_entry list \<Rightarrow> index_entry list" where
  "write_entry n e es = (if n < length es then es[n := e] else es @ replicate (n - length es) zero_entry @ [e])"

text \<open>Reading \<open>n\<close> bytes at \<open>pos\<close>. The streams throw on a short read, which every reader turns into an
  empty result.\<close>

definition read_bytes :: "nat \<Rightarrow> nat \<Rightarrow> 8 word list \<Rightarrow> 8 word list option" where
  "read_bytes pos n bs =
     (if n = 0 then Some [] else if pos + n \<le> length bs then Some (take n (drop pos bs)) else None)"

definition bs_store ::
  "('tx signed_block \<Rightarrow> 128 word) \<Rightarrow> ('tx signed_block \<Rightarrow> 8 word list) \<Rightarrow> block_id \<Rightarrow> 'tx signed_block \<Rightarrow> block_store \<Rightarrow> block_store" where
  "bs_store sha pack i b st =
     (let i = (if i = null_block_id then signed_block_id sha b else i);
          num = unat (num_from_id i);
          vec = pack b;
          e = \<lparr>ie_pos = length (bs_blocks st), ie_size = length vec mod 2 ^ 32, ie_id = i\<rparr>
      in st\<lparr>bs_blocks := bs_blocks st @ vec, bs_index := write_entry num e (bs_index st)\<rparr>)"

definition bs_remove :: "block_id \<Rightarrow> block_store \<Rightarrow> block_store res" where
  "bs_remove i st =
     (let num = unat (num_from_id i) in
      if length (bs_index st) \<le> num then Inl Not_found_exn
      else let e = bs_index st ! num in
           if ie_id e = i then Inr (st\<lparr>bs_index := (bs_index st)[num := e\<lparr>ie_size := 0\<rparr>]\<rparr>) else Inr st)"

definition bs_contains :: "block_id \<Rightarrow> block_store \<Rightarrow> bool" where
  "bs_contains i st \<longleftrightarrow>
     (if i = null_block_id then False
      else let num = unat (num_from_id i) in
           if length (bs_index st) < num + 1 then False
           else let e = bs_index st ! num in ie_id e = i \<and> ie_size e > 0)"

definition bs_fetch_block_id :: "32 word \<Rightarrow> block_store \<Rightarrow> block_id res" where
  "bs_fetch_block_id n st =
     (if length (bs_index st) \<le> unat n then Inl Not_found_exn
      else let e = bs_index st ! unat n in guardE (ie_id e \<noteq> null_block_id) (Inr (ie_id e)))"

definition bs_read_entry ::
  "('tx signed_block \<Rightarrow> 128 word) \<Rightarrow> (8 word list \<Rightarrow> 'tx signed_block option) \<Rightarrow> index_entry \<Rightarrow> block_store \<Rightarrow> 'tx signed_block option" where
  "bs_read_entry sha unpack e st =
     (case Option.bind (read_bytes (ie_pos e) (ie_size e) (bs_blocks st)) unpack of
        None \<Rightarrow> None
      | Some b \<Rightarrow> if signed_block_id sha b = ie_id e then Some b else None)"

definition bs_fetch_optional ::
  "('tx signed_block \<Rightarrow> 128 word) \<Rightarrow> (8 word list \<Rightarrow> 'tx signed_block option) \<Rightarrow> block_id \<Rightarrow> block_store \<Rightarrow> 'tx signed_block option" where
  "bs_fetch_optional sha unpack i st =
     (let num = unat (num_from_id i) in
      if length (bs_index st) \<le> num then None
      else let e = bs_index st ! num in
           if ie_id e \<noteq> i then None else bs_read_entry sha unpack e st)"

definition bs_fetch_by_number ::
  "('tx signed_block \<Rightarrow> 128 word) \<Rightarrow> (8 word list \<Rightarrow> 'tx signed_block option) \<Rightarrow> 32 word \<Rightarrow> block_store \<Rightarrow> 'tx signed_block option" where
  "bs_fetch_by_number sha unpack n st =
     (if length (bs_index st) \<le> unat n then None
      else bs_read_entry sha unpack (bs_index st ! unat n) st)"

text \<open>The loop of \<open>last_index_entry\<close> reads entries from the end of the index and truncates the index
  file behind every entry it rejects. Its argument is the index from its end; the result is the entry
  found and the index that remains.\<close>

definition entry_valid ::
  "('tx signed_block \<Rightarrow> 128 word) \<Rightarrow> (8 word list \<Rightarrow> 'tx signed_block option) \<Rightarrow> index_entry \<Rightarrow> block_store \<Rightarrow> bool" where
  "entry_valid sha unpack e st \<longleftrightarrow>
     ie_size e > 0 \<and> ie_pos e + ie_size e \<le> length (bs_blocks st) \<and> bs_read_entry sha unpack e st \<noteq> None"

fun last_entry_loop ::
  "('tx signed_block \<Rightarrow> 128 word) \<Rightarrow> (8 word list \<Rightarrow> 'tx signed_block option) \<Rightarrow> block_store \<Rightarrow> index_entry list \<Rightarrow>
   index_entry option \<times> index_entry list" where
  "last_entry_loop sha unpack st [] = (None, [])"
| "last_entry_loop sha unpack st (e # es) =
     (if entry_valid sha unpack e st then (Some e, rev (e # es)) else last_entry_loop sha unpack st es)"

definition bs_last_index_entry ::
  "('tx signed_block \<Rightarrow> 128 word) \<Rightarrow> (8 word list \<Rightarrow> 'tx signed_block option) \<Rightarrow> block_store \<Rightarrow> index_entry option \<times> block_store" where
  "bs_last_index_entry sha unpack st =
     (let (e, es) = last_entry_loop sha unpack st (rev (bs_index st)) in (e, st\<lparr>bs_index := es\<rparr>))"

definition bs_last ::
  "('tx signed_block \<Rightarrow> 128 word) \<Rightarrow> (8 word list \<Rightarrow> 'tx signed_block option) \<Rightarrow> block_store \<Rightarrow> 'tx signed_block option \<times> block_store" where
  "bs_last sha unpack st =
     (case bs_last_index_entry sha unpack st of
        (Some e, st') \<Rightarrow> (bs_fetch_by_number sha unpack (num_from_id (ie_id e)) st', st')
      | (None, st') \<Rightarrow> (None, st'))"

definition bs_last_id ::
  "('tx signed_block \<Rightarrow> 128 word) \<Rightarrow> (8 word list \<Rightarrow> 'tx signed_block option) \<Rightarrow> block_store \<Rightarrow> block_id option \<times> block_store" where
  "bs_last_id sha unpack st = (let (e, st') = bs_last_index_entry sha unpack st in (map_option ie_id e, st'))"

section \<open>Laws\<close>

lemma length_write_entry: "length (write_entry n e es) = max (length es) (Suc n)"
  by (simp add: write_entry_def)

lemma nth_write_entry:
  "k < length (write_entry n e es) \<Longrightarrow>
   write_entry n e es ! k = (if k = n then e else if k < length es then es ! k else zero_entry)"
  by (auto simp: write_entry_def nth_append nth_Cons split: nat.splits if_splits)

lemma read_bytes_append: "pos + n \<le> length bs \<Longrightarrow> read_bytes pos n (bs @ ys) = read_bytes pos n bs"
  by (simp add: read_bytes_def)

lemma read_bytes_last: "read_bytes (length bs) (length ys) (bs @ ys) = Some ys"
  by (simp add: read_bytes_def)

text \<open>The unpacker inverts the packer on a block and refuses an empty buffer, as \<open>fc::raw\<close> documents.\<close>

definition codec ::
  "('tx signed_block \<Rightarrow> 8 word list) \<Rightarrow> (8 word list \<Rightarrow> 'tx signed_block option) \<Rightarrow> 'tx signed_block \<Rightarrow> bool" where
  "codec pack unpack b \<longleftrightarrow> unpack (pack b) = Some b \<and> unpack [] = None"

lemma codec_nonempty: "codec pack unpack b \<Longrightarrow> pack b \<noteq> []"
  by (auto simp: codec_def)

text \<open>Entries of the index lie inside the block file, at the place their id's number says.\<close>

definition bs_ok :: "block_store \<Rightarrow> bool" where
  "bs_ok st \<longleftrightarrow> (\<forall>k < length (bs_index st). let e = bs_index st ! k in
     ie_pos e + ie_size e \<le> length (bs_blocks st) \<and> (e \<noteq> zero_entry \<longrightarrow> unat (num_from_id (ie_id e)) = k))"

lemma bs_store_ok: "bs_ok st \<Longrightarrow> bs_ok (bs_store sha pack i b st)"
  by (auto simp: bs_ok_def bs_store_def Let_def length_write_entry nth_write_entry zero_entry_def
      trans_le_add1 split: if_splits)

lemma bs_remove_ok: "bs_ok st \<Longrightarrow> bs_remove i st = Inr st' \<Longrightarrow> bs_ok st'"
  by (auto simp: bs_ok_def bs_remove_def Let_def nth_list_update split: if_splits) 

lemma bs_store_entry:
  assumes "i \<noteq> null_block_id" "length (pack b) < 2 ^ 32"
  shows "unat (num_from_id i) < length (bs_index (bs_store sha pack i b st))"
    "bs_index (bs_store sha pack i b st) ! unat (num_from_id i) =
       \<lparr>ie_pos = length (bs_blocks st), ie_size = length (pack b), ie_id = i\<rparr>"
    "bs_blocks (bs_store sha pack i b st) = bs_blocks st @ pack b"
  using assms by (simp_all add: bs_store_def Let_def length_write_entry nth_write_entry)

lemma bs_store_read:
  assumes "codec pack unpack b" "i = signed_block_id sha b" "i \<noteq> null_block_id" "length (pack b) < 2 ^ 32"
  shows "bs_read_entry sha unpack (bs_index (bs_store sha pack i b st) ! unat (num_from_id i)) (bs_store sha pack i b st) = Some b"
  using assms bs_store_entry [of i pack b sha st]
  by (simp add: bs_read_entry_def read_bytes_last codec_def)

lemma bs_store_other:
  assumes "bs_ok st" "k < length (bs_index st)" "k \<noteq> unat (num_from_id i)" "i \<noteq> null_block_id"
  shows "bs_index (bs_store sha pack i b st) ! k = bs_index st ! k"
    "bs_read_entry sha unpack (bs_index (bs_store sha pack i b st) ! k) (bs_store sha pack i b st) =
     bs_read_entry sha unpack (bs_index st ! k) st"
  using assms
  by (auto simp: bs_store_def Let_def length_write_entry nth_write_entry bs_read_entry_def bs_ok_def read_bytes_append)

lemma last_entry_loop_spec:
  "last_entry_loop sha unpack st (rev es) = (e, es') \<Longrightarrow>
     (case e of
        None \<Rightarrow> es' = [] \<and> (\<forall>x \<in> set es. \<not> entry_valid sha unpack x st)
      | Some x \<Rightarrow> (\<exists>zs. es = es' @ zs \<and> es' \<noteq> [] \<and> last es' = x \<and> entry_valid sha unpack x st \<and>
                      (\<forall>z \<in> set zs. \<not> entry_valid sha unpack z st)))"
proof (induction es rule: rev_induct)
  case (snoc x es)
  show ?case
  proof (cases "entry_valid sha unpack x st")
    case False
    then show ?thesis using snoc by (fastforce split: option.splits)
  qed (use snoc.prems in auto)
qed auto

section \<open>Properties\<close>

text \<open>Property C29. A stored block is found again under its id and under its number, is contained, and storing it
  changes what is found under no other number.\<close>

theorem block_store_roundtrip:
  assumes "codec pack unpack b" "bs_ok st" "i = signed_block_id sha b" "i \<noteq> null_block_id" "length (pack b) < 2 ^ 32"
  shows "bs_fetch_optional sha unpack i (bs_store sha pack i b st) = Some b \<and>
    bs_fetch_by_number sha unpack (num_from_id i) (bs_store sha pack i b st) = Some b \<and>
    bs_contains i (bs_store sha pack i b st) \<and>
    bs_fetch_block_id (num_from_id i) (bs_store sha pack i b st) = Inr i \<and>
    bs_ok (bs_store sha pack i b st) \<and>
    (\<forall>n. n \<noteq> num_from_id i \<and> unat n < length (bs_index st) \<longrightarrow>
      bs_fetch_by_number sha unpack n (bs_store sha pack i b st) = bs_fetch_by_number sha unpack n st)"
proof -
  note e = bs_store_entry [OF assms(4), of pack b sha st, OF assms(5)]
  note r = bs_store_read [OF assms(1,3,4,5), of st]
  have "length (bs_index (bs_store sha pack i b st)) \<ge> length (bs_index st)"
    by (simp add: bs_store_def Let_def length_write_entry)
  then have "bs_fetch_by_number sha unpack n (bs_store sha pack i b st) = bs_fetch_by_number sha unpack n st"
    if "n \<noteq> num_from_id i" "unat n < length (bs_index st)" for n
    using that bs_store_other [OF assms(2) that(2) _ assms(4)]
    by (simp add: bs_fetch_by_number_def word_unat_eq_iff)
  moreover have "pack b \<noteq> []" using codec_nonempty [OF assms(1)] .
  ultimately show ?thesis
    using e r assms(4) bs_store_ok [OF assms(2)]
    by (simp add: bs_fetch_optional_def bs_fetch_by_number_def bs_contains_def bs_fetch_block_id_def Let_def not_le not_less)
qed

text \<open>A removed block is no longer contained and no longer found by id or by number; its index entry
  still answers \<open>fetch_block_id\<close>.\<close>

theorem block_store_remove:
  assumes "unpack [] = None" "bs_contains i st"
  shows "\<exists>st'. bs_remove i st = Inr st' \<and> \<not> bs_contains i st' \<and> bs_fetch_optional sha unpack i st' = None \<and>
    bs_fetch_by_number sha unpack (num_from_id i) st' = None \<and> bs_fetch_block_id (num_from_id i) st' = Inr i"
  using assms
  by (auto simp: bs_contains_def bs_remove_def bs_fetch_optional_def bs_fetch_by_number_def bs_fetch_block_id_def
      bs_read_entry_def read_bytes_def codec_def Let_def split: if_splits)

text \<open>\<open>last\<close> returns the block of the highest index entry that is intact (inside the block file,
  unpacked to a block with the entry's id), truncating the index behind it and nothing else; it returns
  nothing only when no entry is intact.\<close>

theorem block_store_last:
  assumes "bs_ok st"
  shows "case bs_last sha unpack st of
      (None, st') \<Rightarrow> (\<forall>e \<in> set (bs_index st). \<not> entry_valid sha unpack e st)
    | (Some b, st') \<Rightarrow> (\<exists>k < length (bs_index st). entry_valid sha unpack (bs_index st ! k) st \<and>
        bs_fetch_by_number sha unpack (of_nat k) st = Some b \<and>
        (\<forall>j. k < j \<and> j < length (bs_index st) \<longrightarrow> \<not> entry_valid sha unpack (bs_index st ! j) st) \<and>
        st' = st\<lparr>bs_index := take (Suc k) (bs_index st)\<rparr>)"
proof -
  obtain e es where l: "last_entry_loop sha unpack st (rev (bs_index st)) = (e, es)" by fastforce
  note spec = last_entry_loop_spec [OF l]
  show ?thesis
  proof (cases e)
    case None
    then show ?thesis using l spec by (simp add: bs_last_def bs_last_index_entry_def)
  next
    case (Some x)
    then obtain zs where zs: "bs_index st = es @ zs" "es \<noteq> []" "last es = x" "entry_valid sha unpack x st"
        "\<forall>z \<in> set zs. \<not> entry_valid sha unpack z st" using spec by auto
    let ?k = "length es - 1"
    have pos: "0 < length es" using zs(2) by simp
    have k0: "?k < length (bs_index st)" using zs(1) pos by (metis diff_less length_append less_numeral_extra(1) trans_less_add1)
    have k: "?k < length (bs_index st)" "bs_index st ! ?k = x" "take (Suc ?k) (bs_index st) = es"
      using k0 zs(1) pos last_conv_nth [OF zs(2)] zs(3) by (simp_all add: nth_append)
    have "x \<noteq> zero_entry" using zs(4) by (auto simp: entry_valid_def zero_entry_def)
    then have n: "unat (num_from_id (ie_id x)) = ?k" using assms k by (auto simp: bs_ok_def Let_def)
    obtain b where b: "bs_read_entry sha unpack x st = Some b" using zs(4) by (auto simp: entry_valid_def)
    have st': "bs_last sha unpack st = (Some b, st\<lparr>bs_index := es\<rparr>)"
    proof -
      have "\<not> length es \<le> ?k" using pos by linarith
      moreover have "es ! ?k = x" using zs(2,3) by (simp add: last_conv_nth)
      ultimately show ?thesis
        using l Some n b by (simp add: bs_last_def bs_last_index_entry_def bs_fetch_by_number_def bs_read_entry_def)
    qed
    have "(of_nat ?k :: 32 word) = num_from_id (ie_id x)" using n [symmetric] by simp
    then have "bs_fetch_by_number sha unpack (of_nat ?k) st = Some b" using n k b by (simp add: bs_fetch_by_number_def)
    moreover have "\<not> entry_valid sha unpack (bs_index st ! j) st" if "?k < j" "j < length (bs_index st)" for j
      using that zs by (auto simp: nth_append not_less)
    ultimately show ?thesis using st' k zs(4) by (auto intro!: exI [of _ ?k])
  qed
qed

text \<open>A block of two bytes, its codec and a store that holds it, for the witnesses.\<close>

definition demo_pack :: "nat signed_block \<Rightarrow> 8 word list" where "demo_pack b = [1, 2]"

definition demo_unpack :: "8 word list \<Rightarrow> nat signed_block option" where
  "demo_unpack bs = (if bs = [1, 2] then Some (demo_block [7]) else None)"

definition demo_sha :: "nat signed_block \<Rightarrow> 128 word" where "demo_sha b = 5"

definition demo_store :: block_store where
  "demo_store = bs_store demo_sha demo_pack null_block_id (demo_block [7]) \<lparr>bs_blocks = [], bs_index = []\<rparr>"

lemmas demo_store_defs = demo_store_def demo_sha_def demo_pack_def demo_unpack_def demo_block_def bs_store_def
  signed_block_id_def block_num_def num_from_id_def null_block_id_def write_entry_def zero_entry_def

theorem block_store_roundtrip_witness:
  "bs_fetch_optional demo_sha demo_unpack (signed_block_id demo_sha (demo_block [7]))
     (bs_store demo_sha demo_pack (signed_block_id demo_sha (demo_block [7])) (demo_block [7]) \<lparr>bs_blocks = [], bs_index = []\<rparr>) =
   Some (demo_block [7])"
proof -
  have "codec demo_pack demo_unpack (demo_block [7])" by (simp add: codec_def demo_pack_def demo_unpack_def)
  moreover have "bs_ok \<lparr>bs_blocks = [], bs_index = []\<rparr>" by (simp add: bs_ok_def)
  moreover have "signed_block_id demo_sha (demo_block [7]) \<noteq> null_block_id" by (simp add: demo_store_defs)
  moreover have "length (demo_pack (demo_block [7])) < 2 ^ 32" by (simp add: demo_pack_def)
  ultimately show ?thesis using block_store_roundtrip by blast
qed

theorem block_store_remove_witness:
  "\<exists>st'. bs_remove (signed_block_id demo_sha (demo_block [7])) demo_store = Inr st' \<and>
    \<not> bs_contains (signed_block_id demo_sha (demo_block [7])) st'"
proof -
  have "bs_contains (signed_block_id demo_sha (demo_block [7])) demo_store"
    by (simp add: bs_contains_def demo_store_defs Let_def)
  moreover have "demo_unpack [] = None" by (simp add: demo_unpack_def)
  ultimately show ?thesis using block_store_remove by blast
qed

theorem block_store_last_witness: "\<exists>b st'. bs_last demo_sha demo_unpack demo_store = (Some b, st')"
proof -
  have ok: "bs_ok demo_store"
    by (simp add: bs_ok_def demo_store_defs Let_def less_Suc_eq)
  have i: "bs_index demo_store = [zero_entry, \<lparr>ie_pos = 0, ie_size = 2, ie_id = signed_block_id demo_sha (demo_block [7])\<rparr>]"
    and b: "bs_blocks demo_store = [1, 2]"
    by (simp_all add: demo_store_defs Let_def)
  have "entry_valid demo_sha demo_unpack (bs_index demo_store ! 1) demo_store"
    by (simp add: i b entry_valid_def bs_read_entry_def read_bytes_def demo_unpack_def)
  then have "\<not> (\<forall>e \<in> set (bs_index demo_store). \<not> entry_valid demo_sha demo_unpack e demo_store)"
    by (simp add: i)
  then show ?thesis using block_store_last [OF ok, of demo_sha demo_unpack]
    by (cases "bs_last demo_sha demo_unpack demo_store"; cases "fst (bs_last demo_sha demo_unpack demo_store)") auto
qed

end
