(* ===== verification/Authority.thy ===== *)
theory Authority
  imports Muse_Prelude
begin

text \<open>
  Account names, authorities and signature checking (\<open>protocol/authority.cpp\<close>,
  \<open>protocol/sign_state.cpp\<close>, the two versions of \<open>verify_authority\<close> in \<open>protocol/transaction.cpp\<close>).
  Public keys are numbers; a \<open>flat_map\<close> is an association list in key order.
\<close>

section \<open>Account names\<close>

definition is_letter :: "char \<Rightarrow> bool" where
  "is_letter c \<longleftrightarrow> List.member ''abcdefghijklmnopqrstuvwxyz'' c"

definition is_digit :: "char \<Rightarrow> bool" where
  "is_digit c \<longleftrightarrow> List.member ''0123456789'' c"

text \<open>\<open>name.find_first_of(c, from)\<close>, \<open>None\<close> for \<open>npos\<close>.\<close>

definition find_first_of :: "char \<Rightarrow> string \<Rightarrow> nat \<Rightarrow> nat option" where
  "find_first_of c s from =
     (let k = from + length (takeWhile (\<lambda>x. x \<noteq> c) (drop from s)) in if k < length s then Some k else None)"

lemma find_first_of_bounds: "find_first_of c s b = Some e \<Longrightarrow> b \<le> e \<and> e < length s"
  by (auto simp: find_first_of_def Let_def split: if_splits)

definition MUSE_MIN_ACCOUNT_NAME_LENGTH :: nat where "MUSE_MIN_ACCOUNT_NAME_LENGTH = 3"
definition MUSE_MAX_ACCOUNT_NAME_LENGTH :: nat where "MUSE_MAX_ACCOUNT_NAME_LENGTH = 16"

text \<open>The body of the loop over labels, and the loop: \<open>begin\<close> is the start of the current label.\<close>

definition label_check :: "string \<Rightarrow> nat \<Rightarrow> nat \<Rightarrow> bool" where
  "label_check name bgn ends \<longleftrightarrow>
     \<not> ends - bgn < 3 \<and> is_letter (name ! bgn) \<and>
     (is_letter (name ! (ends - 1)) \<or> is_digit (name ! (ends - 1))) \<and>
     list_all (\<lambda>i. is_letter (name ! i) \<or> is_digit (name ! i) \<or> name ! i = CHR ''-'') [bgn + 1..<ends - 1]"

function name_loop :: "string \<Rightarrow> nat \<Rightarrow> bool" where
  "name_loop name bgn =
     (let ends = (case find_first_of CHR ''.'' name bgn of None \<Rightarrow> length name | Some e \<Rightarrow> e) in
      if \<not> label_check name bgn ends then False
      else if ends = length name then True
      else name_loop name (ends + 1))"
  by pat_completeness auto
termination
  by (relation "measure (\<lambda>(name, bgn). Suc (length name) - bgn)")
    (auto dest!: find_first_of_bounds split: option.splits)

declare name_loop.simps [simp del]

definition is_valid_account_name :: "string \<Rightarrow> bool" where
  "is_valid_account_name name \<longleftrightarrow>
     (if length name < MUSE_MIN_ACCOUNT_NAME_LENGTH then False
      else if length name > MUSE_MAX_ACCOUNT_NAME_LENGTH then False
      else name_loop name 0)"

section \<open>Authorities and the signature state\<close>

type_synonym public_key = nat

record authority =
  weight_threshold :: "32 word"
  account_auths :: "(string \<times> 16 word) list"
  key_auths :: "(public_key \<times> 16 word) list"

definition authority_validate :: "authority \<Rightarrow> bool" where
  "authority_validate a \<longleftrightarrow> list_all (\<lambda>(n, w). is_valid_account_name n) (account_auths a)"

definition add_authority_accounts :: "authority \<Rightarrow> string list \<Rightarrow> string list" where
  "add_authority_accounts a result = fold (\<lambda>(n, w). List.insert n) (account_auths a) result"

definition is_impossible :: "authority \<Rightarrow> bool" where
  "is_impossible a \<longleftrightarrow>
     sum_list (map (\<lambda>(n, w). unat w) (account_auths a)) + sum_list (map (\<lambda>(k, w). unat w) (key_auths a))
       < unat (weight_threshold a)"

text \<open>A getter returns a pointer to an authority, or raises: the lookups of the chain raise for an unknown name.\<close>

type_synonym authority_getter = "string \<Rightarrow> authority option res"

record sign_state =
  get_active :: authority_getter
  available_keys :: "public_key list"
  provided_signatures :: "(public_key \<times> bool) list"
  approved_by :: "string list"
  max_recursion :: nat

definition mk_sign_state :: "public_key list \<Rightarrow> authority_getter \<Rightarrow> public_key list \<Rightarrow> sign_state" where
  "mk_sign_state sigs a keys =
     \<lparr>get_active = a, available_keys = keys, provided_signatures = map (\<lambda>k. (k, False)) sigs,
      approved_by = [''temp''], max_recursion = 2\<rparr>"

definition signed_by :: "public_key \<Rightarrow> sign_state \<Rightarrow> bool \<times> sign_state" where
  "signed_by k s =
     (case map_of (provided_signatures s) k of
        None \<Rightarrow>
          if List.member (available_keys s) k
          then (True, s\<lparr>provided_signatures := provided_signatures s @ [(k, True)]\<rparr>)
          else (False, s)
      | Some _ \<Rightarrow> (True, s\<lparr>provided_signatures := table_update k True (provided_signatures s)\<rparr>))"

text \<open>The loop over the keys. The result says whether the threshold was reached, with the weight
  collected and the state.\<close>

fun check_keys ::
  "32 word \<Rightarrow> (public_key \<times> 16 word) list \<Rightarrow> 32 word \<Rightarrow> sign_state \<Rightarrow> bool \<times> 32 word \<times> sign_state" where
  "check_keys threshold [] total_weight s = (False, total_weight, s)"
| "check_keys threshold ((k, w) # ks) total_weight s =
     (let (sg, s) = signed_by k s in
      if sg then
        let total_weight = total_weight + ucast w in
        if total_weight \<ge> threshold then (True, total_weight, s) else check_keys threshold ks total_weight s
      else check_keys threshold ks total_weight s)"

text \<open>\<open>check_authority\<close> with \<open>r = max_recursion - depth\<close>, so that \<open>depth == max_recursion\<close> is \<open>r = 0\<close>, and its loop
  over the accounts.\<close>

type_synonym sig_check = "sign_state \<Rightarrow> (bool \<times> sign_state) res"

function check_authority_at :: "nat \<Rightarrow> authority option \<Rightarrow> sig_check"
  and check_accounts :: "nat \<Rightarrow> 32 word \<Rightarrow> (string \<times> 16 word) list \<Rightarrow> 32 word \<Rightarrow> sig_check" where
  "check_authority_at r None s = Inr (False, s)"
| "check_authority_at r (Some auth) s =
     (let (ok, total_weight, s) = check_keys (weight_threshold auth) (key_auths auth) 0 s in
      if ok then Inr (True, s)
      else check_accounts r (weight_threshold auth) (account_auths auth) total_weight s)"
| "check_accounts r threshold [] total_weight s = Inr (total_weight \<ge> threshold, s)"
| "check_accounts r threshold ((a, w) # as) total_weight s =
     (if \<not> List.member (approved_by s) a then
        (case r of
           0 \<Rightarrow> check_accounts r threshold as total_weight s
         | Suc r' \<Rightarrow>
           bindE (get_active s a) (\<lambda>au.
           bindE (check_authority_at r' au s) (\<lambda>(ok, s).
            if ok then
              let s = s\<lparr>approved_by := List.insert a (approved_by s)\<rparr>; total_weight = total_weight + ucast w in
              if total_weight \<ge> threshold then Inr (True, s) else check_accounts r threshold as total_weight s
            else check_accounts r threshold as total_weight s)))
      else
        let total_weight = total_weight + ucast w in
        if total_weight \<ge> threshold then Inr (True, s) else check_accounts r threshold as total_weight s)"
  by pat_completeness auto
termination
  by (relation "inv_image (less_than <*lex*> less_than <*lex*> less_than)
      (\<lambda>x. case x of Inl (r, _) \<Rightarrow> (r :: nat, 1 :: nat, 0 :: nat) | Inr (r, _, as, _) \<Rightarrow> (r, 0, length as))")
    auto

definition check_authority :: "authority option \<Rightarrow> sig_check" where
  "check_authority au s = check_authority_at (max_recursion s) au s"

text \<open>\<open>check_authority(get_owner(id))\<close>: the getter is called first.\<close>

definition check_got :: "authority option res \<Rightarrow> sig_check" where
  "check_got r s = bindE r (\<lambda>au. check_authority au s)"

definition check_account :: "string \<Rightarrow> sig_check" where
  "check_account i s = (if List.member (approved_by s) i then Inr (True, s) else check_got (get_active s i) s)"

definition remove_unused_signatures :: "sign_state \<Rightarrow> bool \<times> sign_state" where
  "remove_unused_signatures s =
     (let remove_sigs = map fst (filter (\<lambda>(k, used). \<not> used) (provided_signatures s))
      in (remove_sigs \<noteq> [],
          s\<lparr>provided_signatures := filter (\<lambda>(k, used). \<not> List.member remove_sigs k) (provided_signatures s)\<rparr>))"

section \<open>Verification of a transaction's signatures\<close>

text \<open>What \<open>operation_get_required_authorities\<close> collected from the operations of a transaction, and the
  account lookups of the caller.\<close>

record required_auths =
  req_active :: "string list"
  req_owner :: "string list"
  req_basic :: "string list"
  req_master_content :: "string list"
  req_comp_content :: "string list"
  req_other :: "authority list"

record getters =
  g_active :: authority_getter
  g_owner :: authority_getter
  g_basic :: authority_getter
  g_master_content :: authority_getter
  g_comp_content :: authority_getter

definition or_check :: "sig_check \<Rightarrow> sig_check \<Rightarrow> sig_check" where
  "or_check f g s = bindE (f s) (\<lambda>(ok, s). if ok then Inr (True, s) else g s)"

definition check_all :: "('x \<Rightarrow> sig_check) \<Rightarrow> 'x list \<Rightarrow> sign_state \<Rightarrow> sign_state res" where
  "check_all f = foldE (\<lambda>x s. bindE (f x s) (\<lambda>(ok, s). if ok then Inr s else Inl Missing_auth_exn))"

definition check_owner :: "getters \<Rightarrow> string list \<Rightarrow> string \<Rightarrow> sig_check" where
  "check_owner g owner_approvals i s =
     (if List.member owner_approvals i then Inr (True, s) else check_got (g_owner g i) s)"

definition approve :: "string list \<Rightarrow> sign_state \<Rightarrow> sign_state" where
  "approve ids s = s\<lparr>approved_by := fold List.insert ids (approved_by s)\<rparr>"

definition no_unused :: "sign_state \<Rightarrow> unit res" where
  "no_unused s = (if fst (remove_unused_signatures s) then Inl Irrelevant_sig_exn else Inr ())"

definition verify_authority_v1 ::
  "required_auths \<Rightarrow> public_key list \<Rightarrow> getters \<Rightarrow> nat \<Rightarrow> string list \<Rightarrow> string list \<Rightarrow> string list \<Rightarrow> unit res" where
  "verify_authority_v1 req sigs g max_rec active_approvals owner_approvals basic_approvals =
     (if req_basic req \<noteq> [] then
        guardE (req_active req = []) (
        guardE (req_owner req = []) (
        guardE (req_other req = []) (
        let s = (mk_sign_state sigs (g_basic g) [])\<lparr>max_recursion := max_rec\<rparr>;
            s = approve basic_approvals s in
        bindE (check_all (\<lambda>i. or_check (check_account i)
            (or_check (check_got (g_active g i)) (check_got (g_owner g i)))) (req_basic req) s) no_unused)))
      else
        let s = (mk_sign_state sigs (g_active g) [])\<lparr>max_recursion := max_rec\<rparr>;
            s = approve owner_approvals (approve active_approvals s) in
        bindE (check_all (\<lambda>a. check_authority (Some a)) (req_other req) s) (\<lambda>s.
        bindE (check_all (\<lambda>i. or_check (check_account i) (check_got (g_owner g i))) (req_active req) s) (\<lambda>s.
        bindE (check_all (\<lambda>c. check_got (g_master_content g c)) (req_master_content req) s) (\<lambda>s.
        bindE (check_all (\<lambda>c. check_got (g_comp_content g c)) (req_comp_content req) s) (\<lambda>s.
        bindE (check_all (check_owner g owner_approvals) (req_owner req) s) (\<lambda>s. Inr ()))))))"

definition verify_authority_v2 ::
  "required_auths \<Rightarrow> public_key list \<Rightarrow> getters \<Rightarrow> bool \<Rightarrow> nat \<Rightarrow> string list \<Rightarrow> string list \<Rightarrow> string list \<Rightarrow> unit res" where
  "verify_authority_v2 req sigs g allow_extra_sigs max_rec active_approvals owner_approvals basic_approvals =
     (let basic = filter (\<lambda>x. \<not> List.member (req_active req) x \<and> \<not> List.member (req_owner req) x) (req_basic req) in
      guardE (basic = [] \<or>
        (req_active req = [] \<and> req_owner req = [] \<and> req_master_content req = [] \<and> req_comp_content req = [] \<and> req_other req = [])) (
      let s = (mk_sign_state sigs (g_active g) [])\<lparr>max_recursion := max_rec\<rparr>;
          s = approve owner_approvals (approve active_approvals (approve basic_approvals s)) in
      bindE (check_all (\<lambda>a. check_authority (Some a)) (req_other req) s) (\<lambda>s.
      bindE (check_all (\<lambda>i. or_check (check_account i)
          (or_check (check_got (g_active g i)) (check_got (g_owner g i)))) basic s) (\<lambda>s.
      bindE (check_all (\<lambda>i. or_check (check_account i) (check_got (g_owner g i))) (req_active req) s) (\<lambda>s.
      bindE (check_all (\<lambda>c. check_got (g_master_content g c)) (req_master_content req) s) (\<lambda>s.
      bindE (check_all (\<lambda>c. check_got (g_comp_content g c)) (req_comp_content req) s) (\<lambda>s.
      bindE (check_all (check_owner g owner_approvals) (req_owner req) s) (\<lambda>s.
      if \<not> allow_extra_sigs then no_unused s else Inr ()))))))))"

text \<open>\<open>verify_authority\<close> dispatches on the version with no approvals; \<open>recovered\<close> are the public keys
  recovered from the signatures of the transaction.\<close>

fun insert_signature_keys :: "public_key list \<Rightarrow> public_key list \<Rightarrow> public_key list res" where
  "insert_signature_keys result [] = Inr result"
| "insert_signature_keys result (k # ks) =
     (if List.member result k then Inl Other_exn else insert_signature_keys (result @ [k]) ks)"

definition get_signature_keys :: "public_key list \<Rightarrow> public_key list res" where
  "get_signature_keys recovered = insert_signature_keys [] recovered"

definition verify_authority :: "required_auths \<Rightarrow> public_key list \<Rightarrow> getters \<Rightarrow> nat \<Rightarrow> nat \<Rightarrow> unit res" where
  "verify_authority req recovered g ver max_rec =
     (if ver = 1 then bindE (get_signature_keys recovered) (\<lambda>sigs. verify_authority_v1 req sigs g max_rec [] [] [])
      else if ver = 2 then
        bindE (get_signature_keys recovered) (\<lambda>sigs. verify_authority_v2 req sigs g False max_rec [] [] [])
      else Inl Other_exn)"

text \<open>The loops of \<open>get_required_signatures\<close> run the checks only to mark the keys they use.\<close>

definition mark_all :: "('x \<Rightarrow> sig_check) \<Rightarrow> 'x list \<Rightarrow> sign_state \<Rightarrow> sign_state res" where
  "mark_all f = foldE (\<lambda>x s. bindE (f x s) (\<lambda>(ok, s). Inr s))"

definition get_required_signatures ::
  "required_auths \<Rightarrow> public_key list \<Rightarrow> public_key list \<Rightarrow> getters \<Rightarrow> nat \<Rightarrow> public_key list res" where
  "get_required_signatures req recovered available g max_rec =
     bindE (get_signature_keys recovered) (\<lambda>sigs.
     let used = (\<lambda>s. filter (\<lambda>k. List.member available k) (map fst (provided_signatures (snd (remove_unused_signatures s))))) in
     if req_basic req \<noteq> [] then
       guardE (req_owner req = []) (guardE (req_active req = []) (
       let s = (mk_sign_state sigs (g_basic g) available)\<lparr>max_recursion := max_rec\<rparr> in
       bindE (mark_all check_account (req_basic req) s) (\<lambda>s. Inr (used s))))
     else
       let s = (mk_sign_state sigs (g_active g) available)\<lparr>max_recursion := max_rec\<rparr> in
       bindE (mark_all (\<lambda>a. check_authority (Some a)) (req_other req) s) (\<lambda>s.
       bindE (mark_all (\<lambda>i. check_got (g_owner g i)) (req_owner req) s) (\<lambda>s.
       bindE (mark_all check_account (req_active req) s) (\<lambda>s. Inr (used s)))))"

text \<open>The loop of \<open>minimize_required_signatures\<close>: a key whose removal leaves the transaction verified
  stays removed, one whose removal loses an authority is put back, any other exception escapes.\<close>

fun minimize_loop :: "(public_key list \<Rightarrow> unit res) \<Rightarrow> public_key list \<Rightarrow> public_key list \<Rightarrow> public_key list res" where
  "minimize_loop verify [] result = Inr result"
| "minimize_loop verify (k # ks) result =
     (let result' = removeAll k result in
      case verify result' of
        Inr _ \<Rightarrow> minimize_loop verify ks result'
      | Inl e \<Rightarrow> if e = Missing_auth_exn then minimize_loop verify ks (List.insert k result') else Inl e)"

definition minimize_required_signatures ::
  "required_auths \<Rightarrow> public_key list \<Rightarrow> public_key list \<Rightarrow> getters \<Rightarrow> nat \<Rightarrow> nat \<Rightarrow> public_key list res" where
  "minimize_required_signatures req recovered available g ver max_rec =
     bindE (get_required_signatures req recovered available g max_rec) (\<lambda>s.
     minimize_loop (\<lambda>sigs.
       if ver = 1 then verify_authority_v1 req sigs g max_rec [] [] []
       else if ver = 2 then verify_authority_v2 req sigs g False max_rec [] [] []
       else Inl Other_exn) s s)"

text \<open>Evaluation on concrete states.\<close>

lemmas authority_eval [chain_eval] =
  is_letter_def is_digit_def find_first_of_def MUSE_MIN_ACCOUNT_NAME_LENGTH_def MUSE_MAX_ACCOUNT_NAME_LENGTH_def
  label_check_def is_valid_account_name_def authority_validate_def add_authority_accounts_def is_impossible_def
  mk_sign_state_def signed_by_def check_authority_def check_got_def check_account_def remove_unused_signatures_def
  or_check_def check_all_def check_owner_def approve_def no_unused_def verify_authority_v1_def verify_authority_v2_def
  get_signature_keys_def verify_authority_def mark_all_def get_required_signatures_def minimize_required_signatures_def

end
