(* ===== verification/Authority_Laws.thy ===== *)
theory Authority_Laws
  imports Authority
begin

text \<open>
  What signature checking guarantees. \<open>satisfied\<close> is the declarative meaning of an authority: the
  weights of keys that signed and of accounts that approved reach the threshold, where an account
  approves directly or by its own active authority being satisfied.
\<close>

section \<open>Satisfaction of an authority\<close>

inductive satisfied :: "authority_getter \<Rightarrow> public_key set \<Rightarrow> string set \<Rightarrow> authority \<Rightarrow> bool"
  for g K A where
  satisfiedI: "(\<And>a. a \<in> S \<Longrightarrow> a \<in> A \<or> (\<exists>au'. g a = Inr (Some au') \<and> satisfied g K A au')) \<Longrightarrow>
     unat (weight_threshold au) \<le>
       (\<Sum>(k, w) \<leftarrow> key_auths au. if k \<in> K then unat w else 0) +
       (\<Sum>(a, w) \<leftarrow> account_auths au. if a \<in> S then unat w else 0) \<Longrightarrow>
     satisfied g K A au"

definition approving :: "authority_getter \<Rightarrow> public_key set \<Rightarrow> string set \<Rightarrow> string set" where
  "approving g K A = {a. a \<in> A \<or> (\<exists>au. g a = Inr (Some au) \<and> satisfied g K A au)}"

definition key_weight :: "public_key set \<Rightarrow> (public_key \<times> 16 word) list \<Rightarrow> nat" where
  "key_weight K ks = (\<Sum>(k, w) \<leftarrow> ks. if k \<in> K then unat w else 0)"

definition account_weight :: "string set \<Rightarrow> (string \<times> 16 word) list \<Rightarrow> nat" where
  "account_weight S as = (\<Sum>(a, w) \<leftarrow> as. if a \<in> S then unat w else 0)"

lemma weight_simps [simp]:
  "key_weight K [] = 0" "key_weight K ((k, w) # ks) = (if k \<in> K then unat w else 0) + key_weight K ks"
  "account_weight S [] = 0" "account_weight S ((a, w) # as) = (if a \<in> S then unat w else 0) + account_weight S as"
  by (simp_all add: key_weight_def account_weight_def)

lemma satisfied_if_weight:
  assumes "unat (weight_threshold au) \<le> key_weight K (key_auths au) + account_weight (approving g K A) (account_auths au)"
  shows "satisfied g K A au"
  using assms unfolding key_weight_def account_weight_def
  by (intro satisfiedI [where S = "approving g K A"]) (auto simp: approving_def)

section \<open>The checker only accepts satisfied authorities\<close>

text \<open>Keys usable in a state: those that signed and those the caller can sign with.\<close>

definition usable_keys :: "sign_state \<Rightarrow> public_key set" where
  "usable_keys s = fst ` set (provided_signatures s) \<union> set (available_keys s)"

definition same_context :: "sign_state \<Rightarrow> sign_state \<Rightarrow> bool" where
  "same_context s s' \<longleftrightarrow> get_active s' = get_active s \<and> usable_keys s' = usable_keys s \<and>
     available_keys s' = available_keys s \<and> max_recursion s' = max_recursion s"

definition approvals_ok :: "string set \<Rightarrow> sign_state \<Rightarrow> bool" where
  "approvals_ok A s \<longleftrightarrow> set (approved_by s) \<subseteq> approving (get_active s) (usable_keys s) A"

lemma same_context_refl [simp]: "same_context s s" and
  same_context_trans: "same_context s t \<Longrightarrow> same_context t u \<Longrightarrow> same_context s u"
  by (simp_all add: same_context_def)

lemma word_add_le: "unat (x + y :: 'a::len word) \<le> unat x + unat y"
  by (simp add: unat_word_ariths)

lemma unat_ucast_weight [simp]: "unat (ucast (w :: 16 word) :: 32 word) = unat w"
  using unat_less_numeral(3) [of w] by (simp add: unat_ucast_small)

lemma signed_by_ok:
  assumes "signed_by k s = (sg, s')"
  shows "same_context s s'" "approved_by s' = approved_by s" "sg \<longleftrightarrow> k \<in> usable_keys s"
proof -
  have keys: "fst ` set (table_update k True t) = fst ` set t" for t :: "(public_key \<times> bool) list"
    by (metis keys_table_update set_map)
  have "same_context s s' \<and> approved_by s' = approved_by s \<and> (sg \<longleftrightarrow> k \<in> usable_keys s)"
  proof (cases "map_of (provided_signatures s) k")
    case None
    then have "k \<notin> fst ` set (provided_signatures s)" by (simp add: map_of_eq_None_iff)
    then show ?thesis using assms None
      by (auto simp: signed_by_def same_context_def usable_keys_def split: if_splits)
  next
    case (Some v)
    then have "k \<in> fst ` set (provided_signatures s)" by (metis domI dom_map_of_conv_image_fst)
    moreover have "sg" "s' = s\<lparr>provided_signatures := table_update k True (provided_signatures s)\<rparr>"
      using assms Some by (simp_all add: signed_by_def)
    ultimately show ?thesis by (simp add: same_context_def usable_keys_def keys)
  qed
  then show "same_context s s'" "approved_by s' = approved_by s" "sg \<longleftrightarrow> k \<in> usable_keys s" by auto
qed

lemma check_keys_ok:
  assumes "check_keys th ks t s = (ok, t', s')"
  shows "same_context s s' \<and> approved_by s' = approved_by s \<and>
    unat t' \<le> unat t + key_weight (usable_keys s) ks \<and> (ok \<longrightarrow> th \<le> t')"
  using assms
proof (induction th ks t s arbitrary: ok t' s' rule: check_keys.induct)
  case (2 th k w ks t s)
  obtain sg s1 where sg: "signed_by k s = (sg, s1)" by fastforce
  note so = signed_by_ok [OF sg]
  have u: "usable_keys s1 = usable_keys s" using so(1) by (simp add: same_context_def)
  have le: "unat (t + ucast w) \<le> unat t + unat w" using word_add_le [of t "ucast w"] by simp
  show ?case
  proof (cases "sg \<and> \<not> th \<le> t + ucast w")
    case True
    then have "check_keys th ks (t + ucast w) s1 = (ok, t', s')" using "2.prems" sg by simp
    from "2.IH"(1) [OF refl sg [symmetric] _ refl _ this] True show ?thesis
      using so u le same_context_trans [OF so(1)] by (auto simp: sg)
  next
    case False
    show ?thesis
    proof (cases sg)
      case True
      then show ?thesis using False "2.prems" sg so le by auto
    next
      case sgF: False
      then have "check_keys th ks t s1 = (ok, t', s')" using "2.prems" sg by simp
      from "2.IH"(2) [OF refl sg [symmetric] _ this] sgF show ?thesis
        using so u same_context_trans [OF so(1)] by auto
    qed
  qed
qed simp

lemma check_sound:
  "check_authority_at r au s = Inr (ok, s') \<Longrightarrow> approvals_ok A s \<Longrightarrow>
     same_context s s' \<and> approvals_ok A s' \<and>
     (ok \<longrightarrow> (\<exists>a. au = Some a \<and> satisfied (get_active s) (usable_keys s) A a))"
  "check_accounts r th as t s = Inr (ok, s') \<Longrightarrow> approvals_ok A s \<Longrightarrow>
     same_context s s' \<and> approvals_ok A s' \<and>
     (ok \<longrightarrow> unat th \<le> unat t + account_weight (approving (get_active s) (usable_keys s) A) as)"
proof (induction r au s and r th as t s arbitrary: ok s' and ok s' rule: check_authority_at_check_accounts.induct)
  case (1 r s)
  then show ?case by simp
next
  case (2 r auth s)
  obtain k t s1 where k: "check_keys (weight_threshold auth) (key_auths auth) 0 s = (k, t, s1)"
    by (metis prod_cases3)
  note ck = check_keys_ok [OF k]
  have a1: "approvals_ok A s1" using ck "2.prems"(2) by (simp add: approvals_ok_def same_context_def)
  show ?case
  proof (cases k)
    case True
    then have "s' = s1" "ok" using "2.prems"(1) k by simp_all
    moreover have "unat (weight_threshold auth) \<le> key_weight (usable_keys s) (key_auths auth)"
      using ck True by (simp add: word_le_nat_alt)
    ultimately show ?thesis using ck a1 satisfied_if_weight [of auth "usable_keys s" "get_active s" A] by auto
  next
    case False
    then have "check_accounts r (weight_threshold auth) (account_auths auth) t s1 = Inr (ok, s')"
      using "2.prems"(1) k by simp
    from "2.IH" [OF refl k [symmetric] refl False this a1] show ?thesis
      using ck same_context_trans [of s s1 s'] satisfied_if_weight [of auth "usable_keys s" "get_active s" A]
      by (auto simp: same_context_def)
  qed
next
  case (3 r th t s)
  then show ?case by (auto simp: word_le_nat_alt)
next
  case (4 r th a w as t s)
  have le: "unat (t + ucast w) \<le> unat t + unat w" using word_add_le [of t "ucast w"] by simp
  show ?case
  proof (cases "List.member (approved_by s) a")
    case True
    then have good: "a \<in> approving (get_active s) (usable_keys s) A"
      using "4.prems"(2) by (auto simp: approvals_ok_def)
    show ?thesis
    proof (cases "th \<le> t + ucast w")
      case reached: True
      then show ?thesis using "4.prems" True good le by (auto simp: word_le_nat_alt)
    next
      case False
      then have "check_accounts r th as (t + ucast w) s = Inr (ok, s')" using "4.prems"(1) True by simp
      from "4.IH"(5) [OF _ refl False this "4.prems"(2)] True show ?thesis using good le by auto
    qed
  next
    case notin: False
    show ?thesis
    proof (cases r)
      case 0
      then have "check_accounts r th as t s = Inr (ok, s')" using "4.prems"(1) notin by simp
      from "4.IH"(1) [OF notin 0 this "4.prems"(2)] show ?thesis by auto
    next
      case (Suc r')
      obtain au c s1 where au: "get_active s a = Inr au" and c: "check_authority_at r' au s = Inr (c, s1)"
        using "4.prems"(1) notin Suc by (auto simp: bindE_Inr_iff)
      note ih = "4.IH"(2) [OF notin Suc au c "4.prems"(2)]
      have u: "get_active s1 = get_active s" "usable_keys s1 = usable_keys s" using ih by (simp_all add: same_context_def)
      show ?thesis
      proof (cases c)
        case False
        then have "check_accounts r th as t s1 = Inr (ok, s')" using "4.prems"(1) notin Suc au c by simp
        from "4.IH"(4) [OF notin Suc au c refl False this] ih show ?thesis
          using u same_context_trans by auto
      next
        case True
        then have good: "a \<in> approving (get_active s) (usable_keys s) A" using ih au by (auto simp: approving_def)
        let ?s2 = "s1\<lparr>approved_by := List.insert a (approved_by s1)\<rparr>"
        have c2: "same_context s ?s2" "approvals_ok A ?s2"
          using ih good u by (auto simp: same_context_def approvals_ok_def usable_keys_def)
        show ?thesis
        proof (cases "th \<le> t + ucast w")
          case reached: True
          then have "s' = ?s2" using "4.prems"(1) notin Suc au c True by (simp add: Let_def)
          then show ?thesis using reached c2 good le by (auto simp: word_le_nat_alt)
        next
          case False
          then have "check_accounts r th as (t + ucast w) ?s2 = Inr (ok, s')"
            using "4.prems"(1) notin Suc au c True by (simp add: Let_def)
          from "4.IH"(3) [OF notin Suc au c refl True refl refl False this c2(2)] show ?thesis
            using good le c2(1) same_context_trans by (auto simp: same_context_def)
        qed
      qed
    qed
  qed
qed

section \<open>Checks in sequence\<close>

text \<open>\<open>sound_check A f Q\<close>: the stateful check \<open>f\<close> accepts only what \<open>Q\<close> says, and keeps the state honest.\<close>

definition sound_check ::
  "string set \<Rightarrow> sig_check \<Rightarrow> (authority_getter \<Rightarrow> public_key set \<Rightarrow> bool) \<Rightarrow> bool" where
  "sound_check A f Q \<longleftrightarrow> (\<forall>s ok s'. f s = Inr (ok, s') \<longrightarrow> approvals_ok A s \<longrightarrow>
     same_context s s' \<and> approvals_ok A s' \<and> (ok \<longrightarrow> Q (get_active s) (usable_keys s)))"

definition sat :: "authority_getter \<Rightarrow> public_key set \<Rightarrow> string set \<Rightarrow> authority option res \<Rightarrow> bool" where
  "sat g K A r \<longleftrightarrow> (\<exists>a. r = Inr (Some a) \<and> satisfied g K A a)"

lemma sound_check_authority: "sound_check A (check_authority au) (\<lambda>g K. sat g K A (Inr au))"
  using check_sound(1) [where A = A] by (simp add: sound_check_def check_authority_def sat_def)

lemma sound_check_got: "sound_check A (check_got r) (\<lambda>g K. sat g K A r)"
  using sound_check_authority [of A] by (cases r) (auto simp: sound_check_def check_got_def)

lemma sound_check_account: "sound_check A (check_account i) (\<lambda>g K. i \<in> A \<or> sat g K A (g i))"
  unfolding sound_check_def
proof (intro allI impI)
  fix s ok s' assume a: "check_account i s = Inr (ok, s')" "approvals_ok A s"
  show "same_context s s' \<and> approvals_ok A s' \<and>
    (ok \<longrightarrow> i \<in> A \<or> sat (get_active s) (usable_keys s) A (get_active s i))"
  proof (cases "List.member (approved_by s) i")
    case True
    then show ?thesis using a by (auto simp: check_account_def approvals_ok_def approving_def sat_def)
  next
    case False
    then have "check_got (get_active s i) s = Inr (ok, s')" using a by (simp add: check_account_def)
    then show ?thesis using sound_check_got [of A "get_active s i"] a(2) by (auto simp: sound_check_def)
  qed
qed

lemma sound_or_check:
  assumes "sound_check A f Q" "sound_check A h R"
  shows "sound_check A (or_check f h) (\<lambda>g K. Q g K \<or> R g K)"
  unfolding sound_check_def
proof (intro allI impI)
  fix s ok s' assume a: "or_check f h s = Inr (ok, s')" "approvals_ok A s"
  obtain b t where bt: "f s = Inr (b, t)" using a(1) by (auto simp: or_check_def bindE_Inr_iff)
  have 1: "same_context s t \<and> approvals_ok A t \<and> (b \<longrightarrow> Q (get_active s) (usable_keys s))"
    using assms(1) bt a(2) unfolding sound_check_def by blast
  show "same_context s s' \<and> approvals_ok A s' \<and> (ok \<longrightarrow> Q (get_active s) (usable_keys s) \<or> R (get_active s) (usable_keys s))"
  proof (cases b)
    case False
    then have "h t = Inr (ok, s')" using a(1) bt by (simp add: or_check_def)
    then have "same_context t s' \<and> approvals_ok A s' \<and> (ok \<longrightarrow> R (get_active t) (usable_keys t))"
      using assms(2) 1 unfolding sound_check_def by blast
    then show ?thesis using 1 same_context_trans by (auto simp: same_context_def)
  qed (use a(1) bt 1 in \<open>auto simp: or_check_def\<close>)
qed

lemma check_all_sound:
  assumes "\<And>x. sound_check A (f x) (Q x)" "check_all f xs s = Inr s'" "approvals_ok A s"
  shows "same_context s s' \<and> approvals_ok A s' \<and> (\<forall>x \<in> set xs. Q x (get_active s) (usable_keys s))"
  using assms(2,3)
proof (induction xs arbitrary: s)
  case (Cons x xs)
  obtain b t where bt: "f x s = Inr (b, t)" using Cons.prems(1) by (auto simp: check_all_def bindE_Inr_iff)
  have 1: "same_context s t \<and> approvals_ok A t \<and> (b \<longrightarrow> Q x (get_active s) (usable_keys s))"
    using assms(1) [of x] bt Cons.prems(2) unfolding sound_check_def by blast
  have b: "b" "check_all f xs t = Inr s'" using Cons.prems(1) bt by (auto simp: check_all_def split: if_splits)
  from Cons.IH [OF b(2)] 1 b(1) show ?case using same_context_trans by (auto simp: same_context_def)
qed (simp add: check_all_def)

lemma approvals_ok_start:
  "approvals_ok A ((mk_sign_state sigs g [])\<lparr>max_recursion := m\<rparr>)" if "''temp'' \<in> A"
  using that by (simp add: approvals_ok_def mk_sign_state_def approving_def)

lemma approvals_ok_approve: "approvals_ok A s \<Longrightarrow> set ids \<subseteq> A \<Longrightarrow> approvals_ok A (approve ids s)"
  by (auto simp: approvals_ok_def approve_def approving_def usable_keys_def)

lemma approve_context [simp]: "get_active (approve ids s) = get_active s" "usable_keys (approve ids s) = usable_keys s"
  by (simp_all add: approve_def usable_keys_def)

lemma start_context [simp]:
  "get_active ((mk_sign_state sigs g [])\<lparr>max_recursion := m\<rparr>) = g"
  "usable_keys ((mk_sign_state sigs g [])\<lparr>max_recursion := m\<rparr>) = set sigs"
  by (simp_all add: mk_sign_state_def usable_keys_def image_image)

lemma sound_check_owner: "sound_check A (check_owner g oa i) (\<lambda>g' K. i \<in> set oa \<or> sat g' K A (g_owner g i))"
  using sound_check_got [of A "g_owner g i"] by (auto simp: sound_check_def check_owner_def)

section \<open>Account names follow the documented grammar\<close>

text \<open>Dot-separated labels, and the rules each label obeys.\<close>

fun split_dots :: "string \<Rightarrow> string list" where
  "split_dots [] = [[]]"
| "split_dots (c # cs) =
     (if c = CHR ''.'' then [] # split_dots cs
      else (case split_dots cs of l # ls \<Rightarrow> (c # l) # ls | [] \<Rightarrow> [[c]]))"

definition label_ok :: "string \<Rightarrow> bool" where
  "label_ok l \<longleftrightarrow> length l \<ge> 3 \<and> is_letter (hd l) \<and> (is_letter (last l) \<or> is_digit (last l)) \<and>
     (\<forall>c \<in> set l. is_letter c \<or> is_digit c \<or> c = CHR ''-'')"

lemma split_dots_takeWhile:
  "split_dots s = takeWhile (\<lambda>c. c \<noteq> CHR ''.'') s #
     (case dropWhile (\<lambda>c. c \<noteq> CHR ''.'') s of [] \<Rightarrow> [] | _ # r \<Rightarrow> split_dots r)"
  by (induction s) (auto split: list.splits)

lemma label_check_iff:
  assumes "bgn \<le> e" "e \<le> length name"
  shows "label_check name bgn e \<longleftrightarrow> label_ok (take (e - bgn) (drop bgn name))"
proof -
  let ?l = "take (e - bgn) (drop bgn name)"
  have len: "length ?l = e - bgn" using assms by simp
  have nth: "?l ! k = name ! (bgn + k)" if "k < e - bgn" for k using that assms by simp
  show ?thesis
  proof (cases "e - bgn < 3")
    case True
    then show ?thesis by (simp add: label_check_def label_ok_def len)
  next
    case False
    then have ne: "?l \<noteq> []" using len by (metis length_0_conv less_numeral_extra(1) linorder_not_less not_less_zero numeral_3_eq_3 zero_less_Suc)
    have h: "hd ?l = name ! bgn" using ne nth [of 0] False by (simp add: hd_conv_nth)
    have l: "last ?l = name ! (e - 1)"
      using ne nth [of "e - bgn - 1"] False assms len by (simp add: last_conv_nth)
    have "(\<forall>c \<in> set ?l. P c) \<longleftrightarrow> P (name ! bgn) \<and> P (name ! (e - 1)) \<and> (\<forall>i \<in> {bgn + 1..<e - 1}. P (name ! i))" for P
    proof -
      have "(\<forall>c \<in> set ?l. P c) \<longleftrightarrow> (\<forall>k < e - bgn. P (name ! (bgn + k)))"
        using nth len by (metis in_set_conv_nth)
      also have "\<dots> \<longleftrightarrow> (\<forall>i \<in> {bgn..<e}. P (name ! i))"
        using assms(1) by (auto simp: less_diff_conv2) (metis add_diff_inverse_nat diff_less_mono linorder_not_less)
      also have "{bgn..<e} = insert bgn (insert (e - 1) {bgn + 1..<e - 1})" using False by auto
      finally show ?thesis by simp
    qed
    then show ?thesis using False len h l by (auto simp: label_check_def label_ok_def list_all_iff)
  qed
qed

lemma name_loop_iff:
  "bgn \<le> length name \<Longrightarrow> name_loop name bgn \<longleftrightarrow> list_all label_ok (split_dots (drop bgn name))"
proof (induction name bgn rule: name_loop.induct)
  case (1 name bgn)
  let ?t = "takeWhile (\<lambda>c. c \<noteq> CHR ''.'') (drop bgn name)"
  define e where "e = (case find_first_of CHR ''.'' name bgn of None \<Rightarrow> length name | Some e \<Rightarrow> e)"
  have tl: "bgn + length ?t \<le> length name"
    using length_takeWhile_le [of "\<lambda>c. c \<noteq> CHR ''.''" "drop bgn name"] 1(2) by simp
  have e: "e = bgn + length ?t" using tl by (auto simp: e_def find_first_of_def Let_def)
  have t: "take (e - bgn) (drop bgn name) = ?t" by (simp add: e takeWhile_eq_take [symmetric])
  have dw: "dropWhile (\<lambda>c. c \<noteq> CHR ''.'') (drop bgn name) = drop e name"
    by (simp add: e dropWhile_eq_drop add.commute)
  have lc: "label_check name bgn e \<longleftrightarrow> label_ok ?t" using label_check_iff [of bgn e name] e tl t by simp
  show ?case
  proof (cases "e = length name")
    case True
    then show ?thesis using lc by (subst name_loop.simps, subst split_dots_takeWhile) (simp add: e_def [symmetric] dw Let_def)
  next
    case False
    then have lt: "e < length name" using e tl by simp
    then have d: "drop e name = name ! e # drop (e + 1) name" by (simp add: Cons_nth_drop_Suc)
    have "name_loop name bgn \<longleftrightarrow> label_ok ?t \<and> name_loop name (e + 1)"
      using lc False by (subst name_loop.simps) (simp add: e_def [symmetric] Let_def)
    also have "label_ok ?t \<and> name_loop name (e + 1) \<longleftrightarrow> label_ok ?t \<and> list_all label_ok (split_dots (drop (e + 1) name))"
      using 1(1) [OF e_def] lc False lt by auto
    also have "\<dots> \<longleftrightarrow> list_all label_ok (split_dots (drop bgn name))"
      by (subst (2) split_dots_takeWhile) (simp add: dw d)
    finally show ?thesis .
  qed
qed

section \<open>Properties\<close>

text \<open>Property C30. A name is valid exactly when it has 3 to 16 characters and each of its dot-separated labels obeys
  the documented rules: three characters or more, a letter first, a letter or digit last, only lower-case
  letters, digits and hyphens.\<close>

theorem account_name_grammar:
  "is_valid_account_name name \<longleftrightarrow>
     3 \<le> length name \<and> length name \<le> 16 \<and> (\<forall>l \<in> set (split_dots name). label_ok l)"
  using name_loop_iff [of 0 name]
  by (auto simp: is_valid_account_name_def MUSE_MIN_ACCOUNT_NAME_LENGTH_def MUSE_MAX_ACCOUNT_NAME_LENGTH_def list_all_iff)

theorem account_name_grammar_witness: "is_valid_account_name ''bob.alice-1'' \<and> \<not> is_valid_account_name ''bob.al''"
  unfolding account_name_grammar by (simp add: label_ok_def is_letter_def is_digit_def)

text \<open>Property C8. When \<open>check_authority\<close> accepts, the authority is satisfied: keys that signed (or are available)
  and accounts that approved, directly or through their own satisfied active authority, carry at least
  the threshold weight. This holds for every recursion limit and whatever was cached before.\<close>

theorem check_authority_sound:
  assumes "check_authority au s = Inr (True, s')" "approvals_ok A s"
  shows "\<exists>a. au = Some a \<and> satisfied (get_active s) (usable_keys s) A a"
  using check_sound(1) [OF _ assms(2)] assms(1) unfolding check_authority_def by blast

definition demo_auth :: authority where
  "demo_auth = \<lparr>weight_threshold = 2, account_auths = [(''alice'', 1)], key_auths = [(7, 1)]\<rparr>"

definition demo_alice :: authority where
  "demo_alice = \<lparr>weight_threshold = 1, account_auths = [], key_auths = [(9, 1)]\<rparr>"

definition demo_getter :: authority_getter where
  "demo_getter n = (if n = ''alice'' then Inr (Some demo_alice) else Inl Assert_exn)"

lemmas check_eval = check_authority_def check_got_def mk_sign_state_def signed_by_def table_update_def

theorem check_authority_sound_witness:
  "\<exists>a. Some demo_auth = Some a \<and> satisfied demo_getter {7, 9} {''temp''} a"
proof -
  let ?s = "mk_sign_state [7, 9] demo_getter []"
  have "\<exists>s'. check_authority (Some demo_auth) ?s = Inr (True, s')"
    by (simp add: check_eval demo_auth_def demo_getter_def demo_alice_def numeral_2_eq_2)
  then obtain s' where "check_authority (Some demo_auth) ?s = Inr (True, s')" ..
  moreover have "approvals_ok {''temp''} ?s" by (simp add: approvals_ok_def mk_sign_state_def approving_def)
  moreover have "get_active ?s = demo_getter" "usable_keys ?s = {7, 9}"
    by (auto simp: mk_sign_state_def usable_keys_def)
  ultimately show ?thesis using check_authority_sound by metis
qed

text \<open>Property C9. A transaction that \<open>verify_authority_v2\<close> accepts is authorised: every explicit authority, content
  authority and owner authority it needs is satisfied by its signatures and approvals, and every account
  whose active or basic authority it needs approved or has its active or owner authority satisfied.\<close>

theorem verify_authority_v2_sound:
  assumes "verify_authority_v2 req sigs g allow_extra max_rec aa oa ba = Inr ()"
    and "A = {''temp''} \<union> set aa \<union> set oa \<union> set ba"
  shows "(\<forall>a \<in> set (req_other req). sat (g_active g) (set sigs) A (Inr (Some a))) \<and>
    (\<forall>i \<in> set (req_active req) \<union> set (req_basic req).
       i \<in> A \<or> sat (g_active g) (set sigs) A (g_active g i) \<or> sat (g_active g) (set sigs) A (g_owner g i)) \<and>
    (\<forall>c \<in> set (req_master_content req). sat (g_active g) (set sigs) A (g_master_content g c)) \<and>
    (\<forall>c \<in> set (req_comp_content req). sat (g_active g) (set sigs) A (g_comp_content g c)) \<and>
    (\<forall>i \<in> set (req_owner req). i \<in> set oa \<or> sat (g_active g) (set sigs) A (g_owner g i))"
proof -
  let ?s0 = "approve oa (approve aa (approve ba ((mk_sign_state sigs (g_active g) [])\<lparr>max_recursion := max_rec\<rparr>)))"
  let ?basic = "filter (\<lambda>x. \<not> List.member (req_active req) x \<and> \<not> List.member (req_owner req) x) (req_basic req)"
  have a0: "approvals_ok A ?s0"
    using assms(2) by (auto intro!: approvals_ok_approve approvals_ok_start)
  have c0: "get_active ?s0 = g_active g" "usable_keys ?s0 = set sigs" by simp_all
  from assms(1) obtain s1 s2 s3 s4 s5 s6 where
    r1: "check_all (\<lambda>a. check_authority (Some a)) (req_other req) ?s0 = Inr s1" and
    r2: "check_all (\<lambda>i. or_check (check_account i)
          (or_check (check_got (g_active g i)) (check_got (g_owner g i)))) ?basic s1 = Inr s2" and
    r3: "check_all (\<lambda>i. or_check (check_account i) (check_got (g_owner g i))) (req_active req) s2 = Inr s3" and
    r4: "check_all (\<lambda>c. check_got (g_master_content g c)) (req_master_content req) s3 = Inr s4" and
    r5: "check_all (\<lambda>c. check_got (g_comp_content g c)) (req_comp_content req) s4 = Inr s5" and
    r6: "check_all (check_owner g oa) (req_owner req) s5 = Inr s6"
    unfolding verify_authority_v2_def Let_def bindE_Inr_iff guardE_Inr_iff by blast
  note snd = sound_check_got sound_check_account sound_or_check sound_check_owner
  note 1 = check_all_sound [OF sound_check_authority r1 a0]
  note 2 = check_all_sound [OF snd(3) [OF snd(2) snd(3) [OF snd(1) snd(1)]] r2 conjunct1 [OF conjunct2 [OF 1]]]
  note 3 = check_all_sound [OF snd(3) [OF snd(2) snd(1)] r3 conjunct1 [OF conjunct2 [OF 2]]]
  note 4 = check_all_sound [OF snd(1) r4 conjunct1 [OF conjunct2 [OF 3]]]
  note 5 = check_all_sound [OF snd(1) r5 conjunct1 [OF conjunct2 [OF 4]]]
  note 6 = check_all_sound [OF snd(4) r6 conjunct1 [OF conjunct2 [OF 5]]]
  have c: "get_active s1 = g_active g" "usable_keys s1 = set sigs" "get_active s2 = g_active g" "usable_keys s2 = set sigs"
      "get_active s3 = g_active g" "usable_keys s3 = set sigs" "get_active s4 = g_active g" "usable_keys s4 = set sigs"
      "get_active s5 = g_active g" "usable_keys s5 = set sigs"
    using 1 2 3 4 5 c0 by (simp_all add: same_context_def)
  have o: "\<forall>a \<in> set (req_other req). sat (g_active g) (set sigs) A (Inr (Some a))"
    and act: "\<forall>i \<in> set (req_active req).
      i \<in> A \<or> sat (g_active g) (set sigs) A (g_active g i) \<or> sat (g_active g) (set sigs) A (g_owner g i)"
    and bas: "\<forall>i \<in> set ?basic.
      i \<in> A \<or> sat (g_active g) (set sigs) A (g_active g i) \<or> sat (g_active g) (set sigs) A (g_owner g i)"
    and own: "\<forall>i \<in> set (req_owner req). i \<in> set oa \<or> sat (g_active g) (set sigs) A (g_owner g i)"
    and mc: "\<forall>x \<in> set (req_master_content req). sat (g_active g) (set sigs) A (g_master_content g x)"
    and cc: "\<forall>x \<in> set (req_comp_content req). sat (g_active g) (set sigs) A (g_comp_content g x)"
    using 1 2 3 4 5 6 unfolding c c0 by blast+
  have "i \<in> A \<or> sat (g_active g) (set sigs) A (g_active g i) \<or> sat (g_active g) (set sigs) A (g_owner g i)"
    if "i \<in> set (req_basic req)" for i
  proof (cases "i \<in> set (req_active req) \<or> i \<in> set (req_owner req)")
    case True
    then show ?thesis using act own assms(2) by blast
  qed (use bas that in simp)
  then show ?thesis using o act own mc cc by blast
qed

definition demo_getters :: getters where
  "demo_getters = \<lparr>g_active = demo_getter, g_owner = (\<lambda>_. Inr (Some (demo_alice\<lparr>key_auths := [(3, 1)]\<rparr>))),
     g_basic = (\<lambda>n. if n = ''alice'' then Inr (Some (demo_alice\<lparr>key_auths := [(5, 1)]\<rparr>)) else Inl Assert_exn),
     g_master_content = (\<lambda>_. Inl Assert_exn), g_comp_content = (\<lambda>_. Inl Assert_exn)\<rparr>"

definition demo_req :: "string list \<Rightarrow> string list \<Rightarrow> required_auths" where
  "demo_req act bas = \<lparr>req_active = act, req_owner = [], req_basic = bas, req_master_content = [],
     req_comp_content = [], req_other = []\<rparr>"

lemmas verify_eval = verify_authority_v1_def verify_authority_v2_def demo_req_def demo_getters_def demo_getter_def
  demo_alice_def check_all_def or_check_def check_account_def approve_def no_unused_def remove_unused_signatures_def
  check_eval

theorem verify_authority_v2_sound_witness:
  "sat demo_getter {9} {''temp''} (demo_getter ''alice'') \<or> sat demo_getter {9} {''temp''} (g_owner demo_getters ''alice'')"
proof -
  have "verify_authority_v2 (demo_req [''alice''] []) [9] demo_getters False 2 [] [] [] = Inr ()"
    by (simp add: verify_eval)
  from verify_authority_v2_sound [OF this refl] show ?thesis
    by (auto simp: demo_req_def demo_getters_def)
qed

text \<open>Version 2 never looks at basic authorities: an operation that needs only the basic authority of
  an account, signed with the key of that authority, is accepted by version 1 and refused by version 2.\<close>

theorem basic_authority_refused_by_v2:
  "verify_authority_v1 (demo_req [] [''alice'']) [5] demo_getters 2 [] [] [] = Inr () \<and>
   verify_authority_v2 (demo_req [] [''alice'']) [5] demo_getters False 2 [] [] [] = Inl Missing_auth_exn \<and>
   verify_authority_v2 req sigs (g\<lparr>g_basic := b\<rparr>) allow_extra max_rec aa oa ba =
     verify_authority_v2 req sigs g allow_extra max_rec aa oa ba"
proof (intro conjI)
  show "verify_authority_v1 (demo_req [] [''alice'']) [5] demo_getters 2 [] [] [] = Inr ()"
    "verify_authority_v2 (demo_req [] [''alice'']) [5] demo_getters False 2 [] [] [] = Inl Missing_auth_exn"
    by (simp_all add: verify_eval)
  have "check_owner (g\<lparr>g_basic := b\<rparr>) = check_owner g" by (simp add: fun_eq_iff check_owner_def)
  then show "verify_authority_v2 req sigs (g\<lparr>g_basic := b\<rparr>) allow_extra max_rec aa oa ba =
     verify_authority_v2 req sigs g allow_extra max_rec aa oa ba"
    by (simp add: verify_authority_v2_def)
qed

end
