(* ===== verification/Operations.thy ===== *)
theory Operations
  imports Assets Authority Blocks "HOL-Library.Char_ord" "HOL-Library.List_Lexorder"
begin

text \<open>
  The operations of the protocol (\<open>protocol/base_operations.hpp\<close>, \<open>protocol/muse_operations.hpp\<close>,
  \<open>protocol/asset_ops.hpp\<close>, \<open>protocol/proposal.hpp\<close>, \<open>protocol/operations.hpp\<close>): one record per operation, the
  variant over them, and transactions. A \<open>flat_set\<close> is a sorted list without repetitions, an \<open>extensions\<close> field that no
  code reads is left out. Times are seconds since the epoch as natural numbers.
\<close>

type_synonym time_sec = nat

definition time_max :: time_sec where "time_max = 2 ^ 32 - 1"

definition MUSE_100_PERCENT :: int where "MUSE_100_PERCENT = 10000"
definition MUSE_MAX_SHARE_SUPPLY :: share where "MUSE_MAX_SHARE_SUPPLY = 30000000000000"

section \<open>Accounts and transfers\<close>

record account_create_operation =
  ac_fee :: asset
  ac_creator :: string
  ac_new_account_name :: string
  ac_owner :: authority
  ac_active :: authority
  ac_basic :: authority
  ac_memo_key :: public_key
  ac_json_metadata :: string

record account_update_operation =
  au_account :: string
  au_owner :: "authority option"
  au_active :: "authority option"
  au_basic :: "authority option"
  au_memo_key :: public_key
  au_json_metadata :: string

record challenge_authority_operation =
  ca_challenger :: string
  ca_challenged :: string
  ca_require_owner :: bool

record prove_authority_operation =
  pa_challenged :: string
  pa_require_owner :: bool

record transfer_operation =
  tr_from :: string
  tr_to :: string
  tr_amount :: asset
  tr_memo :: string

record escrow_transfer_operation =
  et_from :: string
  et_to :: string
  et_amount :: asset
  et_memo :: string
  et_escrow_id :: nat
  et_agent :: string
  et_fee :: asset
  et_json_meta :: string
  et_expiration :: time_sec

record escrow_dispute_operation =
  ed_from :: string
  ed_to :: string
  ed_escrow_id :: nat
  ed_who :: string

record escrow_release_operation =
  er_from :: string
  er_escrow_id :: nat
  er_to :: string
  er_who :: string
  er_amount :: asset

record transfer_to_vesting_operation =
  tv_from :: string
  tv_to :: string
  tv_amount :: asset

record withdraw_vesting_operation =
  wd_account :: string
  wd_vesting_shares :: asset

record set_withdraw_vesting_route_operation =
  sr_from_account :: string
  sr_to_account :: string
  sr_percent :: nat
  sr_auto_vest :: bool

section \<open>Witnesses, votes, feeds and orders\<close>

record chain_properties =
  cp_account_creation_fee :: asset
  cp_streaming_platform_update_fee :: asset
  cp_maximum_block_size :: nat
  cp_mbd_interest_rate :: nat

record witness_update_operation =
  wu_owner :: string
  wu_url :: string
  wu_block_signing_key :: public_key
  wu_props :: chain_properties
  wu_fee :: asset

record account_witness_vote_operation =
  awv_account :: string
  awv_witness :: string
  awv_approve :: bool

record account_witness_proxy_operation =
  awp_account :: string
  awp_proxy :: string

record custom_operation =
  cu_required_auths :: "string list"
  cu_id :: nat
  cu_data :: "8 word list"

record custom_json_operation =
  cj_required_auths :: "string list"
  cj_required_basic_auths :: "string list"
  cj_id :: string
  cj_json :: string

record feed_publish_operation =
  fp_publisher :: string
  fp_exchange_rate :: price

record convert_operation =
  cv_owner :: string
  cv_requestid :: nat
  cv_amount :: asset

record limit_order_create_operation =
  lc_owner :: string
  lc_orderid :: nat
  lc_amount_to_sell :: asset
  lc_min_to_receive :: asset
  lc_fill_or_kill :: bool
  lc_expiration :: time_sec

text \<open>\<open>amount_to_sell / min_to_receive\<close>; \<open>price operator /\<close> refuses two amounts of one asset.\<close>

definition lc_get_price :: "limit_order_create_operation \<Rightarrow> price res" where
  "lc_get_price o1 = asset_div_asset (lc_amount_to_sell o1) (lc_min_to_receive o1)"

record limit_order_create2_operation =
  lc2_owner :: string
  lc2_orderid :: nat
  lc2_amount_to_sell :: asset
  lc2_fill_or_kill :: bool
  lc2_exchange_rate :: price
  lc2_expiration :: time_sec

record limit_order_cancel_operation =
  lx_owner :: string
  lx_orderid :: nat

record report_over_production_operation =
  ro_reporter :: string
  ro_first_block :: "unit signed_block"
  ro_second_block :: "unit signed_block"

section \<open>Account recovery\<close>

record request_account_recovery_operation =
  rr_recovery_account :: string
  rr_account_to_recover :: string
  rr_new_owner_authority :: authority

record recover_account_operation =
  ra_account_to_recover :: string
  ra_new_owner_authority :: authority
  ra_recent_owner_authority :: authority

record change_recovery_account_operation =
  cr_op_account_to_recover :: string
  cr_op_new_recovery_account :: string

section \<open>Content and streaming platforms\<close>

record distribution =
  dist_payee :: string
  dist_bp :: nat

record management_vote =
  mv_voter :: string
  mv_percentage :: nat

record content_metadata_album_master =
  am_part_of_album :: bool
  am_album_title :: string
  am_album_artist :: "string list"
  am_genre_1 :: nat
  am_genre_2 :: "nat option"
  am_country_of_origin :: string
  am_explicit :: nat
  am_p_line :: string
  am_c_line :: string
  am_upc_or_ean :: nat
  am_release_date :: nat
  am_release_year :: nat
  am_sales_start_date :: nat
  am_album_producer :: "string option"
  am_album_type :: "string option"
  am_master_label_name :: string
  am_display_label_name :: string

record track_artist =
  ta_artist :: string
  ta_aliases :: "string list option"
  ta_ISNI :: "nat option"

record content_metadata_track_master =
  tm_track_title :: string
  tm_ISRC :: string
  tm_track_artists :: "track_artist list"
  tm_featured_artist :: "string option"
  tm_featured_artist_ISNI :: "nat option"
  tm_track_producer :: "string option"
  tm_genre_1 :: nat
  tm_genre_2 :: "nat option"
  tm_p_line :: string
  tm_track_no :: nat
  tm_track_volume :: nat
  tm_json_metadata :: "string option"
  tm_track_duration :: nat
  tm_samples :: bool

record publisher =
  pub_publisher :: string
  pub_IPI_CAE :: "string option"
  pub_ISNI :: "nat option"

record writer =
  wri_writer :: string
  wri_IPI_CAE :: "string option"
  wri_ISNI :: "nat option"
  wri_role :: "nat option"
  wri_publisher :: string

record content_metadata_publisher =
  pm_composition_title :: string
  pm_alternate_composition_title :: "string option"
  pm_ISWC :: "string option"
  pm_third_party_publishers :: bool
  pm_publishers :: "publisher list"
  pm_writers :: "writer list"
  pm_PRO :: string

record content_operation =
  co_uploader :: string
  co_url :: string
  co_album_meta :: content_metadata_album_master
  co_track_meta :: content_metadata_track_master
  co_comp_meta :: content_metadata_publisher
  co_distributions :: "distribution list"
  co_management :: "management_vote list"
  co_management_threshold :: nat
  co_management_comp :: "management_vote list option"
  co_distributions_comp :: "distribution list option"
  co_management_threshold_comp :: "nat option"
  co_playing_reward :: nat
  co_publishers_share :: nat

record content_update_operation =
  cup_side :: nat
  cup_url :: string
  cup_album_meta :: "content_metadata_album_master option"
  cup_track_meta :: "content_metadata_track_master option"
  cup_comp_meta :: "content_metadata_publisher option"
  cup_new_distributions :: "distribution list"
  cup_new_management :: "management_vote list"
  cup_new_threshold :: nat
  cup_new_playing_reward :: nat
  cup_new_publishers_share :: nat

text \<open>\<open>content_update_operation::side_t\<close>.\<close>

definition side_master :: nat where "side_master = 0"
definition side_publisher :: nat where "side_publisher = 1"

record content_disable_operation = cd_url :: string

record content_approve_operation =
  cap_approver :: string
  cap_url :: string

record friendship_operation =
  fr_who :: string
  fr_whom :: string

record unfriend_operation =
  uf_who :: string
  uf_whom :: string

record streaming_platform_update_operation =
  spu_owner :: string
  spu_url :: string
  spu_fee :: asset

record account_streaming_platform_vote_operation =
  asv_account :: string
  asv_streaming_platform :: string
  asv_approve :: bool

record streaming_platform_report_operation =
  spr_streaming_platform :: string
  spr_consumer :: string
  spr_content :: string
  spr_play_time :: nat
  spr_playlist_creator :: string

record vote_operation =
  vo_voter :: string
  vo_url :: string
  vo_weight :: int

record balance_claim_operation =
  bc_deposit_to_account :: string
  bc_balance_to_claim :: nat
  bc_balance_owner_key :: public_key
  bc_total_claimed :: asset

section \<open>User-issued assets\<close>

record asset_options =
  ao_max_supply :: share
  ao_market_fee_percent :: nat
  ao_max_market_fee :: share
  ao_issuer_permissions :: "16 word"
  ao_flags :: "16 word"
  ao_description :: string

record asset_create_operation =
  acr_issuer :: string
  acr_symbol :: string
  acr_precision :: nat
  acr_common_options :: asset_options

record asset_update_operation =
  aup_issuer :: string
  aup_asset_to_update :: asset_id
  aup_new_issuer :: "string option"
  aup_new_options :: asset_options

record asset_issue_operation =
  ais_issuer :: string
  ais_asset_to_issue :: asset
  ais_issue_to_account :: string

record asset_reserve_operation =
  ars_issuer :: string
  ars_payer :: string
  ars_amount_to_reserve :: asset

section \<open>Proposals\<close>

record proposal_update_operation =
  pu_proposal :: nat
  pu_active_approvals_to_add :: "string list"
  pu_active_approvals_to_remove :: "string list"
  pu_owner_approvals_to_add :: "string list"
  pu_owner_approvals_to_remove :: "string list"
  pu_key_approvals_to_add :: "public_key list"
  pu_key_approvals_to_remove :: "public_key list"

datatype authority_type = Type_owner | Type_active | Type_basic | Type_other

record proposal_delete_operation =
  pd_type :: authority_type
  pd_proposal :: nat
  pd_vetoer :: string

section \<open>The variant\<close>

text \<open>The operations the database itself pushes to the log of applied operations.\<close>

datatype virtual_op =
    Interest string asset
  | Fill_order string nat asset string nat asset
  | Fill_vesting_withdraw string string asset asset
  | Content_reward string string asset asset
  | Playing_reward string string asset asset
  | Curate_reward string string asset asset
  | Fill_convert_request string nat asset asset
  | Liquidity_reward string asset

text \<open>\<open>proposal_create_operation\<close> holds operations and is the one constructor with its fields in place:
  expiration, operations, review period.\<close>

datatype operation =
    Vote vote_operation
  | Content content_operation
  | Content_update content_update_operation
  | Content_approve content_approve_operation
  | Content_disable content_disable_operation
  | Transfer transfer_operation
  | Transfer_to_vesting transfer_to_vesting_operation
  | Withdraw_vesting withdraw_vesting_operation
  | Limit_order_create limit_order_create_operation
  | Limit_order_create2 limit_order_create2_operation
  | Limit_order_cancel limit_order_cancel_operation
  | Feed_publish feed_publish_operation
  | Convert convert_operation
  | Account_create account_create_operation
  | Account_update account_update_operation
  | Witness_update witness_update_operation
  | Account_witness_vote account_witness_vote_operation
  | Account_witness_proxy account_witness_proxy_operation
  | Streaming_platform_update streaming_platform_update_operation
  | Account_streaming_platform_vote account_streaming_platform_vote_operation
  | Streaming_platform_report streaming_platform_report_operation
  | Asset_create asset_create_operation
  | Asset_update asset_update_operation
  | Asset_issue asset_issue_operation
  | Asset_reserve asset_reserve_operation
  | Custom custom_operation
  | Report_over_production report_over_production_operation
  | Custom_json custom_json_operation
  | Set_withdraw_vesting_route set_withdraw_vesting_route_operation
  | Challenge_authority challenge_authority_operation
  | Prove_authority prove_authority_operation
  | Request_account_recovery request_account_recovery_operation
  | Recover_account recover_account_operation
  | Change_recovery_account change_recovery_account_operation
  | Escrow_transfer escrow_transfer_operation
  | Escrow_dispute escrow_dispute_operation
  | Escrow_release escrow_release_operation
  | Proposal_create time_sec "operation list" "nat option"
  | Proposal_update proposal_update_operation
  | Proposal_delete proposal_delete_operation
  | Virtual virtual_op
  | Friendship friendship_operation
  | Unfriend unfriend_operation
  | Balance_claim balance_claim_operation

record transaction =
  tx_ref_block_num :: nat
  tx_ref_block_prefix :: nat
  tx_expiration :: time_sec
  tx_operations :: "operation list"

record signed_transaction = transaction +
  tx_signatures :: "nat list"

section \<open>Classification\<close>

fun is_market_operation :: "operation \<Rightarrow> bool" where
  "is_market_operation (Limit_order_create _) = True"
| "is_market_operation (Limit_order_cancel _) = True"
| "is_market_operation (Transfer _) = True"
| "is_market_operation (Transfer_to_vesting _) = True"
| "is_market_operation _ = False"

fun is_proposal_operation :: "operation \<Rightarrow> bool" where
  "is_proposal_operation (Proposal_create _ _ _) = True"
| "is_proposal_operation _ = False"

section \<open>Required authorities\<close>

text \<open>What one operation adds to the sets of required authorities: each \<open>get_required_*\<close> member inserts into a
  \<open>flat_set\<close>.\<close>

definition ins :: "'a::linorder list \<Rightarrow> 'a list \<Rightarrow> 'a list" where "ins new old = fold insort_insert new old"

definition no_auths :: required_auths where
  "no_auths = \<lparr>req_active = [], req_owner = [], req_basic = [], req_master_content = [], req_comp_content = [], req_other = []\<rparr>"

definition need_active :: "string list \<Rightarrow> required_auths" where "need_active ns = no_auths\<lparr>req_active := ns\<rparr>"
definition need_owner :: "string list \<Rightarrow> required_auths" where "need_owner ns = no_auths\<lparr>req_owner := ns\<rparr>"
definition need_basic :: "string list \<Rightarrow> required_auths" where "need_basic ns = no_auths\<lparr>req_basic := ns\<rparr>"

definition key_approval_authority :: "proposal_update_operation \<Rightarrow> authority" where
  "key_approval_authority o1 =
     (let ks = ins (pu_key_approvals_to_remove o1) (ins (pu_key_approvals_to_add o1) []) in
      \<lparr>weight_threshold = word_of_nat (length ks), account_auths = [], key_auths = map (\<lambda>k. (k, 1)) ks\<rparr>)"

definition content_update_auths :: "content_update_operation \<Rightarrow> required_auths" where
  "content_update_auths o1 =
     (let shares = cup_new_playing_reward o1 \<noteq> 0 \<or> cup_new_publishers_share o1 \<noteq> 0 in
      no_auths
      \<lparr>req_master_content := (if cup_side o1 = side_master \<or> shares then [cup_url o1] else []),
       req_comp_content := (if cup_side o1 = side_publisher \<or> shares then [cup_url o1] else [])\<rparr>)"

definition custom_json_auths :: "custom_json_operation \<Rightarrow> required_auths" where
  "custom_json_auths o1 = no_auths\<lparr>req_active := cj_required_auths o1, req_basic := cj_required_basic_auths o1\<rparr>"

definition proposal_update_auths :: "proposal_update_operation \<Rightarrow> required_auths" where
  "proposal_update_auths o1 = no_auths
     \<lparr>req_active := pu_active_approvals_to_add o1 @ pu_active_approvals_to_remove o1,
      req_owner := pu_owner_approvals_to_add o1 @ pu_owner_approvals_to_remove o1,
      req_other := [key_approval_authority o1]\<rparr>"

definition proposal_delete_auths :: "proposal_delete_operation \<Rightarrow> required_auths" where
  "proposal_delete_auths o1 =
     (case pd_type o1 of Type_active \<Rightarrow> need_active [pd_vetoer o1] | Type_owner \<Rightarrow> need_owner [pd_vetoer o1]
      | Type_basic \<Rightarrow> need_basic [pd_vetoer o1] | Type_other \<Rightarrow> no_auths)"

definition balance_claim_auths :: "balance_claim_operation \<Rightarrow> required_auths" where
  "balance_claim_auths o1 =
     no_auths\<lparr>req_other := [\<lparr>weight_threshold = 100, account_auths = [], key_auths = [(bc_balance_owner_key o1, 100)]\<rparr>]\<rparr>"

fun operation_auths :: "operation \<Rightarrow> required_auths" where
  "operation_auths (Vote x) = need_basic [vo_voter x]"
| "operation_auths (Content x) = need_active [co_uploader x]"
| "operation_auths (Content_update x) = content_update_auths x"
| "operation_auths (Content_approve x) = need_basic [cap_approver x]"
| "operation_auths (Content_disable x) = no_auths\<lparr>req_master_content := [cd_url x]\<rparr>"
| "operation_auths (Transfer x) = (if asset_id (tr_amount x) = VESTS_SYMBOL then need_owner [tr_from x] else need_active [tr_from x])"
| "operation_auths (Transfer_to_vesting x) = need_active [tv_from x]"
| "operation_auths (Withdraw_vesting x) = need_active [wd_account x]"
| "operation_auths (Limit_order_create x) = need_active [lc_owner x]"
| "operation_auths (Limit_order_create2 x) = need_active [lc2_owner x]"
| "operation_auths (Limit_order_cancel x) = need_active [lx_owner x]"
| "operation_auths (Feed_publish x) = need_active [fp_publisher x]"
| "operation_auths (Convert x) = need_active [cv_owner x]"
| "operation_auths (Account_create x) = need_active [ac_creator x]"
| "operation_auths (Account_update x) = (if au_owner x \<noteq> None then need_owner [au_account x] else need_active [au_account x])"
| "operation_auths (Witness_update x) = need_active [wu_owner x]"
| "operation_auths (Account_witness_vote x) = need_basic [awv_account x]"
| "operation_auths (Account_witness_proxy x) = need_basic [awp_account x]"
| "operation_auths (Streaming_platform_update x) = need_active [spu_owner x]"
| "operation_auths (Account_streaming_platform_vote x) = need_basic [asv_account x]"
| "operation_auths (Streaming_platform_report x) = need_active [spr_streaming_platform x]"
| "operation_auths (Asset_create x) = need_active [acr_issuer x]"
| "operation_auths (Asset_update x) = need_active [aup_issuer x]"
| "operation_auths (Asset_issue x) = need_active [ais_issuer x]"
| "operation_auths (Asset_reserve x) = need_active [ars_issuer x]"
| "operation_auths (Custom x) = need_active (cu_required_auths x)"
| "operation_auths (Report_over_production x) = no_auths"
| "operation_auths (Custom_json x) = custom_json_auths x"
| "operation_auths (Set_withdraw_vesting_route x) = need_active [sr_from_account x]"
| "operation_auths (Challenge_authority x) = need_active [ca_challenger x]"
| "operation_auths (Prove_authority x) = (if pa_require_owner x then need_owner [pa_challenged x] else need_active [pa_challenged x])"
| "operation_auths (Request_account_recovery x) = need_active [rr_recovery_account x]"
| "operation_auths (Recover_account x) = no_auths\<lparr>req_other := [ra_new_owner_authority x, ra_recent_owner_authority x]\<rparr>"
| "operation_auths (Change_recovery_account x) = need_owner [cr_op_account_to_recover x]"
| "operation_auths (Escrow_transfer x) = need_active [et_from x]"
| "operation_auths (Escrow_dispute x) = need_active [ed_who x]"
| "operation_auths (Escrow_release x) = need_active [er_who x]"
| "operation_auths (Proposal_create _ _ _) = no_auths"
| "operation_auths (Proposal_update x) = proposal_update_auths x"
| "operation_auths (Proposal_delete x) = proposal_delete_auths x"
| "operation_auths (Virtual _) = no_auths"
| "operation_auths (Friendship x) = need_basic [fr_who x]"
| "operation_auths (Unfriend x) = need_basic [uf_who x]"
| "operation_auths (Balance_claim x) = balance_claim_auths x"

text \<open>\<open>operation_get_required_authorities\<close> and \<open>transaction::get_required_authorities\<close>.\<close>

definition operation_get_required_authorities :: "operation \<Rightarrow> required_auths \<Rightarrow> required_auths" where
  "operation_get_required_authorities op r =
     (let a = operation_auths op in
      \<lparr>req_active = ins (req_active a) (req_active r), req_owner = ins (req_owner a) (req_owner r),
       req_basic = ins (req_basic a) (req_basic r), req_master_content = ins (req_master_content a) (req_master_content r),
       req_comp_content = ins (req_comp_content a) (req_comp_content r), req_other = req_other r @ req_other a\<rparr>)"

definition get_required_authorities :: "operation list \<Rightarrow> required_auths" where
  "get_required_authorities ops = fold operation_get_required_authorities ops no_auths"

text \<open>Evaluation on concrete states.\<close>

lemmas operations_eval [chain_eval] =
  time_max_def MUSE_100_PERCENT_def MUSE_MAX_SHARE_SUPPLY_def lc_get_price_def side_master_def side_publisher_def ins_def insort_insert_key_def less_char_def
  no_auths_def need_active_def need_owner_def need_basic_def key_approval_authority_def content_update_auths_def
  custom_json_auths_def proposal_update_auths_def proposal_delete_auths_def balance_claim_auths_def
  operation_get_required_authorities_def get_required_authorities_def

end
