(* ===== verification/Chain_State.thy ===== *)
theory Chain_State
  imports Operations
begin

text \<open>
  The objects the chain database keeps (\<open>account_object.hpp\<close>, \<open>witness_objects.hpp\<close>,
  \<open>streaming_platform_objects.hpp\<close>, \<open>content_object.hpp\<close>, \<open>base_objects.hpp\<close>,
  \<open>global_property_object.hpp\<close>, \<open>balance_object.hpp\<close>), the state of the chain as one record of
  tables, and the lookups of \<open>database.cpp\<close> by name. An \<open>asset\<close> field whose symbol its declaration
  fixes and no code assigns (a MUSE balance, a VESTS balance) is kept as the \<open>share_type\<close> amount;
  adding an asset to it checks the symbol, as \<open>asset::operator+=\<close> does. Times are seconds since the
  epoch as natural numbers.
\<close>

section \<open>Indexes\<close>

text \<open>A \<open>generic_index\<close>: objects by instance number in increasing order, and the next number.\<close>

record 'a index =
  rows :: "(nat, 'a) table"
  next_instance :: nat

definition idx_find :: "nat \<Rightarrow> 'a index \<Rightarrow> 'a option" where
  "idx_find k ix = map_of (rows ix) k"

definition idx_get :: "nat \<Rightarrow> 'a index \<Rightarrow> 'a res" where
  "idx_get k ix = getE (idx_find k ix)"

definition idx_create :: "'a \<Rightarrow> 'a index \<Rightarrow> 'a index" where
  "idx_create x ix = \<lparr>rows = rows ix @ [(next_instance ix, x)], next_instance = Suc (next_instance ix)\<rparr>"

text \<open>\<open>create\<close> in an index with further unique keys: \<open>clash\<close> says when two objects share one of them.\<close>

definition idx_insert :: "('a \<Rightarrow> 'a \<Rightarrow> bool) \<Rightarrow> 'a \<Rightarrow> 'a index \<Rightarrow> 'a index res" where
  "idx_insert clash x ix = guardE (list_all (\<lambda>(k, y). \<not> clash x y) (rows ix)) (Inr (idx_create x ix))"

definition idx_modify :: "nat \<Rightarrow> ('a \<Rightarrow> 'a res) \<Rightarrow> 'a index \<Rightarrow> 'a index res" where
  "idx_modify k f ix = bindE (idx_get k ix) (\<lambda>x. bindE (f x) (\<lambda>y. Inr (ix\<lparr>rows := table_update k y (rows ix)\<rparr>)))"

definition idx_remove :: "nat \<Rightarrow> 'a index \<Rightarrow> 'a index res" where
  "idx_remove k ix = bindE (idx_get k ix) (\<lambda>_. Inr (ix\<lparr>rows := table_delete k (rows ix)\<rparr>))"

text \<open>The first object, in id order, that satisfies a predicate: a lookup through a unique key.\<close>

definition idx_by :: "('a \<Rightarrow> bool) \<Rightarrow> 'a index \<Rightarrow> (nat \<times> 'a) option" where
  "idx_by P ix = find (\<lambda>(k, x). P x) (rows ix)"

definition index_ok :: "'a index \<Rightarrow> bool" where
  "index_ok ix \<longleftrightarrow> table_ok (rows ix) \<and> list_all (\<lambda>(k, x). k < next_instance ix) (rows ix)"

definition empty_index :: "'a index" where "empty_index = \<lparr>rows = [], next_instance = 0\<rparr>"

text \<open>The sum of a quantity over the objects of an index.\<close>

definition idx_sum :: "('a \<Rightarrow> int) \<Rightarrow> 'a index \<Rightarrow> int" where
  "idx_sum q ix = sum_list (map (\<lambda>(k, x). q x) (rows ix))"

section \<open>Objects\<close>

definition MUSE_MAX_PROXY_RECURSION_DEPTH :: nat where "MUSE_MAX_PROXY_RECURSION_DEPTH = 4"
definition MUSE_PROXY_TO_SELF_ACCOUNT :: string where "MUSE_PROXY_TO_SELF_ACCOUNT = ''''"
definition MUSE_BLOCK_INTERVAL :: nat where "MUSE_BLOCK_INTERVAL = 3"
definition MUSE_BLOCKS_PER_DAY :: nat where "MUSE_BLOCKS_PER_DAY = 24 * 60 * 60 div MUSE_BLOCK_INTERVAL"

record account_identity =
  acc_name :: string
  acc_owner :: authority
  acc_active :: authority
  acc_basic :: authority
  acc_memo_key :: public_key
  acc_json_metadata :: string
  acc_proxy :: string
  acc_last_owner_update :: time_sec
  acc_created :: time_sec
  acc_mined :: bool
  acc_owner_challenged :: bool
  acc_active_challenged :: bool
  acc_last_owner_proved :: time_sec
  acc_last_active_proved :: time_sec
  acc_recovery_account :: string
  acc_last_account_recovery :: time_sec
  acc_last_vote_time :: time_sec

record account = account_identity +
  acc_score :: nat
  acc_total_listening_time :: nat
  acc_balance :: share
  acc_mbd_balance :: share
  acc_mbd_seconds :: "128 word"
  acc_mbd_seconds_last_update :: time_sec
  acc_mbd_last_interest_payment :: time_sec
  acc_vesting_shares :: share
  acc_vesting_withdraw_rate :: share
  acc_next_vesting_withdrawal :: time_sec
  acc_withdrawn :: share
  acc_to_withdraw :: share
  acc_withdraw_routes :: nat
  acc_proxied_vsf_votes :: "share list"
  acc_witnesses_voted_for :: nat
  acc_streaming_platforms_voted_for :: nat
  acc_average_bandwidth :: nat
  acc_lifetime_bandwidth :: nat
  acc_last_bandwidth_update :: time_sec
  acc_average_market_bandwidth :: nat
  acc_last_market_bandwidth_update :: time_sec
  acc_friends :: "nat list"
  acc_second_level :: "nat list"
  acc_waiting :: "nat list"

text \<open>\<open>account_object::witness_vote_weight\<close>: \<open>std::accumulate\<close> over checked integers.\<close>

definition witness_vote_weight :: "account \<Rightarrow> share res" where
  "witness_vote_weight a = foldE (\<lambda>v t. safe_add t v) (acc_proxied_vsf_votes a) (acc_vesting_shares a)"

definition proxied_vsf_votes_total :: "account \<Rightarrow> share res" where
  "proxied_vsf_votes_total a = foldE (\<lambda>v t. safe_add t v) (acc_proxied_vsf_votes a) 0"

definition get_scoring_vesting :: "account \<Rightarrow> 64 word" where
  "get_scoring_vesting a = word_of_int (acc_vesting_shares a)"

record account_balance =
  ab_owner :: nat
  ab_asset_type :: asset_id
  ab_balance :: share

record witness =
  wit_owner :: string
  wit_created :: time_sec
  wit_url :: string
  wit_total_missed :: nat
  wit_last_aslot :: nat
  wit_last_confirmed_block_num :: nat
  wit_signing_key :: public_key
  wit_props :: chain_properties
  wit_mbd_exchange_rate :: price
  wit_last_mbd_exchange_update :: time_sec
  wit_votes :: share
  wit_virtual_last_update :: "128 word"
  wit_virtual_position :: "128 word"
  wit_virtual_scheduled_time :: "128 word"
  wit_running_version :: version
  wit_hardfork_version_vote :: version
  wit_hardfork_time_vote :: time_sec

record witness_vote =
  wv_witness :: nat
  wv_account :: nat

record witness_schedule =
  wso_current_virtual_time :: "128 word"
  wso_next_shuffle_block_num :: nat
  wso_current_shuffled_witnesses :: "string list"
  wso_median_props :: chain_properties
  wso_majority_version :: version

record streaming_platform =
  sp_owner :: string
  sp_created :: time_sec
  sp_url :: string
  sp_votes :: share

record streaming_platform_vote =
  spv_streaming_platform :: nat
  spv_account :: nat

record report =
  rep_streaming_platform :: nat
  rep_consumer :: nat
  rep_content :: nat
  rep_created :: time_sec
  rep_play_time :: nat
  rep_playlist_creator :: "nat option"

record content =
  con_uploader :: string
  con_url :: string
  con_accumulated_balance_master :: share
  con_accumulated_balance_comp :: share
  con_album_meta :: content_metadata_album_master
  con_track_meta :: content_metadata_track_master
  con_comp_meta :: content_metadata_publisher
  con_track_title :: string
  con_last_update :: time_sec
  con_created :: time_sec
  con_last_played :: time_sec
  con_distributions_master :: "distribution list"
  con_distributions_comp :: "distribution list"
  con_playing_reward :: nat
  con_publishers_share :: nat
  con_manage_master :: authority
  con_manage_comp :: authority
  con_times_played :: nat
  con_times_played_24 :: nat
  con_allow_votes :: bool
  con_disabled :: bool

record content_approval =
  cao_content :: string
  cao_approver :: nat

record content_vote =
  cvo_voter :: nat
  cvo_content :: nat
  cvo_weight :: int
  cvo_num_changes :: int
  cvo_marked_for_curation_reward :: bool
  cvo_last_update :: time_sec

record asset_object =
  aso_current_supply :: share
  aso_symbol_string :: string
  aso_precision :: nat
  aso_issuer :: nat
  aso_options :: asset_options

record proposal =
  prop_expiration_time :: time_sec
  prop_review_period_time :: "time_sec option"
  prop_proposed_transaction :: transaction
  prop_required_active_approvals :: "string list"
  prop_available_active_approvals :: "string list"
  prop_required_owner_approvals :: "string list"
  prop_available_owner_approvals :: "string list"
  prop_required_basic_approvals :: "string list"
  prop_available_basic_approvals :: "string list"
  prop_required_master_content_approvals :: "string list"
  prop_required_comp_content_approvals :: "string list"
  prop_available_key_approvals :: "public_key list"
  prop_can_veto :: "string list"

record transaction_object =
  tro_trx :: signed_transaction
  tro_trx_id :: nat

record convert_request =
  cr_owner :: string
  cr_requestid :: nat
  cr_amount :: asset
  cr_conversion_date :: time_sec

record limit_order =
  lo_created :: time_sec
  lo_expiration :: time_sec
  lo_seller :: string
  lo_orderid :: nat
  lo_for_sale :: share
  lo_sell_price :: price

definition amount_for_sale :: "limit_order \<Rightarrow> asset" where
  "amount_for_sale ord = mk_asset (lo_for_sale ord) (asset_id (base (lo_sell_price ord)))"

definition amount_to_receive :: "limit_order \<Rightarrow> asset res" where
  "amount_to_receive ord = asset_mul_price (amount_for_sale ord) (lo_sell_price ord)"

record withdraw_vesting_route =
  wr_from_account :: nat
  wr_to_account :: nat
  wr_percent :: nat
  wr_auto_vest :: bool

record genesis_balance =
  gb_owner :: nat
  gb_balance :: share
  gb_last_claim_date :: time_sec

record owner_authority_history =
  oah_account :: string
  oah_previous_owner_authority :: authority
  oah_last_valid_time :: time_sec

record account_recovery_request =
  arr_account_to_recover :: string
  arr_new_owner_authority :: authority
  arr_expires :: time_sec

record change_recovery_account_request =
  crr_account_to_recover :: string
  crr_recovery_account :: string
  crr_effective_on :: time_sec

record feed_history =
  fh_current_median_history :: price
  fh_price_history :: "price list"

record hardfork_property =
  hf_processed_hardforks :: "time_sec list"
  hf_last_hardfork :: nat
  hf_current_hardfork_version :: version
  hf_next_hardfork :: version
  hf_next_hardfork_time :: time_sec

record dynamic_global_property =
  head_block_number :: nat
  head_block_id :: block_id
  dgp_time :: time_sec
  current_witness :: string
  virtual_supply :: share
  current_supply :: share
  current_mbd_supply :: share
  total_vesting_fund_muse :: share
  total_vesting_shares :: share
  total_reward_fund_muse :: share
  supply_delta :: share
  maximum_proposal_lifetime :: nat
  mbd_interest_rate :: nat
  average_block_size :: nat
  maximum_block_size :: nat
  current_aslot :: nat
  recent_slots_filled :: "128 word"
  participation_count :: nat
  last_irreversible_block_num :: nat
  max_virtual_bandwidth :: nat
  current_reserve_ratio :: nat

definition get_vesting_share_price :: "dynamic_global_property \<Rightarrow> price" where
  "get_vesting_share_price p =
     (if total_vesting_fund_muse p = 0 \<or> total_vesting_shares p = 0
      then mk_price (mk_asset 1000 MUSE_SYMBOL) (mk_asset 1000000 VESTS_SYMBOL)
      else mk_price (mk_asset (total_vesting_shares p) VESTS_SYMBOL)
             (mk_asset (total_vesting_fund_muse p) MUSE_SYMBOL))"

section \<open>The state of the chain\<close>

record chain =
  accounts :: "account index"
  account_balances :: "account_balance index"
  witnesses :: "witness index"
  witness_votes :: "witness_vote index"
  platforms :: "streaming_platform index"
  platform_votes :: "streaming_platform_vote index"
  contents :: "content index"
  reports :: "report index"
  converts :: "convert_request index"
  orders :: "limit_order index"
  withdraw_routes :: "withdraw_vesting_route index"
  balances :: "genesis_balance index"
  owner_histories :: "owner_authority_history index"
  recovery_requests :: "account_recovery_request index"
  change_recovery_requests :: "change_recovery_account_request index"
  asset_objects :: "asset_object index"
  content_approvals :: "content_approval index"
  content_votes :: "content_vote index"
  proposals :: "proposal index"
  transaction_objects :: "transaction_object index"
  block_summaries :: "nat \<Rightarrow> block_id"
  dgp :: dynamic_global_property
  wso :: witness_schedule
  feed_history :: feed_history
  hardforks :: hardfork_property
  virtual_ops :: "virtual_op list"

definition head_block_time :: "chain \<Rightarrow> time_sec" where "head_block_time s = dgp_time (dgp s)"
definition head_block_num :: "chain \<Rightarrow> nat" where "head_block_num s = head_block_number (dgp s)"

definition has_hardfork :: "nat \<Rightarrow> chain \<Rightarrow> bool" where
  "has_hardfork n s \<longleftrightarrow> length (hf_processed_hardforks (hardforks s)) > n"

definition median_price :: "chain \<Rightarrow> price" where
  "median_price s = fh_current_median_history (feed_history s)"

definition push_virtual_op :: "virtual_op \<Rightarrow> chain \<Rightarrow> chain" where
  "push_virtual_op v s = s\<lparr>virtual_ops := virtual_ops s @ [v]\<rparr>"

definition find_account :: "string \<Rightarrow> chain \<Rightarrow> (nat \<times> account) option" where
  "find_account n s = idx_by (\<lambda>a. acc_name a = n) (accounts s)"

definition get_account :: "string \<Rightarrow> chain \<Rightarrow> (nat \<times> account) res" where
  "get_account n s = (case find_account n s of None \<Rightarrow> Inl Assert_exn | Some r \<Rightarrow> Inr r)"

definition get_witness :: "string \<Rightarrow> chain \<Rightarrow> (nat \<times> witness) res" where
  "get_witness n s = (case idx_by (\<lambda>w. wit_owner w = n) (witnesses s) of None \<Rightarrow> Inl Assert_exn | Some r \<Rightarrow> Inr r)"

definition get_streaming_platform :: "string \<Rightarrow> chain \<Rightarrow> (nat \<times> streaming_platform) res" where
  "get_streaming_platform n s =
     (case idx_by (\<lambda>p. sp_owner p = n) (platforms s) of None \<Rightarrow> Inl Assert_exn | Some r \<Rightarrow> Inr r)"

definition get_content :: "string \<Rightarrow> chain \<Rightarrow> (nat \<times> content) res" where
  "get_content u s = (case idx_by (\<lambda>c. con_url c = u) (contents s) of None \<Rightarrow> Inl Assert_exn | Some r \<Rightarrow> Inr r)"

definition get_limit_order :: "string \<Rightarrow> nat \<Rightarrow> chain \<Rightarrow> (nat \<times> limit_order) res" where
  "get_limit_order n i s =
     (case idx_by (\<lambda>ord. lo_seller ord = n \<and> lo_orderid ord = i) (orders s) of None \<Rightarrow> Inl Assert_exn | Some r \<Rightarrow> Inr r)"

text \<open>\<open>modify\<close> on an account, a witness, a platform, the dynamic properties.\<close>

definition modify_account :: "nat \<Rightarrow> (account \<Rightarrow> account res) \<Rightarrow> chain \<Rightarrow> chain res" where
  "modify_account k f s = bindE (idx_modify k f (accounts s)) (\<lambda>ix. Inr (s\<lparr>accounts := ix\<rparr>))"

definition modify_witness :: "nat \<Rightarrow> (witness \<Rightarrow> witness res) \<Rightarrow> chain \<Rightarrow> chain res" where
  "modify_witness k f s = bindE (idx_modify k f (witnesses s)) (\<lambda>ix. Inr (s\<lparr>witnesses := ix\<rparr>))"

definition modify_platform :: "nat \<Rightarrow> (streaming_platform \<Rightarrow> streaming_platform res) \<Rightarrow> chain \<Rightarrow> chain res" where
  "modify_platform k f s = bindE (idx_modify k f (platforms s)) (\<lambda>ix. Inr (s\<lparr>platforms := ix\<rparr>))"

definition modify_content :: "nat \<Rightarrow> (content \<Rightarrow> content res) \<Rightarrow> chain \<Rightarrow> chain res" where
  "modify_content k f s = bindE (idx_modify k f (contents s)) (\<lambda>ix. Inr (s\<lparr>contents := ix\<rparr>))"

definition modify_order :: "nat \<Rightarrow> (limit_order \<Rightarrow> limit_order res) \<Rightarrow> chain \<Rightarrow> chain res" where
  "modify_order k f s = bindE (idx_modify k f (orders s)) (\<lambda>ix. Inr (s\<lparr>orders := ix\<rparr>))"

definition remove_order :: "nat \<Rightarrow> chain \<Rightarrow> chain res" where
  "remove_order k s = bindE (idx_remove k (orders s)) (\<lambda>ix. Inr (s\<lparr>orders := ix\<rparr>))"

definition modify_dgp :: "(dynamic_global_property \<Rightarrow> dynamic_global_property res) \<Rightarrow> chain \<Rightarrow> chain res" where
  "modify_dgp f s = bindE (f (dgp s)) (\<lambda>p. Inr (s\<lparr>dgp := p\<rparr>))"

text \<open>\<open>share += asset\<close> and \<open>share -= asset\<close> for a field of fixed symbol.\<close>

definition plus_asset :: "asset_id \<Rightarrow> share \<Rightarrow> asset \<Rightarrow> share res" where
  "plus_asset sy x d = guardE (asset_id d = sy) (safe_add x (amount d))"

definition minus_asset :: "asset_id \<Rightarrow> share \<Rightarrow> asset \<Rightarrow> share res" where
  "minus_asset sy x d = guardE (asset_id d = sy) (safe_sub x (amount d))"

section \<open>Laws of indexes\<close>

lemma idx_get_Inr [res_simps]: "idx_get k ix = Inr x \<longleftrightarrow> idx_find k ix = Some x"
  by (simp add: idx_get_def res_simps)

lemma idx_modify_Inr [res_simps]:
  "idx_modify k f ix = Inr ix' \<longleftrightarrow>
     (\<exists>x y. idx_find k ix = Some x \<and> f x = Inr y \<and> ix' = ix\<lparr>rows := table_update k y (rows ix)\<rparr>)"
  by (auto simp: idx_modify_def res_simps)

lemma idx_insert_Inr [res_simps]:
  "idx_insert clash x ix = Inr ix' \<longleftrightarrow> list_all (\<lambda>(k, y). \<not> clash x y) (rows ix) \<and> ix' = idx_create x ix"
  by (auto simp: idx_insert_def res_simps)

lemma idx_remove_Inr [res_simps]:
  "idx_remove k ix = Inr ix' \<longleftrightarrow> (\<exists>x. idx_find k ix = Some x \<and> ix' = ix\<lparr>rows := table_delete k (rows ix)\<rparr>)"
  by (auto simp: idx_remove_def res_simps)

lemma idx_find_key: "idx_find k ix = Some x \<Longrightarrow> k \<in> fst ` set (rows ix)"
  by (metis idx_find_def map_of_eq_None_iff option.distinct(1))

lemma idx_find_update:
  "idx_find k ix = Some x \<Longrightarrow> idx_find j (ix\<lparr>rows := table_update k y (rows ix)\<rparr>) = (if j = k then Some y else idx_find j ix)"
  by (auto simp: idx_find_def table_simps dest: idx_find_key [unfolded idx_find_def])

lemma idx_find_delete:
  "idx_find j (ix\<lparr>rows := table_delete k (rows ix)\<rparr>) = (if j = k then None else idx_find j ix)"
  by (simp add: idx_find_def table_simps)

lemma idx_find_create:
  "index_ok ix \<Longrightarrow> idx_find j (idx_create x ix) = (if j = next_instance ix then Some x else idx_find j ix)"
  by (auto simp: idx_find_def idx_create_def index_ok_def list_all_iff map_add_def map_of_append
      dest!: map_of_SomeD split: option.splits)

lemma index_ok_empty [simp]: "index_ok empty_index"
  by (simp add: index_ok_def empty_index_def)

lemma table_subset: "p \<in> set (table_update k y t) \<Longrightarrow> fst p \<in> fst ` set t"
  "p \<in> set (table_delete k t) \<Longrightarrow> p \<in> set t"
  by (force simp: table_update_def table_delete_def)+

lemma index_ok_update: "index_ok ix \<Longrightarrow> index_ok (ix\<lparr>rows := table_update k y (rows ix)\<rparr>)"
  by (fastforce simp: index_ok_def table_ok_update list_all_iff dest: table_subset)

lemma index_ok_delete: "index_ok ix \<Longrightarrow> index_ok (ix\<lparr>rows := table_delete k (rows ix)\<rparr>)"
  by (fastforce simp: index_ok_def table_ok_delete list_all_iff dest: table_subset)

lemma index_ok_create: "index_ok ix \<Longrightarrow> index_ok (idx_create x ix)"
  by (fastforce simp: index_ok_def idx_create_def list_all_iff table_ok_def sorted_append)

lemmas index_ok_simps = index_ok_update index_ok_delete index_ok_create

lemma sum_table_update:
  "distinct (map fst t) \<Longrightarrow> map_of t k = Some x \<Longrightarrow>
   sum_list (map (\<lambda>(k, x). q x) (table_update k y t)) = sum_list (map (\<lambda>(k, x). q x) t) - q x + (q y :: int)"
proof (induction t)
  case (Cons p t)
  have same: "table_update k y t = t" if "k \<notin> fst ` set t"
    using that by (induction t) (auto simp: table_update_def)
  obtain j z where p: "p = (j, z)" by (cases p)
  have step: "table_update k y ((j, z) # t) = (j, if j = k then y else z) # table_update k y t"
    by (simp add: table_update_def)
  show ?case
  proof (cases "j = k")
    case True
    then show ?thesis using Cons.prems same unfolding p step by simp
  next
    case False
    then show ?thesis using Cons unfolding p step by simp
  qed
qed simp

lemma sum_table_delete:
  "distinct (map fst t) \<Longrightarrow> map_of t k = Some x \<Longrightarrow>
   sum_list (map (\<lambda>(k, x). q x) (table_delete k t)) = sum_list (map (\<lambda>(k, x). q x) t) - (q x :: int)"
proof (induction t)
  case (Cons p t)
  have "table_delete k t = t" if "k \<notin> fst ` set t"
    using that by (induction t) (auto simp: table_delete_def)
  with Cons show ?case by (cases p) (auto simp: table_delete_def split: if_splits)
qed simp

lemma idx_sum_update:
  "index_ok ix \<Longrightarrow> idx_find k ix = Some x \<Longrightarrow>
   idx_sum q (ix\<lparr>rows := table_update k y (rows ix)\<rparr>) = idx_sum q ix - q x + q y"
  by (simp add: idx_sum_def index_ok_def table_ok_def idx_find_def sum_table_update)

lemma idx_sum_delete:
  "index_ok ix \<Longrightarrow> idx_find k ix = Some x \<Longrightarrow>
   idx_sum q (ix\<lparr>rows := table_delete k (rows ix)\<rparr>) = idx_sum q ix - q x"
  by (simp add: idx_sum_def index_ok_def table_ok_def idx_find_def sum_table_delete)

lemma idx_sum_create [simp]: "idx_sum q (idx_create x ix) = idx_sum q ix + q x"
  by (simp add: idx_sum_def idx_create_def)

lemma idx_by_Some:
  assumes "idx_by P ix = Some (k, x)" and "index_ok ix"
  shows "idx_find k ix = Some x \<and> P x"
proof -
  have "(k, x) \<in> set (rows ix)" "P x"
    using assms(1) by (auto simp: idx_by_def find_Some_iff dest: nth_mem)
  then show ?thesis using assms(2) by (simp add: idx_find_def index_ok_def table_ok_def)
qed

lemma plus_asset_Inr [res_simps]:
  "plus_asset sy x d = Inr y \<longleftrightarrow> asset_id d = sy \<and> y = x + amount d \<and> in_int64 (x + amount d)"
  "minus_asset sy x d = Inr y \<longleftrightarrow> asset_id d = sy \<and> y = x - amount d \<and> in_int64 (x - amount d)"
  by (auto simp: plus_asset_def minus_asset_def res_simps)

text \<open>A fold of checked additions that returns has computed the sum.\<close>

lemma fold_safe_add: "foldE (\<lambda>v t. safe_add t v) xs x = Inr y \<Longrightarrow> y = x + sum_list xs"
proof (induction xs arbitrary: x)
  case (Cons v xs)
  have "y = (x + v) + sum_list xs" by (rule Cons.IH) (use Cons.prems in \<open>auto simp: res_simps\<close>)
  then show ?case by simp
qed simp

lemma witness_vote_weight_Inr:
  "witness_vote_weight a = Inr w \<Longrightarrow> w = acc_vesting_shares a + sum_list (acc_proxied_vsf_votes a)"
  by (simp add: witness_vote_weight_def fold_safe_add)

text \<open>Evaluation on concrete states.\<close>

lemmas chain_state_eval [chain_eval] =
  Let_def safe_add_def safe_sub_def safe_mul_def safe_div_def safeE_def in_int64_def int64_min_def int64_max_def
  cdiv_def assertE_def guardE_def table_ok_def table_update_def table_delete_def MUSE_SYMBOL_def MBD_SYMBOL_def
  VESTS_SYMBOL_def asset_add_def asset_sub_def asset_neg_def asset_lt_def asset_le_def asset_gt_def asset_ge_def
  asset_mul_price_def u128_def share_of_u64_def asset_div_asset_def price_invert_def price_is_null_def
  null_price_def price_gt_def price_le_def price_eq_def price_lt_def price_ge_def idx_find_def idx_get_def
  idx_create_def idx_insert_def idx_modify_def idx_remove_def idx_by_def index_ok_def empty_index_def idx_sum_def
  MUSE_MAX_PROXY_RECURSION_DEPTH_def MUSE_PROXY_TO_SELF_ACCOUNT_def MUSE_BLOCK_INTERVAL_def
  MUSE_BLOCKS_PER_DAY_def witness_vote_weight_def proxied_vsf_votes_total_def get_scoring_vesting_def
  amount_for_sale_def amount_to_receive_def get_vesting_share_price_def head_block_time_def head_block_num_def
  has_hardfork_def median_price_def push_virtual_op_def find_account_def get_account_def get_witness_def
  get_streaming_platform_def get_content_def get_limit_order_def modify_account_def modify_witness_def
  modify_platform_def modify_content_def modify_order_def remove_order_def modify_dgp_def plus_asset_def
  minus_asset_def

end
