(* ===== verification/Votes.thy ===== *)
theory Votes
  imports Chain_State
begin

text \<open>
  Votes and scores (\<open>database.cpp\<close>): the votes an account gives to witnesses and streaming platforms,
  directly or through a chain of at most \<open>MUSE_MAX_PROXY_RECURSION_DEPTH\<close> proxies, the virtual-time
  position of a witness, and the scores an account derives from its vesting and from its friends.
\<close>

section \<open>Votes for one witness or platform\<close>

definition u128_max :: "128 word" where "u128_max = - 1"

definition VIRTUAL_SCHEDULE_LAP_LENGTH2 :: "128 word" where "VIRTUAL_SCHEDULE_LAP_LENGTH2 = u128_max"

definition adjust_witness_vote :: "nat \<Rightarrow> share \<Rightarrow> chain \<Rightarrow> chain res" where
  "adjust_witness_vote wid delta s =
     (let now = wso_current_virtual_time (wso s) in
      modify_witness wid (\<lambda>w.
        let delta_pos = u128 (wit_votes w) * (now - wit_virtual_last_update w);
            position = wit_virtual_position w + delta_pos in
        bindE (safe_add (wit_votes w) delta) (\<lambda>votes.
        guardE (votes \<le> total_vesting_shares (dgp s)) (
        if votes + 1 = 0 then Inl Div_by_zero_exn else
        let scheduled = now + (VIRTUAL_SCHEDULE_LAP_LENGTH2 - position) div u128 (votes + 1) in
        Inr (w\<lparr>wit_virtual_position := position,
               wit_virtual_last_update := now,
               wit_votes := votes,
               wit_virtual_scheduled_time := (if scheduled < now then u128_max else scheduled)\<rparr>)))) s)"

definition adjust_streaming_platform_vote :: "nat \<Rightarrow> share \<Rightarrow> chain \<Rightarrow> chain res" where
  "adjust_streaming_platform_vote spid delta s =
     modify_platform spid (\<lambda>p.
       bindE (safe_add (sp_votes p) delta) (\<lambda>votes.
       guardE (votes \<le> total_vesting_shares (dgp s)) (Inr (p\<lparr>sp_votes := votes\<rparr>)))) s"

text \<open>The vote objects of an account, in the order of \<open>by_account_witness\<close> and
  \<open>by_account_streaming_platform\<close>.\<close>

definition witness_votes_of :: "nat \<Rightarrow> chain \<Rightarrow> nat list" where
  "witness_votes_of aid s =
     sort (map (\<lambda>(k, v). wv_witness v) (filter (\<lambda>(k, v). wv_account v = aid) (rows (witness_votes s))))"

definition platform_votes_of :: "nat \<Rightarrow> chain \<Rightarrow> nat list" where
  "platform_votes_of aid s =
     sort (map (\<lambda>(k, v). spv_streaming_platform v) (filter (\<lambda>(k, v). spv_account v = aid) (rows (platform_votes s))))"

definition adjust_witness_votes :: "nat \<Rightarrow> share \<Rightarrow> chain \<Rightarrow> chain res" where
  "adjust_witness_votes aid delta s = foldE (\<lambda>wid. adjust_witness_vote wid delta) (witness_votes_of aid s) s"

definition adjust_streaming_platform_votes :: "nat \<Rightarrow> share \<Rightarrow> chain \<Rightarrow> chain res" where
  "adjust_streaming_platform_votes aid delta s =
     foldE (\<lambda>spid. adjust_streaming_platform_vote spid delta) (platform_votes_of aid s) s"

definition clear_witness_votes :: "nat \<Rightarrow> chain \<Rightarrow> chain res" where
  "clear_witness_votes aid s =
     (let ix = witness_votes s in
      modify_account aid (\<lambda>a. Inr (a\<lparr>acc_witnesses_voted_for := 0\<rparr>))
        (s\<lparr>witness_votes := ix\<lparr>rows := filter (\<lambda>(k, v). wv_account v \<noteq> aid) (rows ix)\<rparr>\<rparr>))"

definition clear_streaming_platform_votes :: "nat \<Rightarrow> chain \<Rightarrow> chain res" where
  "clear_streaming_platform_votes aid s =
     (let ix = platform_votes s in
      modify_account aid (\<lambda>a. Inr (a\<lparr>acc_streaming_platforms_voted_for := 0\<rparr>))
        (s\<lparr>platform_votes := ix\<lparr>rows := filter (\<lambda>(k, v). spv_account v \<noteq> aid) (rows ix)\<rparr>\<rparr>))"

section \<open>Votes through proxies\<close>

text \<open>\<open>proxied_vsf_votes[i] += delta\<close>; the vector has \<open>MUSE_MAX_PROXY_RECURSION_DEPTH\<close> entries and
  every index the code uses is below it.\<close>

definition add_proxied :: "nat \<Rightarrow> share \<Rightarrow> account \<Rightarrow> account res" where
  "add_proxied i delta a =
     (if i < length (acc_proxied_vsf_votes a)
      then bindE (safe_add (acc_proxied_vsf_votes a ! i) delta)
             (\<lambda>v. Inr (a\<lparr>acc_proxied_vsf_votes := (acc_proxied_vsf_votes a)[i := v]\<rparr>))
      else Inl Not_found_exn)"

function adjust_proxied_witness_votes :: "nat \<Rightarrow> share \<Rightarrow> nat \<Rightarrow> chain \<Rightarrow> chain res" where
  "adjust_proxied_witness_votes aid delta depth s =
     bindE (idx_get aid (accounts s)) (\<lambda>a.
     if acc_proxy a \<noteq> MUSE_PROXY_TO_SELF_ACCOUNT then
       (if depth \<ge> MUSE_MAX_PROXY_RECURSION_DEPTH then Inr s
        else bindE (get_account (acc_proxy a) s) (\<lambda>(pid, p).
             bindE (modify_account pid (add_proxied depth delta) s) (\<lambda>s.
             adjust_proxied_witness_votes pid delta (depth + 1) s)))
     else bindE (adjust_witness_votes aid delta s) (adjust_streaming_platform_votes aid delta))"
  by pat_completeness auto
termination
  by (relation "measure (\<lambda>(aid, delta, depth, s). MUSE_MAX_PROXY_RECURSION_DEPTH - depth)") auto

declare adjust_proxied_witness_votes.simps [simp del]

text \<open>The overload on an array of \<open>MUSE_MAX_PROXY_RECURSION_DEPTH + 1\<close> deltas; \<open>down_to n\<close> are the
  loop's values \<open>n - 1, ..., 0\<close>.\<close>

definition down_to :: "nat \<Rightarrow> nat list" where "down_to n = rev [0..<n]"

function adjust_proxied_witness_votes_array :: "nat \<Rightarrow> share list \<Rightarrow> nat \<Rightarrow> chain \<Rightarrow> chain res" where
  "adjust_proxied_witness_votes_array aid delta depth s =
     bindE (idx_get aid (accounts s)) (\<lambda>a.
     if acc_proxy a \<noteq> MUSE_PROXY_TO_SELF_ACCOUNT then
       (if depth \<ge> MUSE_MAX_PROXY_RECURSION_DEPTH then Inr s
        else bindE (get_account (acc_proxy a) s) (\<lambda>(pid, p).
             bindE (modify_account pid
                     (foldE (\<lambda>i. add_proxied (i + depth) (delta ! i)) (down_to (MUSE_MAX_PROXY_RECURSION_DEPTH - depth))) s) (\<lambda>s.
             adjust_proxied_witness_votes_array pid delta (depth + 1) s)))
     else
       bindE (foldE (\<lambda>i t. safe_add t (delta ! i)) (down_to (MUSE_MAX_PROXY_RECURSION_DEPTH - depth + 1)) 0) (\<lambda>total_delta.
       bindE (adjust_witness_votes aid total_delta s) (adjust_streaming_platform_votes aid total_delta)))"
  by pat_completeness auto
termination
  by (relation "measure (\<lambda>(aid, delta, depth, s). MUSE_MAX_PROXY_RECURSION_DEPTH - depth)") auto

declare adjust_proxied_witness_votes_array.simps [simp del]

section \<open>Scores\<close>

definition MUSE_1ST_LEVEL_SCORING_PERCENTAGE :: int where "MUSE_1ST_LEVEL_SCORING_PERCENTAGE = 50"
definition MUSE_2ST_LEVEL_SCORING_PERCENTAGE :: int where "MUSE_2ST_LEVEL_SCORING_PERCENTAGE = 10"

text \<open>\<open>uint64_t += int64_t\<close>.\<close>

definition u64_add :: "nat \<Rightarrow> int \<Rightarrow> nat" where "u64_add x d = nat ((int x + d) mod 2 ^ 64)"

definition add_score :: "int \<Rightarrow> account \<Rightarrow> account res" where
  "add_score d a = Inr (a\<lparr>acc_score := u64_add (acc_score a) d\<rparr>)"

definition vesting_root :: "account \<Rightarrow> nat" where
  "vesting_root a = unat (isqrt (get_scoring_vesting a))"

definition recursive_recalculate_score :: "nat \<Rightarrow> share \<Rightarrow> chain \<Rightarrow> chain res" where
  "recursive_recalculate_score aid delta s =
     bindE (idx_get aid (accounts s)) (\<lambda>a.
     bindE (safe_sub (acc_vesting_shares a) delta) (\<lambda>old_amount.
     let score_delta = int (vesting_root a) - int (unat (isqrt (word_of_int old_amount))) in
     bindE (modify_account aid (add_score score_delta) s) (\<lambda>s.
     bindE (foldE (\<lambda>f. modify_account f (add_score (cdiv (score_delta * MUSE_1ST_LEVEL_SCORING_PERCENTAGE) 100)))
              (acc_friends a) s) (\<lambda>s.
     foldE (\<lambda>f. modify_account f (add_score (cdiv (score_delta * MUSE_2ST_LEVEL_SCORING_PERCENTAGE) 100)))
              (acc_second_level a) s))))"

text \<open>The score computed afresh (\<open>get_scoring\<close> on an account, and the body of \<open>recalculate_score\<close>).\<close>

definition add_root :: "int \<Rightarrow> chain \<Rightarrow> nat \<Rightarrow> nat \<Rightarrow> nat res" where
  "add_root percent s f score =
     bindE (idx_get f (accounts s)) (\<lambda>a. Inr (u64_add score ((int (vesting_root a) * percent) mod 2 ^ 32 div 100)))"

definition get_scoring :: "account \<Rightarrow> chain \<Rightarrow> nat res" where
  "get_scoring a s =
     bindE (foldE (add_root MUSE_1ST_LEVEL_SCORING_PERCENTAGE s) (acc_friends a) (vesting_root a)) (\<lambda>score.
     foldE (add_root MUSE_2ST_LEVEL_SCORING_PERCENTAGE s) (acc_second_level a) score)"

definition recalculate_score :: "nat \<Rightarrow> chain \<Rightarrow> chain res" where
  "recalculate_score aid s =
     bindE (idx_get aid (accounts s)) (\<lambda>a.
     bindE (get_scoring a s) (\<lambda>score.
     modify_account aid (\<lambda>a. Inr (a\<lparr>acc_score := score\<rparr>)) s))"

definition get_scoring_content :: "content \<Rightarrow> chain \<Rightarrow> nat res" where
  "get_scoring_content co s =
     (let payees = map dist_payee (con_distributions_comp co) @ map dist_payee (con_distributions_master co) in
      bindE (foldE (\<lambda>n score. bindE (get_account n s) (\<lambda>(k, a). Inr (u64_add score (int (acc_score a))))) payees 0) (\<lambda>score.
      Inr (if payees \<noteq> [] then score div length payees else 0)))"

text \<open>Evaluation on concrete states.\<close>

lemmas votes_eval [chain_eval] =
  u128_max_def VIRTUAL_SCHEDULE_LAP_LENGTH2_def adjust_witness_vote_def adjust_streaming_platform_vote_def
  witness_votes_of_def platform_votes_of_def adjust_witness_votes_def adjust_streaming_platform_votes_def
  clear_witness_votes_def clear_streaming_platform_votes_def add_proxied_def down_to_def
  MUSE_1ST_LEVEL_SCORING_PERCENTAGE_def MUSE_2ST_LEVEL_SCORING_PERCENTAGE_def u64_add_def add_score_def
  vesting_root_def recursive_recalculate_score_def add_root_def get_scoring_def recalculate_score_def
  get_scoring_content_def adjust_proxied_witness_votes.simps adjust_proxied_witness_votes_array.simps

end
