(* ===== verification/Ledger.thy ===== *)
theory Ledger
  imports Votes
begin

text \<open>
  The books of the chain. \<open>validate_invariants\<close> (\<open>database.cpp\<close>) compares the supplies recorded in the
  dynamic global properties with what the objects hold: MUSE, MBD, vesting shares and voting
  weight. Here the four differences are functions of the state, \<open>moves\<close> says how a step changes them, and
  every operation of the database gets one \<open>moves\<close> lemma; the lemmas compose along sequencing and loops.
  The theory ends with the votes and scores, which move nothing but voting weight.
\<close>

section \<open>What the objects hold\<close>

definition of_symbol :: "asset_id \<Rightarrow> asset \<Rightarrow> int" where
  "of_symbol i a = (if asset_id a = i then amount a else 0)"

definition muse_held :: "chain \<Rightarrow> int" where
  "muse_held s = idx_sum acc_balance (accounts s)
     + idx_sum (\<lambda>c. of_symbol MUSE_SYMBOL (cr_amount c)) (converts s)
     + idx_sum (\<lambda>ord. of_symbol MUSE_SYMBOL (amount_for_sale ord)) (orders s)
     + idx_sum gb_balance (balances s)
     + idx_sum (\<lambda>c. con_accumulated_balance_master c + con_accumulated_balance_comp c) (contents s)
     + total_vesting_fund_muse (dgp s)"

definition mbd_held :: "chain \<Rightarrow> int" where
  "mbd_held s = idx_sum acc_mbd_balance (accounts s)
     + idx_sum (\<lambda>c. of_symbol MBD_SYMBOL (cr_amount c)) (converts s)
     + idx_sum (\<lambda>ord. of_symbol MBD_SYMBOL (amount_for_sale ord)) (orders s)"

definition vests_held :: "chain \<Rightarrow> int" where
  "vests_held s = idx_sum acc_vesting_shares (accounts s)"

text \<open>The voting weight an account carries in the tally of \<open>validate_invariants\<close>.\<close>

definition vsf_weight :: "account \<Rightarrow> int" where
  "vsf_weight a =
     (if acc_proxy a = MUSE_PROXY_TO_SELF_ACCOUNT then acc_vesting_shares a + sum_list (acc_proxied_vsf_votes a)
      else acc_proxied_vsf_votes a ! (MUSE_MAX_PROXY_RECURSION_DEPTH - 1))"

definition vsf_held :: "chain \<Rightarrow> int" where
  "vsf_held s = idx_sum vsf_weight (accounts s)"

text \<open>Before hardfork 0.2 the recorded MUSE supply lagged by \<open>supply_delta\<close>, which that hardfork added to it;
  from then on \<open>supply_delta\<close> is 0.\<close>

definition muse_gap :: "chain \<Rightarrow> int" where
  "muse_gap s = current_supply (dgp s) + supply_delta (dgp s) - muse_held s"
definition mbd_gap :: "chain \<Rightarrow> int" where "mbd_gap s = current_mbd_supply (dgp s) - mbd_held s"
definition vests_gap :: "chain \<Rightarrow> int" where "vests_gap s = total_vesting_shares (dgp s) - vests_held s"
definition vsf_gap :: "chain \<Rightarrow> int" where "vsf_gap s = total_vesting_shares (dgp s) - vsf_held s"

definition account_ok :: "account \<Rightarrow> bool" where
  "account_ok a \<longleftrightarrow> length (acc_proxied_vsf_votes a) = MUSE_MAX_PROXY_RECURSION_DEPTH \<and>
     in_int64 (acc_vesting_shares a) \<and> in_int64 (acc_vesting_withdraw_rate a)"

definition tables_ok :: "chain \<Rightarrow> bool" where
  "tables_ok s \<longleftrightarrow> index_ok (accounts s) \<and> index_ok (converts s) \<and> index_ok (orders s) \<and> index_ok (balances s)
     \<and> index_ok (contents s) \<and> list_all (\<lambda>(k, a). account_ok a) (rows (accounts s))"

section \<open>Moves\<close>

definition moves :: "int \<times> int \<times> int \<times> int \<Rightarrow> chain \<Rightarrow> chain \<Rightarrow> bool" where
  "moves m s s' \<longleftrightarrow> tables_ok s' \<and>
     (case m of (dm, db, dv, dw) \<Rightarrow> muse_gap s' = muse_gap s + dm \<and> mbd_gap s' = mbd_gap s + db \<and>
        vests_gap s' = vests_gap s + dv \<and> vsf_gap s' = vsf_gap s + dw)"

named_theorems moves_intros \<open>how the books change under each operation\<close>

lemma moves_refl: "tables_ok s \<Longrightarrow> moves (0, 0, 0, 0) s s"
  by (simp add: moves_def)

lemma moves_tables: "moves m s s' \<Longrightarrow> tables_ok s'"
  by (simp add: moves_def split: prod.splits)

lemma moves_trans:
  "moves (a, b, c, d) s t \<Longrightarrow> moves (a', b', c', d') t u \<Longrightarrow> moves (a + a', b + b', c + c', d + d') s u"
  by (simp add: moves_def)

lemma moves_trans_eq:
  "moves (a, b, c, d) s t \<Longrightarrow> moves (a', b', c', d') t u \<Longrightarrow>
   a'' = a + a' \<Longrightarrow> b'' = b + b' \<Longrightarrow> c'' = c + c' \<Longrightarrow> d'' = d + d' \<Longrightarrow> moves (a'', b'', c'', d'') s u"
  by (simp add: moves_def)

lemma moves_foldE:
  assumes "foldE f xs s = Inr s'" and "tables_ok s"
    and "\<And>x t t'. x \<in> set xs \<Longrightarrow> tables_ok t \<Longrightarrow> f x t = Inr t' \<Longrightarrow> moves (0, 0, 0, 0) t t'"
  shows "moves (0, 0, 0, 0) s s'"
  using assms
proof (induction xs arbitrary: s)
  case (Cons x xs)
  then obtain t where t: "f x s = Inr t" "foldE f xs t = Inr s'" by (auto simp: res_simps)
  have st: "moves (0, 0, 0, 0) s t" by (rule Cons.prems(3)) (use t Cons.prems in auto)
  have "moves (0, 0, 0, 0) t s'"
    by (rule Cons.IH) (use t(2) moves_tables [OF st] Cons.prems(3) in auto)
  with st show ?case by (simp add: moves_def)
qed (simp add: moves_refl)

text \<open>The interface every evaluator and every maintenance step of the chain meets: a step that returns
  leaves the tables well formed and the four books balanced; a run of such steps then does too.\<close>

locale conserving =
  fixes step :: "'x \<Rightarrow> chain \<Rightarrow> chain res"
  assumes step_moves: "step x s = Inr s' \<Longrightarrow> tables_ok s \<Longrightarrow> moves (0, 0, 0, 0) s s'"
begin

lemma run_moves: "foldE step xs s = Inr s' \<Longrightarrow> tables_ok s \<Longrightarrow> moves (0, 0, 0, 0) s s'"
  by (rule moves_foldE) (auto intro: step_moves)

end

section \<open>Books under a change of one object\<close>

lemma tables_okD:
  "tables_ok s \<Longrightarrow> index_ok (accounts s)" "tables_ok s \<Longrightarrow> index_ok (converts s)" "tables_ok s \<Longrightarrow> index_ok (orders s)"
  "tables_ok s \<Longrightarrow> index_ok (balances s)" "tables_ok s \<Longrightarrow> index_ok (contents s)"
  by (simp_all add: tables_ok_def)

lemma account_ok_find: "tables_ok s \<Longrightarrow> idx_find k (accounts s) = Some a \<Longrightarrow> account_ok a"
  by (auto simp: tables_ok_def list_all_iff idx_find_def dest!: map_of_SomeD)

lemma accounts_ok_update:
  "list_all (\<lambda>(k, a). account_ok a) t \<Longrightarrow> account_ok y \<Longrightarrow> list_all (\<lambda>(k, a). account_ok a) (table_update k y t)"
  by (auto simp: list_all_iff table_update_def)

lemma modify_account_Inr [res_simps]:
  "modify_account k f s = Inr s' \<longleftrightarrow>
     (\<exists>a b. idx_find k (accounts s) = Some a \<and> f a = Inr b \<and>
        s' = s\<lparr>accounts := (accounts s)\<lparr>rows := table_update k b (rows (accounts s))\<rparr>\<rparr>)"
  by (auto simp: modify_account_def res_simps)

lemma moves_account:
  assumes "modify_account k f s = Inr s'" "tables_ok s"
    and "\<And>a b. idx_find k (accounts s) = Some a \<Longrightarrow> f a = Inr b \<Longrightarrow> account_ok a \<Longrightarrow> account_ok b \<and>
       acc_balance a - acc_balance b = dm \<and> acc_mbd_balance a - acc_mbd_balance b = db \<and>
       acc_vesting_shares a - acc_vesting_shares b = dv \<and> vsf_weight a - vsf_weight b = dw"
  shows "moves (dm, db, dv, dw) s s'"
proof -
  obtain a b where ab: "idx_find k (accounts s) = Some a" "f a = Inr b"
    and s': "s' = s\<lparr>accounts := (accounts s)\<lparr>rows := table_update k b (rows (accounts s))\<rparr>\<rparr>"
    using assms(1) by (auto simp: res_simps)
  have b: "account_ok b" "acc_balance a - acc_balance b = dm" "acc_mbd_balance a - acc_mbd_balance b = db"
    "acc_vesting_shares a - acc_vesting_shares b = dv" "vsf_weight a - vsf_weight b = dw"
    using assms(3) [OF ab account_ok_find [OF assms(2) ab(1)]] by auto
  have t: "tables_ok s'" using assms(2) b(1)
    by (simp add: s' tables_ok_def index_ok_update accounts_ok_update)
  show ?thesis using b
    by (simp add: moves_def t [unfolded s'] muse_gap_def mbd_gap_def vests_gap_def vsf_gap_def muse_held_def mbd_held_def
        vests_held_def vsf_held_def s' idx_sum_update [OF tables_okD(1) [OF assms(2)] ab(1)])
qed

lemma moves_account_keep:
  assumes "modify_account k f s = Inr s'" "tables_ok s"
    and "\<And>a b. f a = Inr b \<Longrightarrow> acc_balance b = acc_balance a \<and> acc_mbd_balance b = acc_mbd_balance a \<and>
       acc_vesting_shares b = acc_vesting_shares a \<and> acc_proxied_vsf_votes b = acc_proxied_vsf_votes a \<and> acc_proxy b = acc_proxy a \<and>
       acc_vesting_withdraw_rate b = acc_vesting_withdraw_rate a"
  shows "moves (0, 0, 0, 0) s s'"
  by (rule moves_account [OF assms(1,2)]) (auto dest!: assms(3) simp: account_ok_def vsf_weight_def)

lemma moves_dgp:
  assumes "modify_dgp f s = Inr s'" "tables_ok s"
    and "\<And>p. f (dgp s) = Inr p \<Longrightarrow>
       dm = (current_supply p + supply_delta p - total_vesting_fund_muse p)
          - (current_supply (dgp s) + supply_delta (dgp s) - total_vesting_fund_muse (dgp s)) \<and>
       db = current_mbd_supply p - current_mbd_supply (dgp s) \<and>
       dv = total_vesting_shares p - total_vesting_shares (dgp s) \<and> dw = dv"
  shows "moves (dm, db, dv, dw) s s'"
  using assms
  by (auto simp: modify_dgp_def res_simps moves_def tables_ok_def muse_gap_def mbd_gap_def vests_gap_def vsf_gap_def
      muse_held_def mbd_held_def vests_held_def vsf_held_def)

lemma modify_content_Inr [res_simps]:
  "modify_content k f s = Inr s' \<longleftrightarrow>
     (\<exists>a b. idx_find k (contents s) = Some a \<and> f a = Inr b \<and>
        s' = s\<lparr>contents := (contents s)\<lparr>rows := table_update k b (rows (contents s))\<rparr>\<rparr>)"
  by (auto simp: modify_content_def res_simps)

lemma moves_content:
  assumes "modify_content k f s = Inr s'" "tables_ok s"
    and "\<And>a b. idx_find k (contents s) = Some a \<Longrightarrow> f a = Inr b \<Longrightarrow>
       con_accumulated_balance_master a + con_accumulated_balance_comp a
         - (con_accumulated_balance_master b + con_accumulated_balance_comp b) = dm"
  shows "moves (dm, 0, 0, 0) s s'"
proof -
  obtain a b where ab: "idx_find k (contents s) = Some a" "f a = Inr b"
    and s': "s' = s\<lparr>contents := (contents s)\<lparr>rows := table_update k b (rows (contents s))\<rparr>\<rparr>"
    using assms(1) by (auto simp: res_simps)
  have t: "tables_ok s'" using assms(2) by (simp add: s' tables_ok_def index_ok_update)
  show ?thesis using assms(3) [OF ab]
    by (simp add: moves_def t [unfolded s'] muse_gap_def mbd_gap_def vests_gap_def vsf_gap_def muse_held_def mbd_held_def
        vests_held_def vsf_held_def s' idx_sum_update [OF tables_okD(5) [OF assms(2)] ab(1)])
qed

text \<open>Witnesses, platforms, votes, the schedule and the log do not enter the books.\<close>

lemma moves_witness: "modify_witness k f s = Inr s' \<Longrightarrow> tables_ok s \<Longrightarrow> moves (0, 0, 0, 0) s s'"
  by (auto simp: modify_witness_def res_simps moves_def tables_ok_def muse_gap_def mbd_gap_def vests_gap_def vsf_gap_def
      muse_held_def mbd_held_def vests_held_def vsf_held_def)

lemma moves_platform: "modify_platform k f s = Inr s' \<Longrightarrow> tables_ok s \<Longrightarrow> moves (0, 0, 0, 0) s s'"
  by (auto simp: modify_platform_def res_simps moves_def tables_ok_def muse_gap_def mbd_gap_def vests_gap_def vsf_gap_def
      muse_held_def mbd_held_def vests_held_def vsf_held_def)

lemma books_unchanged:
  assumes "accounts s' = accounts s" "converts s' = converts s" "orders s' = orders s" "balances s' = balances s"
    "contents s' = contents s" "dgp s' = dgp s" "tables_ok s"
  shows "moves (0, 0, 0, 0) s s'"
  using assms by (simp add: moves_def tables_ok_def muse_gap_def mbd_gap_def vests_gap_def vsf_gap_def
      muse_held_def mbd_held_def vests_held_def vsf_held_def)

lemma moves_push [simp]: "moves m s (push_virtual_op v s') \<longleftrightarrow> moves m s s'"
  by (simp add: push_virtual_op_def moves_def tables_ok_def muse_gap_def mbd_gap_def vests_gap_def vsf_gap_def
      muse_held_def mbd_held_def vests_held_def vsf_held_def split: prod.splits)

section \<open>Votes and scores\<close>

lemma moves_adjust_witness_vote: "adjust_witness_vote w d s = Inr s' \<Longrightarrow> tables_ok s \<Longrightarrow> moves (0, 0, 0, 0) s s'"
  by (auto simp: adjust_witness_vote_def Let_def intro: moves_witness)

lemma moves_adjust_platform_vote:
  "adjust_streaming_platform_vote w d s = Inr s' \<Longrightarrow> tables_ok s \<Longrightarrow> moves (0, 0, 0, 0) s s'"
  by (auto simp: adjust_streaming_platform_vote_def intro: moves_platform)

lemma moves_adjust_votes:
  assumes "bindE (adjust_witness_votes aid d s) (adjust_streaming_platform_votes aid d) = Inr s'" "tables_ok s"
  shows "moves (0, 0, 0, 0) s s'"
proof -
  obtain t where t: "adjust_witness_votes aid d s = Inr t" "adjust_streaming_platform_votes aid d t = Inr s'"
    using assms(1) by (auto simp: res_simps)
  have 1: "moves (0, 0, 0, 0) s t"
    by (rule moves_foldE [OF t(1) [unfolded adjust_witness_votes_def] assms(2)]) (rule moves_adjust_witness_vote)
  have "moves (0, 0, 0, 0) t s'"
    by (rule moves_foldE [OF t(2) [unfolded adjust_streaming_platform_votes_def] moves_tables [OF 1]])
      (rule moves_adjust_platform_vote)
  from moves_trans [OF 1 this] show ?thesis by simp
qed

lemma moves_add_score: "modify_account f (add_score d) s = Inr s' \<Longrightarrow> tables_ok s \<Longrightarrow> moves (0, 0, 0, 0) s s'"
  by (rule moves_account_keep) (auto simp: add_score_def)

lemma moves_recursive_recalculate_score:
  assumes "recursive_recalculate_score aid d s = Inr s'" "tables_ok s"
  shows "moves (0, 0, 0, 0) s s'"
proof -
  obtain e e1 e2 fs gs t u where t: "modify_account aid (add_score e) s = Inr t"
    "foldE (\<lambda>f. modify_account f (add_score e1)) fs t = Inr u"
    "foldE (\<lambda>f. modify_account f (add_score e2)) gs u = Inr s'"
    using assms(1) by (auto simp: recursive_recalculate_score_def res_simps Let_def simp del: modify_account_Inr)
  have 1: "moves (0, 0, 0, 0) s t" by (rule moves_add_score [OF t(1) assms(2)])
  have 2: "moves (0, 0, 0, 0) t u" by (rule moves_foldE [OF t(2) moves_tables [OF 1]]) (rule moves_add_score)
  have 3: "moves (0, 0, 0, 0) u s'" by (rule moves_foldE [OF t(3) moves_tables [OF 2]]) (rule moves_add_score)
  from moves_trans [OF moves_trans [OF 1 2] 3] show ?thesis by simp
qed

lemma moves_recalculate_score: "recalculate_score aid s = Inr s' \<Longrightarrow> tables_ok s \<Longrightarrow> moves (0, 0, 0, 0) s s'"
  by (auto simp: recalculate_score_def bindE_Inr_iff intro: moves_account_keep)

section \<open>Votes through proxies\<close>

lemma sum_list_set: "i < length xs \<Longrightarrow> sum_list (xs[i := v]) = sum_list xs - xs ! i + (v :: int)"
  by (induction xs arbitrary: i) (auto split: nat.splits)

lemma add_proxied_Inr [res_simps]:
  "add_proxied i d a = Inr b \<longleftrightarrow> i < length (acc_proxied_vsf_votes a) \<and> in_int64 (acc_proxied_vsf_votes a ! i + d) \<and>
     b = a\<lparr>acc_proxied_vsf_votes := (acc_proxied_vsf_votes a)[i := acc_proxied_vsf_votes a ! i + d]\<rparr>"
  by (auto simp: add_proxied_def res_simps)

text \<open>The weight that leaves an account along its chain of proxies: all of it while the account has a proxy
  and the chain is not exhausted, whatever the shape of the chain.\<close>

lemma get_account_Inr: "get_account n s = Inr (k, a) \<Longrightarrow> tables_ok s \<Longrightarrow> idx_find k (accounts s) = Some a \<and> acc_name a = n"
  by (auto simp: get_account_def find_account_def tables_ok_def dest: idx_by_Some split: option.splits)

definition through_proxy :: "account \<Rightarrow> nat \<Rightarrow> int \<Rightarrow> int" where
  "through_proxy a depth d =
     (if acc_proxy a \<noteq> MUSE_PROXY_TO_SELF_ACCOUNT \<and> depth < MUSE_MAX_PROXY_RECURSION_DEPTH then d else 0)"

lemma vsf_weight_add_proxied:
  assumes "add_proxied depth d p = Inr q" "account_ok p" "depth < MUSE_MAX_PROXY_RECURSION_DEPTH"
  shows "vsf_weight q + through_proxy q (depth + 1) d = vsf_weight p + d" "acc_proxy q = acc_proxy p"
proof -
  have q: "q = p\<lparr>acc_proxied_vsf_votes := (acc_proxied_vsf_votes p)[depth := acc_proxied_vsf_votes p ! depth + d]\<rparr>"
    "depth < length (acc_proxied_vsf_votes p)" using assms(1) by (auto simp: res_simps)
  show "acc_proxy q = acc_proxy p" by (simp add: q(1))
  show "vsf_weight q + through_proxy q (depth + 1) d = vsf_weight p + d"
    using q(2) assms(2,3) unfolding q(1) MUSE_MAX_PROXY_RECURSION_DEPTH_def
    by (cases "depth = 3") (auto simp: vsf_weight_def through_proxy_def sum_list_set account_ok_def MUSE_MAX_PROXY_RECURSION_DEPTH_def
        nth_list_update)
qed

lemma moves_adjust_proxied:
  "adjust_proxied_witness_votes aid d depth s = Inr s' \<Longrightarrow> tables_ok s \<Longrightarrow> idx_find aid (accounts s) = Some a \<Longrightarrow>
   moves (0, 0, 0, - through_proxy a depth d) s s'"
proof (induction aid d depth s arbitrary: a rule: adjust_proxied_witness_votes.induct)
  case (1 aid d depth s)
  show ?case
  proof (cases "acc_proxy a = MUSE_PROXY_TO_SELF_ACCOUNT \<or> MUSE_MAX_PROXY_RECURSION_DEPTH \<le> depth")
    case True
    then show ?thesis using 1(2,3,4) moves_adjust_votes [of aid d s s'] moves_refl [of s]
      by (auto simp: adjust_proxied_witness_votes.simps [of aid] idx_get_def through_proxy_def split: if_splits)
  next
    case False
    then obtain pid p t where p: "get_account (acc_proxy a) s = Inr (pid, p)"
      and t: "modify_account pid (add_proxied depth d) s = Inr t"
      and r: "adjust_proxied_witness_votes pid d (depth + 1) t = Inr s'"
      using 1(2,4) by (auto simp: adjust_proxied_witness_votes.simps [of aid] idx_get_def bindE_Inr_iff)
    have fp: "idx_find pid (accounts s) = Some p" using get_account_Inr [OF p 1(3)] by simp
    obtain q where q: "add_proxied depth d p = Inr q" "idx_find pid (accounts t) = Some q"
      using t fp by (auto simp: modify_account_Inr idx_find_update)
    have ok: "account_ok p" by (rule account_ok_find [OF 1(3) fp])
    have st: "moves (0, 0, 0, vsf_weight p - vsf_weight q) s t"
      by (rule moves_account [OF t 1(3)]) (use fp q(1) ok in \<open>auto simp: add_proxied_Inr account_ok_def\<close>)
    have ts': "moves (0, 0, 0, - through_proxy q (depth + 1) d) t s'"
      by (rule 1(1) [of a "(pid, p)" pid p t q])
        (use False p t r q(2) moves_tables [OF st] 1(4) in \<open>auto simp: idx_get_def\<close>)
    show ?thesis
      by (rule moves_trans_eq [OF st ts'])
        (use vsf_weight_add_proxied(1) [OF q(1) ok] False in \<open>auto simp: through_proxy_def\<close>)
  qed
qed

text \<open>The array overload: from depth \<open>depth\<close> on, the first \<open>4 - depth\<close> deltas reach the tally.\<close>

lemma down_to_Suc: "down_to (Suc n) = n # down_to n"
  by (simp add: down_to_def)

lemma fold_add_proxied:
  assumes "foldE (\<lambda>i. add_proxied (i + d) (delta ! i)) (down_to n) a = Inr b"
    and "n + d \<le> length (acc_proxied_vsf_votes a)" and "n \<le> length delta"
  shows "b = a\<lparr>acc_proxied_vsf_votes := acc_proxied_vsf_votes b\<rparr> \<and>
    length (acc_proxied_vsf_votes b) = length (acc_proxied_vsf_votes a) \<and>
    sum_list (acc_proxied_vsf_votes b) = sum_list (acc_proxied_vsf_votes a) + sum_list (take n delta) \<and>
    (\<forall>j\<ge>n + d. acc_proxied_vsf_votes b ! j = acc_proxied_vsf_votes a ! j) \<and>
    (0 < n \<longrightarrow> acc_proxied_vsf_votes b ! (n - 1 + d) = acc_proxied_vsf_votes a ! (n - 1 + d) + delta ! (n - 1))"
  using assms
proof (induction n arbitrary: a)
  case 0
  then show ?case by (simp add: down_to_def)
next
  case (Suc n)
  let ?a = "a\<lparr>acc_proxied_vsf_votes := (acc_proxied_vsf_votes a)[n + d := acc_proxied_vsf_votes a ! (n + d) + delta ! n]\<rparr>"
  have f: "foldE (\<lambda>i. add_proxied (i + d) (delta ! i)) (down_to n) ?a = Inr b"
    using Suc.prems(1) by (auto simp: down_to_Suc bindE_Inr_iff add_proxied_Inr)
  note IH = Suc.IH [OF f]
  have len: "n + d < length (acc_proxied_vsf_votes a)" "n < length delta" using Suc.prems by simp_all
  have b: "b = ?a\<lparr>acc_proxied_vsf_votes := acc_proxied_vsf_votes b\<rparr>"
    "length (acc_proxied_vsf_votes b) = length (acc_proxied_vsf_votes a)"
    "sum_list (acc_proxied_vsf_votes b) = sum_list (acc_proxied_vsf_votes ?a) + sum_list (take n delta)"
    "\<forall>j\<ge>n + d. acc_proxied_vsf_votes b ! j = acc_proxied_vsf_votes ?a ! j"
    using IH Suc.prems(2,3) by simp_all
  have "b = a\<lparr>acc_proxied_vsf_votes := acc_proxied_vsf_votes b\<rparr>" using b(1) by simp
  moreover have "sum_list (acc_proxied_vsf_votes b) = sum_list (acc_proxied_vsf_votes a) + sum_list (take (Suc n) delta)"
    using b(3) len by (simp add: sum_list_set take_Suc_conv_app_nth)
  ultimately show ?case using b(2,4) len by auto
qed

definition through_proxy_array :: "account \<Rightarrow> nat \<Rightarrow> int list \<Rightarrow> int" where
  "through_proxy_array a depth delta =
     (if acc_proxy a \<noteq> MUSE_PROXY_TO_SELF_ACCOUNT then sum_list (take (MUSE_MAX_PROXY_RECURSION_DEPTH - depth) delta) else 0)"

lemma vsf_weight_add_array:
  assumes "foldE (\<lambda>i. add_proxied (i + depth) (delta ! i)) (down_to (MUSE_MAX_PROXY_RECURSION_DEPTH - depth)) p = Inr q"
    "account_ok p" "depth < MUSE_MAX_PROXY_RECURSION_DEPTH" "length delta = 5"
  shows "vsf_weight q + through_proxy_array q (depth + 1) delta
      = vsf_weight p + sum_list (take (MUSE_MAX_PROXY_RECURSION_DEPTH - depth) delta)"
    "acc_proxy q = acc_proxy p" "account_ok q"
    "acc_balance q = acc_balance p" "acc_mbd_balance q = acc_mbd_balance p" "acc_vesting_shares q = acc_vesting_shares p"
proof -
  have d: "depth \<le> 3" "4 - depth + depth = 4" "4 - depth - 1 + depth = 3" "4 - depth = Suc (3 - depth)" "3 - depth < length delta"
    using assms(3,4) by (simp_all add: MUSE_MAX_PROXY_RECURSION_DEPTH_def)
  note F = fold_add_proxied [OF assms(1)]
  have q: "q = p\<lparr>acc_proxied_vsf_votes := acc_proxied_vsf_votes q\<rparr>"
    "length (acc_proxied_vsf_votes q) = length (acc_proxied_vsf_votes p)"
    "sum_list (acc_proxied_vsf_votes q) = sum_list (acc_proxied_vsf_votes p) + sum_list (take (4 - depth) delta)"
    "acc_proxied_vsf_votes q ! 3 = acc_proxied_vsf_votes p ! 3 + delta ! (3 - depth)"
    using F assms(2,3,4) d by (simp_all add: account_ok_def MUSE_MAX_PROXY_RECURSION_DEPTH_def)
  show pr: "acc_proxy q = acc_proxy p" by (subst q(1)) simp
  show "acc_balance q = acc_balance p" by (subst q(1)) simp
  show "acc_mbd_balance q = acc_mbd_balance p" by (subst q(1)) simp
  show ve: "acc_vesting_shares q = acc_vesting_shares p" by (subst q(1)) simp
  have "acc_vesting_withdraw_rate q = acc_vesting_withdraw_rate p" by (subst q(1)) simp
  then show "account_ok q" using assms(2) q(2) ve by (simp add: account_ok_def)
  have "take (4 - depth) delta = take (3 - depth) delta @ [delta ! (3 - depth)]"
    using d(4,5) by (simp add: take_Suc_conv_app_nth)
  then show "vsf_weight q + through_proxy_array q (depth + 1) delta
      = vsf_weight p + sum_list (take (MUSE_MAX_PROXY_RECURSION_DEPTH - depth) delta)"
    using q(3,4) by (auto simp: vsf_weight_def through_proxy_array_def pr ve MUSE_MAX_PROXY_RECURSION_DEPTH_def)
qed

lemma moves_adjust_proxied_array:
  "adjust_proxied_witness_votes_array aid delta depth s = Inr s' \<Longrightarrow> tables_ok s \<Longrightarrow>
   idx_find aid (accounts s) = Some a \<Longrightarrow> length delta = 5 \<Longrightarrow>
   moves (0, 0, 0, - through_proxy_array a depth delta) s s'"
proof (induction aid delta depth s arbitrary: a rule: adjust_proxied_witness_votes_array.induct)
  case (1 aid delta depth s)
  show ?case
  proof (cases "acc_proxy a = MUSE_PROXY_TO_SELF_ACCOUNT \<or> MUSE_MAX_PROXY_RECURSION_DEPTH \<le> depth")
    case True
    then show ?thesis using 1(2,3,4) moves_adjust_votes [of aid _ s s'] moves_refl [of s]
      by (auto simp: adjust_proxied_witness_votes_array.simps [of aid] idx_get_def through_proxy_array_def
          bindE_Inr_iff split: if_splits)
  next
    case False
    then obtain pid p t where p: "get_account (acc_proxy a) s = Inr (pid, p)"
      and t: "modify_account pid (foldE (\<lambda>i. add_proxied (i + depth) (delta ! i)) (down_to (MUSE_MAX_PROXY_RECURSION_DEPTH - depth))) s = Inr t"
      and r: "adjust_proxied_witness_votes_array pid delta (depth + 1) t = Inr s'"
      using 1(2,4) by (auto simp: adjust_proxied_witness_votes_array.simps [of aid] idx_get_def bindE_Inr_iff)
    have fp: "idx_find pid (accounts s) = Some p" using get_account_Inr [OF p 1(3)] by simp
    obtain q where q: "foldE (\<lambda>i. add_proxied (i + depth) (delta ! i)) (down_to (MUSE_MAX_PROXY_RECURSION_DEPTH - depth)) p = Inr q"
      "idx_find pid (accounts t) = Some q"
      using t fp by (auto simp: modify_account_Inr idx_find_update)
    have dp: "depth < MUSE_MAX_PROXY_RECURSION_DEPTH" using False by simp
    note W = vsf_weight_add_array [OF q(1) account_ok_find [OF 1(3) fp] dp 1(5)]
    have st: "moves (0, 0, 0, vsf_weight p - vsf_weight q) s t"
      by (rule moves_account [OF t 1(3)]) (use fp q(1) W in auto)
    have ts': "moves (0, 0, 0, - through_proxy_array q (depth + 1) delta) t s'"
      by (rule 1(1) [of a "(pid, p)" pid p t q])
        (use False p t r q(2) moves_tables [OF st] 1(4,5) in \<open>auto simp: idx_get_def\<close>)
    show ?thesis
      by (rule moves_trans_eq [OF st ts']) (use W(1) False in \<open>auto simp: through_proxy_array_def\<close>)
  qed
qed

text \<open>Evaluation on concrete states.\<close>

lemmas ledger_eval [chain_eval] =
  of_symbol_def muse_held_def mbd_held_def vests_held_def vsf_weight_def vsf_held_def muse_gap_def mbd_gap_def
  vests_gap_def vsf_gap_def account_ok_def tables_ok_def

end
