(* ===== verification/Balances.thy ===== *)
theory Balances
  imports Ledger
begin

text \<open>
  Balances and supplies (\<open>database.cpp\<close>): crediting and debiting an account in MUSE, MBD (with the interest
  on MBD deposits) and user-issued assets, the recorded supplies, fees, and the conversion of MUSE into MBD
  and into vesting shares. Each operation gets the lemma that says what it moves between the
  recorded supplies and the holdings.
\<close>

section \<open>Balances\<close>

definition MUSE_SECONDS_PER_YEAR :: nat where "MUSE_SECONDS_PER_YEAR = 60 * 60 * 24 * 365"
definition MUSE_SBD_INTEREST_COMPOUND_INTERVAL_SEC :: int where "MUSE_SBD_INTEREST_COMPOUND_INTERVAL_SEC = 60 * 60 * 24 * 30"

text \<open>\<open>uint128::to_uint64\<close>, which refuses a value that does not fit, narrowed to a \<open>share_type\<close>.\<close>

definition u128_to_share :: "128 word \<Rightarrow> share res" where
  "u128_to_share w = guardE (drop_bit 64 w = 0) (Inr (share_of_u64 w))"

definition add_balance :: "share \<Rightarrow> account \<Rightarrow> account res" where
  "add_balance d a = bindE (safe_add (acc_balance a) d) (\<lambda>b. Inr (a\<lparr>acc_balance := b\<rparr>))"

definition add_mbd_balance :: "share \<Rightarrow> account \<Rightarrow> account res" where
  "add_mbd_balance d a = bindE (safe_add (acc_mbd_balance a) d) (\<lambda>b. Inr (a\<lparr>acc_mbd_balance := b\<rparr>))"

definition mbd_seconds_since :: "time_sec \<Rightarrow> account \<Rightarrow> 128 word" where
  "mbd_seconds_since now a =
     acc_mbd_seconds a + u128 (acc_mbd_balance a) * u128 (int now - int (acc_mbd_seconds_last_update a))"

definition interest_due :: "time_sec \<Rightarrow> account \<Rightarrow> bool" where
  "interest_due now a \<longleftrightarrow> mbd_seconds_since now a > 0 \<and>
     int now - int (acc_mbd_last_interest_payment a) > MUSE_SBD_INTEREST_COMPOUND_INTERVAL_SEC"

definition interest_amount :: "dynamic_global_property \<Rightarrow> 128 word \<Rightarrow> share res" where
  "interest_amount p secs =
     u128_to_share (secs div word_of_nat MUSE_SECONDS_PER_YEAR * word_of_nat (mbd_interest_rate p) div u128 MUSE_100_PERCENT)"

definition pay_interest :: "nat \<Rightarrow> share \<Rightarrow> chain \<Rightarrow> chain res" where
  "pay_interest aid interest s =
     (let now = head_block_time s; paid = mk_asset interest MBD_SYMBOL in
      bindE (modify_account aid (\<lambda>a. bindE (add_mbd_balance interest a) (\<lambda>a.
               Inr (a\<lparr>acc_mbd_seconds := 0, acc_mbd_last_interest_payment := now\<rparr>))) s) (\<lambda>s.
      modify_dgp (\<lambda>p. bindE (plus_asset MBD_SYMBOL (current_mbd_supply p) paid) (\<lambda>sup.
               bindE (asset_mul_price paid (median_price s)) (\<lambda>m.
               bindE (plus_asset MUSE_SYMBOL (virtual_supply p) m) (\<lambda>v.
               Inr (p\<lparr>current_mbd_supply := sup, virtual_supply := v\<rparr>))))) s))"

definition accrue_interest :: "nat \<Rightarrow> chain \<Rightarrow> chain res" where
  "accrue_interest aid s =
     bindE (idx_get aid (accounts s)) (\<lambda>a.
     let now = head_block_time s in
     if acc_mbd_seconds_last_update a \<noteq> now then
       bindE (modify_account aid (\<lambda>a. Inr (a\<lparr>acc_mbd_seconds := mbd_seconds_since now a, acc_mbd_seconds_last_update := now\<rparr>)) s) (\<lambda>s.
       if interest_due now a then
         bindE (interest_amount (dgp s) (mbd_seconds_since now a)) (\<lambda>i.
         bindE (pay_interest aid i s) (\<lambda>s.
         Inr (push_virtual_op (Interest (acc_name a) (mk_asset i MBD_SYMBOL)) s)))
       else Inr s)
     else Inr s)"

definition account_balance_of :: "nat \<Rightarrow> asset_id \<Rightarrow> chain \<Rightarrow> (nat \<times> account_balance) option" where
  "account_balance_of aid i s = idx_by (\<lambda>b. ab_owner b = aid \<and> ab_asset_type b = i) (account_balances s)"

definition adjust_other_balance :: "nat \<Rightarrow> asset \<Rightarrow> chain \<Rightarrow> chain res" where
  "adjust_other_balance aid delta s =
     (if amount delta = 0 then Inr s
      else case account_balance_of aid (asset_id delta) s of
        None \<Rightarrow> guardE (amount delta > 0)
          (Inr (s\<lparr>account_balances := idx_create \<lparr>ab_owner = aid, ab_asset_type = asset_id delta, ab_balance = amount delta\<rparr>
                    (account_balances s)\<rparr>))
      | Some (k, b) \<Rightarrow>
          bindE (if amount delta < 0
                 then bindE (asset_neg delta) (\<lambda>n. bindE (asset_ge (mk_asset (ab_balance b) (ab_asset_type b)) n) assertE)
                 else Inr ()) (\<lambda>_.
          bindE (idx_modify k (\<lambda>b. bindE (safe_add (ab_balance b) (amount delta)) (\<lambda>v. Inr (b\<lparr>ab_balance := v\<rparr>))) (account_balances s))
            (\<lambda>ix. Inr (s\<lparr>account_balances := ix\<rparr>))))"

definition adjust_balance :: "nat \<Rightarrow> asset \<Rightarrow> chain \<Rightarrow> chain res" where
  "adjust_balance aid delta s =
     (if asset_id delta = MUSE_SYMBOL then modify_account aid (add_balance (amount delta)) s
      else if asset_id delta = MBD_SYMBOL then
        bindE (accrue_interest aid s) (modify_account aid (add_mbd_balance (amount delta)))
      else adjust_other_balance aid delta s)"

definition get_balance :: "nat \<Rightarrow> account \<Rightarrow> asset_id \<Rightarrow> chain \<Rightarrow> asset" where
  "get_balance aid a i s =
     (if i = MUSE_SYMBOL then mk_asset (acc_balance a) MUSE_SYMBOL
      else if i = MBD_SYMBOL then mk_asset (acc_mbd_balance a) MBD_SYMBOL
      else case account_balance_of aid i s of None \<Rightarrow> mk_asset 0 i | Some (k, b) \<Rightarrow> mk_asset (ab_balance b) (ab_asset_type b))"

section \<open>Supplies\<close>

definition adjust_supply :: "asset \<Rightarrow> bool \<Rightarrow> chain \<Rightarrow> chain res" where
  "adjust_supply delta adjust_vesting s =
     (let adjust_vesting = (if head_block_number (dgp s) < MUSE_BLOCKS_PER_DAY * 7 then False else adjust_vesting) in
      modify_dgp (\<lambda>p.
        if asset_id delta = MUSE_SYMBOL then
          bindE (if adjust_vesting \<and> amount delta > 0 then safe_mul (amount delta) 9 else Inr 0) (\<lambda>nv.
          bindE (safe_add (amount delta) nv) (\<lambda>d.
          bindE (safe_add (current_supply p) d) (\<lambda>cs.
          bindE (safe_add (virtual_supply p) d) (\<lambda>vs.
          bindE (safe_add (total_vesting_fund_muse p) nv) (\<lambda>tv.
          Inr (p\<lparr>current_supply := cs, virtual_supply := vs, total_vesting_fund_muse := tv\<rparr>))))))
        else if asset_id delta = MBD_SYMBOL then
          bindE (safe_add (current_mbd_supply p) (amount delta)) (\<lambda>ms.
          bindE (asset_mul_price (mk_asset ms MBD_SYMBOL) (median_price s)) (\<lambda>m.
          bindE (asset_add m (mk_asset (current_supply p) MUSE_SYMBOL)) (\<lambda>v.
          Inr (p\<lparr>current_mbd_supply := ms, virtual_supply := amount v\<rparr>))))
        else Inl Assert_exn) s)"

definition pay_fee :: "nat \<Rightarrow> asset \<Rightarrow> chain \<Rightarrow> chain res" where
  "pay_fee aid fee s =
     guardE (amount fee \<ge> 0) (
     if amount fee = 0 then Inr s
     else bindE (asset_neg fee) (\<lambda>n.
          bindE (adjust_balance aid n s) (adjust_supply n False)))"

definition create_mbd :: "nat \<Rightarrow> asset \<Rightarrow> chain \<Rightarrow> (asset \<times> chain) res" where
  "create_mbd to_account muse s =
     (if amount muse = 0 then Inr (mk_asset 0 MBD_SYMBOL, s)
      else if \<not> price_is_null (median_price s) then
        bindE (asset_mul_price muse (median_price s)) (\<lambda>mbd.
        bindE (adjust_balance to_account mbd s) (\<lambda>s.
        bindE (asset_neg muse) (\<lambda>n.
        bindE (adjust_supply n False s) (\<lambda>s.
        bindE (adjust_supply mbd False s) (\<lambda>s. Inr (mbd, s))))))
      else bindE (adjust_balance to_account muse s) (\<lambda>s. Inr (muse, s)))"

definition add_vesting :: "asset \<Rightarrow> account \<Rightarrow> account res" where
  "add_vesting d a = bindE (plus_asset VESTS_SYMBOL (acc_vesting_shares a) d) (\<lambda>v. Inr (a\<lparr>acc_vesting_shares := v\<rparr>))"

definition create_vesting :: "nat \<Rightarrow> asset \<Rightarrow> chain \<Rightarrow> (asset \<times> chain) res" where
  "create_vesting to_account muse s =
     bindE (asset_mul_price muse (get_vesting_share_price (dgp s))) (\<lambda>new_vesting.
     bindE (modify_account to_account (add_vesting new_vesting) s) (\<lambda>s.
     bindE (modify_dgp (\<lambda>p. bindE (plus_asset MUSE_SYMBOL (total_vesting_fund_muse p) muse) (\<lambda>f.
              bindE (plus_asset VESTS_SYMBOL (total_vesting_shares p) new_vesting) (\<lambda>v.
              Inr (p\<lparr>total_vesting_fund_muse := f, total_vesting_shares := v\<rparr>)))) s) (\<lambda>s.
     bindE (adjust_proxied_witness_votes to_account (amount new_vesting) 0 s) (\<lambda>s.
     bindE (recursive_recalculate_score to_account (amount new_vesting) s) (\<lambda>s.
     Inr (new_vesting, s))))))"

definition to_mbd :: "asset \<Rightarrow> chain \<Rightarrow> asset res" where
  "to_mbd muse s = guardE (asset_id muse = MUSE_SYMBOL)
     (if price_is_null (median_price s) then Inr (mk_asset 0 MBD_SYMBOL) else asset_mul_price muse (median_price s))"

definition to_muse :: "asset \<Rightarrow> chain \<Rightarrow> asset res" where
  "to_muse mbd s = guardE (asset_id mbd = MBD_SYMBOL)
     (if price_is_null (median_price s) then Inr (mk_asset 0 MUSE_SYMBOL) else asset_mul_price mbd (median_price s))"

definition update_virtual_supply :: "chain \<Rightarrow> chain res" where
  "update_virtual_supply s =
     modify_dgp (\<lambda>p.
       bindE (if price_is_null (median_price s) then Inr (mk_asset 0 MUSE_SYMBOL)
              else asset_mul_price (mk_asset (current_mbd_supply p) MBD_SYMBOL) (median_price s)) (\<lambda>m.
       bindE (asset_add (mk_asset (current_supply p) MUSE_SYMBOL) m) (\<lambda>v.
       Inr (p\<lparr>virtual_supply := amount v\<rparr>)))) s"

section \<open>What they move\<close>

lemma symbols_distinct [simp]:
  "MUSE_SYMBOL \<noteq> MBD_SYMBOL" "MBD_SYMBOL \<noteq> MUSE_SYMBOL" "MUSE_SYMBOL \<noteq> VESTS_SYMBOL" "VESTS_SYMBOL \<noteq> MUSE_SYMBOL"
  "MBD_SYMBOL \<noteq> VESTS_SYMBOL" "VESTS_SYMBOL \<noteq> MBD_SYMBOL"
  by (simp_all add: MUSE_SYMBOL_def MBD_SYMBOL_def VESTS_SYMBOL_def)

lemma asset_ops_Inr [res_simps]:
  "asset_neg a = Inr n \<longleftrightarrow> n = mk_asset (- amount a) (asset_id a) \<and> in_int64 (- amount a)"
  "asset_add a b = Inr c \<longleftrightarrow> asset_id a = asset_id b \<and> c = mk_asset (amount a + amount b) (asset_id a) \<and> in_int64 (amount a + amount b)"
  "asset_sub a b = Inr c \<longleftrightarrow> asset_id a = asset_id b \<and> c = mk_asset (amount a - amount b) (asset_id a) \<and> in_int64 (amount a - amount b)"
  by (auto simp: asset_neg_def asset_add_def asset_sub_def res_simps)

lemma add_balance_Inr [res_simps]:
  "add_balance d a = Inr b \<longleftrightarrow> b = a\<lparr>acc_balance := acc_balance a + d\<rparr> \<and> in_int64 (acc_balance a + d)"
  "add_mbd_balance d a = Inr b \<longleftrightarrow> b = a\<lparr>acc_mbd_balance := acc_mbd_balance a + d\<rparr> \<and> in_int64 (acc_mbd_balance a + d)"
  by (auto simp: add_balance_def add_mbd_balance_def res_simps)

lemma moves_add_balance: "modify_account aid (add_balance d) s = Inr s' \<Longrightarrow> tables_ok s \<Longrightarrow> moves (- d, 0, 0, 0) s s'"
  by (rule moves_account) (auto simp: res_simps account_ok_def vsf_weight_def)

lemma moves_add_mbd_balance: "modify_account aid (add_mbd_balance d) s = Inr s' \<Longrightarrow> tables_ok s \<Longrightarrow> moves (0, - d, 0, 0) s s'"
  by (rule moves_account) (auto simp: res_simps account_ok_def vsf_weight_def)

lemma moves_pay_interest:
  assumes "pay_interest aid i s = Inr s'" "tables_ok s"
  shows "moves (0, 0, 0, 0) s s'"
proof -
  obtain t where t: "modify_account aid (\<lambda>a. bindE (add_mbd_balance i a) (\<lambda>a.
        Inr (a\<lparr>acc_mbd_seconds := 0, acc_mbd_last_interest_payment := head_block_time s\<rparr>))) s = Inr t"
    and d: "modify_dgp (\<lambda>p. bindE (plus_asset MBD_SYMBOL (current_mbd_supply p) (mk_asset i MBD_SYMBOL)) (\<lambda>sup.
               bindE (asset_mul_price (mk_asset i MBD_SYMBOL) (median_price t)) (\<lambda>m.
               bindE (plus_asset MUSE_SYMBOL (virtual_supply p) m) (\<lambda>v.
               Inr (p\<lparr>current_mbd_supply := sup, virtual_supply := v\<rparr>))))) t = Inr s'"
    using assms(1) by (auto simp: pay_interest_def Let_def bindE_Inr_iff)
  have 1: "moves (0, - i, 0, 0) s t"
    by (rule moves_account [OF t assms(2)]) (auto simp: res_simps account_ok_def vsf_weight_def)
  have 2: "moves (0, i, 0, 0) t s'"
    by (rule moves_dgp [OF d moves_tables [OF 1]]) (auto simp: res_simps)
  from moves_trans [OF 1 2] show ?thesis by simp
qed

lemma moves_accrue_interest:
  assumes "accrue_interest aid s = Inr s'" "tables_ok s"
  shows "moves (0, 0, 0, 0) s s'"
proof -
  have keep: "moves (0, 0, 0, 0) s t"
    if "modify_account aid (\<lambda>a. Inr (a\<lparr>acc_mbd_seconds := mbd_seconds_since n a, acc_mbd_seconds_last_update := n\<rparr>)) s = Inr t" for n t
    by (rule moves_account_keep [OF that assms(2)]) auto
  have pay: "moves (0, 0, 0, 0) s u"
    if "modify_account aid (\<lambda>a. Inr (a\<lparr>acc_mbd_seconds := mbd_seconds_since n a, acc_mbd_seconds_last_update := n\<rparr>)) s = Inr t"
      "pay_interest aid i t = Inr u" for n t i u
    using moves_trans [OF keep [OF that(1)] moves_pay_interest [OF that(2) moves_tables [OF keep [OF that(1)]]]] by simp
  show ?thesis using assms
    by (auto simp: accrue_interest_def Let_def bindE_Inr_iff intro: keep pay moves_refl split: if_splits)
qed

lemma moves_adjust_balance:
  assumes "adjust_balance aid d s = Inr s'" "tables_ok s"
  shows "moves (- of_symbol MUSE_SYMBOL d, - of_symbol MBD_SYMBOL d, 0, 0) s s'"
proof (cases "asset_id d = MUSE_SYMBOL")
  case True
  then show ?thesis using assms by (auto simp: adjust_balance_def of_symbol_def intro: moves_add_balance)
next
  case False
  show ?thesis
  proof (cases "asset_id d = MBD_SYMBOL")
    case True
    then obtain t where t: "accrue_interest aid s = Inr t" "modify_account aid (add_mbd_balance (amount d)) t = Inr s'"
      using assms(1) False by (auto simp: adjust_balance_def bindE_Inr_iff)
    have 1: "moves (0, 0, 0, 0) s t" by (rule moves_accrue_interest [OF t(1) assms(2)])
    from moves_trans [OF 1 moves_add_mbd_balance [OF t(2) moves_tables [OF 1]]] show ?thesis
      using True False by (simp add: of_symbol_def)
  next
    case other: False
    then have "adjust_other_balance aid d s = Inr s'" using assms(1) False by (simp add: adjust_balance_def)
    then have "moves (0, 0, 0, 0) s s'"
      by (intro books_unchanged) (auto simp: adjust_other_balance_def res_simps assms(2) split: if_splits option.splits)
    then show ?thesis using False other by (simp add: of_symbol_def)
  qed
qed

lemma moves_adjust_supply:
  assumes "adjust_supply d v s = Inr s'" "tables_ok s"
  shows "moves (of_symbol MUSE_SYMBOL d, of_symbol MBD_SYMBOL d, 0, 0) s s'"
  by (rule moves_dgp [OF assms(1) [unfolded adjust_supply_def Let_def] assms(2)])
    (auto simp: res_simps of_symbol_def split: if_splits)

lemma adjust_supply_symbol:
  "adjust_supply d v s = Inr s' \<Longrightarrow> asset_id d = MUSE_SYMBOL \<or> asset_id d = MBD_SYMBOL"
  by (auto simp: adjust_supply_def modify_dgp_def Let_def split: if_splits)

lemma moves_pay_fee:
  assumes "pay_fee aid fee s = Inr s'" "tables_ok s"
  shows "moves (0, 0, 0, 0) s s'"
proof (cases "amount fee = 0")
  case False
  then obtain t where t: "adjust_balance aid (mk_asset (- amount fee) (asset_id fee)) s = Inr t"
    "adjust_supply (mk_asset (- amount fee) (asset_id fee)) False t = Inr s'"
    using assms(1) by (auto simp: pay_fee_def res_simps)
  note 1 = moves_adjust_balance [OF t(1) assms(2)]
  from moves_trans [OF 1 moves_adjust_supply [OF t(2) moves_tables [OF 1]]] show ?thesis by simp
qed (use assms in \<open>auto simp: pay_fee_def res_simps intro: moves_refl\<close>)

text \<open>Converting MUSE that is not on the books yet (a reward being paid) into MBD takes exactly that MUSE
  from the gap, whether or not a price feed exists.\<close>

lemma moves_create_mbd:
  assumes "create_mbd aid muse s = Inr (r, s')" "tables_ok s" "asset_id muse = MUSE_SYMBOL"
  shows "moves (- amount muse, 0, 0, 0) s s'"
proof -
  consider (zero) "amount muse = 0" "s' = s"
    | (null) "amount muse \<noteq> 0" "adjust_balance aid muse s = Inr s'"
    | (price) t u n where "asset_neg muse = Inr n" "adjust_balance aid r s = Inr t" "adjust_supply n False t = Inr u"
        "adjust_supply r False u = Inr s'"
    using assms(1) by (auto simp: create_mbd_def bindE_Inr_iff split: if_splits)
  then show ?thesis
  proof cases
    case null
    then show ?thesis using moves_adjust_balance [OF null(2) assms(2)] assms(3) by (simp add: of_symbol_def)
  next
    case price
    note 1 = moves_adjust_balance [OF price(2) assms(2)]
    note 2 = moves_adjust_supply [OF price(3) moves_tables [OF 1]]
    note 3 = moves_adjust_supply [OF price(4) moves_tables [OF 2]]
    from moves_trans [OF moves_trans [OF 1 2] 3] show ?thesis
      using price(1) assms(3) adjust_supply_symbol [OF price(4)] by (auto simp: of_symbol_def res_simps)
  qed (use assms(2) in \<open>simp add: moves_refl\<close>)
qed

lemma moves_add_vesting:
  assumes "modify_account aid (add_vesting d) s = Inr t" "tables_ok s" "idx_find aid (accounts s) = Some a"
  shows "moves (0, 0, - amount d, - (if acc_proxy a = MUSE_PROXY_TO_SELF_ACCOUNT then amount d else 0)) s t"
    and "\<exists>b. idx_find aid (accounts t) = Some b \<and> acc_proxy b = acc_proxy a \<and> asset_id d = VESTS_SYMBOL"
proof -
  show "moves (0, 0, - amount d, - (if acc_proxy a = MUSE_PROXY_TO_SELF_ACCOUNT then amount d else 0)) s t"
    by (rule moves_account [OF assms(1,2)]) (use assms(3) in \<open>auto simp: add_vesting_def res_simps account_ok_def vsf_weight_def\<close>)
  show "\<exists>b. idx_find aid (accounts t) = Some b \<and> acc_proxy b = acc_proxy a \<and> asset_id d = VESTS_SYMBOL"
    using assms(1,3) by (auto simp: res_simps add_vesting_def idx_find_update)
qed

lemma modify_dgp_accounts: "modify_dgp f s = Inr t \<Longrightarrow> accounts t = accounts s"
  by (auto simp: modify_dgp_def res_simps)

lemma moves_create_vesting:
  assumes "create_vesting aid muse s = Inr (v, s')" "tables_ok s"
  shows "moves (- amount muse, 0, 0, 0) s s'"
proof -
  obtain t u w where t: "modify_account aid (add_vesting v) s = Inr t"
    and u: "modify_dgp (\<lambda>p. bindE (plus_asset MUSE_SYMBOL (total_vesting_fund_muse p) muse) (\<lambda>f.
              bindE (plus_asset VESTS_SYMBOL (total_vesting_shares p) v) (\<lambda>x.
              Inr (p\<lparr>total_vesting_fund_muse := f, total_vesting_shares := x\<rparr>)))) t = Inr u"
    and w: "adjust_proxied_witness_votes aid (amount v) 0 u = Inr w" "recursive_recalculate_score aid (amount v) w = Inr s'"
    using assms(1) by (auto simp: create_vesting_def bindE_Inr_iff)
  obtain a where a: "idx_find aid (accounts s) = Some a" using t by (auto simp: res_simps)
  note 1 = moves_add_vesting [OF t assms(2) a]
  obtain b where b: "idx_find aid (accounts u) = Some b" "acc_proxy b = acc_proxy a"
    using 1(2) modify_dgp_accounts [OF u] by auto
  have 2: "moves (- amount muse, 0, amount v, amount v) t u"
    by (rule moves_dgp [OF u moves_tables [OF 1(1)]]) (auto simp: res_simps)
  note 3 = moves_adjust_proxied [OF w(1) moves_tables [OF 2] b(1)]
  note 4 = moves_recursive_recalculate_score [OF w(2) moves_tables [OF 3]]
  from moves_trans [OF moves_trans [OF moves_trans [OF 1(1) 2] 3] 4] show ?thesis
    using b(2) by (simp add: through_proxy_def MUSE_MAX_PROXY_RECURSION_DEPTH_def split: if_splits)
qed

lemma moves_update_virtual_supply: "update_virtual_supply s = Inr s' \<Longrightarrow> tables_ok s \<Longrightarrow> moves (0, 0, 0, 0) s s'"
  unfolding update_virtual_supply_def by (rule moves_dgp) (auto simp: res_simps)

section \<open>What they leave alone\<close>

text \<open>Balances, supplies, votes and scores touch accounts, balances, witnesses, platforms, the dynamic
  properties and the log; every other table is as before.\<close>

definition same_tables :: "chain \<Rightarrow> chain \<Rightarrow> bool" where
  "same_tables s t \<longleftrightarrow> contents t = contents s \<and> converts t = converts s \<and> orders t = orders s \<and> balances t = balances s \<and>
     reports t = reports s \<and> withdraw_routes t = withdraw_routes s \<and> witness_votes t = witness_votes s \<and>
     platform_votes t = platform_votes s \<and> owner_histories t = owner_histories s \<and> recovery_requests t = recovery_requests s \<and>
     change_recovery_requests t = change_recovery_requests s \<and> asset_objects t = asset_objects s \<and>
     content_approvals t = content_approvals s \<and> content_votes t = content_votes s \<and> proposals t = proposals s \<and>
     transaction_objects t = transaction_objects s \<and> block_summaries t = block_summaries s \<and>
     wso t = wso s \<and> feed_history t = feed_history s \<and>
     hardforks t = hardforks s"

lemma same_tables_refl [simp]: "same_tables s s"
  by (simp add: same_tables_def)

lemma same_tables_trans [trans]: "same_tables s t \<Longrightarrow> same_tables t u \<Longrightarrow> same_tables s u"
  by (simp add: same_tables_def)

lemma same_tables_basic:
  "modify_account k f s = Inr t \<Longrightarrow> same_tables s t"
  "modify_dgp g s = Inr t \<Longrightarrow> same_tables s t"
  "modify_witness k h s = Inr t \<Longrightarrow> same_tables s t"
  "modify_platform k j s = Inr t \<Longrightarrow> same_tables s t"
  by (auto simp: modify_account_def modify_dgp_def modify_witness_def modify_platform_def bindE_Inr_iff same_tables_def)

lemma same_tables_push [simp]: "same_tables s (push_virtual_op v t) \<longleftrightarrow> same_tables s t"
  by (simp add: same_tables_def push_virtual_op_def)

lemma same_tables_foldE:
  "foldE f xs s = Inr t \<Longrightarrow> (\<And>x u v. f x u = Inr v \<Longrightarrow> same_tables u v) \<Longrightarrow> same_tables s t"
  by (rule foldE_invariant [where I = "same_tables s"]) (auto intro: same_tables_trans)

lemma same_tables_pay_interest: "pay_interest k i s = Inr t \<Longrightarrow> same_tables s t"
  by (clarsimp simp: pay_interest_def Let_def bindE_Inr_iff [of "modify_account _ _ _"]
      dest!: same_tables_basic) (rule same_tables_trans)

lemma same_tables_accrue: "accrue_interest k s = Inr t \<Longrightarrow> same_tables s t"
  by (auto simp: accrue_interest_def Let_def bindE_Inr_iff dest!: same_tables_basic(1) same_tables_pay_interest
      intro: same_tables_trans split: if_splits)

lemma same_tables_adjust_balance:
  assumes "adjust_balance k d s = Inr t"
  shows "same_tables s t"
proof -
  have "same_tables s t" if "adjust_other_balance k d s = Inr t"
    using that by (auto simp: adjust_other_balance_def bindE_Inr_iff guardE_Inr_iff same_tables_def split: if_splits option.splits)
  then show ?thesis using assms
    by (auto simp: adjust_balance_def bindE_Inr_iff dest!: same_tables_basic(1) same_tables_accrue
        intro: same_tables_trans split: if_splits)
qed

lemma same_tables_adjust_supply: "adjust_supply d v s = Inr t \<Longrightarrow> same_tables s t"
  unfolding adjust_supply_def Let_def by (rule same_tables_basic(2))

lemma same_tables_create_mbd: "create_mbd k m s = Inr (r, t) \<Longrightarrow> same_tables s t"
  by (auto simp: create_mbd_def bindE_Inr_iff dest!: same_tables_adjust_balance same_tables_adjust_supply
      intro: same_tables_trans split: if_splits)

lemma same_tables_adjust_votes:
  assumes "bindE (adjust_witness_votes k d s) (adjust_streaming_platform_votes k d) = Inr t"
  shows "same_tables s t"
proof -
  obtain u where u: "adjust_witness_votes k d s = Inr u" "adjust_streaming_platform_votes k d u = Inr t"
    using assms by (auto simp: bindE_Inr_iff)
  have "same_tables s u"
    by (rule same_tables_foldE [OF u(1) [unfolded adjust_witness_votes_def]])
      (auto simp: adjust_witness_vote_def Let_def dest: same_tables_basic(3))
  also have "same_tables u t"
    by (rule same_tables_foldE [OF u(2) [unfolded adjust_streaming_platform_votes_def]])
      (auto simp: adjust_streaming_platform_vote_def dest: same_tables_basic(4))
  finally show ?thesis .
qed

lemma same_tables_adjust_proxied: "adjust_proxied_witness_votes k d depth s = Inr t \<Longrightarrow> same_tables s t"
proof (induction k d depth s rule: adjust_proxied_witness_votes.induct)
  case (1 k d depth s)
  from 1(2) obtain a where a: "idx_get k (accounts s) = Inr a"
    by (auto simp: adjust_proxied_witness_votes.simps [of k] bindE_Inr_iff)
  show ?case
  proof (cases "acc_proxy a = MUSE_PROXY_TO_SELF_ACCOUNT \<or> MUSE_MAX_PROXY_RECURSION_DEPTH \<le> depth")
    case True
    then show ?thesis using 1(2) a same_tables_adjust_votes [of k d s t]
      by (auto simp: adjust_proxied_witness_votes.simps [of k] split: if_splits)
  next
    case False
    then obtain pid p u where p: "get_account (acc_proxy a) s = Inr (pid, p)"
      and u: "modify_account pid (add_proxied depth d) s = Inr u"
      and r: "adjust_proxied_witness_votes pid d (depth + 1) u = Inr t"
      using 1(2) a by (auto simp: adjust_proxied_witness_votes.simps [of k] bindE_Inr_iff)
    have "same_tables u t" by (rule 1(1) [of a "(pid, p)" pid p u]) (use False a p u r in auto)
    with same_tables_basic(1) [OF u] show ?thesis by (rule same_tables_trans)
  qed
qed

lemma same_tables_accounts_fold: "foldE (\<lambda>f. modify_account f g) xs s = Inr t \<Longrightarrow> same_tables s t"
  by (erule same_tables_foldE) (rule same_tables_basic(1))

lemma same_tables_score: "recursive_recalculate_score k d s = Inr t \<Longrightarrow> same_tables s t"
  by (auto simp: recursive_recalculate_score_def Let_def bindE_Inr_iff
      dest!: same_tables_basic(1) same_tables_accounts_fold intro: same_tables_trans)

lemma same_tables_create_vesting: "create_vesting k m s = Inr (v, t) \<Longrightarrow> same_tables s t"
  by (auto simp: create_vesting_def bindE_Inr_iff [of "modify_account _ _ _"] bindE_Inr_iff [of "modify_dgp _ _"]
      bindE_Inr_iff [of "asset_mul_price _ _"] bindE_Inr_iff [of "adjust_proxied_witness_votes _ _ _ _"]
      bindE_Inr_iff [of "recursive_recalculate_score _ _ _"]
      dest!: same_tables_basic same_tables_adjust_proxied same_tables_score intro: same_tables_trans)

text \<open>Evaluation on concrete states.\<close>

lemmas balances_eval [chain_eval] =
  MUSE_SECONDS_PER_YEAR_def MUSE_SBD_INTEREST_COMPOUND_INTERVAL_SEC_def u128_to_share_def add_balance_def
  add_mbd_balance_def mbd_seconds_since_def interest_due_def interest_amount_def pay_interest_def
  accrue_interest_def account_balance_of_def adjust_other_balance_def adjust_balance_def get_balance_def
  adjust_supply_def pay_fee_def create_mbd_def add_vesting_def create_vesting_def to_mbd_def to_muse_def
  update_virtual_supply_def

end
