(* ===== verification/Market.thy ===== *)
theory Market
  imports Balances Asset_Laws
begin

text \<open>
  The market (\<open>database.cpp\<close>: \<open>apply_order\<close>, \<open>match\<close>, \<open>fill_order\<close>, \<open>cancel_order\<close>,
  \<open>clear_expired_orders\<close>; \<open>price::max\<close> of \<open>asset.cpp\<close>). The \<open>assert\<close> statements of \<open>match\<close> are
  not executed in a release build and are not part of the definitions; that the last two hold is proved.
\<close>

section \<open>Filling and cancelling\<close>

definition cancel_order :: "nat \<Rightarrow> chain \<Rightarrow> chain res" where
  "cancel_order oid s =
     bindE (idx_get oid (orders s)) (\<lambda>ord.
     bindE (get_account (lo_seller ord) s) (\<lambda>(k, a).
     bindE (adjust_balance k (amount_for_sale ord) s) (remove_order oid)))"

definition fill_order :: "nat \<Rightarrow> asset \<Rightarrow> asset \<Rightarrow> chain \<Rightarrow> (bool \<times> chain) res" where
  "fill_order oid pays receives s =
     bindE (idx_get oid (orders s)) (\<lambda>ord.
     guardE (asset_id (amount_for_sale ord) = asset_id pays) (
     guardE (asset_id pays \<noteq> asset_id receives) (
     bindE (get_account (lo_seller ord) s) (\<lambda>(k, a).
     bindE (adjust_balance k receives s) (\<lambda>s.
     if pays = amount_for_sale ord then bindE (remove_order oid s) (\<lambda>s. Inr (True, s))
     else
       bindE (modify_order oid (\<lambda>b. bindE (safe_sub (lo_for_sale b) (amount pays)) (\<lambda>v. Inr (b\<lparr>lo_for_sale := v\<rparr>))) s) (\<lambda>s.
       bindE (idx_get oid (orders s)) (\<lambda>ord.
       bindE (amount_to_receive ord) (\<lambda>r.
       if amount r = 0 then bindE (cancel_order oid s) (\<lambda>s. Inr (True, s))
       else Inr (False, s)))))))))"

section \<open>Matching\<close>

text \<open>The amounts exchanged: what the old order receives (and the new one pays), and what the new order
  receives (and the old one pays).\<close>

definition match_amounts :: "limit_order \<Rightarrow> limit_order \<Rightarrow> price \<Rightarrow> (asset \<times> asset) res" where
  "match_amounts new_order old_order match_price =
     (let new_order_for_sale = amount_for_sale new_order; old_order_for_sale = amount_for_sale old_order in
      bindE (asset_mul_price old_order_for_sale match_price) (\<lambda>m.
      bindE (asset_le new_order_for_sale m) (\<lambda>small.
      if small then
        bindE (asset_mul_price new_order_for_sale match_price) (\<lambda>r. Inr (new_order_for_sale, r))
      else
        bindE (asset_mul_price old_order_for_sale match_price) (\<lambda>r. Inr (r, old_order_for_sale)))))"

text \<open>\<open>match\<close>: bit 0 of the result says that the new order was filled, bit 1 that the old one was.\<close>

definition match_orders :: "nat \<Rightarrow> nat \<Rightarrow> price \<Rightarrow> chain \<Rightarrow> (nat \<times> chain) res" where
  "match_orders new_id old_id match_price s =
     bindE (idx_get new_id (orders s)) (\<lambda>new_order.
     bindE (idx_get old_id (orders s)) (\<lambda>old_order.
     bindE (match_amounts new_order old_order match_price) (\<lambda>(old_order_receives, new_order_receives).
     let old_order_pays = new_order_receives; new_order_pays = old_order_receives;
         s = push_virtual_op (Fill_order (lo_seller new_order) (lo_orderid new_order) new_order_pays
               (lo_seller old_order) (lo_orderid old_order) old_order_pays) s in
     bindE (fill_order new_id new_order_pays new_order_receives s) (\<lambda>(f1, s).
     bindE (fill_order old_id old_order_pays old_order_receives s) (\<lambda>(f2, s).
     Inr ((if f1 then 1 else 0) + (if f2 then 2 else 0), s))))))"


definition price_max :: "asset_id \<Rightarrow> asset_id \<Rightarrow> price res" where
  "price_max b q = asset_div_asset (mk_asset MUSE_MAX_SHARE_SUPPLY b) (mk_asset 1 q)"

text \<open>The order of the \<open>by_price\<close> index: prices decreasing, then ids increasing.\<close>

fun insert_by_price :: "nat \<times> limit_order \<Rightarrow> (nat \<times> limit_order) list \<Rightarrow> (nat \<times> limit_order) list" where
  "insert_by_price x [] = [x]"
| "insert_by_price x (y # ys) =
     (if price_gt (lo_sell_price (snd y)) (lo_sell_price (snd x)) then y # insert_by_price x ys else x # y # ys)"

definition orders_by_price :: "chain \<Rightarrow> (nat \<times> limit_order) list" where
  "orders_by_price s = foldr insert_by_price (rows (orders s)) []"

text \<open>The range from \<open>lower_bound(max_price.max())\<close> to \<open>upper_bound(max_price)\<close>.\<close>

definition matching_orders :: "price \<Rightarrow> price \<Rightarrow> chain \<Rightarrow> (nat \<times> limit_order) list" where
  "matching_orders mx max_price s =
     filter (\<lambda>(k, ord). price_le (lo_sell_price ord) mx \<and> price_ge (lo_sell_price ord) max_price) (orders_by_price s)"

fun match_loop :: "nat \<Rightarrow> (nat \<times> limit_order) list \<Rightarrow> chain \<Rightarrow> chain res" where
  "match_loop new_id [] s = Inr s"
| "match_loop new_id ((old_id, old) # ords) s =
     bindE (match_orders new_id old_id (lo_sell_price old) s) (\<lambda>(r, s).
     if r mod 2 = 1 then Inr s else match_loop new_id ords s)"

definition apply_order :: "nat \<Rightarrow> chain \<Rightarrow> (bool \<times> chain) res" where
  "apply_order new_id s =
     bindE (idx_get new_id (orders s)) (\<lambda>new_order.
     let max_price = price_invert (lo_sell_price new_order) in
     bindE (price_max (asset_id (base max_price)) (asset_id (quote max_price))) (\<lambda>mx.
     bindE (match_loop new_id (matching_orders mx max_price s) s) (\<lambda>s.
     Inr (idx_find new_id (orders s) = None, s))))"

text \<open>\<open>clear_expired_orders\<close>: the orders past their expiration, in the order of \<open>by_expiration\<close>.\<close>

definition expired_orders :: "chain \<Rightarrow> nat list" where
  "expired_orders s =
     map fst (sort_key (\<lambda>(k, ord). lo_expiration ord)
       (filter (\<lambda>(k, ord). lo_expiration ord < head_block_time s) (rows (orders s))))"

definition clear_expired_orders :: "chain \<Rightarrow> chain res" where
  "clear_expired_orders s = foldE cancel_order (expired_orders s) s"

section \<open>What the market moves\<close>

lemma moves_order_change:
  assumes "orders s' = ix" "s' = s\<lparr>orders := ix\<rparr>" "tables_ok s" "index_ok ix"
    "dm = idx_sum (\<lambda>ord. of_symbol MUSE_SYMBOL (amount_for_sale ord)) (orders s) - idx_sum (\<lambda>ord. of_symbol MUSE_SYMBOL (amount_for_sale ord)) ix"
    "db = idx_sum (\<lambda>ord. of_symbol MBD_SYMBOL (amount_for_sale ord)) (orders s) - idx_sum (\<lambda>ord. of_symbol MBD_SYMBOL (amount_for_sale ord)) ix"
  shows "moves (dm, db, 0, 0) s s'"
  using assms(3-) by (simp add: assms(2) moves_def tables_ok_def muse_gap_def mbd_gap_def vests_gap_def vsf_gap_def
      muse_held_def mbd_held_def vests_held_def vsf_held_def)

lemma moves_remove_order:
  assumes "remove_order oid s = Inr s'" "tables_ok s" "idx_find oid (orders s) = Some ord"
  shows "moves (of_symbol MUSE_SYMBOL (amount_for_sale ord), of_symbol MBD_SYMBOL (amount_for_sale ord), 0, 0) s s'"
  by (rule moves_order_change [OF refl])
    (use assms tables_okD(3) [OF assms(2)] in \<open>auto simp: remove_order_def res_simps index_ok_delete idx_sum_delete\<close>)

lemma moves_modify_order:
  assumes "modify_order oid f s = Inr s'" "tables_ok s" "idx_find oid (orders s) = Some ord" "f ord = Inr ord'"
  shows "moves (of_symbol MUSE_SYMBOL (amount_for_sale ord) - of_symbol MUSE_SYMBOL (amount_for_sale ord'),
    of_symbol MBD_SYMBOL (amount_for_sale ord) - of_symbol MBD_SYMBOL (amount_for_sale ord'), 0, 0) s s'"
  by (rule moves_order_change [OF refl])
    (use assms tables_okD(3) [OF assms(2)] in \<open>auto simp: modify_order_def res_simps index_ok_update idx_sum_update\<close>)

lemma adjust_balance_orders: "adjust_balance k d s = Inr s' \<Longrightarrow> orders s' = orders s"
  by (auto simp: same_tables_def dest!: same_tables_adjust_balance)

lemma moves_cancel_order:
  assumes "cancel_order oid s = Inr s'" "tables_ok s"
  shows "moves (0, 0, 0, 0) s s'"
proof -
  obtain ord k a t where ord: "idx_find oid (orders s) = Some ord"
    and t: "adjust_balance k (amount_for_sale ord) s = Inr t" "remove_order oid t = Inr s'"
    using assms(1) by (auto simp: cancel_order_def res_simps)
  note 1 = moves_adjust_balance [OF t(1) assms(2)]
  have "idx_find oid (orders t) = Some ord" using ord adjust_balance_orders [OF t(1)] by simp
  from moves_trans [OF 1 moves_remove_order [OF t(2) moves_tables [OF 1] this]] show ?thesis by simp
qed

lemma of_symbol_diff: "asset_id a = asset_id b \<Longrightarrow> of_symbol i (mk_asset (amount a - amount b) (asset_id a)) = of_symbol i a - of_symbol i b"
  by (simp add: of_symbol_def)

lemma moves_fill_order:
  assumes "fill_order oid pays receives s = Inr (f, s')" "tables_ok s"
  shows "moves (of_symbol MUSE_SYMBOL pays - of_symbol MUSE_SYMBOL receives,
    of_symbol MBD_SYMBOL pays - of_symbol MBD_SYMBOL receives, 0, 0) s s'"
proof -
  obtain ord k a t where ord: "idx_find oid (orders s) = Some ord" and id: "asset_id (amount_for_sale ord) = asset_id pays"
    and t: "adjust_balance k receives s = Inr t"
    and rest: "(if pays = amount_for_sale ord then bindE (remove_order oid t) (\<lambda>s. Inr (True, s))
      else bindE (modify_order oid (\<lambda>b. bindE (safe_sub (lo_for_sale b) (amount pays)) (\<lambda>v. Inr (b\<lparr>lo_for_sale := v\<rparr>))) t) (\<lambda>s.
        bindE (idx_get oid (orders s)) (\<lambda>ord.
        bindE (amount_to_receive ord) (\<lambda>r.
        if amount r = 0 then bindE (cancel_order oid s) (\<lambda>s. Inr (True, s)) else Inr (False, s))))) = Inr (f, s')"
    using assms(1) by (auto simp: fill_order_def res_simps)
  note 1 = moves_adjust_balance [OF t assms(2)]
  have ordt: "idx_find oid (orders t) = Some ord" using ord adjust_balance_orders [OF t] by simp
  show ?thesis
  proof (cases "pays = amount_for_sale ord")
    case True
    then have "remove_order oid t = Inr s'" using rest by (auto simp: bindE_Inr_iff)
    from moves_trans [OF 1 moves_remove_order [OF this moves_tables [OF 1] ordt]] show ?thesis
      by (simp add: True)
  next
    case False
    let ?f = "\<lambda>b. bindE (safe_sub (lo_for_sale b) (amount pays)) (\<lambda>v. Inr (b\<lparr>lo_for_sale := v\<rparr>))"
    obtain u r where u: "modify_order oid ?f t = Inr u"
      and r: "(if amount (r :: asset) = 0 then bindE (cancel_order oid u) (\<lambda>s. Inr (True, s)) else Inr (False, u)) = Inr (f, s')"
      using rest False by (auto simp: bindE_Inr_iff)
    obtain ord' where ord': "?f ord = Inr ord'" using u ordt by (auto simp: modify_order_def res_simps)
    then have o2: "amount_for_sale ord' = mk_asset (amount (amount_for_sale ord) - amount pays) (asset_id (amount_for_sale ord))"
      by (auto simp: res_simps amount_for_sale_def)
    note 2 = moves_trans [OF 1 moves_modify_order [OF u moves_tables [OF 1] ordt ord']]
    have 3: "moves (0, 0, 0, 0) u s'"
      using r moves_cancel_order [of oid u s'] moves_refl [of u] moves_tables [OF 2] by (auto simp: bindE_Inr_iff split: if_splits)
    from moves_trans [OF 2 3] show ?thesis by (simp add: o2 of_symbol_diff [OF id])
  qed
qed

lemma moves_match:
  assumes "match_orders n m p s = Inr (r, s')" "tables_ok s"
  shows "moves (0, 0, 0, 0) s s'"
proof -
  obtain v x y f1 f2 t where t: "fill_order n x y (push_virtual_op v s) = Inr (f1, t)" "fill_order m y x t = Inr (f2, s')"
    using assms(1) by (auto simp: match_orders_def bindE_Inr_iff Let_def)
  have "moves (0, 0, 0, 0) s (push_virtual_op v s)" using assms(2) by (simp add: moves_refl)
  note 1 = moves_trans [OF this moves_fill_order [OF t(1) moves_tables [OF this]]]
  from moves_trans [OF 1 moves_fill_order [OF t(2) moves_tables [OF 1]]] show ?thesis by simp
qed

lemma moves_match_loop: "match_loop n ords s = Inr s' \<Longrightarrow> tables_ok s \<Longrightarrow> moves (0, 0, 0, 0) s s'"
proof (induction n ords s rule: match_loop.induct)
  case (2 n m old ords s)
  then obtain r t where t: "match_orders n m (lo_sell_price old) s = Inr (r, t)"
    "(if r mod 2 = 1 then Inr t else match_loop n ords t) = Inr s'" by (auto simp: bindE_Inr_iff)
  have 1: "moves (0, 0, 0, 0) s t" by (rule moves_match [OF t(1) 2(3)])
  show ?case
  proof (cases "r mod 2 = 1")
    case True
    then show ?thesis using t(2) 1 by simp
  next
    case False
    then have "moves (0, 0, 0, 0) t s'" using 2(1) [of "(r, t)" r t] t moves_tables [OF 1] by simp
    with 1 show ?thesis by (simp add: moves_def)
  qed
qed (simp add: moves_refl)

lemma moves_apply_order: "apply_order n s = Inr (f, s') \<Longrightarrow> tables_ok s \<Longrightarrow> moves (0, 0, 0, 0) s s'"
  by (auto simp: apply_order_def bindE_Inr_iff Let_def intro: moves_match_loop)

interpretation cancels: conserving cancel_order
  by unfold_locales (rule moves_cancel_order)

lemma moves_clear_expired_orders: "clear_expired_orders s = Inr s' \<Longrightarrow> tables_ok s \<Longrightarrow> moves (0, 0, 0, 0) s s'"
  unfolding clear_expired_orders_def by (rule cancels.run_moves)

text \<open>Evaluation on concrete states.\<close>

lemmas market_eval [chain_eval] =
  cancel_order_def fill_order_def match_amounts_def match_orders_def price_max_def
  orders_by_price_def matching_orders_def apply_order_def expired_orders_def clear_expired_orders_def

end
