(* ===== verification/Demo_Chain.thy ===== *)
theory Demo_Chain
  imports Chain_State
begin

text \<open>
  Builders for the concrete chain states on which the properties of the chain are exercised: accounts, orders,
  dynamic properties, and a chain with a given set of accounts and orders and nothing else.
\<close>

definition no_authority :: authority where
  "no_authority = \<lparr>weight_threshold = 0, account_auths = [], key_auths = []\<rparr>"

definition demo_account :: "string \<Rightarrow> share \<Rightarrow> share \<Rightarrow> share \<Rightarrow> account" where
  "demo_account n bal mbd vest =
     \<lparr>acc_name = n, acc_owner = no_authority, acc_active = no_authority, acc_basic = no_authority, acc_memo_key = 0,
      acc_json_metadata = [], acc_proxy = [], acc_last_owner_update = 0, acc_created = 0, acc_mined = True,
      acc_owner_challenged = False, acc_active_challenged = False, acc_last_owner_proved = 0, acc_last_active_proved = 0,
      acc_recovery_account = [], acc_last_account_recovery = 0, acc_last_vote_time = 0,
      acc_score = 0, acc_total_listening_time = 0, acc_balance = bal, acc_mbd_balance = mbd, acc_mbd_seconds = 0,
      acc_mbd_seconds_last_update = 0, acc_mbd_last_interest_payment = 0, acc_vesting_shares = vest,
      acc_vesting_withdraw_rate = 0, acc_next_vesting_withdrawal = time_max, acc_withdrawn = 0, acc_to_withdraw = 0,
      acc_withdraw_routes = 0, acc_proxied_vsf_votes = [0, 0, 0, 0], acc_witnesses_voted_for = 0,
      acc_streaming_platforms_voted_for = 0, acc_average_bandwidth = 0, acc_lifetime_bandwidth = 0,
      acc_last_bandwidth_update = 0, acc_average_market_bandwidth = 0, acc_last_market_bandwidth_update = 0,
      acc_friends = [], acc_second_level = [], acc_waiting = []\<rparr>"

definition demo_order :: "string \<Rightarrow> nat \<Rightarrow> share \<Rightarrow> price \<Rightarrow> limit_order" where
  "demo_order n i amt p = \<lparr>lo_created = 0, lo_expiration = 100, lo_seller = n, lo_orderid = i, lo_for_sale = amt, lo_sell_price = p\<rparr>"

definition demo_album :: content_metadata_album_master where
  "demo_album = \<lparr>am_part_of_album = False, am_album_title = ''album'', am_album_artist = [''art''], am_genre_1 = 0, am_genre_2 = None,
     am_country_of_origin = [], am_explicit = 1, am_p_line = [], am_c_line = [], am_upc_or_ean = 0, am_release_date = 0,
     am_release_year = 0, am_sales_start_date = 0, am_album_producer = None, am_album_type = None, am_master_label_name = [],
     am_display_label_name = []\<rparr>"

definition demo_track :: content_metadata_track_master where
  "demo_track = \<lparr>tm_track_title = ''track'', tm_ISRC = [], tm_track_artists = [], tm_featured_artist = None,
     tm_featured_artist_ISNI = None, tm_track_producer = None, tm_genre_1 = 0, tm_genre_2 = None, tm_p_line = [],
     tm_track_no = 1, tm_track_volume = 1, tm_json_metadata = None, tm_track_duration = 60, tm_samples = False\<rparr>"

definition demo_publishing :: "bool \<Rightarrow> content_metadata_publisher" where
  "demo_publishing third_party = \<lparr>pm_composition_title = ''song'', pm_alternate_composition_title = None, pm_ISWC = None,
     pm_third_party_publishers = third_party, pm_publishers = [], pm_writers = [], pm_PRO = []\<rparr>"

definition index_of :: "'a list \<Rightarrow> 'a index" where
  "index_of xs = \<lparr>rows = zip [0..<length xs] xs, next_instance = length xs\<rparr>"

definition demo_props :: chain_properties where
  "demo_props = \<lparr>cp_account_creation_fee = mk_asset 1 MUSE_SYMBOL, cp_streaming_platform_update_fee = mk_asset 10000000 MUSE_SYMBOL,
     cp_maximum_block_size = 131072, cp_mbd_interest_rate = 1000\<rparr>"

definition demo_dgp :: "share \<Rightarrow> share \<Rightarrow> share \<Rightarrow> share \<Rightarrow> dynamic_global_property" where
  "demo_dgp supply mbd fund vests =
     \<lparr>head_block_number = 300000, head_block_id = null_block_id, dgp_time = 50, current_witness = ''initminer'',
      virtual_supply = supply, current_supply = supply, current_mbd_supply = mbd, total_vesting_fund_muse = fund,
      total_vesting_shares = vests, total_reward_fund_muse = 0, supply_delta = 0, maximum_proposal_lifetime = 86400, mbd_interest_rate = 0, average_block_size = 0,
      maximum_block_size = 131072, current_aslot = 1, recent_slots_filled = 0, participation_count = 0,
      last_irreversible_block_num = 0, max_virtual_bandwidth = 0, current_reserve_ratio = 1\<rparr>"

definition demo_chain :: "account list \<Rightarrow> limit_order list \<Rightarrow> dynamic_global_property \<Rightarrow> chain" where
  "demo_chain accs ords p =
     \<lparr>accounts = index_of accs, account_balances = empty_index, witnesses = empty_index, witness_votes = empty_index,
      platforms = empty_index, platform_votes = empty_index, contents = empty_index, reports = empty_index,
      converts = empty_index, orders = index_of ords, withdraw_routes = empty_index, balances = empty_index,
      owner_histories = empty_index, recovery_requests = empty_index, change_recovery_requests = empty_index,
      asset_objects = empty_index, content_approvals = empty_index, content_votes = empty_index, proposals = empty_index,
      transaction_objects = empty_index, block_summaries = (\<lambda>_. null_block_id),
      dgp = p,
      wso = \<lparr>wso_current_virtual_time = 0, wso_next_shuffle_block_num = 1, wso_current_shuffled_witnesses = [''initminer''],
             wso_median_props = demo_props, wso_majority_version = \<lparr>v_num = 0\<rparr>\<rparr>,
      feed_history = \<lparr>fh_current_median_history = null_price, fh_price_history = []\<rparr>,
      hardforks = \<lparr>hf_processed_hardforks = [0, 1, 2, 3], hf_last_hardfork = 3, hf_current_hardfork_version = \<lparr>v_num = 0\<rparr>,
                   hf_next_hardfork = \<lparr>v_num = 0\<rparr>, hf_next_hardfork_time = 0\<rparr>,
      virtual_ops = []\<rparr>"

lemmas demo_defs [chain_eval] = demo_chain_def demo_account_def demo_order_def demo_dgp_def demo_props_def index_of_def no_authority_def
  demo_album_def demo_track_def demo_publishing_def

end
