(* ===== verification/Market_Laws.thy ===== *)
theory Market_Laws
  imports Market Demo_Chain
begin

text \<open>
  Properties of the market: what two orders exchange when they match, that every match fills at least one
  of them, and that creating, matching, filling, cancelling and expiring orders leaves the recorded
  supplies equal to the holdings.
\<close>

section \<open>The exchange\<close>

definition opposite_markets :: "limit_order \<Rightarrow> price \<Rightarrow> limit_order \<Rightarrow> bool" where
  "opposite_markets new_order p old_order \<longleftrightarrow>
     asset_id (amount_for_sale new_order) = asset_id (quote p) \<and> asset_id (amount_for_sale old_order) = asset_id (base p) \<and>
     asset_id (base p) \<noteq> asset_id (quote p)"

lemma asset_le_Inr: "asset_le a b = Inr r \<Longrightarrow> asset_id a = asset_id b \<and> r = (amount a \<le> amount b)"
  by (cases "a = b") (auto simp: asset_le_def asset_lt_def guardE_Inr_iff)

lemma match_amounts_cases:
  assumes "match_amounts n ord p = Inr (x, y)"
  shows "x = amount_for_sale n \<and> asset_mul_price x p = Inr y \<and>
      (\<exists>m. asset_mul_price (amount_for_sale ord) p = Inr m \<and> amount x \<le> amount m) \<or>
    y = amount_for_sale ord \<and> asset_mul_price y p = Inr x \<and> amount x < lo_for_sale n"
  using assms
  by (auto simp: match_amounts_def Let_def bindE_Inr_iff amount_for_sale_def dest!: asset_le_Inr split: if_splits)

lemma floor_bound: "0 < (b :: int) \<Longrightarrow> n \<le> w * q div b \<Longrightarrow> 0 < q \<Longrightarrow> n * b div q \<le> w"
proof -
  assume a: "0 < b" "n \<le> w * q div b" "0 < q"
  have "n * b \<le> (w * q div b) * b" using a by (simp add: mult_right_mono)
  also have "\<dots> \<le> w * q" using a(1) by (metis add.commute div_mult_mod_eq le_add_same_cancel2 pos_mod_sign)
  finally have "n * b div q \<le> w * q div q" using a(3) by (rule zdiv_mono1)
  then show ?thesis using a(3) by (metis less_irrefl nonzero_mult_div_cancel_right)
qed

text \<open>Property C31. When a new order meets an order of the book at price \<open>p\<close> (base asset sold by the old order),
  the exchange is limited by one of the two: either all the new order offers changes hands and the old order
  pays the quotient rounded down, or all the old order offers changes hands and the new order pays the
  quotient rounded down. Neither order pays more than it has for sale, and both amounts are not negative.\<close>

theorem match_exchange:
  assumes "match_amounts n ord p = Inr (x, y)" "opposite_markets n p ord" "price_amounts_ok p"
    "0 \<le> lo_for_sale n" "in_int64 (lo_for_sale n)" "0 \<le> lo_for_sale ord" "in_int64 (lo_for_sale ord)"
    "in_int64 (lo_for_sale ord * amount (quote p) div amount (base p))"
  shows "asset_id x = asset_id (quote p) \<and> asset_id y = asset_id (base p) \<and>
    0 \<le> amount x \<and> amount x \<le> lo_for_sale n \<and> 0 \<le> amount y \<and> amount y \<le> lo_for_sale ord \<and>
    (amount x = lo_for_sale n \<and> amount y = lo_for_sale n * amount (base p) div amount (quote p) \<or>
     amount y = lo_for_sale ord \<and> amount x = lo_for_sale ord * amount (quote p) div amount (base p))"
proof -
  let ?b = "amount (base p)" and ?q = "amount (quote p)"
  have pos: "0 < ?b" "0 < ?q" using assms(3) by (simp_all add: price_amounts_ok_def)
  have ids: "asset_id (amount_for_sale n) = asset_id (quote p)" "asset_id (amount_for_sale ord) = asset_id (base p)"
    "asset_id (base p) \<noteq> asset_id (quote p)" using assms(2) by (simp_all add: opposite_markets_def)
  have am: "amount (amount_for_sale k) = lo_for_sale k" for k by (simp add: amount_for_sale_def)
  have m: "asset_mul_price (amount_for_sale ord) p = Inr (mk_asset (lo_for_sale ord * ?q div ?b) (asset_id (quote p)))"
    using asset_mul_price_base [of p "amount_for_sale ord"] assms ids by (simp add: am)
  consider (new) "x = amount_for_sale n" "asset_mul_price x p = Inr y" "lo_for_sale n \<le> lo_for_sale ord * ?q div ?b"
    | (old) "y = amount_for_sale ord" "asset_mul_price y p = Inr x" "amount x < lo_for_sale n"
    using match_amounts_cases [OF assms(1)] m by (auto simp: am)
  then show ?thesis
  proof cases
    case new
    have le: "lo_for_sale n * ?b div ?q \<le> lo_for_sale ord" by (rule floor_bound [OF pos(1) new(3) pos(2)])
    have nn: "0 \<le> lo_for_sale n * ?b div ?q" using assms(4) pos by (simp add: pos_imp_zdiv_nonneg_iff)
    have "in_int64 (lo_for_sale n * ?b div ?q)" using in_int64_mono [OF assms(7) nn le] .
    then have "y = mk_asset (lo_for_sale n * ?b div ?q) (asset_id (base p))"
      using asset_mul_price_quote [of p x] new(1,2) assms(3-5) ids by (simp add: am)
    then show ?thesis using new(1) le nn assms(4) ids(1) by (simp add: am)
  next
    case old
    have nn: "0 \<le> lo_for_sale ord * ?q div ?b" using assms(6) pos by (simp add: pos_imp_zdiv_nonneg_iff)
    have "x = mk_asset (lo_for_sale ord * ?q div ?b) (asset_id (quote p))" using old(1,2) m by simp
    then show ?thesis using old(1,3) nn assms(6) ids(2) by (simp add: am)
  qed
qed

definition demo_price :: price where [chain_eval]: "demo_price = mk_price (mk_asset 3 MBD_SYMBOL) (mk_asset 7 MUSE_SYMBOL)"

lemma demo_match_amounts:
  "match_amounts (demo_order ''bob'' 1 50 (mk_price (mk_asset 7 MUSE_SYMBOL) (mk_asset 3 MBD_SYMBOL))) (demo_order ''alice'' 1 10 demo_price) demo_price
    = Inr (mk_asset 23 MUSE_SYMBOL, mk_asset 10 MBD_SYMBOL)"
  by code_simp

definition demo_offer :: limit_order where
  "demo_offer = demo_order ''bob'' 1 50 (mk_price (mk_asset 7 MUSE_SYMBOL) (mk_asset 3 MBD_SYMBOL))"

definition demo_resting :: limit_order where "demo_resting = demo_order ''alice'' 1 10 demo_price"

theorem match_exchange_witness:
  "opposite_markets demo_offer demo_price demo_resting \<and> price_amounts_ok demo_price \<and> lo_for_sale demo_offer = 50 \<and> lo_for_sale demo_resting = 10 \<and>
   (\<exists>x y. match_amounts demo_offer demo_resting demo_price = Inr (x, y) \<and> amount x \<le> lo_for_sale demo_offer \<and> amount y \<le> lo_for_sale demo_resting \<and>
     (amount x = 50 \<and> amount y = 50 * 3 div 7 \<or> amount y = 10 \<and> amount x = 10 * 7 div 3))"
proof -
  have h: "opposite_markets demo_offer demo_price demo_resting" "price_amounts_ok demo_price"
    "lo_for_sale demo_offer = 50" "lo_for_sale demo_resting = 10" "amount (base demo_price) = 3" "amount (quote demo_price) = 7"
    by (simp_all add: demo_offer_def demo_resting_def opposite_markets_def demo_order_def amount_for_sale_def demo_price_def price_amounts_ok_def
        in_int64_def int64_min_def int64_max_def)
  have i: "in_int64 50" "in_int64 10" "in_int64 (10 * 7 div 3)" by (simp_all add: in_int64_def int64_min_def int64_max_def)
  have m: "match_amounts demo_offer demo_resting demo_price = Inr (mk_asset 23 MUSE_SYMBOL, mk_asset 10 MBD_SYMBOL)"
    using demo_match_amounts by (simp add: demo_offer_def demo_resting_def)
  from match_exchange [OF m h(1,2)] show ?thesis using h m i by simp
qed

section \<open>Every match fills an order\<close>

lemma fill_order_full:
  "fill_order oid pays receives s = Inr (f, s') \<Longrightarrow> idx_find oid (orders s) = Some ord \<Longrightarrow> pays = amount_for_sale ord \<Longrightarrow> f"
  by (auto simp: fill_order_def res_simps)

lemma remove_order_other: "remove_order k s = Inr s' \<Longrightarrow> j \<noteq> k \<Longrightarrow> idx_find j (orders s') = idx_find j (orders s)"
  by (auto simp: remove_order_def res_simps idx_find_delete)

lemma cancel_order_other: "cancel_order k s = Inr s' \<Longrightarrow> j \<noteq> k \<Longrightarrow> idx_find j (orders s') = idx_find j (orders s)"
  by (auto simp: cancel_order_def bindE_Inr_iff dest!: adjust_balance_orders remove_order_other)

lemma modify_order_other: "modify_order k f s = Inr s' \<Longrightarrow> j \<noteq> k \<Longrightarrow> idx_find j (orders s') = idx_find j (orders s)"
  by (auto simp: modify_order_def res_simps idx_find_update)

lemma fill_order_other:
  assumes "fill_order k pays receives s = Inr (f, s')" "j \<noteq> k"
  shows "idx_find j (orders s') = idx_find j (orders s)"
  using assms
  by (auto simp: fill_order_def bindE_Inr_iff guardE_Inr_iff
      dest!: adjust_balance_orders remove_order_other cancel_order_other modify_order_other split: if_splits)

text \<open>A match that returns reports that the new order, the old order or both were filled: the result is
  never 0, so the loop of \<open>apply_order\<close> always either ends or removes an order of the book. This is the
  last \<open>assert\<close> of \<open>match\<close>.\<close>

theorem match_fills_one:
  assumes "match_orders new_id old_id p s = Inr (r, s')" "new_id \<noteq> old_id"
  shows "r \<noteq> 0"
proof -
  obtain n ord x y v f1 f2 t where o: "idx_find new_id (orders s) = Some n" "idx_find old_id (orders s) = Some ord"
    and xy: "match_amounts n ord p = Inr (x, y)"
    and f: "fill_order new_id x y (push_virtual_op v s) = Inr (f1, t)" "fill_order old_id y x t = Inr (f2, s')"
    and r: "r = (if f1 then 1 else 0) + (if f2 then 2 else 0)"
    using assms(1) by (auto simp: match_orders_def bindE_Inr_iff idx_get_Inr Let_def)
  have n1: "idx_find new_id (orders (push_virtual_op v s)) = Some n" "idx_find old_id (orders (push_virtual_op v s)) = Some ord"
    using o by (simp_all add: push_virtual_op_def)
  have o2: "idx_find old_id (orders t) = Some ord" using fill_order_other [OF f(1)] assms(2) n1(2) by auto
  have "f1 \<or> f2" using match_amounts_cases [OF xy] fill_order_full [OF f(1) n1(1)] fill_order_full [OF f(2) o2] by blast
  then show ?thesis by (auto simp: r)
qed

definition demo_book :: chain where [chain_eval]:
  "demo_book = demo_chain [demo_account ''alice'' 0 0 0, demo_account ''bob'' 100 0 0]
     [demo_order ''alice'' 1 10 demo_price, demo_order ''bob'' 1 50 (mk_price (mk_asset 7 MUSE_SYMBOL) (mk_asset 3 MBD_SYMBOL))]
     (demo_dgp 150 10 0 0)"

lemma demo_match: "\<exists>s'. match_orders 1 0 demo_price demo_book = Inr (2, s')"
  by (simp add: chain_eval)

theorem match_fills_one_witness: "\<exists>r s'. match_orders 1 0 demo_price demo_book = Inr (r, s') \<and> r \<noteq> 0"
proof -
  obtain s' where s': "match_orders 1 0 demo_price demo_book = Inr (2, s')" using demo_match by blast
  from match_fills_one [OF this] show ?thesis using s' by auto
qed

section \<open>The market conserves every book\<close>

text \<open>Property C15. Applying a new order to the book (every match, every fill, every refund of an unsellable
  remainder, every interest payment the credits trigger) leaves the difference between each recorded supply
  and the corresponding holdings unchanged: no MUSE, MBD, vesting share or voting weight is created or lost.\<close>

theorem apply_order_conserves:
  assumes "apply_order oid s = Inr (filled, s')" "tables_ok s"
  shows "muse_gap s' = muse_gap s \<and> mbd_gap s' = mbd_gap s \<and> vests_gap s' = vests_gap s \<and> vsf_gap s' = vsf_gap s \<and> tables_ok s'"
  using moves_apply_order [OF assms] by (simp add: moves_def)

lemma demo_apply_order: "\<exists>s'. apply_order 1 demo_book = Inr (False, s')"
  by (simp add: chain_eval)

lemma demo_book_ok: "tables_ok demo_book"
  by (simp add: chain_eval)

theorem apply_order_conserves_witness:
  "\<exists>s'. apply_order 1 demo_book = Inr (False, s') \<and> muse_gap s' = muse_gap demo_book \<and> mbd_gap s' = 0"
proof -
  obtain s' where s': "apply_order 1 demo_book = Inr (False, s')" using demo_apply_order by blast
  moreover have "mbd_gap demo_book = 0" by (simp add: chain_eval)
  ultimately show ?thesis using apply_order_conserves [OF s' demo_book_ok] by auto
qed

end
