(* ===== verification/Rewards.thy ===== *)
theory Rewards
  imports Balances
begin

text \<open>
  The money the chain creates in every block (\<open>database.cpp\<close>): the content, witness and vesting rewards, their
  booking by \<open>process_funds\<close> and \<open>adjust_funds\<close>, the payout of content rewards to artists, publishers and streaming
  platforms, and the conversion of MBD into MUSE. Asset arithmetic with an unsigned right operand takes a
  \<open>uint32_t\<close>: a wider operand is narrowed.
\<close>

section \<open>Constants and reward rates\<close>

definition MUSE_HARDFORK_0_1 :: nat where "MUSE_HARDFORK_0_1 = 1"
definition MUSE_HARDFORK_0_2 :: nat where "MUSE_HARDFORK_0_2 = 2"
definition MUSE_HARDFORK_0_3 :: nat where "MUSE_HARDFORK_0_3 = 3"
definition MUSE_CONTENT_APR_PERCENT :: nat where "MUSE_CONTENT_APR_PERCENT = 712"
definition MUSE_CONTENT_APR_PERCENT_0_2 :: nat where "MUSE_CONTENT_APR_PERCENT_0_2 = 5000"
definition MUSE_VESTING_ARP_PERCENT :: nat where "MUSE_VESTING_ARP_PERCENT = 143"
definition MUSE_VESTING_ARP_PERCENT_0_2 :: nat where "MUSE_VESTING_ARP_PERCENT_0_2 = 3000"
definition MUSE_PRODUCER_APR_PERCENT :: nat where "MUSE_PRODUCER_APR_PERCENT = 95"
definition MUSE_PRODUCER_APR_PERCENT_0_2 :: nat where "MUSE_PRODUCER_APR_PERCENT_0_2 = 2000"
definition MUSE_MINING_REWARD :: share where "MUSE_MINING_REWARD = 100"
definition MUSE_START_MINER_VOTING_BLOCK :: nat where "MUSE_START_MINER_VOTING_BLOCK = MUSE_BLOCKS_PER_DAY"
definition MUSE_CURATE_APR_PERCENT_RESERVE :: nat where "MUSE_CURATE_APR_PERCENT_RESERVE = 10"

definition asset_mul_u32 :: "asset \<Rightarrow> nat \<Rightarrow> asset res" where
  "asset_mul_u32 a b = bindE (safe_mul (amount a) (int (b mod 2 ^ 32))) (\<lambda>x. Inr (mk_asset x (asset_id a)))"

definition asset_div_u32 :: "asset \<Rightarrow> nat \<Rightarrow> asset res" where
  "asset_div_u32 a b = bindE (safe_div (amount a) (int (b mod 2 ^ 32))) (\<lambda>x. Inr (mk_asset x (asset_id a)))"

text \<open>\<open>amount * bp / 10000\<close> on a checked integer.\<close>

definition share_of_bp :: "share \<Rightarrow> nat \<Rightarrow> share res" where
  "share_of_bp x bp = bindE (safe_mul x (int bp)) (\<lambda>y. safe_div y 10000)"

definition get_content_reward :: "chain \<Rightarrow> asset" where
  "get_content_reward s =
     (let amt = (if has_hardfork MUSE_HARDFORK_0_2 s
                 then calc_percent_reward_per_day_0_2 MUSE_CONTENT_APR_PERCENT_0_2 (virtual_supply (dgp s))
                 else calc_percent_reward_per_day MUSE_CONTENT_APR_PERCENT (virtual_supply (dgp s)))
      in mk_asset (max amt MUSE_MINING_REWARD) MUSE_SYMBOL)"

definition get_vesting_reward :: "chain \<Rightarrow> asset" where
  "get_vesting_reward s =
     mk_asset (if has_hardfork MUSE_HARDFORK_0_2 s
               then calc_percent_reward_per_block_0_2 MUSE_VESTING_ARP_PERCENT_0_2 (virtual_supply (dgp s))
               else calc_percent_reward_per_block MUSE_VESTING_ARP_PERCENT (virtual_supply (dgp s))) MUSE_SYMBOL"

definition producer_pay :: "chain \<Rightarrow> asset" where
  "producer_pay s =
     (let amt = (if has_hardfork MUSE_HARDFORK_0_2 s
                 then calc_percent_reward_per_block_0_2 MUSE_PRODUCER_APR_PERCENT_0_2 (virtual_supply (dgp s))
                 else calc_percent_reward_per_block MUSE_PRODUCER_APR_PERCENT (virtual_supply (dgp s)))
      in mk_asset (max amt MUSE_MINING_REWARD) MUSE_SYMBOL)"

definition get_producer_reward :: "chain \<Rightarrow> (asset \<times> chain) res" where
  "get_producer_reward s =
     (let pay = producer_pay s in
      bindE (get_account (current_witness (dgp s)) s) (\<lambda>(k, a).
      if head_block_number (dgp s) \<ge> MUSE_START_MINER_VOTING_BLOCK \<or> acc_vesting_shares a = 0
      then bindE (create_vesting k pay s) (\<lambda>(v, s). Inr (pay, s))
      else bindE (modify_account k (add_balance (amount pay)) s) (\<lambda>s. Inr (pay, s))))"

section \<open>Booking the new supply\<close>

definition process_funds :: "asset \<Rightarrow> asset \<Rightarrow> asset \<Rightarrow> chain \<Rightarrow> chain res" where
  "process_funds content_reward witness_pay vesting_reward s =
     modify_dgp (\<lambda>p.
       bindE (plus_asset MUSE_SYMBOL (total_vesting_fund_muse p) vesting_reward) (\<lambda>vf.
       bindE (plus_asset MUSE_SYMBOL (total_reward_fund_muse p) content_reward) (\<lambda>rf.
       bindE (asset_add content_reward witness_pay) (\<lambda>cw.
       bindE (asset_add cw vesting_reward) (\<lambda>t.
       bindE (plus_asset MUSE_SYMBOL (current_supply p) t) (\<lambda>cs.
       bindE (plus_asset MUSE_SYMBOL (virtual_supply p) t) (\<lambda>vs.
       Inr (p\<lparr>total_vesting_fund_muse := vf, total_reward_fund_muse := rf, current_supply := cs, virtual_supply := vs\<rparr>))))))))
     s"

definition adjust_funds :: "asset \<Rightarrow> asset \<Rightarrow> chain \<Rightarrow> chain res" where
  "adjust_funds content_reward paid_to_content s =
     (let initial_content_allocation = (if has_hardfork MUSE_HARDFORK_0_2 s then content_reward else get_content_reward s) in
      bindE (asset_sub initial_content_allocation paid_to_content) (\<lambda>delta.
      bindE (asset_sub content_reward paid_to_content) (\<lambda>true_delta.
      modify_dgp (\<lambda>p.
        bindE (minus_asset MUSE_SYMBOL (total_reward_fund_muse p) delta) (\<lambda>rf.
        bindE (minus_asset MUSE_SYMBOL (current_supply p) delta) (\<lambda>cs.
        bindE (minus_asset MUSE_SYMBOL (virtual_supply p) delta) (\<lambda>vs.
        bindE (asset_sub delta true_delta) (\<lambda>d.
        bindE (plus_asset MUSE_SYMBOL (supply_delta p) d) (\<lambda>sd.
        Inr (p\<lparr>total_reward_fund_muse := rf, current_supply := cs, virtual_supply := vs, supply_delta := sd\<rparr>)))))))
      s)))"

section \<open>Paying for content\<close>

text \<open>The loop over the distributions of one side: each payee gets its basis points of \<open>to_pay\<close>, all of it
  as MBD; the accumulator is what was paid so far.\<close>

fun pay_distributions :: "string \<Rightarrow> asset \<Rightarrow> distribution list \<Rightarrow> share \<Rightarrow> chain \<Rightarrow> (share \<times> chain) res" where
  "pay_distributions url to_pay [] total_paid s = Inr (total_paid, s)"
| "pay_distributions url to_pay (di # dis) total_paid s =
     bindE (share_of_bp (amount to_pay) (dist_bp di)) (\<lambda>author_reward.
     bindE (safe_add total_paid author_reward) (\<lambda>total_paid.
     let mbd_muse = author_reward; vesting_muse = author_reward - mbd_muse in
     bindE (get_account (dist_payee di) s) (\<lambda>(k, author).
     bindE (create_vesting k (mk_asset vesting_muse (asset_id to_pay)) s) (\<lambda>(vest_created, s).
     bindE (create_mbd k (mk_asset mbd_muse (asset_id to_pay)) s) (\<lambda>(mbd_created, s).
     pay_distributions url to_pay dis total_paid (push_virtual_op (Content_reward (dist_payee di) url mbd_created vest_created) s))))))"

definition add_master :: "asset \<Rightarrow> content \<Rightarrow> content res" where
  "add_master d c = bindE (plus_asset MUSE_SYMBOL (con_accumulated_balance_master c) d) (\<lambda>x. Inr (c\<lparr>con_accumulated_balance_master := x\<rparr>))"

definition add_comp :: "asset \<Rightarrow> content \<Rightarrow> content res" where
  "add_comp d c = bindE (plus_asset MUSE_SYMBOL (con_accumulated_balance_comp c) d) (\<lambda>x. Inr (c\<lparr>con_accumulated_balance_comp := x\<rparr>))"

text \<open>What is left after the payees (rounding, or basis points that do not add up to 10000) stays with the content.\<close>

definition keep_master :: "nat \<Rightarrow> share \<Rightarrow> asset \<Rightarrow> chain \<Rightarrow> chain res" where
  "keep_master cid accumulated to_pay s =
     (if \<not> has_hardfork MUSE_HARDFORK_0_2 s then
        (if amount to_pay \<noteq> 0 then modify_content cid (add_master to_pay) s else Inr s)
      else if accumulated \<noteq> amount to_pay
           then modify_content cid (\<lambda>c. Inr (c\<lparr>con_accumulated_balance_master := amount to_pay\<rparr>)) s
           else Inr s)"

definition pay_to_content_master :: "nat \<Rightarrow> asset \<Rightarrow> chain \<Rightarrow> chain res" where
  "pay_to_content_master cid payout s =
     bindE (idx_get cid (contents s)) (\<lambda>co.
     if con_distributions_master co = [] then modify_content cid (add_master payout) s
     else
       bindE (if has_hardfork MUSE_HARDFORK_0_2 s then asset_add payout (mk_asset (con_accumulated_balance_master co) MUSE_SYMBOL)
              else Inr payout) (\<lambda>to_pay.
       bindE (pay_distributions (con_url co) to_pay (con_distributions_master co) 0 s) (\<lambda>(total_paid, s).
       bindE (asset_sub to_pay (mk_asset total_paid (asset_id to_pay))) (\<lambda>to_pay.
       keep_master cid (con_accumulated_balance_master co) to_pay s))))"

definition keep_comp :: "nat \<Rightarrow> share \<Rightarrow> asset \<Rightarrow> chain \<Rightarrow> chain res" where
  "keep_comp cid accumulated to_pay s =
     (if \<not> has_hardfork MUSE_HARDFORK_0_2 s then
        (if amount to_pay \<noteq> 0 then modify_content cid (add_comp to_pay) s else Inr s)
      else if accumulated \<noteq> amount to_pay
           then modify_content cid (\<lambda>c. Inr (c\<lparr>con_accumulated_balance_comp := amount to_pay\<rparr>)) s
           else Inr s)"

definition pay_to_content_comp :: "nat \<Rightarrow> asset \<Rightarrow> chain \<Rightarrow> chain res" where
  "pay_to_content_comp cid payout s =
     bindE (idx_get cid (contents s)) (\<lambda>co.
     if con_distributions_comp co = [] then modify_content cid (add_comp payout) s
     else
       bindE (if has_hardfork MUSE_HARDFORK_0_2 s then asset_add payout (mk_asset (con_accumulated_balance_comp co) MUSE_SYMBOL)
              else Inr payout) (\<lambda>to_pay.
       bindE (pay_distributions (con_url co) to_pay (con_distributions_comp co) 0 s) (\<lambda>(total_paid, s).
       bindE (asset_sub to_pay (mk_asset total_paid (asset_id to_pay))) (\<lambda>to_pay.
       keep_comp cid (con_accumulated_balance_comp co) to_pay s))))"

definition pay_to_platform :: "nat \<Rightarrow> asset \<Rightarrow> string \<Rightarrow> chain \<Rightarrow> chain res" where
  "pay_to_platform platform payout url s =
     bindE (idx_get platform (platforms s)) (\<lambda>pl.
     bindE (get_account (sp_owner pl) s) (\<lambda>(k, owner).
     let mbd_muse = mk_asset 0 MUSE_SYMBOL in
     bindE (asset_sub payout mbd_muse) (\<lambda>vesting_muse.
     bindE (create_vesting k vesting_muse s) (\<lambda>(vest_created, s).
     bindE (create_mbd k mbd_muse s) (\<lambda>(mbd_created, s).
     Inr (push_virtual_op (Playing_reward (sp_owner pl) url mbd_created vest_created) s))))))"

definition pay_to_curator :: "content \<Rightarrow> nat \<Rightarrow> asset \<Rightarrow> chain \<Rightarrow> chain res" where
  "pay_to_curator co cur pay s =
     bindE (idx_get cur (accounts s)) (\<lambda>curator.
     let vesting_muse = mk_asset 0 MUSE_SYMBOL in
     bindE (asset_sub pay vesting_muse) (\<lambda>mbd_muse.
     bindE (create_vesting cur vesting_muse s) (\<lambda>(vest_created, s).
     bindE (create_mbd cur mbd_muse s) (\<lambda>(mbd_created, s).
     Inr (push_virtual_op (Curate_reward (acc_name curator) (con_url co) mbd_created vest_created) s)))))"

definition pay_to_content :: "nat \<Rightarrow> asset \<Rightarrow> nat \<Rightarrow> chain \<Rightarrow> (asset \<times> chain) res" where
  "pay_to_content cid payout platform s =
     bindE (if \<not> has_hardfork MUSE_HARDFORK_0_2 s
            then bindE (asset_mul_u32 payout MUSE_CURATE_APR_PERCENT_RESERVE) (\<lambda>x.
                 bindE (asset_div_u32 x 100) (\<lambda>x. asset_sub payout x))
            else Inr payout) (\<lambda>payout.
     bindE (idx_get cid (contents s)) (\<lambda>co.
     bindE (share_of_bp (amount payout) (con_playing_reward co)) (\<lambda>platform_amount.
     let platform_reward = payout\<lparr>amount := platform_amount\<rparr> in
     bindE (safe_sub (amount payout) platform_amount) (\<lambda>rest.
     let payout = payout\<lparr>amount := rest\<rparr> in
     bindE (share_of_bp (amount payout) (con_publishers_share co)) (\<lambda>comp_amount.
     let comp_reward = payout\<lparr>amount := comp_amount\<rparr> in
     bindE (asset_sub payout comp_reward) (\<lambda>master_reward.
     bindE (pay_to_content_master cid master_reward s) (\<lambda>s.
     bindE (pay_to_content_comp cid comp_reward s) (\<lambda>s.
     bindE (pay_to_platform platform platform_reward (con_url co) s) (\<lambda>s.
     bindE (asset_add (mk_asset 0 MUSE_SYMBOL) master_reward) (\<lambda>paid.
     bindE (asset_add paid comp_reward) (\<lambda>paid.
     bindE (asset_add paid platform_reward) (\<lambda>paid.
     bindE (modify_content cid (\<lambda>c. Inr (c\<lparr>con_times_played_24 := (con_times_played_24 c + 2 ^ 32 - 1) mod 2 ^ 32\<rparr>)) s) (\<lambda>s.
     Inr (paid, s))))))))))))))"

section \<open>The daily payout of plays\<close>

definition MUSE_MAX_LISTENING_PERIOD :: nat where "MUSE_MAX_LISTENING_PERIOD = 3600"

definition reports_by_created :: "chain \<Rightarrow> (nat \<times> report) list" where
  "reports_by_created s = sort_key (\<lambda>(k, r). rep_created r) (rows (reports s))"

text \<open>The first loop: the customers, each once, and the seconds they can be paid for in total.\<close>

fun count_customers :: "chain \<Rightarrow> (nat \<times> report) list \<Rightarrow> nat list \<Rightarrow> nat \<Rightarrow> (nat list \<times> nat) res" where
  "count_customers s [] customers full_time = Inr (customers, full_time)"
| "count_customers s ((k, r) # rs) customers full_time =
     (if List.member customers (rep_consumer r) then count_customers s rs customers full_time
      else bindE (idx_get (rep_consumer r) (accounts s)) (\<lambda>user.
           count_customers s rs (rep_consumer r # customers)
             (full_time + min (acc_total_listening_time user) MUSE_MAX_LISTENING_PERIOD)))"

definition add_listened :: "nat \<Rightarrow> nat \<Rightarrow> (nat, nat) table \<Rightarrow> (nat, nat) table" where
  "add_listened c t ts =
     (case map_of ts c of None \<Rightarrow> table_insert c t ts | Some u \<Rightarrow> table_update c ((u + t) mod 2 ^ 32) ts)"

definition sub_listening :: "nat \<Rightarrow> account \<Rightarrow> account res" where
  "sub_listening t a = Inr (a\<lparr>acc_total_listening_time := (acc_total_listening_time a + 2 ^ 32 - t mod 2 ^ 32) mod 2 ^ 32\<rparr>)"

text \<open>What one report is paid: its share of the consumer's share of the payout.\<close>

definition pay_reserve :: "asset \<Rightarrow> nat \<Rightarrow> nat \<Rightarrow> nat \<Rightarrow> nat \<Rightarrow> chain \<Rightarrow> asset res" where
  "pay_reserve total_payout customers full_time play_time listened s =
     bindE (asset_mul_u32 total_payout play_time) (\<lambda>x.
     bindE (if \<not> has_hardfork MUSE_HARDFORK_0_2 s then asset_div_u32 x customers
            else bindE (asset_mul_u32 x (min listened MUSE_MAX_LISTENING_PERIOD)) (\<lambda>x. asset_div_u32 x full_time)) (\<lambda>x.
     asset_div_u32 x listened))"

definition remove_report :: "nat \<Rightarrow> chain \<Rightarrow> chain res" where
  "remove_report k s = bindE (idx_remove k (reports s)) (\<lambda>ix. Inr (s\<lparr>reports := ix\<rparr>))"

definition pay_report ::
  "asset \<Rightarrow> nat \<Rightarrow> nat \<Rightarrow> nat \<times> report \<Rightarrow> asset \<times> (nat, nat) table \<times> chain \<Rightarrow> (asset \<times> (nat, nat) table \<times> chain) res" where
  "pay_report total_payout customers full_time = (\<lambda>(rid, r) (paid, listening_times, s).
     bindE (idx_get (rep_consumer r) (accounts s)) (\<lambda>consumer.
     guardE (acc_total_listening_time consumer > 0) (
     bindE (pay_reserve total_payout customers full_time (rep_play_time r) (acc_total_listening_time consumer) s) (\<lambda>reserve.
     bindE (pay_to_content (rep_content r) reserve (rep_streaming_platform r) s) (\<lambda>(p, s).
     bindE (asset_add paid p) (\<lambda>paid.
     bindE (if \<not> has_hardfork MUSE_HARDFORK_0_2 s then modify_account (rep_consumer r) (sub_listening (rep_play_time r)) s
            else Inr s) (\<lambda>s.
     bindE (remove_report rid s) (\<lambda>s.
     Inr (paid, add_listened (rep_consumer r) (rep_play_time r) listening_times, s)))))))))"

definition process_content_cashout :: "asset \<Rightarrow> chain \<Rightarrow> (asset \<times> chain) res" where
  "process_content_cashout content_reward s =
     (let now = head_block_time s;
          total_payout = (if has_hardfork MUSE_HARDFORK_0_2 s then content_reward else get_content_reward s);
          ridx = reports_by_created s in
      bindE (count_customers s (filter (\<lambda>(k, r). rep_created r \<le> now) ridx) [] 0) (\<lambda>(customers, full_time).
      bindE (foldE (pay_report total_payout (length customers) full_time)
               (filter (\<lambda>(k, r). int (rep_created r) \<le> int now - 60 * 24 * 60) ridx) (mk_asset 0 MUSE_SYMBOL, [], s))
        (\<lambda>(paid, listening_times, s).
      bindE (if has_hardfork MUSE_HARDFORK_0_2 s
             then foldE (\<lambda>(c, t). modify_account c (sub_listening t)) listening_times s
             else Inr s) (\<lambda>s.
      Inr (paid, s)))))"

section \<open>Conversions\<close>

definition due_conversions :: "chain \<Rightarrow> (nat \<times> convert_request) list" where
  "due_conversions s =
     filter (\<lambda>(k, c). cr_conversion_date c \<le> head_block_time s) (sort_key (\<lambda>(k, c). cr_conversion_date c) (rows (converts s)))"

definition remove_convert :: "nat \<Rightarrow> chain \<Rightarrow> chain res" where
  "remove_convert k s = bindE (idx_remove k (converts s)) (\<lambda>ix. Inr (s\<lparr>converts := ix\<rparr>))"

definition convert_one :: "nat \<times> convert_request \<Rightarrow> share \<times> share \<times> chain \<Rightarrow> (share \<times> share \<times> chain) res" where
  "convert_one = (\<lambda>(cid, c) (net_mbd, net_muse, s).
     bindE (get_account (cr_owner c) s) (\<lambda>(k, user).
     bindE (asset_mul_price (cr_amount c) (median_price s)) (\<lambda>amount_to_issue.
     bindE (adjust_balance k amount_to_issue s) (\<lambda>s.
     bindE (plus_asset MBD_SYMBOL net_mbd (cr_amount c)) (\<lambda>net_mbd.
     bindE (plus_asset MUSE_SYMBOL net_muse amount_to_issue) (\<lambda>net_muse.
     bindE (remove_convert cid (push_virtual_op (Fill_convert_request (acc_name user) (cr_requestid c) (cr_amount c) amount_to_issue) s)) (\<lambda>s.
     Inr (net_mbd, net_muse, s))))))))"

definition process_conversions :: "chain \<Rightarrow> chain res" where
  "process_conversions s =
     (if price_is_null (median_price s) then Inr s
      else bindE (foldE convert_one (due_conversions s) (0, 0, s)) (\<lambda>(net_mbd, net_muse, s).
           modify_dgp (\<lambda>p.
             bindE (safe_add (current_supply p) net_muse) (\<lambda>cs.
             bindE (safe_sub (current_mbd_supply p) net_mbd) (\<lambda>ms.
             bindE (safe_add (virtual_supply p) net_muse) (\<lambda>vs.
             bindE (asset_mul_price (mk_asset net_mbd MBD_SYMBOL) (median_price s)) (\<lambda>m.
             bindE (minus_asset MUSE_SYMBOL vs m) (\<lambda>vs.
             Inr (p\<lparr>current_supply := cs, current_mbd_supply := ms, virtual_supply := vs\<rparr>))))))) s))"

section \<open>The rewards of a block\<close>

text \<open>The part of \<open>_apply_block\<close> from \<open>get_content_reward\<close> to \<open>adjust_funds\<close>.\<close>

definition MUSE_START_VESTING_BLOCK :: nat where "MUSE_START_VESTING_BLOCK = MUSE_BLOCKS_PER_DAY"

definition block_rewards :: "chain \<Rightarrow> chain res" where
  "block_rewards s =
     (let content_reward = get_content_reward s in
      bindE (get_producer_reward s) (\<lambda>(witness_pay, s).
      let vesting_reward = (if head_block_num s < MUSE_START_VESTING_BLOCK then mk_asset 0 MUSE_SYMBOL else get_vesting_reward s) in
      bindE (process_funds content_reward witness_pay vesting_reward s) (\<lambda>s.
      bindE (process_conversions s) (\<lambda>s.
      bindE (process_content_cashout content_reward s) (\<lambda>(paid_for_content, s).
      adjust_funds content_reward paid_for_content s)))))"

text \<open>Evaluation on concrete states.\<close>

lemmas rewards_eval [chain_eval] =
  MUSE_HARDFORK_0_1_def MUSE_HARDFORK_0_2_def MUSE_HARDFORK_0_3_def MUSE_CONTENT_APR_PERCENT_def
  MUSE_CONTENT_APR_PERCENT_0_2_def MUSE_VESTING_ARP_PERCENT_def MUSE_VESTING_ARP_PERCENT_0_2_def
  MUSE_PRODUCER_APR_PERCENT_def MUSE_PRODUCER_APR_PERCENT_0_2_def MUSE_MINING_REWARD_def
  MUSE_START_MINER_VOTING_BLOCK_def MUSE_CURATE_APR_PERCENT_RESERVE_def asset_mul_u32_def asset_div_u32_def
  share_of_bp_def get_content_reward_def get_vesting_reward_def producer_pay_def get_producer_reward_def
  process_funds_def adjust_funds_def add_master_def add_comp_def keep_master_def pay_to_content_master_def
  keep_comp_def pay_to_content_comp_def pay_to_platform_def pay_to_curator_def pay_to_content_def
  MUSE_MAX_LISTENING_PERIOD_def reports_by_created_def add_listened_def sub_listening_def pay_reserve_def
  remove_report_def pay_report_def process_content_cashout_def due_conversions_def remove_convert_def
  convert_one_def process_conversions_def MUSE_START_VESTING_BLOCK_def block_rewards_def calc_percent_reward_def
  calc_percent_reward_per_block_def calc_percent_reward_per_block_0_2_def calc_percent_reward_per_day_def
  calc_percent_reward_per_day_0_2_def MUSE_APR_PERCENT_MULTIPLY_PER_BLOCK_def
  MUSE_APR_PERCENT_MULTIPLY_PER_BLOCK_0_2_def MUSE_APR_PERCENT_MULTIPLY_PER_DAY_0_2_def table_insert_def
  isqrt_def

end
