(* ===== verification/Reward_Laws.thy ===== *)
theory Reward_Laws
  imports Rewards Demo_Chain
begin

text \<open>
  What the rewards of a block move: every unit of MUSE that \<open>process_funds\<close> adds to the recorded supply is
  either paid out to an account, a content balance or the vesting fund, or taken back by \<open>adjust_funds\<close>.
\<close>

section \<open>Payouts\<close>

lemma moves_producer_reward:
  assumes "get_producer_reward s = Inr (pay, s')" "tables_ok s"
  shows "moves (- amount pay, 0, 0, 0) s s'" "asset_id pay = MUSE_SYMBOL" "same_tables s s'"
proof -
  have pay: "pay = producer_pay s" using assms(1) by (auto simp: get_producer_reward_def bindE_Inr_iff Let_def split: if_splits)
  then show "asset_id pay = MUSE_SYMBOL" by (simp add: producer_pay_def Let_def)
  obtain k where "(\<exists>v. create_vesting k pay s = Inr (v, s')) \<or> modify_account k (add_balance (amount pay)) s = Inr s'"
    using assms(1) by (auto simp: get_producer_reward_def bindE_Inr_iff Let_def pay split: if_splits)
  then show "moves (- amount pay, 0, 0, 0) s s'" "same_tables s s'"
    using moves_create_vesting [OF _ assms(2)] moves_add_balance [OF _ assms(2)] same_tables_create_vesting same_tables_basic(1)
    by blast+
qed

lemma moves_process_funds:
  assumes "process_funds c w v s = Inr s'" "tables_ok s"
  shows "moves (amount c + amount w, 0, 0, 0) s s'"
  by (rule moves_dgp [OF assms(1) [unfolded process_funds_def] assms(2)]) (auto simp: res_simps)

lemma moves_adjust_funds:
  assumes "adjust_funds c p s = Inr s'" "tables_ok s"
  shows "moves (amount p - amount c, 0, 0, 0) s s'"
proof -
  obtain d t where d: "asset_sub c p = Inr t"
    and m: "modify_dgp (\<lambda>p. bindE (minus_asset MUSE_SYMBOL (total_reward_fund_muse p) d) (\<lambda>rf.
        bindE (minus_asset MUSE_SYMBOL (current_supply p) d) (\<lambda>cs.
        bindE (minus_asset MUSE_SYMBOL (virtual_supply p) d) (\<lambda>vs.
        bindE (asset_sub d t) (\<lambda>d.
        bindE (plus_asset MUSE_SYMBOL (supply_delta p) d) (\<lambda>sd.
        Inr (p\<lparr>total_reward_fund_muse := rf, current_supply := cs, virtual_supply := vs, supply_delta := sd\<rparr>))))))) s = Inr s'"
    using assms(1) by (auto simp: adjust_funds_def Let_def bindE_Inr_iff)
  show ?thesis by (rule moves_dgp [OF m assms(2)]) (use d in \<open>auto simp: res_simps\<close>)
qed

lemma moves_pay_distributions:
  "pay_distributions url to_pay dis t0 s = Inr (t1, s') \<Longrightarrow> tables_ok s \<Longrightarrow> asset_id to_pay = MUSE_SYMBOL \<Longrightarrow>
   moves (t0 - t1, 0, 0, 0) s s' \<and> same_tables s s'"
proof (induction url to_pay dis t0 s rule: pay_distributions.induct)
  case (2 url to_pay di dis t0 s)
  obtain r k a v u m w where r: "share_of_bp (amount to_pay) (dist_bp di) = Inr r" "safe_add t0 r = Inr (t0 + r)"
    and a: "get_account (dist_payee di) s = Inr (k, a)"
    and u: "create_vesting k (mk_asset (r - r) (asset_id to_pay)) s = Inr (v, u)"
    and w: "create_mbd k (mk_asset r (asset_id to_pay)) u = Inr (m, w)"
    and rest: "pay_distributions url to_pay dis (t0 + r) (push_virtual_op (Content_reward (dist_payee di) url m v) w) = Inr (t1, s')"
    using 2(2) by (auto simp: bindE_Inr_iff Let_def safe_ops_Inr_iff)
  have 1: "moves (0, 0, 0, 0) s u" using moves_create_vesting [OF u 2(3)] by simp
  have 2: "moves (- r, 0, 0, 0) u w" using moves_create_mbd [OF w moves_tables [OF 1]] 2(4) by simp
  let ?w = "push_virtual_op (Content_reward (dist_payee di) url m v) w"
  have sw: "moves (- r, 0, 0, 0) s ?w" using moves_trans [OF 1 2] by simp
  have ih: "moves (t0 + r - t1, 0, 0, 0) ?w s' \<and> same_tables ?w s'"
    using "2.IH" [OF r refl refl a refl u refl w refl rest moves_tables [OF sw] "2.prems"(3)] .
  have "same_tables s ?w" using same_tables_create_vesting [OF u] same_tables_create_mbd [OF w] same_tables_trans by simp
  then show ?case using moves_trans [OF sw] ih same_tables_trans by fastforce
qed (simp add: moves_refl)

lemma add_accumulated_Inr [res_simps]:
  "add_master d c = Inr c' \<longleftrightarrow> asset_id d = MUSE_SYMBOL \<and> in_int64 (con_accumulated_balance_master c + amount d) \<and>
     c' = c\<lparr>con_accumulated_balance_master := con_accumulated_balance_master c + amount d\<rparr>"
  "add_comp d c = Inr c' \<longleftrightarrow> asset_id d = MUSE_SYMBOL \<and> in_int64 (con_accumulated_balance_comp c + amount d) \<and>
     c' = c\<lparr>con_accumulated_balance_comp := con_accumulated_balance_comp c + amount d\<rparr>"
  by (auto simp: add_master_def add_comp_def res_simps)

lemma has_hardfork_same: "same_tables s t \<Longrightarrow> has_hardfork n t = has_hardfork n s"
  by (simp add: same_tables_def has_hardfork_def)

lemma moves_keep_master:
  assumes "keep_master cid acc to_pay t = Inr s'" "tables_ok t" "idx_find cid (contents t) = Some co"
    "acc = con_accumulated_balance_master co"
  shows "moves ((if has_hardfork MUSE_HARDFORK_0_2 t then acc else 0) - amount to_pay, 0, 0, 0) t s'"
proof (cases "(if has_hardfork MUSE_HARDFORK_0_2 t then acc else 0) = amount to_pay")
  case True
  then have "s' = t" using assms(1) by (simp add: keep_master_def split: if_splits)
  then show ?thesis using True assms(2) by (simp add: moves_refl)
next
  case False
  let ?f = "if has_hardfork MUSE_HARDFORK_0_2 t then \<lambda>c. Inr (c\<lparr>con_accumulated_balance_master := amount to_pay\<rparr>)
    else add_master to_pay"
  have m: "modify_content cid ?f t = Inr s'" using assms(1) False by (simp add: keep_master_def split: if_splits)
  show ?thesis by (rule moves_content [OF m assms(2)]) (use assms(3,4) in \<open>auto simp: add_accumulated_Inr split: if_splits\<close>)
qed

lemma moves_pay_to_content_master:
  assumes "pay_to_content_master cid payout s = Inr s'" "tables_ok s" "asset_id payout = MUSE_SYMBOL"
  shows "moves (- amount payout, 0, 0, 0) s s'"
proof -
  obtain co where co: "idx_find cid (contents s) = Some co" using assms(1) by (auto simp: pay_to_content_master_def res_simps)
  let ?acc = "con_accumulated_balance_master co"
  show ?thesis
  proof (cases "con_distributions_master co = []")
    case True
    then have "modify_content cid (add_master payout) s = Inr s'" using assms(1) co
      by (simp add: pay_to_content_master_def idx_get_def)
    from moves_content [OF this assms(2)] show ?thesis by (auto simp: res_simps)
  next
    case False
    obtain to_pay paid t where
      tp: "(if has_hardfork MUSE_HARDFORK_0_2 s then asset_add payout (mk_asset ?acc MUSE_SYMBOL) else Inr payout) = Inr to_pay"
      and t: "pay_distributions (con_url co) to_pay (con_distributions_master co) 0 s = Inr (paid, t)"
      and r: "keep_master cid ?acc (mk_asset (amount to_pay - paid) (asset_id to_pay)) t = Inr s'"
      using assms(1) co False by (auto simp: pay_to_content_master_def idx_get_def bindE_Inr_iff asset_ops_Inr(3))
    have "asset_id to_pay = MUSE_SYMBOL" using tp assms(3) by (auto simp: res_simps split: if_splits)
    then have m: "moves (- paid, 0, 0, 0) s t" and same: "same_tables s t" using moves_pay_distributions [OF t assms(2)] by auto
    have "idx_find cid (contents t) = Some co" using same co by (simp add: same_tables_def)
    from moves_trans [OF m moves_keep_master [OF r moves_tables [OF m] this refl]] show ?thesis
      using tp by (auto simp: has_hardfork_same [OF same] res_simps split: if_splits)
  qed
qed

lemma moves_keep_comp:
  assumes "keep_comp cid acc to_pay t = Inr s'" "tables_ok t" "idx_find cid (contents t) = Some co"
    "acc = con_accumulated_balance_comp co"
  shows "moves ((if has_hardfork MUSE_HARDFORK_0_2 t then acc else 0) - amount to_pay, 0, 0, 0) t s'"
proof (cases "(if has_hardfork MUSE_HARDFORK_0_2 t then acc else 0) = amount to_pay")
  case True
  then have "s' = t" using assms(1) by (simp add: keep_comp_def split: if_splits)
  then show ?thesis using True assms(2) by (simp add: moves_refl)
next
  case False
  let ?f = "if has_hardfork MUSE_HARDFORK_0_2 t then \<lambda>c. Inr (c\<lparr>con_accumulated_balance_comp := amount to_pay\<rparr>)
    else add_comp to_pay"
  have m: "modify_content cid ?f t = Inr s'" using assms(1) False by (simp add: keep_comp_def split: if_splits)
  show ?thesis by (rule moves_content [OF m assms(2)]) (use assms(3,4) in \<open>auto simp: add_accumulated_Inr split: if_splits\<close>)
qed

lemma moves_pay_to_content_comp:
  assumes "pay_to_content_comp cid payout s = Inr s'" "tables_ok s" "asset_id payout = MUSE_SYMBOL"
  shows "moves (- amount payout, 0, 0, 0) s s'"
proof -
  obtain co where co: "idx_find cid (contents s) = Some co" using assms(1) by (auto simp: pay_to_content_comp_def res_simps)
  let ?acc = "con_accumulated_balance_comp co"
  show ?thesis
  proof (cases "con_distributions_comp co = []")
    case True
    then have "modify_content cid (add_comp payout) s = Inr s'" using assms(1) co
      by (simp add: pay_to_content_comp_def idx_get_def)
    from moves_content [OF this assms(2)] show ?thesis by (auto simp: res_simps)
  next
    case False
    obtain to_pay paid t where
      tp: "(if has_hardfork MUSE_HARDFORK_0_2 s then asset_add payout (mk_asset ?acc MUSE_SYMBOL) else Inr payout) = Inr to_pay"
      and t: "pay_distributions (con_url co) to_pay (con_distributions_comp co) 0 s = Inr (paid, t)"
      and r: "keep_comp cid ?acc (mk_asset (amount to_pay - paid) (asset_id to_pay)) t = Inr s'"
      using assms(1) co False by (auto simp: pay_to_content_comp_def idx_get_def bindE_Inr_iff asset_ops_Inr(3))
    have "asset_id to_pay = MUSE_SYMBOL" using tp assms(3) by (auto simp: res_simps split: if_splits)
    then have m: "moves (- paid, 0, 0, 0) s t" and same: "same_tables s t" using moves_pay_distributions [OF t assms(2)] by auto
    have "idx_find cid (contents t) = Some co" using same co by (simp add: same_tables_def)
    from moves_trans [OF m moves_keep_comp [OF r moves_tables [OF m] this refl]] show ?thesis
      using tp by (auto simp: has_hardfork_same [OF same] res_simps split: if_splits)
  qed
qed

lemma moves_pay_to_platform:
  assumes "pay_to_platform pl payout url s = Inr s'" "tables_ok s"
  shows "moves (- amount payout, 0, 0, 0) s s'"
proof -
  obtain k v u m w where u: "create_vesting k (mk_asset (amount payout) (asset_id payout)) s = Inr (v, u)"
    and w: "create_mbd k (mk_asset 0 MUSE_SYMBOL) u = Inr (m, w)" and s': "moves z s w \<longleftrightarrow> moves z s s'" for z
    using assms(1) by (auto simp: pay_to_platform_def bindE_Inr_iff Let_def asset_ops_Inr(3))
  have "moves (- amount payout, 0, 0, 0) s u" using moves_create_vesting [OF u assms(2)] by simp
  from moves_trans [OF this moves_create_mbd [OF w moves_tables [OF this]]] show ?thesis by (simp add: s')
qed

lemma moves_pay_to_curator:
  assumes "pay_to_curator co cur pay s = Inr s'" "tables_ok s"
  shows "moves (- amount pay, 0, 0, 0) s s'"
proof -
  obtain v u m w where u: "create_vesting cur (mk_asset 0 MUSE_SYMBOL) s = Inr (v, u)" and id: "asset_id pay = MUSE_SYMBOL"
    and w: "create_mbd cur (mk_asset (amount pay) (asset_id pay)) u = Inr (m, w)" and s': "moves z s w \<longleftrightarrow> moves z s s'" for z
    using assms(1) by (auto simp: pay_to_curator_def bindE_Inr_iff Let_def asset_ops_Inr(3))
  have "moves (0, 0, 0, 0) s u" using moves_create_vesting [OF u assms(2)] by simp
  from moves_trans [OF this moves_create_mbd [OF w moves_tables [OF this]]] id show ?thesis by (simp add: s')
qed

text \<open>A payout is split between the platform and the two sides of the content without loss: what
  \<open>pay_to_content\<close> reports as paid is what left the books.\<close>

lemma moves_pay_to_content:
  assumes "pay_to_content cid payout platform s = Inr (paid, s')" "tables_ok s"
  shows "moves (- amount paid, 0, 0, 0) s s'" "asset_id paid = MUSE_SYMBOL"
proof -
  obtain p co pa ca t u v where id: "MUSE_SYMBOL = asset_id (p :: asset)"
    and t: "pay_to_content_master cid (mk_asset (amount p - pa - ca) (asset_id p)) s = Inr t"
    and u: "pay_to_content_comp cid (p\<lparr>amount := ca\<rparr>) t = Inr u"
    and v: "pay_to_platform platform (p\<lparr>amount := pa\<rparr>) (con_url (co :: content)) u = Inr v"
    and paid: "paid = mk_asset (amount p - pa - ca + ca + pa) MUSE_SYMBOL"
    and s': "modify_content cid (\<lambda>c. Inr (c\<lparr>con_times_played_24 := (con_times_played_24 c + 2 ^ 32 - 1) mod 2 ^ 32\<rparr>)) v = Inr s'"
    using assms(1) by (clarsimp simp: pay_to_content_def bindE_Inr_iff Let_def asset_ops_Inr safe_ops_Inr_iff)
  note 1 = moves_pay_to_content_master [OF t assms(2)]
  note 2 = moves_trans [OF 1 moves_pay_to_content_comp [OF u moves_tables [OF 1]]]
  note 3 = moves_trans [OF 2 moves_pay_to_platform [OF v moves_tables [OF 2]]]
  have 4: "moves (0, 0, 0, 0) v s'" by (rule moves_content [OF s' moves_tables [OF 3]]) (use id in auto)
  show "moves (- amount paid, 0, 0, 0) s s'" using moves_trans [OF 3 4] id [symmetric] by (simp add: paid)
  show "asset_id paid = MUSE_SYMBOL" by (simp add: paid)
qed

section \<open>The loops\<close>

lemma moves_remove_report: "remove_report k s = Inr s' \<Longrightarrow> tables_ok s \<Longrightarrow> moves (0, 0, 0, 0) s s'"
  by (intro books_unchanged) (auto simp: remove_report_def bindE_Inr_iff)

lemma moves_sub_listening: "modify_account c (sub_listening t) s = Inr s' \<Longrightarrow> tables_ok s \<Longrightarrow> moves (0, 0, 0, 0) s s'"
  by (rule moves_account_keep) (auto simp: sub_listening_def)

lemma moves_pay_report:
  assumes "pay_report tot n ft r (paid, ts, s) = Inr (paid', ts', s')" "tables_ok s" "asset_id paid = MUSE_SYMBOL"
  shows "moves (amount paid - amount paid', 0, 0, 0) s s' \<and> asset_id paid' = MUSE_SYMBOL"
proof -
  obtain rid rep where r: "r = (rid, rep)" by (cases r)
  obtain res p t u where t: "pay_to_content (rep_content rep) res (rep_streaming_platform rep) s = Inr (p, t)"
    and paid: "paid' = mk_asset (amount paid + amount p) (asset_id paid)"
    and u: "(if \<not> has_hardfork MUSE_HARDFORK_0_2 t then modify_account (rep_consumer rep) (sub_listening (rep_play_time rep)) t
            else Inr t) = Inr u"
    and s': "remove_report rid u = Inr s'"
    using assms(1) by (auto simp: r pay_report_def bindE_Inr_iff guardE_Inr_iff asset_ops_Inr(2))
  note 1 = moves_pay_to_content(1) [OF t assms(2)]
  have 2: "moves (0, 0, 0, 0) t u" using u moves_sub_listening moves_refl moves_tables [OF 1] by (auto split: if_splits)
  note 3 = moves_trans [OF moves_trans [OF 1 2] moves_remove_report [OF s' moves_tables [OF 2]]]
  then show ?thesis using assms(3) by (simp add: paid)
qed

lemma moves_pay_reports:
  "foldE (pay_report tot n ft) rs (paid, ts, s) = Inr (paid', ts', s') \<Longrightarrow> tables_ok s \<Longrightarrow> asset_id paid = MUSE_SYMBOL \<Longrightarrow>
   moves (amount paid - amount paid', 0, 0, 0) s s' \<and> asset_id paid' = MUSE_SYMBOL"
proof (induction rs arbitrary: paid ts s)
  case (Cons r rs)
  obtain p1 t1 s1 where 1: "pay_report tot n ft r (paid, ts, s) = Inr (p1, t1, s1)"
    and 2: "foldE (pay_report tot n ft) rs (p1, t1, s1) = Inr (paid', ts', s')"
    using Cons.prems(1) by (auto simp: bindE_Inr_iff)
  have m: "moves (amount paid - amount p1, 0, 0, 0) s s1" "asset_id p1 = MUSE_SYMBOL"
    using moves_pay_report [OF 1 Cons.prems(2,3)] by auto
  from Cons.IH [OF 2 moves_tables [OF m(1)] m(2)] show ?case using moves_trans [OF m(1)] by fastforce
qed (simp add: moves_refl)

lemma moves_content_cashout:
  assumes "process_content_cashout c s = Inr (paid, s')" "tables_ok s"
  shows "moves (- amount paid, 0, 0, 0) s s'" "asset_id paid = MUSE_SYMBOL"
proof -
  obtain tot n ft rs ts t where
    t: "foldE (pay_report tot n ft) rs (mk_asset 0 MUSE_SYMBOL, [], s) = Inr (paid, ts, t)"
    and s': "(if has_hardfork MUSE_HARDFORK_0_2 t then foldE (\<lambda>(c, t). modify_account c (sub_listening t)) ts t else Inr t) = Inr s'"
    using assms(1) by (auto simp: process_content_cashout_def Let_def bindE_Inr_iff)
  have m: "moves (- amount paid, 0, 0, 0) s t" "asset_id paid = MUSE_SYMBOL" using moves_pay_reports [OF t assms(2)] by auto
  have "moves (0, 0, 0, 0) t s'"
  proof (cases "has_hardfork MUSE_HARDFORK_0_2 t")
    case True
    then have "foldE (\<lambda>(c, t). modify_account c (sub_listening t)) ts t = Inr s'" using s' by simp
    then show ?thesis by (rule moves_foldE [OF _ moves_tables [OF m(1)]]) (auto intro: moves_sub_listening split: prod.splits)
  qed (use s' moves_refl [OF moves_tables [OF m(1)]] in simp)
  from moves_trans [OF m(1) this] show "moves (- amount paid, 0, 0, 0) s s'" by simp
  show "asset_id paid = MUSE_SYMBOL" by (rule m(2))
qed

lemma moves_remove_convert:
  assumes "remove_convert k s = Inr s'" "tables_ok s" "idx_find k (converts s) = Some c"
  shows "moves (of_symbol MUSE_SYMBOL (cr_amount c), of_symbol MBD_SYMBOL (cr_amount c), 0, 0) s s'"
proof -
  have s': "s' = s\<lparr>converts := (converts s)\<lparr>rows := table_delete k (rows (converts s))\<rparr>\<rparr>"
    using assms(1) by (auto simp: remove_convert_def res_simps)
  have t: "tables_ok s'" using assms(2) by (simp add: s' tables_ok_def index_ok_delete)
  show ?thesis
    by (simp add: moves_def t [unfolded s'] muse_gap_def mbd_gap_def vests_gap_def vsf_gap_def muse_held_def mbd_held_def
        vests_held_def vsf_held_def s' idx_sum_delete [OF tables_okD(2) [OF assms(2)] assms(3)])
qed

lemma convert_keeps:
  assumes "convert_one (k, c) (nb, nm, s) = Inr (nb', nm', s')" "tables_ok s" "idx_find k (converts s) = Some c"
  shows "moves (nm - nm', nb' - nb, 0, 0) s s'" "j \<noteq> k \<Longrightarrow> idx_find j (converts s') = idx_find j (converts s)"
proof -
  obtain i d v t where t: "adjust_balance i d s = Inr t"
    and nb: "asset_id (cr_amount c) = MBD_SYMBOL" "nb' = nb + amount (cr_amount c)"
    and nm: "asset_id d = MUSE_SYMBOL" "nm' = nm + amount d"
    and s': "remove_convert k (push_virtual_op v t) = Inr s'"
    using assms(1) by (auto simp: convert_one_def bindE_Inr_iff plus_asset_Inr)
  have same: "converts (push_virtual_op v t) = converts s"
    using same_tables_adjust_balance [OF t] by (simp add: same_tables_def push_virtual_op_def)
  have 1: "moves (- amount d, 0, 0, 0) s (push_virtual_op v t)"
    using moves_adjust_balance [OF t assms(2)] nm by (simp add: of_symbol_def)
  have 2: "moves (0, amount (cr_amount c), 0, 0) (push_virtual_op v t) s'"
    using moves_remove_convert [OF s' moves_tables [OF 1]] same assms(3) nb by (simp add: of_symbol_def)
  from moves_trans [OF 1 2] show "moves (nm - nm', nb' - nb, 0, 0) s s'" by (simp add: nb nm)
  show "j \<noteq> k \<Longrightarrow> idx_find j (converts s') = idx_find j (converts s)"
    using s' same by (auto simp: remove_convert_def res_simps idx_find_delete)
qed

lemma moves_convert_all:
  "foldE convert_one cs (nb, nm, s) = Inr (nb', nm', s') \<Longrightarrow> tables_ok s \<Longrightarrow> distinct (map fst cs) \<Longrightarrow>
   (\<And>k c. (k, c) \<in> set cs \<Longrightarrow> idx_find k (converts s) = Some c) \<Longrightarrow> moves (nm - nm', nb' - nb, 0, 0) s s'"
proof (induction cs arbitrary: nb nm s)
  case (Cons x cs)
  obtain k c where x: "x = (k, c)" by (cases x)
  obtain nb1 nm1 s1 where 1: "convert_one (k, c) (nb, nm, s) = Inr (nb1, nm1, s1)"
    and 2: "foldE convert_one cs (nb1, nm1, s1) = Inr (nb', nm', s')"
    using Cons.prems(1) by (auto simp: bindE_Inr_iff x)
  have fk: "idx_find k (converts s) = Some c" using Cons.prems(4) x by simp
  note m = convert_keeps [OF 1 Cons.prems(2) fk]
  have rest: "idx_find j (converts s1) = Some d" if "(j, d) \<in> set cs" for j d
    using m(2) [of j] that Cons.prems(3,4) x by force
  have "moves (nm1 - nm', nb' - nb1, 0, 0) s1 s'"
    by (rule Cons.IH [OF 2 moves_tables [OF m(1)]]) (use Cons.prems(3) rest in auto)
  from moves_trans [OF m(1) this] show ?case by simp
qed (simp add: moves_refl)

lemma due_conversions_found:
  assumes "tables_ok s"
  shows "distinct (map fst (due_conversions s))" "(k, c) \<in> set (due_conversions s) \<Longrightarrow> idx_find k (converts s) = Some c"
proof -
  have d: "distinct (map fst (rows (converts s)))" using assms by (simp add: tables_ok_def index_ok_def table_ok_def)
  then have "distinct (map fst (sort_key (\<lambda>(k, c). cr_conversion_date c) (rows (converts s))))"
    by (simp add: distinct_map)
  then show "distinct (map fst (due_conversions s))" by (simp add: due_conversions_def distinct_map_filter)
  show "(k, c) \<in> set (due_conversions s) \<Longrightarrow> idx_find k (converts s) = Some c"
    using d by (auto simp: due_conversions_def idx_find_def)
qed

lemma moves_process_conversions:
  assumes "process_conversions s = Inr s'" "tables_ok s"
  shows "moves (0, 0, 0, 0) s s'"
proof (cases "price_is_null (median_price s)")
  case True
  then show ?thesis using assms by (simp add: process_conversions_def moves_refl)
next
  case False
  obtain nb nm t where t: "foldE convert_one (due_conversions s) (0, 0, s) = Inr (nb, nm, t)"
    and d: "modify_dgp (\<lambda>p. bindE (safe_add (current_supply p) nm) (\<lambda>cs.
             bindE (safe_sub (current_mbd_supply p) nb) (\<lambda>ms.
             bindE (safe_add (virtual_supply p) nm) (\<lambda>vs.
             bindE (asset_mul_price (mk_asset nb MBD_SYMBOL) (median_price t)) (\<lambda>m.
             bindE (minus_asset MUSE_SYMBOL vs m) (\<lambda>vs.
             Inr (p\<lparr>current_supply := cs, current_mbd_supply := ms, virtual_supply := vs\<rparr>))))))) t = Inr s'"
    using assms(1) False by (auto simp: process_conversions_def bindE_Inr_iff [of "foldE _ _ _"])
  have 1: "moves (0 - nm, nb - 0, 0, 0) s t"
    by (rule moves_convert_all [OF t assms(2)]) (use due_conversions_found [OF assms(2)] in auto)
  have 2: "moves (nm, - nb, 0, 0) t s'" by (rule moves_dgp [OF d moves_tables [OF 1]]) (auto simp: res_simps)
  from moves_trans [OF 1 2] show ?thesis by simp
qed

section \<open>The rewards of a block\<close>

lemma moves_block_rewards:
  assumes "block_rewards s = Inr s'" "tables_ok s"
  shows "moves (0, 0, 0, 0) s s'"
proof -
  obtain w v t u x p y where t: "get_producer_reward s = Inr (w, t)" and u: "process_funds (get_content_reward s) w v t = Inr u"
    and x: "process_conversions u = Inr x" and y: "process_content_cashout (get_content_reward s) x = Inr (p, y)"
    and s': "adjust_funds (get_content_reward s) p y = Inr s'"
    using assms(1) by (auto simp: block_rewards_def Let_def bindE_Inr_iff)
  note 1 = moves_producer_reward(1) [OF t assms(2)]
  note 2 = moves_trans [OF 1 moves_process_funds [OF u moves_tables [OF 1]]]
  note 3 = moves_trans [OF 2 moves_process_conversions [OF x moves_tables [OF 2]]]
  note 4 = moves_trans [OF 3 moves_content_cashout(1) [OF y moves_tables [OF 3]]]
  from moves_trans [OF 4 moves_adjust_funds [OF s' moves_tables [OF 4]]] show ?thesis by simp
qed

text \<open>Property C13. The rewards of a block balance. The witness is paid, the content and vesting rewards are
  added to the recorded supply, due conversions exchange MBD for MUSE, plays older than a day are
  paid to platforms, artists and publishers, and the part of the content reward that was not paid is
  taken back: after all of it, the recorded supplies of MUSE (with the correction \<open>supply_delta\<close> that was
  pending before hardfork 0.2), MBD and vesting shares and the voting weight differ from the holdings by exactly
  as much as before.\<close>

theorem block_rewards_conserve:
  assumes "block_rewards s = Inr s'" "tables_ok s"
  shows "muse_gap s' = muse_gap s \<and> mbd_gap s' = mbd_gap s \<and> vests_gap s' = vests_gap s \<and> vsf_gap s' = vsf_gap s \<and> tables_ok s'"
  using moves_block_rewards [OF assms] by (simp add: moves_def)

text \<open>A chain with a witness, an artist, a publisher, a platform, a listener, and one play that is due.\<close>

definition demo_content :: content where [chain_eval]:
  "demo_content = \<lparr>con_uploader = ''art'', con_url = ''ipfs'', con_accumulated_balance_master = 3,
     con_accumulated_balance_comp = 0, con_album_meta = demo_album, con_track_meta = demo_track,
     con_comp_meta = demo_publishing True, con_track_title = [], con_last_update = 0,
     con_created = 0, con_last_played = 0,
     con_distributions_master = [\<lparr>dist_payee = ''art'', dist_bp = 3333\<rparr>],
     con_distributions_comp = [\<lparr>dist_payee = ''pub'', dist_bp = 10000\<rparr>], con_playing_reward = 1000,
     con_publishers_share = 5000, con_manage_master = no_authority, con_manage_comp = no_authority, con_times_played = 1,
     con_times_played_24 = 1, con_allow_votes = True, con_disabled = False\<rparr>"

definition demo_radio :: chain where [chain_eval]:
  "demo_radio = (demo_chain
      [demo_account ''initminer'' 0 0 5000, demo_account ''art'' 100 0 0, demo_account ''pub'' 0 0 0,
       (demo_account ''fan'' 0 0 0)\<lparr>acc_total_listening_time := 60\<rparr>] []
      ((demo_dgp 153 0 50 5000)\<lparr>dgp_time := 100000\<rparr>))
    \<lparr>platforms := index_of [\<lparr>sp_owner = ''initminer'', sp_created = 0, sp_url = [], sp_votes = 0\<rparr>],
     contents := index_of [demo_content],
     reports := index_of [\<lparr>rep_streaming_platform = 0, rep_consumer = 3, rep_content = 0, rep_created = 10, rep_play_time = 60,
       rep_playlist_creator = None\<rparr>]\<rparr>"

lemma demo_radio_ok: "tables_ok demo_radio" "muse_gap demo_radio = 0"
  by (simp_all add: chain_eval)

lemma demo_radio_runs: "\<exists>s'. block_rewards demo_radio = Inr s'"
  by (simp add: chain_eval)

theorem block_rewards_conserve_witness: "\<exists>s'. block_rewards demo_radio = Inr s' \<and> muse_gap s' = 0"
proof -
  obtain s' where s': "block_rewards demo_radio = Inr s'" using demo_radio_runs by blast
  then show ?thesis using block_rewards_conserve [OF s' demo_radio_ok(1)] demo_radio_ok(2) by auto
qed

end
