(* ===== verification/Withdrawals.thy ===== *)
theory Withdrawals
  imports Balances
begin

text \<open>
  Powering down (\<open>database.cpp\<close>, \<open>process_vesting_withdrawals\<close>): once a week an account that asked for it gets a
  part of its vesting shares back as MUSE, less what its withdraw routes send to other accounts, as shares or as
  MUSE. The routes are read from \<open>upper_bound(from, account 0)\<close>, so a route to the account with id 0 is skipped.
\<close>

section \<open>One account\<close>

definition MUSE_VESTING_WITHDRAW_INTERVAL_SECONDS :: nat where "MUSE_VESTING_WITHDRAW_INTERVAL_SECONDS = 60 * 60 * 24 * 7"

text \<open>C++ remainder.\<close>

definition share_mod :: "int \<Rightarrow> int \<Rightarrow> int" where "share_mod a b = a - cdiv a b * b"

definition withdraw_amount :: "account \<Rightarrow> share res" where
  "withdraw_amount a =
     bindE (safe_sub (acc_to_withdraw a) (acc_withdrawn a)) (\<lambda>left.
     if left < acc_vesting_withdraw_rate a
     then (if acc_vesting_withdraw_rate a = 0 then Inl Div_by_zero_exn
           else Inr (min (acc_vesting_shares a) (share_mod (acc_to_withdraw a) (acc_vesting_withdraw_rate a))))
     else Inr (min (acc_vesting_shares a) (acc_vesting_withdraw_rate a)))"

definition routes_of :: "nat \<Rightarrow> chain \<Rightarrow> withdraw_vesting_route list" where
  "routes_of aid s =
     sort_key wr_to_account (filter (\<lambda>r. wr_from_account r = aid \<and> wr_to_account r > 0) (map snd (rows (withdraw_routes s))))"

definition route_deposit :: "share \<Rightarrow> withdraw_vesting_route \<Rightarrow> share res" where
  "route_deposit to_withdraw r = u128_to_share (u128 to_withdraw * word_of_nat (wr_percent r) div u128 MUSE_100_PERCENT)"

definition add_vests :: "share \<Rightarrow> account \<Rightarrow> account res" where
  "add_vests d a = bindE (safe_add (acc_vesting_shares a) d) (\<lambda>v. Inr (a\<lparr>acc_vesting_shares := v\<rparr>))"

text \<open>The first pass, over the routes that keep the shares vested, and the second, over those that pay MUSE.\<close>

fun vest_pass :: "string \<Rightarrow> share \<Rightarrow> withdraw_vesting_route list \<Rightarrow> share \<Rightarrow> chain \<Rightarrow> (share \<times> chain) res" where
  "vest_pass frm to_withdraw [] deposited s = Inr (deposited, s)"
| "vest_pass frm to_withdraw (r # rs) deposited s =
     (if wr_auto_vest r then
        bindE (route_deposit to_withdraw r) (\<lambda>to_deposit.
        bindE (safe_add deposited to_deposit) (\<lambda>deposited.
        if to_deposit > 0 then
          bindE (idx_get (wr_to_account r) (accounts s)) (\<lambda>to_account.
          bindE (modify_account (wr_to_account r) (add_vests to_deposit) s) (\<lambda>s.
          bindE (adjust_proxied_witness_votes (wr_to_account r) to_deposit 0 s) (\<lambda>s.
          bindE (recursive_recalculate_score (wr_to_account r) to_deposit s) (\<lambda>s.
          vest_pass frm to_withdraw rs deposited
            (push_virtual_op (Fill_vesting_withdraw frm (acc_name to_account) (mk_asset to_deposit VESTS_SYMBOL)
              (mk_asset to_deposit VESTS_SYMBOL)) s)))))
        else vest_pass frm to_withdraw rs deposited s))
      else vest_pass frm to_withdraw rs deposited s)"

definition withdraw_fund :: "asset \<Rightarrow> share \<Rightarrow> chain \<Rightarrow> chain res" where
  "withdraw_fund converted shares s =
     modify_dgp (\<lambda>p. bindE (minus_asset MUSE_SYMBOL (total_vesting_fund_muse p) converted) (\<lambda>f.
       bindE (safe_sub (total_vesting_shares p) shares) (\<lambda>v.
       Inr (p\<lparr>total_vesting_fund_muse := f, total_vesting_shares := v\<rparr>)))) s"

fun muse_pass :: "string \<Rightarrow> share \<Rightarrow> withdraw_vesting_route list \<Rightarrow> share \<Rightarrow> asset \<Rightarrow> chain \<Rightarrow> (share \<times> asset \<times> chain) res" where
  "muse_pass frm to_withdraw [] deposited converted s = Inr (deposited, converted, s)"
| "muse_pass frm to_withdraw (r # rs) deposited converted s =
     (if \<not> wr_auto_vest r then
        bindE (idx_get (wr_to_account r) (accounts s)) (\<lambda>to_account.
        bindE (route_deposit to_withdraw r) (\<lambda>to_deposit.
        bindE (safe_add deposited to_deposit) (\<lambda>deposited.
        bindE (asset_mul_price (mk_asset to_deposit VESTS_SYMBOL) (get_vesting_share_price (dgp s))) (\<lambda>converted_muse.
        bindE (asset_add converted converted_muse) (\<lambda>converted.
        if to_deposit > 0 then
          bindE (modify_account (wr_to_account r)
                  (\<lambda>a. bindE (plus_asset MUSE_SYMBOL (acc_balance a) converted_muse) (\<lambda>b. Inr (a\<lparr>acc_balance := b\<rparr>))) s) (\<lambda>s.
          bindE (withdraw_fund converted_muse to_deposit s) (\<lambda>s.
          muse_pass frm to_withdraw rs deposited converted
            (push_virtual_op (Fill_vesting_withdraw frm (acc_name to_account) (mk_asset to_deposit VESTS_SYMBOL) converted_muse) s)))
        else muse_pass frm to_withdraw rs deposited converted s)))))
      else muse_pass frm to_withdraw rs deposited converted s)"

text \<open>The account after the payout of one week, which is the last one or has a next one a week later.\<close>

definition next_withdrawal :: "account \<Rightarrow> account" where
  "next_withdrawal a =
     (if acc_withdrawn a \<ge> acc_to_withdraw a \<or> acc_vesting_shares a = 0
      then a\<lparr>acc_vesting_withdraw_rate := 0, acc_next_vesting_withdrawal := time_max\<rparr>
      else a\<lparr>acc_next_vesting_withdrawal :=
             (acc_next_vesting_withdrawal a + MUSE_VESTING_WITHDRAW_INTERVAL_SECONDS) mod 2 ^ 32\<rparr>)"

definition withdraw_from :: "share \<Rightarrow> asset \<Rightarrow> account \<Rightarrow> account res" where
  "withdraw_from to_withdraw converted a =
     bindE (safe_sub (acc_vesting_shares a) to_withdraw) (\<lambda>v.
     bindE (plus_asset MUSE_SYMBOL (acc_balance a) converted) (\<lambda>b.
     bindE (safe_add (acc_withdrawn a) to_withdraw) (\<lambda>w.
     Inr (next_withdrawal (a\<lparr>acc_vesting_shares := v, acc_balance := b, acc_withdrawn := w\<rparr>)))))"

definition withdraw_one :: "nat \<Rightarrow> chain \<Rightarrow> chain res" where
  "withdraw_one aid s =
     bindE (idx_get aid (accounts s)) (\<lambda>a.
     bindE (withdraw_amount a) (\<lambda>to_withdraw.
     let name = acc_name a; routes = routes_of aid s in
     bindE (vest_pass name to_withdraw routes 0 s) (\<lambda>(vests_deposited_as_vests, s).
     bindE (muse_pass name to_withdraw routes 0 (mk_asset 0 MUSE_SYMBOL) s) (\<lambda>(vests_deposited_as_muse, total_muse_converted, s).
     bindE (safe_sub to_withdraw vests_deposited_as_muse) (\<lambda>x.
     bindE (safe_sub x vests_deposited_as_vests) (\<lambda>to_convert.
     guardE (to_convert \<ge> 0) (
     bindE (asset_mul_price (mk_asset to_convert VESTS_SYMBOL) (get_vesting_share_price (dgp s))) (\<lambda>converted_muse.
     bindE (modify_account aid (withdraw_from to_withdraw converted_muse) s) (\<lambda>s.
     bindE (withdraw_fund converted_muse to_convert s) (\<lambda>s.
     bindE (if to_withdraw > 0
            then bindE (adjust_proxied_witness_votes aid (- to_withdraw) 0 s) (recursive_recalculate_score aid (- to_withdraw))
            else Inr s) (\<lambda>s.
     Inr (push_virtual_op (Fill_vesting_withdraw name name (mk_asset to_convert VESTS_SYMBOL) converted_muse) s))))))))))))"

section \<open>All due accounts\<close>

text \<open>The loop walks the index \<open>by_next_vesting_withdrawal\<close>. Its iterator is advanced before the account it stood
  at is modified: an account that was paid and is still due comes up again only if its new position is behind
  the account the iterator has moved to. The iterator is the id of the account it stands at, or \<open>None\<close> at the
  end; running out of fuel is the result \<open>None\<close>.\<close>

definition withdrawal_order :: "chain \<Rightarrow> nat list" where
  "withdrawal_order s = map fst (sort_key (\<lambda>(k, a). acc_next_vesting_withdrawal a) (rows (accounts s)))"

definition after_in :: "'k \<Rightarrow> 'k list \<Rightarrow> 'k option" where
  "after_in k ks = (case dropWhile (\<lambda>j. j \<noteq> k) ks of _ # j # _ \<Rightarrow> Some j | _ \<Rightarrow> None)"

fun withdraw_loop :: "nat \<Rightarrow> nat option \<Rightarrow> chain \<Rightarrow> chain res option" where
  "withdraw_loop n None s = Some (Inr s)"
| "withdraw_loop n (Some aid) s =
     (case idx_get aid (accounts s) of Inl e \<Rightarrow> Some (Inl e)
      | Inr a \<Rightarrow>
         (if \<not> acc_next_vesting_withdrawal a \<le> head_block_time s then Some (Inr s)
          else (case n of 0 \<Rightarrow> None
                | Suc m \<Rightarrow> (case withdraw_one aid s of Inl e \<Rightarrow> Some (Inl e)
                            | Inr t \<Rightarrow> withdraw_loop m (after_in aid (withdrawal_order s)) t))))"

declare withdraw_loop.simps(2) [simp del]

definition first_withdrawal :: "chain \<Rightarrow> nat option" where
  "first_withdrawal s = (case withdrawal_order s of [] \<Rightarrow> None | aid # _ \<Rightarrow> Some aid)"

definition withdraw_fuel :: "chain \<Rightarrow> nat" where
  "withdraw_fuel s = length (rows (accounts s)) * Suc (head_block_time s div MUSE_VESTING_WITHDRAW_INTERVAL_SECONDS)"

definition process_vesting_withdrawals :: "chain \<Rightarrow> chain res" where
  "process_vesting_withdrawals s =
     (case withdraw_loop (withdraw_fuel s) (first_withdrawal s) s of Some r \<Rightarrow> r | None \<Rightarrow> Inl Other_exn)"

text \<open>Evaluation on concrete states.\<close>

lemmas withdrawals_eval [chain_eval] =
  MUSE_VESTING_WITHDRAW_INTERVAL_SECONDS_def share_mod_def withdraw_amount_def routes_of_def route_deposit_def add_vests_def
  withdraw_fund_def next_withdrawal_def withdraw_from_def withdraw_one_def withdrawal_order_def after_in_def first_withdrawal_def
  withdraw_fuel_def process_vesting_withdrawals_def withdraw_loop.simps

end
