(* ===== verification/Account_Views.thy ===== *)
theory Account_Views
  imports Balances
begin

text \<open>
  What votes and scores leave alone in the accounts. A view is anything read off an account; a step keeps a view
  outside a set of accounts if it changes it for no other account. Votes, scores and balances meet the contract for
  every view that reads none of their fields.
\<close>

definition view_of :: "(account \<Rightarrow> 'v) \<Rightarrow> chain \<Rightarrow> nat \<Rightarrow> 'v option" where
  "view_of g s k = map_option g (idx_find k (accounts s))"

text \<open>The number, id and time of the head block, which only a block changes.\<close>

definition head_of :: "dynamic_global_property \<Rightarrow> nat \<times> block_id \<times> time_sec" where
  [simp]: "head_of p = (head_block_number p, head_block_id p, dgp_time p)"

definition same_view :: "(account \<Rightarrow> 'v) \<Rightarrow> nat set \<Rightarrow> chain \<Rightarrow> chain \<Rightarrow> bool" where
  "same_view g A s t \<longleftrightarrow> map fst (rows (accounts t)) = map fst (rows (accounts s)) \<and> head_of (dgp t) = head_of (dgp s) \<and>
     (\<forall>k. k \<notin> A \<longrightarrow> view_of g t k = view_of g s k)"

lemma same_view_refl [simp]: "same_view g A s s"
  by (simp add: same_view_def)

lemma same_view_trans: "same_view g A s t \<Longrightarrow> same_view g A t u \<Longrightarrow> same_view g A s u"
  by (simp add: same_view_def)

lemma same_view_mono: "same_view g A s t \<Longrightarrow> A \<subseteq> B \<Longrightarrow> same_view g B s t"
  by (auto simp: same_view_def)

lemma same_view_find: "same_view g A s t \<Longrightarrow> k \<notin> A \<Longrightarrow> idx_find k (accounts s) = Some a \<Longrightarrow>
    \<exists>b. idx_find k (accounts t) = Some b \<and> g b = g a"
  by (fastforce simp: same_view_def view_of_def)

lemma keys_update [simp]: "map fst (table_update k y t) = map fst t"
  by (induction t) (auto simp: table_update_def)

lemma same_view_account:
  assumes "modify_account k f s = Inr t"
  shows "same_view g {k} s t"
    and "(\<And>a b. f a = Inr b \<Longrightarrow> g b = g a) \<Longrightarrow> same_view g A s t"
  using assms by (auto simp: modify_account_Inr same_view_def view_of_def idx_find_update)

lemma same_view_dgp: "modify_dgp f s = Inr t \<Longrightarrow> (\<And>p q. f p = Inr q \<Longrightarrow> head_of q = head_of p) \<Longrightarrow> same_view g A s t"
  by (auto simp: modify_dgp_def bindE_Inr_iff same_view_def view_of_def)

lemma same_view_push [simp]:
  "same_view g A s (push_virtual_op v t) \<longleftrightarrow> same_view g A s t" "same_view g A (push_virtual_op v s) t \<longleftrightarrow> same_view g A s t"
  by (simp_all add: same_view_def push_virtual_op_def view_of_def)

lemma same_view_accounts: "accounts t = accounts s \<Longrightarrow> dgp t = dgp s \<Longrightarrow> same_view g A s t"
  by (simp add: same_view_def view_of_def)

lemma same_view_foldE:
  "foldE f xs s = Inr t \<Longrightarrow> (\<And>x u v. f x u = Inr v \<Longrightarrow> same_view g A u v) \<Longrightarrow> same_view g A s t"
  by (rule foldE_invariant [where I = "same_view g A s"]) (auto intro: same_view_trans)

lemma same_view_adjust_votes:
  assumes "bindE (adjust_witness_votes k d s) (adjust_streaming_platform_votes k d) = Inr t"
  shows "same_view g A s t"
proof -
  obtain u where u: "adjust_witness_votes k d s = Inr u" "adjust_streaming_platform_votes k d u = Inr t"
    using assms by (auto simp: bindE_Inr_iff)
  have "same_view g A s u"
    by (rule same_view_foldE [OF u(1) [unfolded adjust_witness_votes_def]])
      (auto simp: adjust_witness_vote_def Let_def modify_witness_def bindE_Inr_iff intro: same_view_accounts)
  moreover have "same_view g A u t"
    by (rule same_view_foldE [OF u(2) [unfolded adjust_streaming_platform_votes_def]])
      (auto simp: adjust_streaming_platform_vote_def modify_platform_def bindE_Inr_iff intro: same_view_accounts)
  ultimately show ?thesis by (rule same_view_trans)
qed

text \<open>A view that reads neither the score nor the proxied votes.\<close>

locale account_view =
  fixes view :: "account \<Rightarrow> 'v"
  assumes view_score: "view (a\<lparr>acc_score := x\<rparr>) = view a"
    and view_proxied: "view (a\<lparr>acc_proxied_vsf_votes := v\<rparr>) = view a"
begin

lemma keep_adjust_proxied: "adjust_proxied_witness_votes k d depth s = Inr t \<Longrightarrow> same_view view A s t"
proof (induction k d depth s rule: adjust_proxied_witness_votes.induct)
  case (1 k d depth s)
  from 1(2) obtain a where a: "idx_get k (accounts s) = Inr a"
    by (auto simp: adjust_proxied_witness_votes.simps [of k] bindE_Inr_iff)
  show ?case
  proof (cases "acc_proxy a = MUSE_PROXY_TO_SELF_ACCOUNT \<or> MUSE_MAX_PROXY_RECURSION_DEPTH \<le> depth")
    case True
    then show ?thesis using 1(2) a same_view_adjust_votes [of k d s t]
      by (auto simp: adjust_proxied_witness_votes.simps [of k] split: if_splits)
  next
    case False
    then obtain pid p u where p: "get_account (acc_proxy a) s = Inr (pid, p)"
      and u: "modify_account pid (add_proxied depth d) s = Inr u"
      and r: "adjust_proxied_witness_votes pid d (depth + 1) u = Inr t"
      using 1(2) a by (auto simp: adjust_proxied_witness_votes.simps [of k] bindE_Inr_iff)
    have "same_view view A u t" by (rule 1(1) [of a "(pid, p)" pid p u]) (use False a p u r in auto)
    moreover have "same_view view A s u"
      using u by (rule same_view_account) (auto simp: add_proxied_def bindE_Inr_iff view_proxied split: if_splits)
    ultimately show ?thesis by (blast intro: same_view_trans)
  qed
qed

lemma keep_add_score: "modify_account k (add_score d) s = Inr t \<Longrightarrow> same_view view A s t"
  by (erule same_view_account) (auto simp: add_score_def view_score)

lemma keep_add_scores: "foldE (\<lambda>f. modify_account f (add_score d)) ks s = Inr t \<Longrightarrow> same_view view A s t"
  by (erule same_view_foldE) (rule keep_add_score)

lemma keep_recursive_score: "recursive_recalculate_score k d s = Inr t \<Longrightarrow> same_view view A s t"
  by (auto simp: recursive_recalculate_score_def Let_def bindE_Inr_iff dest!: keep_add_score keep_add_scores
      intro: same_view_trans)

end

interpretation vesting_view: account_view acc_vesting_shares
  by unfold_locales simp_all

end
