(* ===== verification/Withdrawal_Laws.thy ===== *)
theory Withdrawal_Laws
  imports Withdrawals Asset_Laws Account_Views Demo_Chain
begin

text \<open>
  Powering down: a payout moves vesting shares, votes and MUSE between accounts and the vesting fund and leaves
  the books balanced, the loop over the due accounts ends, and an account never gets more than it asked for.
\<close>

section \<open>What a withdrawal moves\<close>

lemma moves_add_vests:
  assumes "modify_account aid (add_vests d) s = Inr t" "tables_ok s" "idx_find aid (accounts s) = Some a"
  shows "moves (0, 0, - d, - (if acc_proxy a = MUSE_PROXY_TO_SELF_ACCOUNT then d else 0)) s t"
    and "\<exists>b. idx_find aid (accounts t) = Some b \<and> acc_proxy b = acc_proxy a"
proof -
  show "moves (0, 0, - d, - (if acc_proxy a = MUSE_PROXY_TO_SELF_ACCOUNT then d else 0)) s t"
    by (rule moves_account [OF assms(1,2)]) (use assms(3) in \<open>auto simp: add_vests_def res_simps account_ok_def vsf_weight_def\<close>)
  show "\<exists>b. idx_find aid (accounts t) = Some b \<and> acc_proxy b = acc_proxy a"
    using assms(1,3) by (auto simp: res_simps add_vests_def idx_find_update)
qed

lemma through_proxy_0: "through_proxy a 0 d = (if acc_proxy a = MUSE_PROXY_TO_SELF_ACCOUNT then 0 else d)"
  by (simp add: through_proxy_def MUSE_MAX_PROXY_RECURSION_DEPTH_def)

text \<open>Shares credited to an account, with the votes and the score that follow them.\<close>

lemma moves_deposit_vests:
  assumes "modify_account aid (add_vests d) s = Inr t" "adjust_proxied_witness_votes aid d 0 t = Inr u"
    "recursive_recalculate_score aid d u = Inr v" "tables_ok s"
  shows "moves (0, 0, - d, - d) s v"
proof -
  obtain a where a: "idx_find aid (accounts s) = Some a" using assms(1) by (auto simp: res_simps)
  note 1 = moves_add_vests [OF assms(1,4) a]
  obtain b where b: "idx_find aid (accounts t) = Some b" "acc_proxy b = acc_proxy a" using 1(2) by auto
  note 2 = moves_trans [OF 1(1) moves_adjust_proxied [OF assms(2) moves_tables [OF 1(1)] b(1)]]
  from moves_trans [OF 2 moves_recursive_recalculate_score [OF assms(3) moves_tables [OF 2]]]
  show ?thesis using b(2) by (simp add: through_proxy_0 split: if_splits)
qed

text \<open>A route sends at most 100 percent, so what it deposits is its share of the withdrawal, rounded down; a
  negative withdrawal would make the 128-bit product too large and is refused.\<close>

definition route_ok :: "withdraw_vesting_route \<Rightarrow> bool" where
  "route_ok r \<longleftrightarrow> wr_percent r \<le> nat MUSE_100_PERCENT"

lemma route_deposit_value:
  assumes "route_deposit w r = Inr dep" "in_int64 w" "route_ok r"
  shows "0 \<le> dep" "0 \<le> w \<Longrightarrow> dep = w * int (wr_percent r) div 10000"
proof -
  let ?n = "int (wr_percent r)"
  let ?x = "u128 w * u128 ?n div u128 10000"
  have n: "0 \<le> ?n" "?n \<le> 10000" "in_int64 ?n"
    using assms(3) by (auto simp: route_ok_def MUSE_100_PERCENT_def in_int64_def int64_min_def int64_max_def)
  have x: "drop_bit 64 ?x = 0" "dep = share_of_u64 ?x"
    using assms(1) by (auto simp: route_deposit_def u128_to_share_def guardE_Inr_iff u128_def MUSE_100_PERCENT_def)
  have val: "dep = w * ?n div 10000" if w: "0 \<le> w"
  proof -
    have "unat ?x = nat (w * ?n div 10000)"
      using mul_div_value [OF w assms(2) n(1,3), of 10000] by (simp add: in_int64_def int64_min_def int64_max_def)
    moreover have "w * ?n div 10000 \<le> w * 10000 div 10000" using n w by (intro zdiv_mono1 mult_left_mono) auto
    moreover have "w < 2 ^ 63" using w assms(2) by (simp add: in_int64_nonneg)
    moreover have "0 \<le> w * ?n div 10000" using w n by (simp add: pos_imp_zdiv_nonneg_iff)
    ultimately show ?thesis using x(2) share_of_u64_small [of ?x] by (simp add: nat_less_iff)
  qed
  then show "0 \<le> w \<Longrightarrow> dep = w * ?n div 10000" .
  show "0 \<le> dep"
  proof (cases "0 \<le> w \<or> ?n = 0")
    case True
    then show ?thesis using val n x(2) by (auto simp: pos_imp_zdiv_nonneg_iff u128_def share_of_u64_def)
  next
    case False
    then have neg: "w * ?n < 0" using n(1) by (simp add: mult_neg_pos)
    have "- (2 ^ 63) * 10000 \<le> w * ?n"
    proof -
      have "- (2 ^ 63) \<le> w" using assms(2) by (simp add: in_int64_def int64_min_def)
      moreover have "w * 10000 \<le> w * ?n" using False n by (intro mult_left_mono_neg) auto
      ultimately show ?thesis by linarith
    qed
    then have "(w * ?n) mod 2 ^ 128 = w * ?n + 2 ^ 128" using neg
      by (intro mod_pos_pos_trivial [of "w * ?n + 2 ^ 128" "2 ^ 128", simplified mod_add_self2]) auto
    moreover have "u128 w * u128 ?n = u128 (w * ?n)" by (simp add: u128_def)
    ultimately have "uint (u128 w * u128 ?n) = w * ?n + 2 ^ 128"
      unfolding u128_def by (simp only: unsigned_of_int take_bit_eq_mod) simp
    then have "uint ?x = (w * ?n + 2 ^ 128) div 10000" by (simp add: uint_div u128_def unsigned_of_int take_bit_eq_mod)
    moreover have "(2 ^ 128 - 2 ^ 63 * 10000) div 10000 \<le> (w * ?n + 2 ^ 128) div 10000"
      using \<open>- (2 ^ 63) * 10000 \<le> w * ?n\<close> by (intro zdiv_mono1) auto
    ultimately have "2 ^ 64 \<le> uint ?x" by simp
    then have "\<not> unat ?x < 2 ^ 64" by (metis not_less of_nat_less_iff of_nat_numeral of_nat_power uint_nat)
    then show ?thesis using x(1) u128_high_zero by blast
  qed
qed

lemma moves_vest_pass:
  "vest_pass frm w rs d s = Inr (d', s') \<Longrightarrow> tables_ok s \<Longrightarrow> in_int64 w \<Longrightarrow> list_all route_ok rs \<Longrightarrow>
   moves (0, 0, d - d', d - d') s s' \<and> d \<le> d'"
proof (induction frm w rs d s rule: vest_pass.induct)
  case (2 frm w r rs d s)
  show ?case
  proof (cases "wr_auto_vest r")
    case True
    then obtain dep where dep: "route_deposit w r = Inr dep" "safe_add d dep = Inr (d + dep)"
      using 2(4) by (auto simp: bindE_Inr_iff safe_ops_Inr_iff)
    show ?thesis
    proof (cases "dep > 0")
      case True
      then obtain to_acc t u v x where to: "idx_get (wr_to_account r) (accounts s) = Inr to_acc"
        and t: "modify_account (wr_to_account r) (add_vests dep) s = Inr t"
        and u: "adjust_proxied_witness_votes (wr_to_account r) dep 0 t = Inr u"
        and v: "recursive_recalculate_score (wr_to_account r) dep u = Inr v"
        and rest: "vest_pass frm w rs (d + dep) (push_virtual_op x v) = Inr (d', s')"
        and x: "x = Fill_vesting_withdraw frm (acc_name to_acc) (mk_asset dep VESTS_SYMBOL) (mk_asset dep VESTS_SYMBOL)"
        using 2(4) \<open>wr_auto_vest r\<close> dep by (auto simp: bindE_Inr_iff)
      have 1: "moves (0, 0, - dep, - dep) s (push_virtual_op x v)" using moves_deposit_vests [OF t u v 2(5)] by simp
      have r: "moves (0, 0, d + dep - d', d + dep - d') (push_virtual_op x v) s' \<and> d + dep \<le> d'"
        using 2(1) [OF \<open>wr_auto_vest r\<close> dep True to t u v rest [unfolded x]] moves_tables [OF 1] 2(6,7) by (simp add: x)
      from moves_trans [OF 1 conjunct1 [OF r]] r True show ?thesis by simp
    next
      case False
      then have "dep = 0" using route_deposit_value(1) [OF dep(1) 2(6)] 2(7) by simp
      then show ?thesis using False 2(2) [OF \<open>wr_auto_vest r\<close> dep] 2(4-7) dep \<open>wr_auto_vest r\<close> by simp
    qed
  next
    case False
    then show ?thesis using 2 by simp
  qed
qed (simp add: moves_refl)

lemma moves_withdraw_fund:
  assumes "withdraw_fund c d s = Inr s'" "tables_ok s"
  shows "moves (amount c, 0, - d, - d) s s'" "asset_id c = MUSE_SYMBOL" "accounts s' = accounts s"
proof -
  show "moves (amount c, 0, - d, - d) s s'"
    by (rule moves_dgp [OF assms(1) [unfolded withdraw_fund_def] assms(2)]) (auto simp: res_simps)
  show "asset_id c = MUSE_SYMBOL" "accounts s' = accounts s"
    using assms(1) by (auto simp: withdraw_fund_def modify_dgp_def res_simps)
qed

lemma moves_credit:
  assumes "modify_account k (\<lambda>a. bindE (plus_asset MUSE_SYMBOL (acc_balance a) c) (\<lambda>b. Inr (a\<lparr>acc_balance := b\<rparr>))) s = Inr s'" "tables_ok s"
  shows "moves (- amount c, 0, 0, 0) s s'"
  by (rule moves_account [OF assms]) (auto simp: res_simps account_ok_def vsf_weight_def)

lemma moves_muse_pass:
  "muse_pass frm w rs d c s = Inr (d', c', s') \<Longrightarrow> tables_ok s \<Longrightarrow> in_int64 w \<Longrightarrow> list_all route_ok rs \<Longrightarrow>
   moves (0, 0, d - d', d - d') s s' \<and> d \<le> d'"
proof (induction frm w rs d c s rule: muse_pass.induct)
  case (2 frm w r rs d c s)
  show ?case
  proof (cases "wr_auto_vest r")
    case False
    then obtain to_acc dep m c1 where to: "idx_get (wr_to_account r) (accounts s) = Inr to_acc"
      and dep: "route_deposit w r = Inr dep" "safe_add d dep = Inr (d + dep)"
      and m: "asset_mul_price (mk_asset dep VESTS_SYMBOL) (get_vesting_share_price (dgp s)) = Inr m" "asset_add c m = Inr c1"
      using 2(4) by (auto simp: bindE_Inr_iff safe_ops_Inr_iff)
    show ?thesis
    proof (cases "dep > 0")
      case True
      let ?f = "\<lambda>a. bindE (plus_asset MUSE_SYMBOL (acc_balance a) m) (\<lambda>b. Inr (a\<lparr>acc_balance := b\<rparr>))"
      let ?x = "Fill_vesting_withdraw frm (acc_name to_acc) (mk_asset dep VESTS_SYMBOL) m"
      obtain t u where t: "modify_account (wr_to_account r) ?f s = Inr t" and u: "withdraw_fund m dep t = Inr u"
        and rest: "muse_pass frm w rs (d + dep) c1 (push_virtual_op ?x u) = Inr (d', c', s')"
        using 2(4) False True to dep m by (auto simp: bindE_Inr_iff)
      note 1 = moves_credit [OF t 2(5)]
      have 2: "moves (0, 0, - dep, - dep) s (push_virtual_op ?x u)"
        using moves_trans [OF 1 moves_withdraw_fund(1) [OF u moves_tables [OF 1]]] by simp
      have r: "moves (0, 0, d + dep - d', d + dep - d') (push_virtual_op ?x u) s' \<and> d + dep \<le> d'"
        using "2.IH"(1) [OF False to dep m True t u rest moves_tables [OF 2]] "2.prems"(3,4) by simp
      from moves_trans [OF 2 conjunct1 [OF r]] r True show ?thesis by simp
    next
      case le: False
      then have "dep = 0" using route_deposit_value(1) [OF dep(1) 2(6)] 2(7) by simp
      then show ?thesis using le False 2(2) [OF False to dep m] 2(4-7) to dep m by simp
    qed
  next
    case True
    then show ?thesis using 2 by simp
  qed
qed (simp add: moves_refl)

lemma withdraw_amount_range:
  assumes "withdraw_amount a = Inr w" "account_ok a"
  shows "in_int64 w"
proof -
  have r: "in_int64 (acc_vesting_shares a)" "in_int64 (acc_vesting_withdraw_rate a)" using assms(2) by (simp_all add: account_ok_def)
  have m: "- \<bar>b\<bar> \<le> share_mod x b \<and> share_mod x b \<le> \<bar>b\<bar>" if "b \<noteq> 0" for x b :: int
  proof -
    define q where "q = \<bar>x\<bar> div \<bar>b\<bar>"
    define r where "r = \<bar>x\<bar> mod \<bar>b\<bar>"
    have d: "\<bar>x\<bar> = q * \<bar>b\<bar> + r" "0 \<le> r" "r < \<bar>b\<bar>" using that by (simp_all add: q_def r_def)
    have c: "share_mod x b = (if (0 \<le> x) = (0 \<le> b) then x - q * b else x + q * b)" by (simp add: share_mod_def cdiv_def q_def)
    show ?thesis unfolding c using d by (cases "0 \<le> x"; cases "0 \<le> b") auto
  qed
  have "w = acc_vesting_shares a \<or> w = acc_vesting_withdraw_rate a \<or> w \<le> acc_vesting_shares a \<and>
      acc_vesting_withdraw_rate a \<noteq> 0 \<and> w = share_mod (acc_to_withdraw a) (acc_vesting_withdraw_rate a)"
    using assms(1) by (auto simp: withdraw_amount_def bindE_Inr_iff min_def split: if_splits)
  then show ?thesis using r m [of "acc_vesting_withdraw_rate a" "acc_to_withdraw a"]
    by (auto simp: in_int64_def int64_min_def int64_max_def)
qed

lemma next_withdrawal_simps [simp]:
  "acc_proxy (next_withdrawal a) = acc_proxy a" "acc_balance (next_withdrawal a) = acc_balance a"
  "acc_vesting_shares (next_withdrawal a) = acc_vesting_shares a" "acc_mbd_balance (next_withdrawal a) = acc_mbd_balance a"
  "acc_proxied_vsf_votes (next_withdrawal a) = acc_proxied_vsf_votes a" "acc_withdrawn (next_withdrawal a) = acc_withdrawn a"
  "acc_to_withdraw (next_withdrawal a) = acc_to_withdraw a"
  by (simp_all add: next_withdrawal_def)

lemma next_withdrawal_rate: "in_int64 (acc_vesting_withdraw_rate a) \<Longrightarrow> in_int64 (acc_vesting_withdraw_rate (next_withdrawal a))"
  by (simp add: next_withdrawal_def in_int64_def int64_min_def int64_max_def)

lemma next_withdrawal_weight [simp]: "vsf_weight (next_withdrawal a) = vsf_weight a"
  by (simp add: vsf_weight_def)

lemma withdraw_from_proxy: "withdraw_from w c a = Inr b \<Longrightarrow> acc_proxy b = acc_proxy a"
  by (auto simp: withdraw_from_def bindE_Inr_iff)

lemma moves_withdraw_from:
  assumes "modify_account aid (withdraw_from w c) s = Inr t" "tables_ok s" "idx_find aid (accounts s) = Some a"
  shows "moves (- amount c, 0, w, (if acc_proxy a = MUSE_PROXY_TO_SELF_ACCOUNT then w else 0)) s t"
    and "\<exists>b. idx_find aid (accounts t) = Some b \<and> acc_proxy b = acc_proxy a"
proof -
  show "moves (- amount c, 0, w, (if acc_proxy a = MUSE_PROXY_TO_SELF_ACCOUNT then w else 0)) s t"
    by (rule moves_account [OF assms(1,2)])
      (use assms(3) in \<open>auto simp: withdraw_from_def res_simps vsf_weight_def account_ok_def intro!: next_withdrawal_rate\<close>)
  show "\<exists>b. idx_find aid (accounts t) = Some b \<and> acc_proxy b = acc_proxy a"
    using assms(1,3) withdraw_from_proxy by (auto simp: modify_account_Inr idx_find_update)
qed

lemma moves_withdraw_one:
  assumes "withdraw_one aid s = Inr s'" "tables_ok s" "list_all (\<lambda>(k, r). route_ok r) (rows (withdraw_routes s))"
  shows "moves (0, 0, 0, 0) s s'"
proof -
  obtain a w dv dm tm t u v x y z n m where a: "idx_find aid (accounts s) = Some a" and w: "withdraw_amount a = Inr w"
    and t: "vest_pass n w (routes_of aid s) 0 s = Inr (dv, t)"
    and u: "muse_pass n w (routes_of aid s) 0 (mk_asset 0 MUSE_SYMBOL) t = Inr (dm, tm, u)"
    and v: "modify_account aid (withdraw_from w m) u = Inr v" and x: "withdraw_fund m (w - dm - dv) v = Inr x"
    and y: "(if w > 0 then bindE (adjust_proxied_witness_votes aid (- w) 0 x) (recursive_recalculate_score aid (- w))
            else Inr x) = Inr y" and nn: "w - dm - dv \<ge> 0"
    and s': "s' = push_virtual_op z y"
    using assms(1) by (auto simp: withdraw_one_def Let_def bindE_Inr_iff guardE_Inr_iff idx_get_Inr safe_ops_Inr_iff)
  have wr: "in_int64 w" by (rule withdraw_amount_range [OF w account_ok_find [OF assms(2) a]])
  have rs: "list_all route_ok (routes_of aid s)" using assms(3) by (auto simp: routes_of_def list_all_iff)
  note P = moves_vest_pass [OF t assms(2) wr rs]
  note 1 = conjunct1 [OF P]
  note Q = moves_muse_pass [OF u moves_tables [OF 1] wr rs]
  note 2 = moves_trans [OF 1 conjunct1 [OF Q]]
  obtain b where b: "idx_find aid (accounts u) = Some b" using v by (auto simp: res_simps)
  note W = moves_withdraw_from [OF v moves_tables [OF 2] b]
  obtain b' where b': "idx_find aid (accounts x) = Some b'" "acc_proxy b' = acc_proxy b"
    using W(2) moves_withdraw_fund(3) [OF x] moves_tables [OF W(1)] by auto
  note 3 = moves_trans [OF moves_trans [OF 2 W(1)] moves_withdraw_fund(1) [OF x moves_tables [OF W(1)]]]
  have 4: "moves (0, 0, 0, (if acc_proxy b = MUSE_PROXY_TO_SELF_ACCOUNT then 0 else w)) x y"
  proof (cases "w > 0")
    case True
    then obtain y1 where y1: "adjust_proxied_witness_votes aid (- w) 0 x = Inr y1" "recursive_recalculate_score aid (- w) y1 = Inr y"
      using y by (auto simp: bindE_Inr_iff)
    note p = moves_adjust_proxied [OF y1(1) moves_tables [OF 3] b'(1)]
    from moves_trans [OF p moves_recursive_recalculate_score [OF y1(2) moves_tables [OF p]]] show ?thesis
      using b'(2) by (auto simp: through_proxy_0 split: if_splits)
  next
    case False
    then have "w = 0" "x = y" using y nn P Q by auto
    then show ?thesis using moves_refl [OF moves_tables [OF 3]] by simp
  qed
  from moves_trans [OF 3 4] show ?thesis by (auto simp: s' split: if_splits)
qed

section \<open>The plans of the accounts\<close>

text \<open>What an account still has to be paid. Only the account whose turn it is changes its plan, and only that
  account and the targets of its vesting routes change their shares.\<close>

definition plan :: "account \<Rightarrow> time_sec \<times> share \<times> share \<times> share" where
  "plan a = (acc_next_vesting_withdrawal a, acc_withdrawn a, acc_to_withdraw a, acc_vesting_withdraw_rate a)"

interpretation plan_view: account_view plan
  by unfold_locales (simp_all add: plan_def)

context account_view
begin

lemma keep_vest_pass:
  "vest_pass frm w rs d s = Inr (d', t) \<Longrightarrow>
   (\<And>x r a b. r \<in> set rs \<Longrightarrow> wr_auto_vest r \<Longrightarrow> wr_to_account r \<notin> A \<Longrightarrow> add_vests x a = Inr b \<Longrightarrow> view b = view a) \<Longrightarrow>
   same_view view A s t"
proof (induction rs arbitrary: d s)
  case (Cons r rs)
  have v: "same_view view A v u" if "modify_account (wr_to_account r) (add_vests x) v = Inr u" "wr_auto_vest r" for x u v
  proof (cases "wr_to_account r \<in> A")
    case True
    then show ?thesis using same_view_mono [OF same_view_account(1) [OF that(1)]] by simp
  next
    case False
    show ?thesis by (rule same_view_account(2) [OF that(1)], rule Cons.prems(2) [of r]) (use False that(2) in auto)
  qed
  have IH: "vest_pass frm w rs d s = Inr (d', t) \<Longrightarrow> same_view view A s t" for d s
    by (rule Cons.IH) (use Cons.prems(2) in auto)
  show ?case
  proof (cases "wr_auto_vest r")
    case True
    then obtain dep d1 where dep: "route_deposit w r = Inr dep" "safe_add d dep = Inr d1"
      using Cons.prems(1) by (auto simp: bindE_Inr_iff)
    show ?thesis
    proof (cases "dep > 0")
      case pos: True
      obtain t1 u1 v1 x where 1: "modify_account (wr_to_account r) (add_vests dep) s = Inr t1"
        "adjust_proxied_witness_votes (wr_to_account r) dep 0 t1 = Inr u1"
        "recursive_recalculate_score (wr_to_account r) dep u1 = Inr v1"
        "vest_pass frm w rs d1 (push_virtual_op x v1) = Inr (d', t)"
        using Cons.prems(1) True dep pos by (auto simp: bindE_Inr_iff)
      from same_view_trans [OF v [OF 1(1) True] same_view_trans [OF keep_adjust_proxied [OF 1(2)] keep_recursive_score [OF 1(3)]]]
        IH [OF 1(4)] show ?thesis by (simp add: same_view_trans)
    qed (use Cons.prems(1) True dep IH in simp)
  qed (use Cons.prems(1) IH in simp)
qed simp

end

lemma same_view_withdraw_fund: "withdraw_fund c d s = Inr t \<Longrightarrow> same_view g A s t"
  unfolding withdraw_fund_def by (rule same_view_dgp) (auto simp: bindE_Inr_iff)

lemma same_view_muse_pass:
  "muse_pass frm w rs d c s = Inr (d', c', t) \<Longrightarrow> (\<And>a b. g (a\<lparr>acc_balance := b\<rparr>) = g a) \<Longrightarrow> same_view g A s t"
proof (induction rs arbitrary: d c s)
  case (Cons r rs)
  have v: "same_view g A v u"
    if "modify_account k (\<lambda>a. bindE (plus_asset MUSE_SYMBOL (acc_balance a) x) (\<lambda>b. Inr (a\<lparr>acc_balance := b\<rparr>))) v = Inr u" for k x u v
    using that by (rule same_view_account) (auto simp: bindE_Inr_iff Cons.prems(2))
  show ?case
  proof (cases "wr_auto_vest r")
    case False
    then obtain dep m d1 c1 where dep: "route_deposit w r = Inr dep" "safe_add d dep = Inr d1" "asset_add c m = Inr c1"
      "asset_mul_price (mk_asset dep VESTS_SYMBOL) (get_vesting_share_price (dgp s)) = Inr m"
      using Cons.prems(1) by (auto simp: bindE_Inr_iff)
    show ?thesis
    proof (cases "dep > 0")
      case True
      obtain t1 u1 x where
        1: "modify_account (wr_to_account r) (\<lambda>a. bindE (plus_asset MUSE_SYMBOL (acc_balance a) m) (\<lambda>b. Inr (a\<lparr>acc_balance := b\<rparr>))) s = Inr t1"
        "withdraw_fund m dep t1 = Inr u1" "muse_pass frm w rs d1 c1 (push_virtual_op x u1) = Inr (d', c', t)"
        using Cons.prems(1) False True dep by (auto simp: bindE_Inr_iff)
      from same_view_trans [OF v [OF 1(1)] same_view_withdraw_fund [OF 1(2)]] Cons.IH [OF 1(3) Cons.prems(2)]
      show ?thesis by (simp add: same_view_trans)
    next
      case le: False
      then have "muse_pass frm w rs d1 c1 s = Inr (d', c', t)"
        using Cons.prems(1) False dep by (auto simp: bindE_Inr_iff)
      then show ?thesis using Cons.IH Cons.prems(2) by blast
    qed
  next
    case True
    then show ?thesis using Cons by simp
  qed
qed simp

definition no_self_route :: "nat \<Rightarrow> chain \<Rightarrow> bool" where
  "no_self_route aid s \<longleftrightarrow> list_all (\<lambda>r. wr_to_account r \<noteq> aid) (routes_of aid s)"

text \<open>One payout: the account it is made from, the amount, and the account before and after the final update.\<close>

lemma withdraw_one_step:
  assumes "withdraw_one aid s = Inr s'"
  obtains a w c b b' where "idx_find aid (accounts s) = Some a" "withdraw_amount a = Inr w"
    "plan b = plan a" "no_self_route aid s \<Longrightarrow> acc_vesting_shares b = acc_vesting_shares a"
    "withdraw_from w c b = Inr b'" "view_of plan s' aid = Some (plan b')" "same_view plan {aid} s s'"
proof -
  obtain a w dv dm tm t u v x y z n m k where a: "idx_find aid (accounts s) = Some a" and w: "withdraw_amount a = Inr w"
    and t: "vest_pass n w (routes_of aid s) 0 s = Inr (dv, t)"
    and u: "muse_pass n w (routes_of aid s) 0 (mk_asset 0 MUSE_SYMBOL) t = Inr (dm, tm, u)"
    and v: "modify_account aid (withdraw_from w m) u = Inr v" and x: "withdraw_fund m k v = Inr x"
    and y: "(if w > 0 then bindE (adjust_proxied_witness_votes aid (- w) 0 x) (recursive_recalculate_score aid (- w))
            else Inr x) = Inr y"
    and s': "s' = push_virtual_op z y"
    using assms by (auto simp: withdraw_one_def Let_def bindE_Inr_iff guardE_Inr_iff idx_get_Inr)
  obtain b b' where b: "idx_find aid (accounts u) = Some b" "withdraw_from w m b = Inr b'"
    and v': "v = u\<lparr>accounts := (accounts u)\<lparr>rows := table_update aid b' (rows (accounts u))\<rparr>\<rparr>"
    using v by (auto simp: modify_account_Inr)
  have 1: "same_view plan {} s t"
    by (rule plan_view.keep_vest_pass [OF t]) (auto simp: add_vests_def bindE_Inr_iff plan_def)
  have 2: "same_view plan {} s u" by (rule same_view_trans [OF 1 same_view_muse_pass [OF u]]) (simp add: plan_def)
  have 3: "same_view plan {} x y"
    using y by (auto simp: bindE_Inr_iff split: if_splits intro: same_view_trans
        plan_view.keep_adjust_proxied plan_view.keep_recursive_score)
  have 4: "same_view plan {} v y" by (rule same_view_trans [OF same_view_withdraw_fund [OF x] 3])
  have after: "view_of plan s' aid = Some (plan b')"
    using 4 b(1) by (simp add: s' same_view_def view_of_def push_virtual_op_def v' idx_find_update)
  have "same_view plan {aid} s u" "same_view plan {aid} v y" using same_view_mono 2 4 by blast+
  then have frame: "same_view plan {aid} s s'"
    using same_view_account(1) [OF v, of plan] by (simp add: s') (meson same_view_trans)
  have vest: "acc_vesting_shares b = acc_vesting_shares a" if "no_self_route aid s"
  proof -
    have "same_view acc_vesting_shares (- {aid}) s t"
      by (rule vesting_view.keep_vest_pass [OF t]) (use that in \<open>auto simp: no_self_route_def list_all_iff\<close>)
    from same_view_trans [OF this same_view_muse_pass [OF u]] show ?thesis
      using same_view_find [OF _ _ a] b(1) by force
  qed
  have "plan b = plan a" using same_view_find [OF 2 _ a] b(1) by simp
  from that [OF a w this vest b(2) after frame] show ?thesis by blast
qed

section \<open>The loop ends\<close>

text \<open>The number of weekly payouts an account is owed at a given time; each payout takes one off, the
  first or all.\<close>

definition owed :: "time_sec \<Rightarrow> (time_sec \<times> 'x) option \<Rightarrow> nat" where
  "owed now p = (case p of None \<Rightarrow> 0 | Some (t, _) \<Rightarrow> if t \<le> now then Suc ((now - t) div MUSE_VESTING_WITHDRAW_INTERVAL_SECONDS) else 0)"

definition payouts_owed :: "chain \<Rightarrow> nat" where
  "payouts_owed s = sum_list (map (\<lambda>k. owed (head_block_time s) (view_of plan s k)) (map fst (rows (accounts s))))"

lemma owed_withdraw_from:
  assumes "withdraw_from w c b = Inr b'" "plan b = plan a" "acc_next_vesting_withdrawal a \<le> now"
    "now + MUSE_VESTING_WITHDRAW_INTERVAL_SECONDS < time_max"
  shows "owed now (Some (plan b')) < owed now (Some (plan a))"
proof -
  let ?n = "acc_next_vesting_withdrawal b'" and ?t = "acc_next_vesting_withdrawal a"
  let ?w = "MUSE_VESTING_WITHDRAW_INTERVAL_SECONDS"
  have t: "acc_next_vesting_withdrawal b = ?t" using assms(2) by (simp add: plan_def)
  have "?n = time_max \<or> ?n = ?t + ?w"
  proof -
    have "?n = time_max \<or> ?n = (acc_next_vesting_withdrawal b + ?w) mod 2 ^ 32"
      using assms(1) by (auto simp: withdraw_from_def bindE_Inr_iff next_withdrawal_def)
    moreover have "(?t + ?w) mod 2 ^ 32 = ?t + ?w" using assms(3,4) by (simp add: time_max_def)
    ultimately show ?thesis by (simp only: t)
  qed
  then show ?thesis
  proof
    assume n: "?n = ?t + ?w"
    have "(now - ?t) div ?w = Suc ((now - ?t - ?w) div ?w)" if "?n \<le> now"
      using n that by (intro le_div_geq) (auto simp: MUSE_VESTING_WITHDRAW_INTERVAL_SECONDS_def)
    then show ?thesis using assms(3) n by (auto simp: owed_def plan_def diff_diff_left)
  qed (use assms(3,4) in \<open>simp add: owed_def plan_def\<close>)
qed

lemma sum_list_drop_one:
  "k \<in> set ks \<Longrightarrow> f k < g k \<Longrightarrow> (\<And>j. j \<noteq> k \<Longrightarrow> f j = (g j :: nat)) \<Longrightarrow> sum_list (map f ks) < sum_list (map g ks)"
proof (induction ks)
  case (Cons j ks)
  have le: "sum_list (map f ks) \<le> sum_list (map g ks)"
    by (rule sum_list_mono) (metis Cons.prems(2,3) less_imp_le order_refl)
  show ?case
  proof (cases "j = k")
    case False
    then show ?thesis using Cons by simp
  qed (use Cons.prems(2) le in simp)
qed simp

lemma withdraw_one_pays:
  assumes "withdraw_one aid s = Inr t" "idx_find aid (accounts s) = Some a" "acc_next_vesting_withdrawal a \<le> head_block_time s"
    "head_block_time s + MUSE_VESTING_WITHDRAW_INTERVAL_SECONDS < time_max"
  shows "payouts_owed t < payouts_owed s" and "head_block_time t = head_block_time s"
proof -
  obtain w c b b' where b: "plan b = plan a" "withdraw_from w c b = Inr b'" "view_of plan t aid = Some (plan b')"
    and f: "same_view plan {aid} s t"
    using withdraw_one_step [OF assms(1)] assms(2) by (metis option.inject)
  show h: "head_block_time t = head_block_time s" using f by (simp add: same_view_def head_block_time_def)
  have "owed (head_block_time s) (view_of plan t aid) < owed (head_block_time s) (view_of plan s aid)"
    using owed_withdraw_from [OF b(2,1) assms(3,4)] b(3) assms(2) by (simp only: view_of_def [of plan s] option.map)
  then have "sum_list (map (\<lambda>k. owed (head_block_time s) (view_of plan t k)) (map fst (rows (accounts s))))
      < sum_list (map (\<lambda>k. owed (head_block_time s) (view_of plan s k)) (map fst (rows (accounts s))))"
    using f assms(2) by (intro sum_list_drop_one [of aid]) (auto simp: same_view_def dest: idx_find_key)
  then show "payouts_owed t < payouts_owed s" using f h by (simp add: payouts_owed_def same_view_def del: map_map)
qed

lemma withdraw_loop_returns:
  "payouts_owed s \<le> n \<Longrightarrow> head_block_time s + MUSE_VESTING_WITHDRAW_INTERVAL_SECONDS < time_max \<Longrightarrow>
   \<exists>r. withdraw_loop n cur s = Some r"
proof (induction n arbitrary: cur s)
  case 0
  have "owed (head_block_time s) (view_of plan s k) = 0" if "k \<in> fst ` set (rows (accounts s))" for k
    using 0(1) that by (auto simp: payouts_owed_def)
  then have "\<not> acc_next_vesting_withdrawal a \<le> head_block_time s" if "idx_find k (accounts s) = Some a" for k a
    using that idx_find_key [OF that] by (fastforce simp: owed_def view_of_def plan_def split: if_splits)
  then show ?case by (cases cur) (auto simp: withdraw_loop.simps(2) idx_get_Inr split: sum.splits)
next
  case (Suc n)
  show ?case
  proof (cases cur)
    case (Some aid)
    show ?thesis
    proof (cases "\<exists>a t. idx_find aid (accounts s) = Some a \<and> acc_next_vesting_withdrawal a \<le> head_block_time s \<and>
        withdraw_one aid s = Inr t")
      case True
      then obtain a t where a: "idx_find aid (accounts s) = Some a" "acc_next_vesting_withdrawal a \<le> head_block_time s"
        "withdraw_one aid s = Inr t" by blast
      note p = withdraw_one_pays [OF a(3,1,2) Suc.prems(2)]
      have "\<exists>r. withdraw_loop n (after_in aid (withdrawal_order s)) t = Some r"
        by (rule Suc.IH) (use p Suc.prems in simp_all)
      then show ?thesis using a Some by (simp add: withdraw_loop.simps(2) idx_get_def)
    next
      case False
      then show ?thesis using Some
        by (cases "withdraw_one aid s") (auto simp: withdraw_loop.simps(2) idx_get_Inr split: sum.splits)
    qed
  qed simp
qed

lemma payouts_owed_fuel: "payouts_owed s \<le> withdraw_fuel s"
proof -
  let ?m = "Suc (head_block_time s div MUSE_VESTING_WITHDRAW_INTERVAL_SECONDS)"
  have "owed (head_block_time s) p \<le> ?m" for p :: "(time_sec \<times> 'x) option"
    by (auto simp: owed_def div_le_mono split: option.splits)
  then have "payouts_owed s \<le> sum_list (map (\<lambda>_. ?m) (map fst (rows (accounts s))))"
    unfolding payouts_owed_def by (intro sum_list_mono)
  then show ?thesis by (simp add: withdraw_fuel_def sum_list_triv comp_def)
qed

section \<open>The books after all payouts\<close>

definition routes_ok :: "chain \<Rightarrow> bool" where
  "routes_ok s \<longleftrightarrow> list_all (\<lambda>(k, r). route_ok r) (rows (withdraw_routes s))"

lemma same_tables_vest_pass: "vest_pass frm w rs d s = Inr (d', t) \<Longrightarrow> same_tables s t"
proof (induction rs arbitrary: d s)
  case (Cons r rs)
  show ?case
  proof (cases "wr_auto_vest r")
    case True
    then obtain dep d1 where dep: "route_deposit w r = Inr dep" "safe_add d dep = Inr d1"
      using Cons.prems by (auto simp: bindE_Inr_iff)
    show ?thesis
    proof (cases "dep > 0")
      case pos: True
      obtain t1 u1 v1 x where 1: "modify_account (wr_to_account r) (add_vests dep) s = Inr t1"
        "adjust_proxied_witness_votes (wr_to_account r) dep 0 t1 = Inr u1"
        "recursive_recalculate_score (wr_to_account r) dep u1 = Inr v1"
        "vest_pass frm w rs d1 (push_virtual_op x v1) = Inr (d', t)"
        using Cons.prems True dep pos by (auto simp: bindE_Inr_iff)
      have "same_tables s t1" by (rule same_tables_basic(1) [OF 1(1)])
      also have "same_tables t1 u1" by (rule same_tables_adjust_proxied [OF 1(2)])
      also have "same_tables u1 (push_virtual_op x v1)" by (simp add: same_tables_score [OF 1(3)])
      also have "same_tables (push_virtual_op x v1) t" by (rule Cons.IH [OF 1(4)])
      finally show ?thesis .
    qed (use Cons True dep in simp)
  qed (use Cons in simp)
qed simp

lemma same_tables_muse_pass: "muse_pass frm w rs d c s = Inr (d', c', t) \<Longrightarrow> same_tables s t"
proof (induction rs arbitrary: d c s)
  case (Cons r rs)
  show ?case
  proof (cases "wr_auto_vest r")
    case False
    then obtain dep m d1 c1 where dep: "route_deposit w r = Inr dep" "safe_add d dep = Inr d1" "asset_add c m = Inr c1"
      "asset_mul_price (mk_asset dep VESTS_SYMBOL) (get_vesting_share_price (dgp s)) = Inr m"
      using Cons.prems by (auto simp: bindE_Inr_iff)
    show ?thesis
    proof (cases "dep > 0")
      case True
      obtain t1 u1 x f where 1: "modify_account (wr_to_account r) f s = Inr t1"
        "withdraw_fund m dep t1 = Inr u1" "muse_pass frm w rs d1 c1 (push_virtual_op x u1) = Inr (d', c', t)"
        using Cons.prems False True dep by (auto simp: bindE_Inr_iff)
      have "same_tables s t1" by (rule same_tables_basic(1) [OF 1(1)])
      also have "same_tables t1 (push_virtual_op x u1)"
        using same_tables_basic(2) [OF 1(2) [unfolded withdraw_fund_def]] by simp
      also have "same_tables (push_virtual_op x u1) t" by (rule Cons.IH [OF 1(3)])
      finally show ?thesis .
    next
      case le: False
      then have "muse_pass frm w rs d1 c1 s = Inr (d', c', t)"
        using Cons.prems False dep by (auto simp: bindE_Inr_iff)
      then show ?thesis by (rule Cons.IH)
    qed
  next
    case True
    then show ?thesis using Cons by simp
  qed
qed simp

lemma same_tables_withdraw_one:
  assumes "withdraw_one aid s = Inr s'"
  shows "same_tables s s'"
proof -
  obtain w dv dm tm t u v x y z n m k rs f where
    t: "vest_pass n w rs 0 s = Inr (dv, t)" and u: "muse_pass n w rs 0 (mk_asset 0 MUSE_SYMBOL) t = Inr (dm, tm, u)"
    and v: "modify_account aid f u = Inr v" and x: "withdraw_fund m k v = Inr x"
    and y: "(if w > 0 then bindE (adjust_proxied_witness_votes aid (- w) 0 x) (recursive_recalculate_score aid (- w))
            else Inr x) = Inr y" and s': "s' = push_virtual_op z y"
    using assms by (auto simp: withdraw_one_def Let_def bindE_Inr_iff guardE_Inr_iff)
  have "same_tables s t" by (rule same_tables_vest_pass [OF t])
  also have "same_tables t u" by (rule same_tables_muse_pass [OF u])
  also have "same_tables u v" by (rule same_tables_basic(1) [OF v])
  also have "same_tables v x" by (rule same_tables_basic(2) [OF x [unfolded withdraw_fund_def]])
  also have "same_tables x y" using y
    by (auto simp: bindE_Inr_iff split: if_splits dest!: same_tables_adjust_proxied same_tables_score intro: same_tables_trans)
  finally show ?thesis by (simp add: s')
qed

lemma moves_withdraw_loop:
  "withdraw_loop n cur s = Some (Inr s') \<Longrightarrow> tables_ok s \<Longrightarrow> routes_ok s \<Longrightarrow> moves (0, 0, 0, 0) s s'"
proof (induction n arbitrary: cur s)
  case (Suc n)
  show ?case
  proof (cases "cur = None \<or> s = s'")
    case False
    then obtain aid t where t: "withdraw_one aid s = Inr t" "withdraw_loop n (after_in aid (withdrawal_order s)) t = Some (Inr s')"
      using Suc.prems(1) by (auto simp: withdraw_loop.simps(2) split: sum.splits if_splits)
    have 1: "moves (0, 0, 0, 0) s t"
      by (rule moves_withdraw_one [OF t(1) Suc.prems(2)]) (use Suc.prems(3) in \<open>simp add: routes_ok_def\<close>)
    have "routes_ok t" using same_tables_withdraw_one [OF t(1)] Suc.prems(3) by (simp add: routes_ok_def same_tables_def)
    from moves_trans [OF 1 Suc.IH [OF t(2) moves_tables [OF 1] this]] show ?thesis by simp
  qed (use Suc.prems in \<open>auto simp: moves_refl\<close>)
next
  case 0
  then have "s = s'" by (cases cur) (auto simp: withdraw_loop.simps(2) split: sum.splits if_splits)
  then show ?case using 0 by (simp add: moves_refl)
qed

section \<open>No more than was asked for\<close>

text \<open>A power-down under way: a whole number of weekly rates has been paid and something is left to pay.\<close>

definition power_down_ok :: "account \<Rightarrow> bool" where
  "power_down_ok a \<longleftrightarrow> 0 < acc_vesting_withdraw_rate a \<and> 0 \<le> acc_withdrawn a \<and> acc_withdrawn a < acc_to_withdraw a \<and>
     acc_vesting_withdraw_rate a dvd acc_withdrawn a"

definition powered_down :: "account \<Rightarrow> bool" where
  "powered_down a \<longleftrightarrow> acc_vesting_withdraw_rate a = 0 \<and> acc_next_vesting_withdrawal a = time_max"

lemma share_mod_pos: "0 \<le> x \<Longrightarrow> 0 < b \<Longrightarrow> share_mod x b = x mod b"
  by (simp add: share_mod_def cdiv_def minus_div_mult_eq_mod)

lemma withdraw_amount_ok:
  assumes "withdraw_amount a = Inr w" "power_down_ok a" "0 \<le> acc_vesting_shares a"
  shows "0 \<le> w" "w \<le> acc_vesting_shares a" "acc_withdrawn a + w \<le> acc_to_withdraw a"
    and "w = acc_vesting_shares a \<or> acc_withdrawn a + w = acc_to_withdraw a \<or> w = acc_vesting_withdraw_rate a"
proof -
  let ?r = "acc_vesting_withdraw_rate a" and ?t = "acc_to_withdraw a" and ?d = "acc_withdrawn a"
  have last: "share_mod ?t ?r = ?t - ?d" if "?t - ?d < ?r"
  proof -
    obtain q where q: "?d = ?r * q" using assms(2) by (auto simp: power_down_ok_def)
    have "?t mod ?r = (?t - ?d) mod ?r" by (simp add: q mod_diff_right_eq [symmetric])
    then show ?thesis using assms(2) that by (simp add: share_mod_pos power_down_ok_def)
  qed
  have w: "w = min (acc_vesting_shares a) (if ?t - ?d < ?r then ?t - ?d else ?r)"
    using assms(1,2) last by (auto simp: withdraw_amount_def bindE_Inr_iff safe_ops_Inr_iff power_down_ok_def split: if_splits)
  show "0 \<le> w" "w \<le> acc_vesting_shares a" "?d + w \<le> ?t" "w = acc_vesting_shares a \<or> ?d + w = ?t \<or> w = ?r"
    using assms(2,3) by (auto simp: w power_down_ok_def)
qed

lemma withdraw_from_ok:
  assumes "withdraw_from w c b = Inr b'" "withdraw_amount a = Inr w" "plan b = plan a" "acc_vesting_shares b = acc_vesting_shares a"
    "power_down_ok a" "0 \<le> acc_vesting_shares a"
  shows "acc_to_withdraw b' = acc_to_withdraw a \<and> acc_withdrawn a \<le> acc_withdrawn b' \<and> acc_withdrawn b' \<le> acc_to_withdraw a \<and>
    (power_down_ok b' \<or> powered_down b')"
proof -
  obtain x where b': "b' = next_withdrawal (b\<lparr>acc_vesting_shares := acc_vesting_shares a - w, acc_balance := x, acc_withdrawn := acc_withdrawn a + w\<rparr>)"
    using assms(1,3,4) by (auto simp: withdraw_from_def bindE_Inr_iff safe_ops_Inr_iff plan_def)
  note w = withdraw_amount_ok [OF assms(2,5,6)]
  have "power_down_ok b' \<or> powered_down b'"
    using w assms(3,5) by (auto simp: b' next_withdrawal_def power_down_ok_def powered_down_def plan_def)
  then show ?thesis using w assms(3) by (simp add: b' plan_def)
qed

section \<open>Properties of powering down\<close>

text \<open>Property C21. Processing the vesting withdrawals ends in every state whose head time is more than a week before the end of
  32-bit time: whatever the accounts, their schedules and their routes, the fuel \<open>withdraw_fuel\<close> (number of accounts times number of weeks since the epoch) is enough for the
  loop to return a result.\<close>

theorem vesting_withdrawals_terminate:
  assumes "head_block_time s + MUSE_VESTING_WITHDRAW_INTERVAL_SECONDS < time_max"
  shows "\<exists>r. withdraw_loop (withdraw_fuel s) (first_withdrawal s) s = Some r"
  by (rule withdraw_loop_returns [OF payouts_owed_fuel assms])

definition demo_powerdown :: chain where [chain_eval]:
  "demo_powerdown =
     (demo_chain
       [demo_account ''initminer'' 0 0 1000,
        (demo_account ''alice'' 0 0 300)\<lparr>acc_vesting_withdraw_rate := 100, acc_to_withdraw := 250, acc_next_vesting_withdrawal := 40\<rparr>,
        demo_account ''bob'' 0 0 0]
       [] (demo_dgp 130 0 130 1300))
     \<lparr>withdraw_routes := index_of [\<lparr>wr_from_account = 1, wr_to_account = 2, wr_percent = 2500, wr_auto_vest = True\<rparr>]\<rparr>"

theorem vesting_withdrawals_terminate_witness:
  "\<exists>r. withdraw_loop (withdraw_fuel demo_powerdown) (first_withdrawal demo_powerdown) demo_powerdown = Some r"
  by (rule vesting_withdrawals_terminate) (simp add: chain_eval)

text \<open>Property C14. Paying the due vesting withdrawals, with all their routes, keeps the books: the MUSE, MBD, vesting
  shares and voting weight that the objects hold still differ from the recorded supplies by what they differed
  before, provided no route asks for more than 100 percent.\<close>

theorem vesting_withdrawals_conserve:
  assumes "process_vesting_withdrawals s = Inr s'" "tables_ok s" "routes_ok s"
  shows "tables_ok s' \<and> muse_gap s' = muse_gap s \<and> mbd_gap s' = mbd_gap s \<and> vests_gap s' = vests_gap s \<and> vsf_gap s' = vsf_gap s"
proof -
  have "withdraw_loop (withdraw_fuel s) (first_withdrawal s) s = Some (Inr s')"
    using assms(1) by (simp add: process_vesting_withdrawals_def split: option.splits)
  from moves_withdraw_loop [OF this assms(2,3)] show ?thesis by (simp add: moves_def)
qed

lemma demo_powerdown_ok: "tables_ok demo_powerdown" "routes_ok demo_powerdown" "vests_gap demo_powerdown = 0"
  by (simp_all add: chain_eval routes_ok_def route_ok_def)

lemma demo_powerdown_runs: "\<exists>s'. process_vesting_withdrawals demo_powerdown = Inr s'"
  by (simp add: chain_eval)

theorem vesting_withdrawals_conserve_witness:
  "\<exists>s'. process_vesting_withdrawals demo_powerdown = Inr s' \<and> vests_gap s' = 0"
proof -
  obtain s' where s': "process_vesting_withdrawals demo_powerdown = Inr s'" using demo_powerdown_runs by blast
  then show ?thesis using vesting_withdrawals_conserve [OF s' demo_powerdown_ok(1,2)] demo_powerdown_ok(3) by auto
qed


definition demo_alice :: account where [chain_eval]:
  "demo_alice = (demo_account ''alice'' 0 0 300)\<lparr>acc_vesting_withdraw_rate := 100, acc_to_withdraw := 250, acc_next_vesting_withdrawal := 40\<rparr>"

lemma demo_alice_runs: "\<exists>s'. withdraw_one 1 demo_powerdown = Inr s'" "idx_find 1 (accounts demo_powerdown) = Some demo_alice"
  "power_down_ok demo_alice" "0 \<le> acc_vesting_shares demo_alice" "no_self_route 1 demo_powerdown"
  by (simp_all add: chain_eval power_down_ok_def no_self_route_def)


definition demo_full_vote :: chain where [chain_eval]:
  "demo_full_vote = demo_powerdown
     \<lparr>witnesses := index_of [\<lparr>wit_owner = ''initminer'', wit_created = 0, wit_url = [], wit_total_missed = 0, wit_last_aslot = 0,
        wit_last_confirmed_block_num = 0, wit_signing_key = 0, wit_props = demo_props, wit_mbd_exchange_rate = null_price,
        wit_last_mbd_exchange_update = 0, wit_votes = 1300, wit_virtual_last_update = 0, wit_virtual_position = 0,
        wit_virtual_scheduled_time = 0, wit_running_version = \<lparr>v_num = 0\<rparr>, wit_hardfork_version_vote = \<lparr>v_num = 0\<rparr>,
        wit_hardfork_time_vote = 0\<rparr>],
      witness_votes := index_of [\<lparr>wv_witness = 0, wv_account = 0\<rparr>, \<lparr>wv_witness = 0, wv_account = 1\<rparr>, \<lparr>wv_witness = 0, wv_account = 2\<rparr>]\<rparr>"

text \<open>Crediting votes to an account that votes for a witness with (nearly) all votes fails.\<close>

lemma adjust_vote_over:
  assumes "idx_find wid (witnesses s) = Some w" "total_vesting_shares (dgp s) < wit_votes w + d"
  shows "\<exists>e. adjust_witness_vote wid d s = Inl e"
proof (cases "adjust_witness_vote wid d s")
  case (Inr t)
  then show ?thesis using assms by (auto simp: adjust_witness_vote_def Let_def modify_witness_def idx_modify_Inr res_simps)
qed blast

lemma adjust_vote_other:
  assumes "adjust_witness_vote k d s = Inr t" "k \<noteq> wid"
  shows "dgp t = dgp s" "idx_find wid (witnesses t) = idx_find wid (witnesses s)"
  using assms by (auto simp: adjust_witness_vote_def Let_def modify_witness_def idx_modify_Inr bindE_Inr_iff idx_find_update)

lemma adjust_votes_over:
  assumes "wid \<in> set ks" "idx_find wid (witnesses s) = Some w" "total_vesting_shares (dgp s) < wit_votes w + d"
  shows "\<exists>e. foldE (\<lambda>wid. adjust_witness_vote wid d) ks s = Inl e"
  using assms
proof (induction ks arbitrary: s)
  case (Cons k ks)
  show ?case
  proof (cases "adjust_witness_vote k d s")
    case (Inr t)
    then have k: "k \<noteq> wid" using adjust_vote_over [OF Cons.prems(2,3)] by auto
    then show ?thesis using Cons.IH [of t] Cons.prems adjust_vote_other [OF Inr k] Inr by (simp add: bindE_def)
  qed (simp add: bindE_def)
qed simp

lemma vest_pass_auto: "vest_pass frm w rs x s = vest_pass frm w (filter wr_auto_vest rs) x s"
proof (induction rs arbitrary: x s)
  case (Cons r rs)
  show ?case using Cons.IH by (cases "wr_auto_vest r") (simp_all cong: if_cong)
qed simp

text \<open>The account that is due, the first of its routes that keeps shares vested, and the target of that route, which votes itself for a
  witness whose votes leave no room for the deposit.\<close>

lemma vest_pass_over:
  assumes "filter wr_auto_vest rs = r # rs'" "route_deposit w r = Inr d" "0 < d"
    and "idx_find (wr_to_account r) (accounts s) = Some b" "acc_proxy b = MUSE_PROXY_TO_SELF_ACCOUNT"
    and "wid \<in> set (witness_votes_of (wr_to_account r) s)" "idx_find wid (witnesses s) = Some wt"
    and "total_vesting_shares (dgp s) < wit_votes wt + d"
  shows "\<exists>e. vest_pass frm w rs x s = Inl e"
proof -
  let ?k = "wr_to_account r"
  have "wr_auto_vest r" using assms(1) by (metis filter_eq_ConsD)
  have "\<exists>e. adjust_proxied_witness_votes ?k d 0 t = Inl e" if t: "modify_account ?k (add_vests d) s = Inr t" for t
  proof -
    obtain c where c: "add_vests d b = Inr c" and t': "t = s\<lparr>accounts := (accounts s)\<lparr>rows := table_update ?k c (rows (accounts s))\<rparr>\<rparr>"
      using t assms(4) by (auto simp: modify_account_Inr)
    have "idx_get ?k (accounts t) = Inr c" using assms(4) by (simp add: t' idx_get_def getE_def idx_find_update)
    moreover have "acc_proxy c = MUSE_PROXY_TO_SELF_ACCOUNT" using c assms(5) by (auto simp: add_vests_def bindE_Inr_iff)
    moreover have "witness_votes_of ?k t = witness_votes_of ?k s" by (simp add: t' witness_votes_of_def)
    then have "\<exists>e. adjust_witness_votes ?k d t = Inl e"
      unfolding adjust_witness_votes_def using adjust_votes_over [of wid _ t wt d] assms(6-8) by (simp add: t')
    ultimately show ?thesis by (auto simp: adjust_proxied_witness_votes.simps [of ?k] bindE_def)
  qed
  then have "\<exists>e. vest_pass frm w (r # rs') x s = Inl e"
    using \<open>wr_auto_vest r\<close> assms(2,3,4)
    by (cases "safe_add x d"; cases "modify_account ?k (add_vests d) s") (auto simp: bindE_def idx_get_def getE_def)
  then show ?thesis using vest_pass_auto [of frm w rs x s] assms(1) by simp
qed

text \<open>Property C33. A vesting route can stop the chain. The shares a route keeps vested are credited to the votes of the target
  before they are taken from the votes of the account powering down. So in every state in which the first account to be
  paid is due and has a route that keeps shares vested, whose target votes (without a proxy) for a witness that the deposit
  lifts above the total of all vesting shares, as it does whenever all stake votes for that witness, the assertion of
  \<open>adjust_witness_vote\<close> fires and \<open>process_vesting_withdrawals\<close> throws.\<close>

theorem auto_vest_route_stops_chain:
  assumes "first_withdrawal s = Some aid" "idx_find aid (accounts s) = Some a" "acc_next_vesting_withdrawal a \<le> head_block_time s"
    and "withdraw_amount a = Inr w" "filter wr_auto_vest (routes_of aid s) = r # rs" "route_deposit w r = Inr d" "0 < d"
    and "idx_find (wr_to_account r) (accounts s) = Some b" "acc_proxy b = MUSE_PROXY_TO_SELF_ACCOUNT"
    and "wid \<in> set (witness_votes_of (wr_to_account r) s)" "idx_find wid (witnesses s) = Some wt"
    and "total_vesting_shares (dgp s) < wit_votes wt + d"
  shows "\<exists>e. process_vesting_withdrawals s = Inl e"
proof -
  obtain e where "vest_pass (acc_name a) w (routes_of aid s) 0 s = Inl e"
    using vest_pass_over [OF assms(5-12)] by blast
  then have o: "withdraw_one aid s = Inl e" using assms(2,4) by (simp add: withdraw_one_def idx_get_def getE_def bindE_def Let_def)
  have "withdraw_fuel s \<noteq> 0" using assms(2) by (auto simp: withdraw_fuel_def idx_find_def)
  then obtain n where "withdraw_fuel s = Suc n" using not0_implies_Suc by blast
  then show ?thesis using o assms(1-3)
    by (simp add: process_vesting_withdrawals_def withdraw_loop.simps idx_get_def getE_def)
qed

lemma demo_full_vote_routes:
  "filter wr_auto_vest (routes_of 1 demo_full_vote) = [\<lparr>wr_from_account = 1, wr_to_account = 2, wr_percent = 2500, wr_auto_vest = True\<rparr>]"
  by (simp add: chain_eval)

theorem auto_vest_route_stops_chain_witness:
  "tables_ok demo_full_vote \<and> routes_ok demo_full_vote \<and> vests_gap demo_full_vote = 0 \<and> vsf_gap demo_full_vote = 0 \<and>
   (\<exists>e. process_vesting_withdrawals demo_full_vote = Inl e)"
proof -
  obtain a where a: "first_withdrawal demo_full_vote = Some 1" "idx_find 1 (accounts demo_full_vote) = Some a"
    "acc_next_vesting_withdrawal a \<le> head_block_time demo_full_vote" "withdraw_amount a = Inr 100"
    by (simp add: chain_eval)
  obtain b wt where b: "idx_find 2 (accounts demo_full_vote) = Some b" "acc_proxy b = MUSE_PROXY_TO_SELF_ACCOUNT"
    "0 \<in> set (witness_votes_of 2 demo_full_vote)" "idx_find 0 (witnesses demo_full_vote) = Some wt"
    "total_vesting_shares (dgp demo_full_vote) < wit_votes wt + 25"
    by (simp add: chain_eval)
  have d: "route_deposit 100 \<lparr>wr_from_account = 1, wr_to_account = 2, wr_percent = 2500, wr_auto_vest = True\<rparr> = Inr 25" by (simp add: chain_eval)
  have "tables_ok demo_full_vote" "routes_ok demo_full_vote" "vests_gap demo_full_vote = 0" "vsf_gap demo_full_vote = 0"
    by (simp_all add: chain_eval routes_ok_def route_ok_def)
  moreover have "\<exists>e. process_vesting_withdrawals demo_full_vote = Inl e"
    using b by (intro auto_vest_route_stops_chain [where wid = 0 and wt = wt and b = b, OF a demo_full_vote_routes d]) simp_all
  ultimately show ?thesis by blast
qed

end
