(* ===== verification/Operation_Checks.thy ===== *)
theory Operation_Checks
  imports Operations
begin

text \<open>
  The stateless checks of operations (\<open>protocol/base_operations.cpp\<close>, \<open>protocol/muse_operations.cpp\<close>,
  \<open>protocol/asset_ops.cpp\<close>, \<open>protocol/proposal.cpp\<close>), as functions that return or raise. What the code takes from the
  \<open>fc\<close> library (UTF-8 and JSON checks, hashes, key recovery, the clock) is the record \<open>env\<close>, a parameter.
\<close>

record env =
  env_is_utf8 :: "string \<Rightarrow> bool"
  env_json_valid :: "string \<Rightarrow> bool"
  env_json_valid_broken_nul :: "string \<Rightarrow> bool"
  env_signee :: "unit signed_block \<Rightarrow> public_key"
  env_header_sha :: "unit signed_block \<Rightarrow> 128 word"
  env_now :: int                                        \<comment> \<open>\<open>fc::time_point::now()\<close>, in microseconds\<close>
  env_address :: "public_key \<Rightarrow> nat"                    \<comment> \<open>\<open>address(key)\<close>\<close>
  env_pts_address :: "public_key \<Rightarrow> bool \<Rightarrow> nat \<Rightarrow> nat"   \<comment> \<open>\<open>pts_address(key, compressed, version)\<close>\<close>

definition MUSE_MAX_MEMO_SIZE :: nat where "MUSE_MAX_MEMO_SIZE = 2048"
definition MUSE_MAX_URL_LENGTH :: nat where "MUSE_MAX_URL_LENGTH = 127"
definition MUSE_MIN_ACCOUNT_CREATION_FEE :: int where "MUSE_MIN_ACCOUNT_CREATION_FEE = 1"
definition MUSE_MIN_STREAMING_PLATFORM_CREATION_FEE :: int where "MUSE_MIN_STREAMING_PLATFORM_CREATION_FEE = 10000000"
definition MUSE_MIN_BLOCK_SIZE_LIMIT :: nat where "MUSE_MIN_BLOCK_SIZE_LIMIT = 1024 * 64"
definition MUSE_MIN_ASSET_SYMBOL_LENGTH :: nat where "MUSE_MIN_ASSET_SYMBOL_LENGTH = 3"
definition MUSE_MAX_ASSET_SYMBOL_LENGTH :: nat where "MUSE_MAX_ASSET_SYMBOL_LENGTH = 8"

text \<open>\<open>FC_ASSERT\<close> on a comparison of assets, which raises by itself if the symbols differ.\<close>

definition check :: "bool res \<Rightarrow> unit res" where "check r = bindE r assertE"

definition is_asset_type :: "asset \<Rightarrow> asset_id \<Rightarrow> bool" where "is_asset_type a i \<longleftrightarrow> asset_id a = i"

definition validate_url :: "string \<Rightarrow> unit res" where
  "validate_url url = guardE (length url < MUSE_MAX_URL_LENGTH) (assertE (take 7 url = ''ipfs://''))"

definition validate_opt :: "('a \<Rightarrow> unit res) \<Rightarrow> 'a option \<Rightarrow> unit res" where
  "validate_opt f x = (case x of None \<Rightarrow> Inr () | Some y \<Rightarrow> f y)"

definition validate_authority :: "authority \<Rightarrow> unit res" where
  "validate_authority a = assertE (authority_validate a)"

section \<open>Accounts, transfers, vesting\<close>

definition account_create_validate :: "env \<Rightarrow> account_create_operation \<Rightarrow> unit res" where
  "account_create_validate e o1 =
     guardE (is_valid_account_name (ac_new_account_name o1)) (
     guardE (is_asset_type (ac_fee o1) MUSE_SYMBOL) (
     bindE (validate_authority (ac_owner o1)) (\<lambda>_.
     bindE (validate_authority (ac_active o1)) (\<lambda>_.
     guardE (ac_json_metadata o1 = [] \<or> env_is_utf8 e (ac_json_metadata o1)) (
     check (asset_ge (ac_fee o1) (mk_asset 0 MUSE_SYMBOL)))))))"

definition account_update_validate :: "env \<Rightarrow> account_update_operation \<Rightarrow> unit res" where
  "account_update_validate e o1 =
     guardE (is_valid_account_name (au_account o1)) (
     bindE (validate_opt validate_authority (au_owner o1)) (\<lambda>_.
     bindE (validate_opt validate_authority (au_active o1)) (\<lambda>_.
     assertE (au_json_metadata o1 = [] \<or> env_is_utf8 e (au_json_metadata o1)))))"

definition challenge_authority_validate :: "challenge_authority_operation \<Rightarrow> unit res" where
  "challenge_authority_validate o1 =
     guardE (is_valid_account_name (ca_challenger o1)) (
     guardE (is_valid_account_name (ca_challenged o1)) (assertE (ca_challenged o1 \<noteq> ca_challenger o1)))"

definition prove_authority_validate :: "prove_authority_operation \<Rightarrow> unit res" where
  "prove_authority_validate o1 = assertE (is_valid_account_name (pa_challenged o1))"

definition transfer_validate :: "env \<Rightarrow> transfer_operation \<Rightarrow> unit res" where
  "transfer_validate e o1 =
     guardE (is_valid_account_name (tr_from o1)) (
     guardE (is_valid_account_name (tr_to o1)) (
     guardE (amount (tr_amount o1) > 0) (
     guardE (length (tr_memo o1) < MUSE_MAX_MEMO_SIZE) (assertE (env_is_utf8 e (tr_memo o1))))))"

definition transfer_to_vesting_validate :: "transfer_to_vesting_operation \<Rightarrow> unit res" where
  "transfer_to_vesting_validate o1 =
     guardE (is_valid_account_name (tv_from o1)) (
     guardE (is_asset_type (tv_amount o1) MUSE_SYMBOL) (
     guardE (tv_to o1 = [] \<or> is_valid_account_name (tv_to o1)) (
     check (asset_gt (tv_amount o1) (mk_asset 0 MUSE_SYMBOL)))))"

definition withdraw_vesting_validate :: "withdraw_vesting_operation \<Rightarrow> unit res" where
  "withdraw_vesting_validate o1 =
     guardE (is_valid_account_name (wd_account o1)) (assertE (is_asset_type (wd_vesting_shares o1) VESTS_SYMBOL))"

definition set_withdraw_vesting_route_validate :: "set_withdraw_vesting_route_operation \<Rightarrow> unit res" where
  "set_withdraw_vesting_route_validate o1 =
     guardE (is_valid_account_name (sr_from_account o1)) (
     guardE (is_valid_account_name (sr_to_account o1)) (assertE (int (sr_percent o1) \<le> MUSE_100_PERCENT)))"

definition chain_properties_validate :: "chain_properties \<Rightarrow> unit res" where
  "chain_properties_validate p =
     guardE (amount (cp_account_creation_fee p) \<ge> MUSE_MIN_ACCOUNT_CREATION_FEE) (
     guardE (amount (cp_streaming_platform_update_fee p) \<ge> MUSE_MIN_STREAMING_PLATFORM_CREATION_FEE) (
     guardE (cp_maximum_block_size p \<ge> MUSE_MIN_BLOCK_SIZE_LIMIT) (
     assertE (int (cp_mbd_interest_rate p) \<le> MUSE_100_PERCENT))))"

definition witness_update_validate :: "env \<Rightarrow> witness_update_operation \<Rightarrow> unit res" where
  "witness_update_validate e o1 =
     guardE (is_valid_account_name (wu_owner o1)) (
     guardE (length (wu_url o1) > 0) (
     guardE (env_is_utf8 e (wu_url o1)) (
     bindE (check (asset_ge (wu_fee o1) (mk_asset 0 MUSE_SYMBOL))) (\<lambda>_. chain_properties_validate (wu_props o1)))))"

definition account_witness_vote_validate :: "account_witness_vote_operation \<Rightarrow> unit res" where
  "account_witness_vote_validate o1 =
     guardE (is_valid_account_name (awv_account o1)) (assertE (is_valid_account_name (awv_witness o1)))"

definition account_witness_proxy_validate :: "account_witness_proxy_operation \<Rightarrow> unit res" where
  "account_witness_proxy_validate o1 =
     guardE (is_valid_account_name (awp_account o1)) (
     guardE (awp_proxy o1 = [] \<or> is_valid_account_name (awp_proxy o1)) (assertE (awp_proxy o1 \<noteq> awp_account o1)))"

definition custom_validate :: "custom_operation \<Rightarrow> unit res" where
  "custom_validate o1 = assertE (length (cu_required_auths o1) > 0)"

definition custom_json_validate :: "env \<Rightarrow> custom_json_operation \<Rightarrow> unit res" where
  "custom_json_validate e o1 =
     guardE (length (cj_required_auths o1) + length (cj_required_basic_auths o1) > 0) (
     guardE (length (cj_id o1) \<le> 32) (assertE (env_is_utf8 e (cj_json o1))))"

definition validate_price :: "price \<Rightarrow> unit res" where "validate_price p = assertE (price_validate p)"

definition feed_publish_validate :: "feed_publish_operation \<Rightarrow> unit res" where
  "feed_publish_validate o1 =
     (let r = fp_exchange_rate o1 in
      guardE (is_valid_account_name (fp_publisher o1)) (
      guardE (is_asset_type (base r) MUSE_SYMBOL \<and> is_asset_type (quote r) MBD_SYMBOL \<or>
              is_asset_type (base r) MBD_SYMBOL \<and> is_asset_type (quote r) MUSE_SYMBOL) (validate_price r)))"

definition limit_order_create_validate :: "limit_order_create_operation \<Rightarrow> unit res" where
  "limit_order_create_validate o1 =
     guardE (is_valid_account_name (lc_owner o1)) (
     guardE (is_asset_type (lc_amount_to_sell o1) MBD_SYMBOL \<or> is_asset_type (lc_min_to_receive o1) MBD_SYMBOL) (
     guardE (\<not> is_asset_type (lc_min_to_receive o1) VESTS_SYMBOL \<and> \<not> is_asset_type (lc_amount_to_sell o1) VESTS_SYMBOL) (
     bindE (asset_div_asset (lc_amount_to_sell o1) (lc_min_to_receive o1)) validate_price)))"

definition limit_order_create2_validate :: "limit_order_create2_operation \<Rightarrow> unit res" where
  "limit_order_create2_validate o1 =
     (let r = lc2_exchange_rate o1 in
      guardE (is_valid_account_name (lc2_owner o1)) (
      guardE (asset_id (lc2_amount_to_sell o1) = asset_id (base r)) (
      bindE (validate_price r) (\<lambda>_.
      guardE (is_asset_type (base r) MBD_SYMBOL \<or> is_asset_type (quote r) MBD_SYMBOL) (
      guardE (\<not> is_asset_type (base r) VESTS_SYMBOL \<and> \<not> is_asset_type (quote r) VESTS_SYMBOL) (
      bindE (asset_mul_price (lc2_amount_to_sell o1) r) (\<lambda>x. assertE (amount x > 0))))))))"

definition limit_order_cancel_validate :: "limit_order_cancel_operation \<Rightarrow> unit res" where
  "limit_order_cancel_validate o1 = assertE (is_valid_account_name (lx_owner o1))"

definition convert_validate :: "convert_operation \<Rightarrow> unit res" where
  "convert_validate o1 =
     guardE (is_valid_account_name (cv_owner o1)) (
     guardE (is_asset_type (cv_amount o1) MBD_SYMBOL) (assertE (amount (cv_amount o1) > 0)))"

definition report_over_production_validate :: "env \<Rightarrow> report_over_production_operation \<Rightarrow> unit res" where
  "report_over_production_validate e o1 =
     (let b1 = ro_first_block o1; b2 = ro_second_block o1 in
      guardE (is_valid_account_name (ro_reporter o1)) (
      guardE (is_valid_account_name (witness b1)) (
      guardE (witness b1 = witness b2) (
      guardE (timestamp b1 = timestamp b2) (
      guardE (env_signee e b1 = env_signee e b2) (
      assertE (signed_block_id (env_header_sha e) b1 \<noteq> signed_block_id (env_header_sha e) b2)))))))"

definition escrow_transfer_validate :: "escrow_transfer_operation \<Rightarrow> unit res" where
  "escrow_transfer_validate o1 =
     guardE (is_valid_account_name (et_from o1)) (
     guardE (is_valid_account_name (et_to o1)) (
     guardE (is_valid_account_name (et_agent o1)) (
     guardE (amount (et_fee o1) \<ge> 0) (
     guardE (amount (et_amount o1) \<ge> 0) (
     guardE (et_from o1 \<noteq> et_agent o1 \<and> et_to o1 \<noteq> et_agent o1) (
     guardE (asset_id (et_fee o1) = asset_id (et_amount o1)) (assertE (asset_id (et_amount o1) \<noteq> VESTS_SYMBOL))))))))"

definition escrow_dispute_validate :: "escrow_dispute_operation \<Rightarrow> unit res" where
  "escrow_dispute_validate o1 =
     guardE (is_valid_account_name (ed_from o1)) (
     guardE (is_valid_account_name (ed_to o1)) (
     guardE (is_valid_account_name (ed_who o1)) (assertE (ed_who o1 = ed_from o1 \<or> ed_who o1 = ed_to o1))))"

definition escrow_release_validate :: "escrow_release_operation \<Rightarrow> unit res" where
  "escrow_release_validate o1 =
     guardE (is_valid_account_name (er_from o1)) (
     guardE (is_valid_account_name (er_to o1)) (
     guardE (is_valid_account_name (er_who o1)) (
     guardE (amount (er_amount o1) > 0) (assertE (asset_id (er_amount o1) \<noteq> VESTS_SYMBOL)))))"

definition request_account_recovery_validate :: "request_account_recovery_operation \<Rightarrow> unit res" where
  "request_account_recovery_validate o1 =
     guardE (is_valid_account_name (rr_recovery_account o1)) (
     guardE (is_valid_account_name (rr_account_to_recover o1)) (validate_authority (rr_new_owner_authority o1)))"

definition recover_account_validate :: "recover_account_operation \<Rightarrow> unit res" where
  "recover_account_validate o1 =
     guardE (is_valid_account_name (ra_account_to_recover o1)) (
     guardE (ra_new_owner_authority o1 \<noteq> ra_recent_owner_authority o1) (
     guardE (\<not> is_impossible (ra_new_owner_authority o1)) (
     guardE (\<not> is_impossible (ra_recent_owner_authority o1)) (
     guardE (weight_threshold (ra_new_owner_authority o1) \<noteq> 0) (
     bindE (validate_authority (ra_new_owner_authority o1)) (\<lambda>_. validate_authority (ra_recent_owner_authority o1)))))))"

definition change_recovery_account_validate :: "change_recovery_account_operation \<Rightarrow> unit res" where
  "change_recovery_account_validate o1 =
     guardE (is_valid_account_name (cr_op_account_to_recover o1)) (assertE (is_valid_account_name (cr_op_new_recovery_account o1)))"

section \<open>Content and platforms\<close>

definition album_validate_meta :: "env \<Rightarrow> content_metadata_album_master \<Rightarrow> unit res" where
  "album_validate_meta e m =
     guardE (length (am_album_title m) > 0 \<and> length (am_album_title m) < 256) (assertE (env_is_utf8 e (am_album_title m)))"

definition track_validate_meta :: "env \<Rightarrow> content_metadata_track_master \<Rightarrow> unit res" where
  "track_validate_meta e m =
     guardE (length (tm_track_title m) > 0 \<and> length (tm_track_title m) < 256) (
     guardE (env_is_utf8 e (tm_track_title m)) (
     validate_opt (\<lambda>j. guardE (env_is_utf8 e j) (assertE (env_json_valid e j))) (tm_json_metadata m)))"

text \<open>The loops over distributions and management votes: every account name is checked, the shares are summed in a
  \<open>uint32_t\<close>.\<close>

definition sum_distributions :: "distribution list \<Rightarrow> nat res" where
  "sum_distributions ds = foldE (\<lambda>d t. guardE (is_valid_account_name (dist_payee d)) (Inr ((t + dist_bp d) mod 2 ^ 32))) ds 0"

definition sum_management :: "management_vote list \<Rightarrow> nat res" where
  "sum_management vs = foldE (\<lambda>v t. guardE (is_valid_account_name (mv_voter v)) (Inr ((t + mv_percentage v) mod 2 ^ 32))) vs 0"

definition content_comp_validate :: "content_operation \<Rightarrow> unit res" where
  "content_comp_validate o1 =
     (if \<not> pm_third_party_publishers (co_comp_meta o1) then Inr ()
      else
        bindE (case co_distributions_comp o1 of None \<Rightarrow> Inr ()
               | Some ds \<Rightarrow> bindE (sum_distributions ds) (\<lambda>t. assertE (t = 0 \<or> t = 10000))) (\<lambda>_.
        (case co_management_comp o1 of None \<Rightarrow> Inl Assert_exn
         | Some vs \<Rightarrow> guardE (co_management_threshold_comp o1 \<noteq> None) (
             bindE (sum_management vs) (\<lambda>t. assertE (t = 100))))))"

definition content_validate :: "env \<Rightarrow> content_operation \<Rightarrow> unit res" where
  "content_validate e o1 =
     guardE (is_valid_account_name (co_uploader o1)) (
     bindE (album_validate_meta e (co_album_meta o1)) (\<lambda>_.
     bindE (track_validate_meta e (co_track_meta o1)) (\<lambda>_.
     bindE (validate_url (co_url o1)) (\<lambda>_.
     bindE (sum_distributions (co_distributions o1)) (\<lambda>t.
     guardE (t = 0 \<or> t = 10000) (
     bindE (sum_management (co_management o1)) (\<lambda>t.
     guardE (t = 100) (
     bindE (content_comp_validate o1) (\<lambda>_.
     guardE (co_playing_reward o1 < 10000) (assertE (co_publishers_share o1 < 10000)))))))))))"

definition content_update_validate :: "env \<Rightarrow> content_update_operation \<Rightarrow> unit res" where
  "content_update_validate e o1 =
     bindE (validate_url (cup_url o1)) (\<lambda>_.
     guardE (cup_side o1 = side_publisher \<longrightarrow> cup_album_meta o1 = None) (
     guardE (cup_side o1 = side_publisher \<longrightarrow> cup_track_meta o1 = None) (
     bindE (validate_opt (album_validate_meta e) (cup_album_meta o1)) (\<lambda>_.
     bindE (validate_opt (track_validate_meta e) (cup_track_meta o1)) (\<lambda>_.
     bindE (if cup_new_distributions o1 \<noteq> [] then bindE (sum_distributions (cup_new_distributions o1)) (\<lambda>t. assertE (t = 10000))
            else Inr ()) (\<lambda>_.
     bindE (if cup_new_management o1 \<noteq> [] then bindE (sum_management (cup_new_management o1)) (\<lambda>t. assertE (t = 100))
            else Inr ()) (\<lambda>_.
     guardE (cup_new_playing_reward o1 < 10000) (assertE (cup_new_publishers_share o1 < 10000)))))))))"

definition content_disable_validate :: "content_disable_operation \<Rightarrow> unit res" where
  "content_disable_validate o1 = validate_url (cd_url o1)"

definition content_approve_validate :: "content_approve_operation \<Rightarrow> unit res" where
  "content_approve_validate o1 = guardE (is_valid_account_name (cap_approver o1)) (validate_url (cap_url o1))"

definition streaming_platform_update_validate :: "env \<Rightarrow> streaming_platform_update_operation \<Rightarrow> unit res" where
  "streaming_platform_update_validate e o1 =
     guardE (is_valid_account_name (spu_owner o1)) (
     guardE (length (spu_url o1) > 0) (
     bindE (check (asset_ge (spu_fee o1) (mk_asset MUSE_MIN_STREAMING_PLATFORM_CREATION_FEE MUSE_SYMBOL))) (\<lambda>_.
     assertE (env_is_utf8 e (spu_url o1)))))"

definition account_streaming_platform_vote_validate :: "account_streaming_platform_vote_operation \<Rightarrow> unit res" where
  "account_streaming_platform_vote_validate o1 =
     guardE (is_valid_account_name (asv_account o1)) (assertE (is_valid_account_name (asv_streaming_platform o1)))"

definition streaming_platform_report_validate :: "streaming_platform_report_operation \<Rightarrow> unit res" where
  "streaming_platform_report_validate o1 =
     guardE (is_valid_account_name (spr_streaming_platform o1)) (
     guardE (is_valid_account_name (spr_consumer o1)) (
     guardE (spr_play_time o1 > 0) (assertE (spr_play_time o1 \<le> 86400))))"

definition friendship_validate :: "friendship_operation \<Rightarrow> unit res" where
  "friendship_validate o1 = guardE (is_valid_account_name (fr_who o1)) (assertE (is_valid_account_name (fr_whom o1)))"

definition unfriend_validate :: "unfriend_operation \<Rightarrow> unit res" where
  "unfriend_validate o1 = guardE (is_valid_account_name (uf_who o1)) (assertE (is_valid_account_name (uf_whom o1)))"

definition vote_validate :: "vote_operation \<Rightarrow> unit res" where
  "vote_validate o1 =
     guardE (is_valid_account_name (vo_voter o1)) (guardE (\<bar>vo_weight o1\<bar> \<le> MUSE_100_PERCENT) (validate_url (vo_url o1)))"

definition balance_claim_validate :: "balance_claim_operation \<Rightarrow> unit res" where
  "balance_claim_validate o1 = assertE (bc_balance_owner_key o1 \<noteq> 0)"

section \<open>User-issued assets\<close>

text \<open>Characters in the classic locale.\<close>

definition is_upper :: "char \<Rightarrow> bool" where "is_upper c \<longleftrightarrow> CHR ''A'' \<le> c \<and> c \<le> CHR ''Z''"
definition is_alpha :: "char \<Rightarrow> bool" where "is_alpha c \<longleftrightarrow> is_upper c \<or> CHR ''a'' \<le> c \<and> c \<le> CHR ''z''"
definition is_numeral :: "char \<Rightarrow> bool" where "is_numeral c \<longleftrightarrow> CHR ''0'' \<le> c \<and> c \<le> CHR ''9''"

fun symbol_loop :: "string \<Rightarrow> bool \<Rightarrow> bool" where
  "symbol_loop [] dot_already_present = True"
| "symbol_loop (c # cs) dot_already_present =
     (if is_alpha c \<and> is_upper c \<or> is_numeral c then symbol_loop cs dot_already_present
      else if c = CHR ''.'' then (if dot_already_present then False else symbol_loop cs True)
      else False)"

definition is_valid_symbol :: "string \<Rightarrow> bool" where
  "is_valid_symbol s \<longleftrightarrow>
     (if length s < MUSE_MIN_ASSET_SYMBOL_LENGTH then False
      else if length s > MUSE_MAX_ASSET_SYMBOL_LENGTH then False
      else if \<not> is_alpha (hd s) then False
      else if \<not> is_alpha (last s) then False
      else symbol_loop s False)"

unbundle bit_operations_syntax

definition ASSET_ISSUER_PERMISSION_MASK :: "16 word" where "ASSET_ISSUER_PERMISSION_MASK = 0x7F"

definition asset_options_validate :: "asset_options \<Rightarrow> unit res" where
  "asset_options_validate x =
     guardE (ao_max_supply x > 0) (
     guardE (ao_max_supply x \<le> MUSE_MAX_SHARE_SUPPLY) (
     guardE (int (ao_market_fee_percent x) \<le> MUSE_100_PERCENT) (
     guardE (ao_max_market_fee x \<ge> 0 \<and> ao_max_market_fee x \<le> MUSE_MAX_SHARE_SUPPLY) (
     assertE (ao_issuer_permissions x AND NOT ASSET_ISSUER_PERMISSION_MASK = 0)))))"

definition asset_create_validate :: "asset_create_operation \<Rightarrow> unit res" where
  "asset_create_validate o1 =
     guardE (is_valid_symbol (acr_symbol o1)) (
     bindE (asset_options_validate (acr_common_options o1)) (\<lambda>_. assertE (acr_precision o1 \<le> 12)))"

definition asset_update_validate :: "asset_update_operation \<Rightarrow> unit res" where
  "asset_update_validate o1 =
     guardE (aup_new_issuer o1 \<noteq> Some (aup_issuer o1)) (asset_options_validate (aup_new_options o1))"

definition asset_reserve_validate :: "asset_reserve_operation \<Rightarrow> unit res" where
  "asset_reserve_validate o1 =
     guardE (amount (ars_amount_to_reserve o1) \<le> MUSE_MAX_SHARE_SUPPLY) (assertE (amount (ars_amount_to_reserve o1) > 0))"

definition asset_issue_validate :: "asset_issue_operation \<Rightarrow> unit res" where
  "asset_issue_validate o1 =
     guardE (amount (ais_asset_to_issue o1) \<le> MUSE_MAX_SHARE_SUPPLY) (assertE (amount (ais_asset_to_issue o1) > 0))"

section \<open>Proposals and the dispatcher\<close>

definition disjoint :: "'a list \<Rightarrow> 'a list \<Rightarrow> unit res" where
  "disjoint xs ys = assertE (list_all (\<lambda>x. \<not> List.member ys x) xs)"

definition proposal_update_validate :: "proposal_update_operation \<Rightarrow> unit res" where
  "proposal_update_validate o1 =
     guardE (\<not> (pu_active_approvals_to_add o1 = [] \<and> pu_active_approvals_to_remove o1 = [] \<and> pu_owner_approvals_to_add o1 = [] \<and>
        pu_owner_approvals_to_remove o1 = [] \<and> pu_key_approvals_to_add o1 = [] \<and> pu_key_approvals_to_remove o1 = [])) (
     bindE (disjoint (pu_active_approvals_to_add o1) (pu_active_approvals_to_remove o1)) (\<lambda>_.
     bindE (disjoint (pu_owner_approvals_to_add o1) (pu_owner_approvals_to_remove o1)) (\<lambda>_.
     disjoint (pu_key_approvals_to_add o1) (pu_key_approvals_to_remove o1))))"

definition proposal_delete_validate :: "proposal_delete_operation \<Rightarrow> unit res" where
  "proposal_delete_validate o1 = guardE (pd_vetoer o1 \<noteq> []) (assertE (pd_type o1 \<noteq> Type_other))"

fun operation_validate :: "env \<Rightarrow> operation \<Rightarrow> unit res"
  and operations_validate :: "env \<Rightarrow> operation list \<Rightarrow> unit res" where
  "operation_validate e (Vote x) = vote_validate x"
| "operation_validate e (Content x) = content_validate e x"
| "operation_validate e (Content_update x) = content_update_validate e x"
| "operation_validate e (Content_approve x) = content_approve_validate x"
| "operation_validate e (Content_disable x) = content_disable_validate x"
| "operation_validate e (Transfer x) = transfer_validate e x"
| "operation_validate e (Transfer_to_vesting x) = transfer_to_vesting_validate x"
| "operation_validate e (Withdraw_vesting x) = withdraw_vesting_validate x"
| "operation_validate e (Limit_order_create x) = limit_order_create_validate x"
| "operation_validate e (Limit_order_create2 x) = limit_order_create2_validate x"
| "operation_validate e (Limit_order_cancel x) = limit_order_cancel_validate x"
| "operation_validate e (Feed_publish x) = feed_publish_validate x"
| "operation_validate e (Convert x) = convert_validate x"
| "operation_validate e (Account_create x) = account_create_validate e x"
| "operation_validate e (Account_update x) = account_update_validate e x"
| "operation_validate e (Witness_update x) = witness_update_validate e x"
| "operation_validate e (Account_witness_vote x) = account_witness_vote_validate x"
| "operation_validate e (Account_witness_proxy x) = account_witness_proxy_validate x"
| "operation_validate e (Streaming_platform_update x) = streaming_platform_update_validate e x"
| "operation_validate e (Account_streaming_platform_vote x) = account_streaming_platform_vote_validate x"
| "operation_validate e (Streaming_platform_report x) = streaming_platform_report_validate x"
| "operation_validate e (Asset_create x) = asset_create_validate x"
| "operation_validate e (Asset_update x) = asset_update_validate x"
| "operation_validate e (Asset_issue x) = asset_issue_validate x"
| "operation_validate e (Asset_reserve x) = asset_reserve_validate x"
| "operation_validate e (Custom x) = custom_validate x"
| "operation_validate e (Report_over_production x) = report_over_production_validate e x"
| "operation_validate e (Custom_json x) = custom_json_validate e x"
| "operation_validate e (Set_withdraw_vesting_route x) = set_withdraw_vesting_route_validate x"
| "operation_validate e (Challenge_authority x) = challenge_authority_validate x"
| "operation_validate e (Prove_authority x) = prove_authority_validate x"
| "operation_validate e (Request_account_recovery x) = request_account_recovery_validate x"
| "operation_validate e (Recover_account x) = recover_account_validate x"
| "operation_validate e (Change_recovery_account x) = change_recovery_account_validate x"
| "operation_validate e (Escrow_transfer x) = escrow_transfer_validate x"
| "operation_validate e (Escrow_dispute x) = escrow_dispute_validate x"
| "operation_validate e (Escrow_release x) = escrow_release_validate x"
| "operation_validate e (Proposal_create _ ops _) = guardE (ops \<noteq> []) (operations_validate e ops)"
| "operation_validate e (Proposal_update x) = proposal_update_validate x"
| "operation_validate e (Proposal_delete x) = proposal_delete_validate x"
| "operation_validate e (Virtual _) = Inl Assert_exn"
| "operation_validate e (Friendship x) = friendship_validate x"
| "operation_validate e (Unfriend x) = unfriend_validate x"
| "operation_validate e (Balance_claim x) = balance_claim_validate x"
| "operations_validate e [] = Inr ()"
| "operations_validate e (op # ops) = bindE (operation_validate e op) (\<lambda>_. operations_validate e ops)"

text \<open>\<open>transaction::validate\<close>.\<close>

definition transaction_validate :: "env \<Rightarrow> operation list \<Rightarrow> unit res" where
  "transaction_validate e ops = guardE (length ops > 0) (operations_validate e ops)"

text \<open>Evaluation on concrete states.\<close>

lemmas checks_eval [chain_eval] =
  MUSE_MAX_MEMO_SIZE_def MUSE_MAX_URL_LENGTH_def MUSE_MIN_ACCOUNT_CREATION_FEE_def
  MUSE_MIN_STREAMING_PLATFORM_CREATION_FEE_def MUSE_MIN_BLOCK_SIZE_LIMIT_def MUSE_MIN_ASSET_SYMBOL_LENGTH_def
  MUSE_MAX_ASSET_SYMBOL_LENGTH_def check_def is_asset_type_def validate_url_def validate_opt_def validate_authority_def
  account_create_validate_def account_update_validate_def challenge_authority_validate_def prove_authority_validate_def
  transfer_validate_def transfer_to_vesting_validate_def withdraw_vesting_validate_def
  set_withdraw_vesting_route_validate_def chain_properties_validate_def witness_update_validate_def
  account_witness_vote_validate_def account_witness_proxy_validate_def custom_validate_def custom_json_validate_def
  validate_price_def feed_publish_validate_def limit_order_create_validate_def limit_order_create2_validate_def
  limit_order_cancel_validate_def convert_validate_def report_over_production_validate_def escrow_transfer_validate_def
  escrow_dispute_validate_def escrow_release_validate_def request_account_recovery_validate_def recover_account_validate_def
  change_recovery_account_validate_def album_validate_meta_def track_validate_meta_def sum_distributions_def
  sum_management_def content_comp_validate_def content_validate_def content_update_validate_def content_disable_validate_def
  content_approve_validate_def streaming_platform_update_validate_def account_streaming_platform_vote_validate_def
  streaming_platform_report_validate_def friendship_validate_def unfriend_validate_def vote_validate_def
  balance_claim_validate_def is_upper_def is_alpha_def is_numeral_def is_valid_symbol_def ASSET_ISSUER_PERMISSION_MASK_def
  asset_options_validate_def asset_create_validate_def asset_update_validate_def asset_reserve_validate_def
  asset_issue_validate_def disjoint_def proposal_update_validate_def proposal_delete_validate_def transaction_validate_def

end
