(* ===== verification/Evaluators.thy ===== *)
theory Evaluators
  imports Market Withdrawals Rewards Operation_Checks
begin

text \<open>
  The evaluators of accounts, transfers, vesting, witnesses, the market and account recovery
  (\<open>base_evaluator.cpp\<close>): each \<open>do_apply\<close> is a function from the operation and the chain state to the new state
  or the exception it raises. The build is the production one (\<open>IS_TESTNET\<close> and \<open>IS_LOW_MEM\<close> not defined).
\<close>

section \<open>New objects\<close>

definition MUSE_GENESIS_TIME :: time_sec where "MUSE_GENESIS_TIME = 1458835200"
definition MUSE_TEMP_ACCOUNT :: string where "MUSE_TEMP_ACCOUNT = ''temp''"
definition MUSE_MAX_WITNESS_URL_LENGTH :: nat where "MUSE_MAX_WITNESS_URL_LENGTH = 2048"
definition MUSE_OWNER_UPDATE_LIMIT :: int where "MUSE_OWNER_UPDATE_LIMIT = 60 * 60"
definition MUSE_VESTING_WITHDRAW_INTERVALS :: int where "MUSE_VESTING_WITHDRAW_INTERVALS = 13"
definition MUSE_MAX_WITHDRAW_ROUTES :: nat where "MUSE_MAX_WITHDRAW_ROUTES = 10"
definition MUSE_MAX_ACCOUNT_WITNESS_VOTES :: nat where "MUSE_MAX_ACCOUNT_WITNESS_VOTES = 30"
definition MUSE_CONVERSION_DELAY :: nat where "MUSE_CONVERSION_DELAY = (3 * 24 + 12) * 60 * 60"
definition MUSE_ACTIVE_CHALLENGE_FEE :: asset where "MUSE_ACTIVE_CHALLENGE_FEE = mk_asset 20000 MUSE_SYMBOL"
definition MUSE_ACTIVE_CHALLENGE_COOLDOWN :: int where "MUSE_ACTIVE_CHALLENGE_COOLDOWN = 24 * 60 * 60"
definition MUSE_ACCOUNT_RECOVERY_REQUEST_EXPIRATION_PERIOD :: nat where "MUSE_ACCOUNT_RECOVERY_REQUEST_EXPIRATION_PERIOD = 24 * 60 * 60"
definition MUSE_OWNER_AUTH_RECOVERY_PERIOD :: nat where "MUSE_OWNER_AUTH_RECOVERY_PERIOD = 30 * 24 * 60 * 60"

text \<open>\<open>time_point_sec + seconds\<close>, in 32 bits.\<close>

definition time_add :: "time_sec \<Rightarrow> nat \<Rightarrow> time_sec" where "time_add t d = (t + d) mod 2 ^ 32"

definition empty_authority :: authority where
  "empty_authority = \<lparr>weight_threshold = 0, account_auths = [], key_auths = []\<rparr>"

definition default_props :: chain_properties where
  "default_props = \<lparr>cp_account_creation_fee = mk_asset MUSE_MIN_ACCOUNT_CREATION_FEE MUSE_SYMBOL,
     cp_streaming_platform_update_fee = mk_asset MUSE_MIN_STREAMING_PLATFORM_CREATION_FEE MUSE_SYMBOL,
     cp_maximum_block_size = MUSE_MIN_BLOCK_SIZE_LIMIT * 2, cp_mbd_interest_rate = 1000\<rparr>"

definition default_account :: account where
  "default_account =
     \<lparr>acc_name = [], acc_owner = empty_authority, acc_active = empty_authority, acc_basic = empty_authority, acc_memo_key = 0,
      acc_json_metadata = [], acc_proxy = [], acc_last_owner_update = 0, acc_created = 0, acc_mined = True,
      acc_owner_challenged = False, acc_active_challenged = False, acc_last_owner_proved = 0, acc_last_active_proved = 0,
      acc_recovery_account = [], acc_last_account_recovery = 0, acc_last_vote_time = 0,
      acc_score = 0, acc_total_listening_time = 0, acc_balance = 0, acc_mbd_balance = 0, acc_mbd_seconds = 0,
      acc_mbd_seconds_last_update = 0, acc_mbd_last_interest_payment = 0, acc_vesting_shares = 0,
      acc_vesting_withdraw_rate = 0, acc_next_vesting_withdrawal = time_max, acc_withdrawn = 0, acc_to_withdraw = 0,
      acc_withdraw_routes = 0, acc_proxied_vsf_votes = replicate MUSE_MAX_PROXY_RECURSION_DEPTH 0, acc_witnesses_voted_for = 0,
      acc_streaming_platforms_voted_for = 0, acc_average_bandwidth = 0, acc_lifetime_bandwidth = 0,
      acc_last_bandwidth_update = 0, acc_average_market_bandwidth = 0, acc_last_market_bandwidth_update = 0,
      acc_friends = [], acc_second_level = [], acc_waiting = []\<rparr>"

definition default_witness :: witness where
  "default_witness =
     \<lparr>wit_owner = [], wit_created = 0, wit_url = [], wit_total_missed = 0, wit_last_aslot = 0, wit_last_confirmed_block_num = 0,
      wit_signing_key = 0, wit_props = default_props, wit_mbd_exchange_rate = null_price, wit_last_mbd_exchange_update = 0,
      wit_votes = 0, wit_virtual_last_update = 0, wit_virtual_position = 0, wit_virtual_scheduled_time = u128_max,
      wit_running_version = \<lparr>v_num = 0\<rparr>, wit_hardfork_version_vote = \<lparr>v_num = 0\<rparr>, wit_hardfork_time_vote = MUSE_GENESIS_TIME\<rparr>"

text \<open>\<open>create\<close> in the indexes with unique names, requests and order numbers.\<close>

definition create_account :: "account \<Rightarrow> chain \<Rightarrow> chain res" where
  "create_account a s =
     bindE (idx_insert (\<lambda>x y. acc_name x = acc_name y) a (accounts s)) (\<lambda>ix. Inr (s\<lparr>accounts := ix\<rparr>))"

definition create_witness :: "witness \<Rightarrow> chain \<Rightarrow> chain res" where
  "create_witness w s =
     bindE (idx_insert (\<lambda>x y. wit_owner x = wit_owner y) w (witnesses s)) (\<lambda>ix. Inr (s\<lparr>witnesses := ix\<rparr>))"

definition create_convert_request :: "convert_request \<Rightarrow> chain \<Rightarrow> chain res" where
  "create_convert_request c s =
     bindE (idx_insert (\<lambda>x y. cr_owner x = cr_owner y \<and> cr_requestid x = cr_requestid y) c (converts s)) (\<lambda>ix.
     Inr (s\<lparr>converts := ix\<rparr>))"

definition create_limit_order :: "limit_order \<Rightarrow> chain \<Rightarrow> (nat \<times> chain) res" where
  "create_limit_order ord s =
     bindE (idx_insert (\<lambda>x y. lo_seller x = lo_seller y \<and> lo_orderid x = lo_orderid y) ord (orders s)) (\<lambda>ix.
     Inr (next_instance (orders s), s\<lparr>orders := ix\<rparr>))"

section \<open>Accounts\<close>

text \<open>The check of JSON metadata: from hardfork 0.3 on the strict parser, before it the one that stops at a NUL.\<close>

definition check_json :: "env \<Rightarrow> string \<Rightarrow> chain \<Rightarrow> unit res" where
  "check_json e j s =
     (if length j > 0 then assertE (if has_hardfork MUSE_HARDFORK_0_3 s then env_json_valid e j else env_json_valid_broken_nul e j)
      else Inr ())"

definition sub_balance :: "asset \<Rightarrow> account \<Rightarrow> account res" where
  "sub_balance d a = bindE (minus_asset MUSE_SYMBOL (acc_balance a) d) (\<lambda>b. Inr (a\<lparr>acc_balance := b\<rparr>))"

definition new_account :: "account_create_operation \<Rightarrow> time_sec \<Rightarrow> account" where
  "new_account o1 now = default_account
     \<lparr>acc_name := ac_new_account_name o1, acc_owner := ac_owner o1, acc_active := ac_active o1, acc_basic := ac_basic o1,
      acc_memo_key := ac_memo_key o1, acc_last_owner_update := 0, acc_created := now, acc_last_vote_time := now,
      acc_mined := False, acc_recovery_account := ac_creator o1, acc_json_metadata := ac_json_metadata o1\<rparr>"

definition account_create_apply :: "env \<Rightarrow> account_create_operation \<Rightarrow> chain \<Rightarrow> chain res" where
  "account_create_apply e o1 s =
     bindE (check_json e (ac_json_metadata o1) s) (\<lambda>_.
     bindE (if has_hardfork MUSE_HARDFORK_0_3 s then validate_authority (ac_basic o1) else Inr ()) (\<lambda>_.
     bindE (get_account (ac_creator o1) s) (\<lambda>(k, creator).
     bindE (if head_block_num s > 0 then
              bindE (check (asset_ge (mk_asset (acc_balance creator) MUSE_SYMBOL) (ac_fee o1))) (\<lambda>_.
              check (asset_ge (ac_fee o1) (cp_account_creation_fee (wso_median_props (wso s)))))
            else Inr ()) (\<lambda>_.
     bindE (modify_account k (sub_balance (ac_fee o1)) s) (\<lambda>s.
     let nid = next_instance (accounts s) in
     bindE (create_account (new_account o1 (head_block_time s)) s) (\<lambda>s.
     if amount (ac_fee o1) > 0 then bindE (create_vesting nid (ac_fee o1) s) (\<lambda>(v, s). Inr s) else Inr s))))))"

text \<open>\<open>database::update_owner_authority\<close>; the previous authority is kept from block 3186477 on.\<close>

definition update_owner_authority :: "nat \<Rightarrow> authority \<Rightarrow> chain \<Rightarrow> chain res" where
  "update_owner_authority k auth s =
     bindE (idx_get k (accounts s)) (\<lambda>a.
     let s = (if head_block_num s \<ge> 3186477
              then s\<lparr>owner_histories := idx_create \<lparr>oah_account = acc_name a, oah_previous_owner_authority = acc_owner a,
                       oah_last_valid_time = head_block_time s\<rparr> (owner_histories s)\<rparr>
              else s) in
     modify_account k (\<lambda>a. Inr (a\<lparr>acc_owner := auth, acc_last_owner_update := head_block_time s\<rparr>)) s)"

definition update_account :: "account_update_operation \<Rightarrow> time_sec \<Rightarrow> account \<Rightarrow> account res" where
  "update_account o1 now a =
     (let a = (case au_active o1 of None \<Rightarrow> a | Some x \<Rightarrow> a\<lparr>acc_active := x\<rparr>);
          a = (case au_basic o1 of None \<Rightarrow> a | Some x \<Rightarrow> a\<lparr>acc_basic := x\<rparr>);
          a = (if au_memo_key o1 \<noteq> 0 then a\<lparr>acc_memo_key := au_memo_key o1\<rparr> else a);
          a = (if (au_active o1 \<noteq> None \<or> au_owner o1 \<noteq> None) \<and> acc_active_challenged a
               then a\<lparr>acc_active_challenged := False, acc_last_active_proved := now\<rparr> else a)
      in Inr (if length (au_json_metadata o1) > 0 then a\<lparr>acc_json_metadata := au_json_metadata o1\<rparr> else a))"

definition account_update_apply :: "env \<Rightarrow> account_update_operation \<Rightarrow> chain \<Rightarrow> chain res" where
  "account_update_apply e o1 s =
     bindE (check_json e (au_json_metadata o1) s) (\<lambda>_.
     guardE (au_account o1 \<noteq> MUSE_TEMP_ACCOUNT) (
     bindE (if has_hardfork MUSE_HARDFORK_0_3 s then validate_opt validate_authority (au_basic o1) else Inr ()) (\<lambda>_.
     bindE (get_account (au_account o1) s) (\<lambda>(k, a).
     bindE (case au_owner o1 of None \<Rightarrow> Inr s
            | Some auth \<Rightarrow>
                guardE (int (head_block_time s) - int (acc_last_owner_update a) > MUSE_OWNER_UPDATE_LIMIT) (
                update_owner_authority k auth s)) (\<lambda>s.
     modify_account k (update_account o1 (head_block_time s)) s)))))"

text \<open>The escrow operations are disabled: the first statement of each evaluator fails.\<close>

definition escrow_transfer_apply :: "escrow_transfer_operation \<Rightarrow> chain \<Rightarrow> chain res" where "escrow_transfer_apply o1 s = Inl Assert_exn"
definition escrow_dispute_apply :: "escrow_dispute_operation \<Rightarrow> chain \<Rightarrow> chain res" where "escrow_dispute_apply o1 s = Inl Assert_exn"
definition escrow_release_apply :: "escrow_release_operation \<Rightarrow> chain \<Rightarrow> chain res" where "escrow_release_apply o1 s = Inl Assert_exn"

section \<open>Transfers and vesting\<close>

definition prove_active :: "time_sec \<Rightarrow> account \<Rightarrow> account res" where
  "prove_active now a = Inr (a\<lparr>acc_active_challenged := False, acc_last_active_proved := now\<rparr>)"

text \<open>The balance is compared as the account stands; the amount is taken, then credited.\<close>

definition pay_from :: "nat \<Rightarrow> account \<Rightarrow> asset \<Rightarrow> chain \<Rightarrow> chain res" where
  "pay_from k a d s =
     bindE (check (asset_ge (get_balance k a (asset_id d) s) d)) (\<lambda>_.
     bindE (asset_neg d) (\<lambda>n. adjust_balance k n s))"

definition transfer_apply :: "transfer_operation \<Rightarrow> chain \<Rightarrow> chain res" where
  "transfer_apply o1 s =
     bindE (get_account (tr_from o1) s) (\<lambda>(k, a).
     bindE (get_account (tr_to o1) s) (\<lambda>(j, b).
     bindE (if acc_active_challenged a then modify_account k (prove_active (head_block_time s)) s else Inr s) (\<lambda>s.
     if asset_id (tr_amount o1) \<noteq> VESTS_SYMBOL
     then bindE (pay_from k a (tr_amount o1) s) (adjust_balance j (tr_amount o1))
     else Inl Assert_exn)))"

definition transfer_to_vesting_apply :: "transfer_to_vesting_operation \<Rightarrow> chain \<Rightarrow> chain res" where
  "transfer_to_vesting_apply o1 s =
     bindE (get_account (tv_from o1) s) (\<lambda>(k, a).
     bindE (if tv_to o1 \<noteq> [] then get_account (tv_to o1) s else Inr (k, a)) (\<lambda>(j, b).
     bindE (check (asset_ge (get_balance k a MUSE_SYMBOL s) (tv_amount o1))) (\<lambda>_.
     bindE (asset_neg (tv_amount o1)) (\<lambda>n.
     bindE (adjust_balance k n s) (\<lambda>s.
     bindE (create_vesting j (tv_amount o1) s) (\<lambda>(v, s). Inr s))))))"

text \<open>\<open>min_vests.amount.value *= 10\<close> is a plain 64-bit product.\<close>

definition wrap64 :: "int \<Rightarrow> int" where "wrap64 x = (x + 2 ^ 63) mod 2 ^ 64 - 2 ^ 63"

definition min_vests :: "chain \<Rightarrow> asset res" where
  "min_vests s =
     bindE (asset_mul_price (cp_account_creation_fee (wso_median_props (wso s))) (get_vesting_share_price (dgp s))) (\<lambda>m.
     Inr (m\<lparr>amount := wrap64 (amount m * 10)\<rparr>))"

definition start_withdrawal :: "withdraw_vesting_operation \<Rightarrow> share \<Rightarrow> time_sec \<Rightarrow> account \<Rightarrow> account res" where
  "start_withdrawal o1 old_rate now a =
     bindE (safe_div (amount (wd_vesting_shares o1)) MUSE_VESTING_WITHDRAW_INTERVALS) (\<lambda>r.
     let rate = (if r = 0 then 1 else r) in
     guardE (old_rate \<noteq> rate) (
     Inr (a\<lparr>acc_vesting_withdraw_rate := rate,
           acc_next_vesting_withdrawal := time_add now MUSE_VESTING_WITHDRAW_INTERVAL_SECONDS,
           acc_to_withdraw := amount (wd_vesting_shares o1), acc_withdrawn := 0\<rparr>)))"

definition stop_withdrawal :: "account \<Rightarrow> account res" where
  "stop_withdrawal a =
     Inr (a\<lparr>acc_vesting_withdraw_rate := 0, acc_next_vesting_withdrawal := time_max, acc_to_withdraw := 0, acc_withdrawn := 0\<rparr>)"

definition withdraw_vesting_apply :: "env \<Rightarrow> withdraw_vesting_operation \<Rightarrow> chain \<Rightarrow> chain res" where
  "withdraw_vesting_apply e o1 s =
     (let sh = wd_vesting_shares o1 in
      bindE (get_account (wd_account o1) s) (\<lambda>(k, a).
      guardE (int (head_block_time s) * 1000000 > env_now e - 15 * 1000000 \<longrightarrow> amount sh \<ge> 0) (
      bindE (check (asset_ge (mk_asset (acc_vesting_shares a) VESTS_SYMBOL) (mk_asset 0 VESTS_SYMBOL))) (\<lambda>_.
      bindE (check (asset_ge (mk_asset (acc_vesting_shares a) VESTS_SYMBOL) sh)) (\<lambda>_.
      bindE (if \<not> acc_mined a
             then bindE (min_vests s) (\<lambda>m. check (asset_gt (mk_asset (acc_vesting_shares a) VESTS_SYMBOL) m))
             else Inr ()) (\<lambda>_.
      if amount sh \<le> 0 then
        guardE (amount sh = 0 \<longrightarrow> acc_vesting_withdraw_rate a \<noteq> 0) (modify_account k stop_withdrawal s)
      else modify_account k (start_withdrawal o1 (acc_vesting_withdraw_rate a) (head_block_time s)) s))))))"

text \<open>The last loop of the route evaluator reads \<open>itr->from_account\<close> before it compares \<open>itr\<close> with the end; the model
  stops at the end. The sum of the percentages is taken in a \<open>uint16_t\<close>.\<close>

definition route_clash :: "withdraw_vesting_route \<Rightarrow> withdraw_vesting_route \<Rightarrow> bool" where
  "route_clash x y \<longleftrightarrow> wr_from_account x = wr_from_account y \<and> wr_to_account x = wr_to_account y"

definition change_routes :: "(withdraw_vesting_route index \<Rightarrow> withdraw_vesting_route index res) \<Rightarrow> chain \<Rightarrow> chain res" where
  "change_routes f s = bindE (f (withdraw_routes s)) (\<lambda>ix. Inr (s\<lparr>withdraw_routes := ix\<rparr>))"

definition add_routes :: "int \<Rightarrow> account \<Rightarrow> account res" where
  "add_routes d a = Inr (a\<lparr>acc_withdraw_routes := nat ((int (acc_withdraw_routes a) + d) mod 2 ^ 16)\<rparr>)"

definition set_withdraw_vesting_route_apply :: "set_withdraw_vesting_route_operation \<Rightarrow> chain \<Rightarrow> chain res" where
  "set_withdraw_vesting_route_apply o1 s =
     bindE (get_account (sr_from_account o1) s) (\<lambda>(k, a).
     bindE (get_account (sr_to_account o1) s) (\<lambda>(j, b).
     let route = \<lparr>wr_from_account = k, wr_to_account = j, wr_percent = sr_percent o1, wr_auto_vest = sr_auto_vest o1\<rparr> in
     bindE (case idx_by (route_clash route) (withdraw_routes s) of
              None \<Rightarrow>
                guardE (sr_percent o1 \<noteq> 0) (
                guardE (acc_withdraw_routes a < MUSE_MAX_WITHDRAW_ROUTES) (
                bindE (change_routes (idx_insert route_clash route) s) (modify_account k (add_routes 1))))
            | Some (rid, r) \<Rightarrow>
                (if sr_percent o1 = 0 then bindE (change_routes (idx_remove rid) s) (modify_account k (add_routes (- 1)))
                 else change_routes (idx_modify rid (\<lambda>_. Inr route)) s)) (\<lambda>s.
     guardE (sum_list (map wr_percent (routes_of k s)) mod 2 ^ 16 \<le> nat MUSE_100_PERCENT) (Inr s))))"

section \<open>Witnesses, proxies and feeds\<close>

definition witness_update_apply :: "witness_update_operation \<Rightarrow> chain \<Rightarrow> chain res" where
  "witness_update_apply o1 s =
     bindE (get_account (wu_owner o1) s) (\<lambda>_.
     guardE (length (wu_url o1) \<le> MUSE_MAX_WITNESS_URL_LENGTH) (
     case idx_by (\<lambda>w. wit_owner w = wu_owner o1) (witnesses s) of
       Some (k, w) \<Rightarrow>
         modify_witness k (\<lambda>w. Inr (w\<lparr>wit_url := wu_url o1, wit_signing_key := wu_block_signing_key o1, wit_props := wu_props o1\<rparr>)) s
     | None \<Rightarrow>
         create_witness (default_witness\<lparr>wit_owner := wu_owner o1, wit_url := wu_url o1, wit_signing_key := wu_block_signing_key o1,
           wit_created := head_block_time s, wit_props := wu_props o1\<rparr>) s))"

text \<open>The walk up the proxies of the new proxy; the set of accounts met has at most
  \<open>MUSE_MAX_PROXY_RECURSION_DEPTH\<close> members. (\<open>cprox\<close> is left pointing at a copy that has gone out of scope; the model
  takes the value of that copy.)\<close>

function proxy_walk :: "string \<Rightarrow> nat list \<Rightarrow> chain \<Rightarrow> unit res" where
  "proxy_walk proxy proxy_chain s =
     (if proxy = [] then Inr ()
      else bindE (get_account proxy s) (\<lambda>(k, next_proxy).
           guardE (\<not> List.member proxy_chain k) (
           if length (k # proxy_chain) \<le> MUSE_MAX_PROXY_RECURSION_DEPTH
           then proxy_walk (acc_proxy next_proxy) (k # proxy_chain) s
           else Inl Assert_exn)))"
  by pat_completeness auto
termination
  by (relation "measure (\<lambda>(proxy, proxy_chain, s). MUSE_MAX_PROXY_RECURSION_DEPTH - length proxy_chain)") auto

declare proxy_walk.simps [simp del]

definition neg_all :: "share list \<Rightarrow> share list res" where
  "neg_all ds = foldE (\<lambda>d acc. bindE (safeE (- d)) (\<lambda>x. Inr (acc @ [x]))) ds []"

definition set_proxy :: "string \<Rightarrow> account \<Rightarrow> account res" where "set_proxy p a = Inr (a\<lparr>acc_proxy := p\<rparr>)"

definition account_witness_proxy_apply :: "account_witness_proxy_operation \<Rightarrow> chain \<Rightarrow> chain res" where
  "account_witness_proxy_apply o1 s =
     bindE (get_account (awp_account o1) s) (\<lambda>(k, a).
     guardE (acc_proxy a \<noteq> awp_proxy o1) (
     bindE (neg_all (acc_vesting_shares a # take MUSE_MAX_PROXY_RECURSION_DEPTH (acc_proxied_vsf_votes a))) (\<lambda>delta.
     bindE (adjust_proxied_witness_votes_array k delta 0 s) (\<lambda>s.
     if awp_proxy o1 \<noteq> [] then
       bindE (get_account (awp_proxy o1) s) (\<lambda>(j, new_proxy).
       bindE (proxy_walk (acc_proxy new_proxy) (remdups [j, k]) s) (\<lambda>_.
       bindE (clear_witness_votes k s) (\<lambda>s.
       bindE (clear_streaming_platform_votes k s) (\<lambda>s.
       bindE (modify_account k (set_proxy (awp_proxy o1)) s) (\<lambda>s.
       bindE (neg_all delta) (\<lambda>delta.
       adjust_proxied_witness_votes_array k delta 0 s))))))
     else modify_account k (set_proxy (awp_proxy o1)) s))))"

definition add_witness_vote_count :: "int \<Rightarrow> account \<Rightarrow> account res" where
  "add_witness_vote_count d a = Inr (a\<lparr>acc_witnesses_voted_for := nat ((int (acc_witnesses_voted_for a) + d) mod 2 ^ 16)\<rparr>)"

definition approve_witness :: "nat \<Rightarrow> account \<Rightarrow> nat \<Rightarrow> chain \<Rightarrow> chain res" where
  "approve_witness k voter wid s =
     (let s = s\<lparr>witness_votes := idx_create \<lparr>wv_witness = wid, wv_account = k\<rparr> (witness_votes s)\<rparr> in
      bindE (witness_vote_weight voter) (\<lambda>weight.
      bindE (adjust_witness_vote wid weight s) (modify_account k (add_witness_vote_count 1))))"

definition reject_witness :: "nat \<Rightarrow> account \<Rightarrow> nat \<Rightarrow> nat \<Rightarrow> chain \<Rightarrow> chain res" where
  "reject_witness k voter wid vid s =
     bindE (witness_vote_weight voter) (\<lambda>weight.
     bindE (safeE (- weight)) (\<lambda>nw.
     bindE (adjust_witness_vote wid nw s) (\<lambda>s.
     bindE (modify_account k (add_witness_vote_count (- 1)) s) (\<lambda>s.
     bindE (idx_remove vid (witness_votes s)) (\<lambda>ix. Inr (s\<lparr>witness_votes := ix\<rparr>))))))"

definition account_witness_vote_apply :: "account_witness_vote_operation \<Rightarrow> chain \<Rightarrow> chain res" where
  "account_witness_vote_apply o1 s =
     bindE (get_account (awv_account o1) s) (\<lambda>(k, voter).
     guardE (acc_proxy voter = []) (
     bindE (get_witness (awv_witness o1) s) (\<lambda>(wid, w).
     case idx_by (\<lambda>v. wv_account v = k \<and> wv_witness v = wid) (witness_votes s) of
       None \<Rightarrow>
         guardE (awv_approve o1) (
         guardE (acc_witnesses_voted_for voter < MUSE_MAX_ACCOUNT_WITNESS_VOTES) (approve_witness k voter wid s))
     | Some (vid, v) \<Rightarrow> guardE (\<not> awv_approve o1) (reject_witness k voter wid vid s))))"

definition custom_apply :: "custom_operation \<Rightarrow> chain \<Rightarrow> chain res" where "custom_apply o1 s = Inr s"

definition custom_json_apply :: "env \<Rightarrow> custom_json_operation \<Rightarrow> chain \<Rightarrow> chain res" where
  "custom_json_apply e o1 s =
     bindE (check_json e (cj_json o1) s) (\<lambda>_.
     foldE (\<lambda>n s. bindE (get_account n s) (\<lambda>(k, a). guardE (\<not> (acc_owner_challenged a \<or> acc_active_challenged a)) (Inr s)))
       (cj_required_basic_auths o1) s)"

definition feed_publish_apply :: "feed_publish_operation \<Rightarrow> chain \<Rightarrow> chain res" where
  "feed_publish_apply o1 s =
     bindE (get_witness (fp_publisher o1) s) (\<lambda>(k, w).
     modify_witness k (\<lambda>w. Inr (w\<lparr>wit_mbd_exchange_rate := fp_exchange_rate o1, wit_last_mbd_exchange_update := head_block_time s\<rparr>)) s)"

section \<open>Conversions and orders\<close>

definition convert_apply :: "convert_operation \<Rightarrow> chain \<Rightarrow> chain res" where
  "convert_apply o1 s =
     bindE (get_account (cv_owner o1) s) (\<lambda>(k, a).
     bindE (pay_from k a (cv_amount o1) s) (\<lambda>s.
     guardE (\<not> price_is_null (median_price s)) (
     create_convert_request \<lparr>cr_owner = cv_owner o1, cr_requestid = cv_requestid o1, cr_amount = cv_amount o1,
       cr_conversion_date = time_add (head_block_time s) MUSE_CONVERSION_DELAY\<rparr> s)))"

definition place_order :: "string \<Rightarrow> nat \<Rightarrow> asset \<Rightarrow> price res \<Rightarrow> bool \<Rightarrow> time_sec \<Rightarrow> chain \<Rightarrow> chain res" where
  "place_order owner orderid amount_to_sell sell_price fill_or_kill expiration s =
     guardE (expiration > head_block_time s) (
     bindE (get_account owner s) (\<lambda>(k, a).
     bindE (pay_from k a amount_to_sell s) (\<lambda>s.
     bindE sell_price (\<lambda>p.
     bindE (create_limit_order \<lparr>lo_created = head_block_time s, lo_expiration = expiration, lo_seller = owner,
       lo_orderid = orderid, lo_for_sale = amount amount_to_sell, lo_sell_price = p\<rparr> s) (\<lambda>(oid, s).
     bindE (apply_order oid s) (\<lambda>(filled, s).
     guardE (fill_or_kill \<longrightarrow> filled) (Inr s)))))))"

definition limit_order_create_apply :: "limit_order_create_operation \<Rightarrow> chain \<Rightarrow> chain res" where
  "limit_order_create_apply o1 s =
     place_order (lc_owner o1) (lc_orderid o1) (lc_amount_to_sell o1) (lc_get_price o1) (lc_fill_or_kill o1) (lc_expiration o1) s"

definition limit_order_create2_apply :: "limit_order_create2_operation \<Rightarrow> chain \<Rightarrow> chain res" where
  "limit_order_create2_apply o1 s =
     place_order (lc2_owner o1) (lc2_orderid o1) (lc2_amount_to_sell o1) (Inr (lc2_exchange_rate o1)) (lc2_fill_or_kill o1)
       (lc2_expiration o1) s"

definition limit_order_cancel_apply :: "limit_order_cancel_operation \<Rightarrow> chain \<Rightarrow> chain res" where
  "limit_order_cancel_apply o1 s =
     bindE (get_limit_order (lx_owner o1) (lx_orderid o1) s) (\<lambda>(oid, ord). cancel_order oid s)"

definition report_over_production_apply :: "report_over_production_operation \<Rightarrow> chain \<Rightarrow> chain res" where
  "report_over_production_apply o1 s = Inl Assert_exn"

section \<open>Challenges and account recovery\<close>

definition challenge_authority_apply :: "challenge_authority_operation \<Rightarrow> chain \<Rightarrow> chain res" where
  "challenge_authority_apply o1 s =
     bindE (get_account (ca_challenged o1) s) (\<lambda>(j, challenged).
     bindE (get_account (ca_challenger o1) s) (\<lambda>(k, challenger).
     if ca_require_owner o1 then Inl Assert_exn
     else
       bindE (check (asset_ge (mk_asset (acc_balance challenger) MUSE_SYMBOL) MUSE_ACTIVE_CHALLENGE_FEE)) (\<lambda>_.
       guardE (\<not> (acc_owner_challenged challenged \<or> acc_active_challenged challenged)) (
       guardE (int (head_block_time s) - int (acc_last_active_proved challenged) > MUSE_ACTIVE_CHALLENGE_COOLDOWN) (
       bindE (asset_neg MUSE_ACTIVE_CHALLENGE_FEE) (\<lambda>n.
       bindE (adjust_balance k n s) (\<lambda>s.
       bindE (create_vesting j MUSE_ACTIVE_CHALLENGE_FEE s) (\<lambda>(v, s).
       modify_account j (\<lambda>a. Inr (a\<lparr>acc_active_challenged := True\<rparr>)) s))))))))"

definition prove_authority_apply :: "prove_authority_operation \<Rightarrow> chain \<Rightarrow> chain res" where
  "prove_authority_apply o1 s =
     bindE (get_account (pa_challenged o1) s) (\<lambda>(k, a).
     guardE (acc_owner_challenged a \<or> acc_active_challenged a) (
     modify_account k (\<lambda>a.
       let a = a\<lparr>acc_active_challenged := False, acc_last_active_proved := head_block_time s\<rparr> in
       Inr (if pa_require_owner o1 then a\<lparr>acc_owner_challenged := False, acc_last_owner_proved := head_block_time s\<rparr> else a)) s))"

text \<open>The first witness of \<open>by_vote_name\<close>: most votes, then the smallest name. Without witnesses the code dereferences
  the end of the index; the model raises.\<close>

definition vote_before :: "witness \<Rightarrow> witness \<Rightarrow> bool" where
  "vote_before x y \<longleftrightarrow> wit_votes x > wit_votes y \<or> wit_votes x = wit_votes y \<and> wit_owner x \<le> wit_owner y"

fun insert_by_vote :: "nat \<times> witness \<Rightarrow> (nat \<times> witness) list \<Rightarrow> (nat \<times> witness) list" where
  "insert_by_vote x [] = [x]"
| "insert_by_vote x (y # ys) = (if vote_before (snd x) (snd y) then x # y # ys else y # insert_by_vote x ys)"

definition witnesses_by_vote :: "chain \<Rightarrow> (nat \<times> witness) list" where
  "witnesses_by_vote s = foldr insert_by_vote (rows (witnesses s)) []"

definition top_witness :: "chain \<Rightarrow> witness res" where
  "top_witness s = (case witnesses_by_vote s of [] \<Rightarrow> Inl Not_found_exn | (k, w) # _ \<Rightarrow> Inr w)"

definition change_recovery_index ::
  "(account_recovery_request index \<Rightarrow> account_recovery_request index res) \<Rightarrow> chain \<Rightarrow> chain res" where
  "change_recovery_index f s = bindE (f (recovery_requests s)) (\<lambda>ix. Inr (s\<lparr>recovery_requests := ix\<rparr>))"

definition request_account_recovery_apply :: "request_account_recovery_operation \<Rightarrow> chain \<Rightarrow> chain res" where
  "request_account_recovery_apply o1 s =
     (let auth = rr_new_owner_authority o1;
          expires = time_add (head_block_time s) MUSE_ACCOUNT_RECOVERY_REQUEST_EXPIRATION_PERIOD in
      bindE (get_account (rr_account_to_recover o1) s) (\<lambda>(k, a).
      bindE (if acc_recovery_account a \<noteq> [] then assertE (acc_recovery_account a = rr_recovery_account o1)
             else bindE (top_witness s) (\<lambda>w. assertE (wit_owner w = rr_recovery_account o1))) (\<lambda>_.
      case idx_by (\<lambda>r. arr_account_to_recover r = rr_account_to_recover o1) (recovery_requests s) of
        None \<Rightarrow>
          guardE (\<not> is_impossible auth) (
          guardE (weight_threshold auth \<noteq> 0) (
          change_recovery_index (\<lambda>ix. Inr (idx_create \<lparr>arr_account_to_recover = rr_account_to_recover o1,
            arr_new_owner_authority = auth, arr_expires = expires\<rparr> ix)) s))
      | Some (rid, r) \<Rightarrow>
          (if weight_threshold auth = 0 then change_recovery_index (idx_remove rid) s
           else guardE (\<not> is_impossible auth) (
             change_recovery_index (idx_modify rid (\<lambda>r. Inr (r\<lparr>arr_new_owner_authority := auth, arr_expires := expires\<rparr>))) s)))))"

definition recover_account_apply :: "recover_account_operation \<Rightarrow> chain \<Rightarrow> chain res" where
  "recover_account_apply o1 s =
     bindE (get_account (ra_account_to_recover o1) s) (\<lambda>(k, a).
     guardE (int (head_block_time s) - int (acc_last_account_recovery a) > MUSE_OWNER_UPDATE_LIMIT) (
     case idx_by (\<lambda>r. arr_account_to_recover r = ra_account_to_recover o1) (recovery_requests s) of
       None \<Rightarrow> Inl Assert_exn
     | Some (rid, r) \<Rightarrow>
         guardE (arr_new_owner_authority r = ra_new_owner_authority o1) (
         guardE (list_ex (\<lambda>(h, x). oah_account x = ra_account_to_recover o1 \<and>
                   oah_previous_owner_authority x = ra_recent_owner_authority o1) (rows (owner_histories s))) (
         bindE (change_recovery_index (idx_remove rid) s) (\<lambda>s.
         bindE (update_owner_authority k (ra_new_owner_authority o1) s) (\<lambda>s.
         modify_account k (\<lambda>a. Inr (a\<lparr>acc_last_account_recovery := head_block_time s\<rparr>)) s))))))"

definition change_change_recovery_index ::
  "(change_recovery_account_request index \<Rightarrow> change_recovery_account_request index res) \<Rightarrow> chain \<Rightarrow> chain res" where
  "change_change_recovery_index f s = bindE (f (change_recovery_requests s)) (\<lambda>ix. Inr (s\<lparr>change_recovery_requests := ix\<rparr>))"

definition change_recovery_account_apply :: "change_recovery_account_operation \<Rightarrow> chain \<Rightarrow> chain res" where
  "change_recovery_account_apply o1 s =
     (let effective = time_add (head_block_time s) MUSE_OWNER_AUTH_RECOVERY_PERIOD in
      bindE (get_account (cr_op_new_recovery_account o1) s) (\<lambda>_.
      bindE (get_account (cr_op_account_to_recover o1) s) (\<lambda>(k, a).
      case idx_by (\<lambda>r. crr_account_to_recover r = cr_op_account_to_recover o1) (change_recovery_requests s) of
        None \<Rightarrow>
          change_change_recovery_index (\<lambda>ix. Inr (idx_create \<lparr>crr_account_to_recover = cr_op_account_to_recover o1,
            crr_recovery_account = cr_op_new_recovery_account o1, crr_effective_on = effective\<rparr> ix)) s
      | Some (rid, r) \<Rightarrow>
          (if acc_recovery_account a \<noteq> cr_op_new_recovery_account o1
           then change_change_recovery_index (idx_modify rid (\<lambda>r. Inr (r\<lparr>crr_recovery_account := cr_op_new_recovery_account o1,
                  crr_effective_on := effective\<rparr>))) s
           else change_change_recovery_index (idx_remove rid) s))))"

section \<open>Recovery processing\<close>

text \<open>\<open>database::account_recovery_processing\<close>, run in every block: expired requests and old authorities are removed,
  due changes of the recovery account are applied.\<close>

definition remove_all :: "nat list \<Rightarrow> 'a index \<Rightarrow> 'a index" where
  "remove_all ks ix = ix\<lparr>rows := filter (\<lambda>(k, x). \<not> List.member ks k) (rows ix)\<rparr>"

definition clear_recovery_requests :: "chain \<Rightarrow> chain" where
  "clear_recovery_requests s =
     s\<lparr>recovery_requests := remove_all (map fst (filter (\<lambda>(k, r). arr_expires r \<le> head_block_time s) (rows (recovery_requests s))))
       (recovery_requests s)\<rparr>"

text \<open>The authorities are walked by id and the loop stops at the first that is still valid.\<close>

definition clear_owner_histories :: "chain \<Rightarrow> chain" where
  "clear_owner_histories s =
     (let ix = owner_histories s in
      s\<lparr>owner_histories := ix\<lparr>rows :=
         dropWhile (\<lambda>(k, h). time_add (oah_last_valid_time h) MUSE_OWNER_AUTH_RECOVERY_PERIOD < head_block_time s) (rows ix)\<rparr>\<rparr>)"

definition apply_recovery_change :: "nat \<times> change_recovery_account_request \<Rightarrow> chain \<Rightarrow> chain res" where
  "apply_recovery_change = (\<lambda>(rid, r) s.
     bindE (get_account (crr_account_to_recover r) s) (\<lambda>(k, a).
     bindE (modify_account k (\<lambda>a. Inr (a\<lparr>acc_recovery_account := crr_recovery_account r\<rparr>)) s) (
     change_change_recovery_index (idx_remove rid))))"

definition account_recovery_processing :: "chain \<Rightarrow> chain res" where
  "account_recovery_processing s =
     (let s = clear_owner_histories (clear_recovery_requests s) in
      foldE apply_recovery_change
        (sort_key (\<lambda>(k, r). crr_effective_on r)
          (filter (\<lambda>(k, r). crr_effective_on r \<le> head_block_time s) (rows (change_recovery_requests s)))) s)"

text \<open>Evaluation on concrete states.\<close>

lemmas evaluators_eval [chain_eval] =
  MUSE_GENESIS_TIME_def MUSE_TEMP_ACCOUNT_def MUSE_MAX_WITNESS_URL_LENGTH_def MUSE_OWNER_UPDATE_LIMIT_def
  MUSE_VESTING_WITHDRAW_INTERVALS_def MUSE_MAX_WITHDRAW_ROUTES_def MUSE_MAX_ACCOUNT_WITNESS_VOTES_def
  MUSE_CONVERSION_DELAY_def MUSE_ACTIVE_CHALLENGE_FEE_def MUSE_ACTIVE_CHALLENGE_COOLDOWN_def
  MUSE_ACCOUNT_RECOVERY_REQUEST_EXPIRATION_PERIOD_def MUSE_OWNER_AUTH_RECOVERY_PERIOD_def time_add_def empty_authority_def
  default_props_def default_account_def default_witness_def create_account_def create_witness_def create_convert_request_def
  create_limit_order_def check_json_def sub_balance_def new_account_def account_create_apply_def update_owner_authority_def
  update_account_def account_update_apply_def escrow_transfer_apply_def escrow_dispute_apply_def escrow_release_apply_def
  prove_active_def pay_from_def transfer_apply_def transfer_to_vesting_apply_def wrap64_def min_vests_def
  start_withdrawal_def stop_withdrawal_def withdraw_vesting_apply_def route_clash_def change_routes_def add_routes_def
  set_withdraw_vesting_route_apply_def witness_update_apply_def neg_all_def set_proxy_def account_witness_proxy_apply_def
  add_witness_vote_count_def approve_witness_def reject_witness_def account_witness_vote_apply_def custom_apply_def
  custom_json_apply_def feed_publish_apply_def convert_apply_def place_order_def limit_order_create_apply_def
  limit_order_create2_apply_def limit_order_cancel_apply_def report_over_production_apply_def challenge_authority_apply_def
  prove_authority_apply_def vote_before_def witnesses_by_vote_def top_witness_def change_recovery_index_def
  request_account_recovery_apply_def recover_account_apply_def change_change_recovery_index_def
  change_recovery_account_apply_def remove_all_def clear_recovery_requests_def clear_owner_histories_def
  apply_recovery_change_def account_recovery_processing_def

end
