(* ===== verification/Content_Evaluators.thy ===== *)
theory Content_Evaluators
  imports Evaluators
begin

text \<open>
  The evaluators of content, streaming platforms, friendships, genesis balances and votes (\<open>muse_evaluator.cpp\<close>)
  and of user-issued assets (\<open>asset_evaluator.cpp\<close>). A \<open>std::set\<close> of account ids is a sorted list without repetitions.
\<close>

unbundle bit_operations_syntax

section \<open>Streaming platforms\<close>

definition MUSE_MAX_STREAMING_PLATFORM_URL_LENGTH :: nat where "MUSE_MAX_STREAMING_PLATFORM_URL_LENGTH = 2048"
definition MUSE_MAX_VOTED_STREAMING_PLATFORMS :: nat where "MUSE_MAX_VOTED_STREAMING_PLATFORMS = 10"
definition MUSE_MIN_VOTE_INTERVAL_SEC :: int where "MUSE_MIN_VOTE_INTERVAL_SEC = 3"
definition MUSE_MAX_VOTE_CHANGES :: int where "MUSE_MAX_VOTE_CHANGES = 5"

text \<open>The order of \<open>by_vote_name\<close>: votes decreasing, then names increasing.\<close>

definition platform_before :: "streaming_platform \<Rightarrow> streaming_platform \<Rightarrow> bool" where
  "platform_before x y \<longleftrightarrow> sp_votes x > sp_votes y \<or> sp_votes x = sp_votes y \<and> sp_owner x \<le> sp_owner y"

fun insert_platform :: "streaming_platform \<Rightarrow> streaming_platform list \<Rightarrow> streaming_platform list" where
  "insert_platform x [] = [x]"
| "insert_platform x (y # ys) = (if platform_before x y then x # y # ys else y # insert_platform x ys)"

definition platforms_by_vote :: "chain \<Rightarrow> streaming_platform list" where
  "platforms_by_vote s = foldr insert_platform (map snd (rows (platforms s))) []"

definition get_voted_streaming_platforms :: "chain \<Rightarrow> string list" where
  "get_voted_streaming_platforms s = map sp_owner (take MUSE_MAX_VOTED_STREAMING_PLATFORMS (platforms_by_vote s))"

definition is_voted_streaming_platform :: "string \<Rightarrow> chain \<Rightarrow> bool" where
  "is_voted_streaming_platform n s \<longleftrightarrow>
     list_ex (\<lambda>p. sp_owner p = n) (take MUSE_MAX_VOTED_STREAMING_PLATFORMS (platforms_by_vote s))"

text \<open>\<open>is_streaming_platform\<close> counts in the body of its loop and looks at the same platforms.\<close>

definition is_streaming_platform :: "string \<Rightarrow> chain \<Rightarrow> bool" where
  "is_streaming_platform n s \<longleftrightarrow>
     list_ex (\<lambda>p. sp_owner p = n) (take MUSE_MAX_VOTED_STREAMING_PLATFORMS (platforms_by_vote s))"

definition create_platform :: "streaming_platform \<Rightarrow> chain \<Rightarrow> chain res" where
  "create_platform p s =
     bindE (idx_insert (\<lambda>x y. sp_owner x = sp_owner y) p (platforms s)) (\<lambda>ix. Inr (s\<lparr>platforms := ix\<rparr>))"

definition streaming_platform_update_apply :: "streaming_platform_update_operation \<Rightarrow> chain \<Rightarrow> chain res" where
  "streaming_platform_update_apply o1 s =
     bindE (get_account (spu_owner o1) s) (\<lambda>(k, a).
     guardE (length (spu_url o1) \<le> MUSE_MAX_STREAMING_PLATFORM_URL_LENGTH) (
     bindE (check (asset_ge (mk_asset (acc_balance a) MUSE_SYMBOL) (spu_fee o1))) (\<lambda>_.
     case idx_by (\<lambda>p. sp_owner p = spu_owner o1) (platforms s) of
       Some (pid, p) \<Rightarrow> modify_platform pid (\<lambda>p. Inr (p\<lparr>sp_url := spu_url o1\<rparr>)) s
     | None \<Rightarrow>
         bindE (check (asset_ge (spu_fee o1) (cp_streaming_platform_update_fee (wso_median_props (wso s))))) (\<lambda>_.
         bindE (create_platform \<lparr>sp_owner = spu_owner o1, sp_created = head_block_time s, sp_url = spu_url o1, sp_votes = 0\<rparr> s)
           (pay_fee k (spu_fee o1))))))"

definition add_listening :: "nat \<Rightarrow> account \<Rightarrow> account res" where
  "add_listening t a = Inr (a\<lparr>acc_total_listening_time := (acc_total_listening_time a + t) mod 2 ^ 32\<rparr>)"

definition count_play :: "content \<Rightarrow> content res" where
  "count_play c = Inr (c\<lparr>con_times_played := (con_times_played c + 1) mod 2 ^ 64,
     con_times_played_24 := (con_times_played_24 c + 1) mod 2 ^ 32\<rparr>)"

definition streaming_platform_report_apply :: "streaming_platform_report_operation \<Rightarrow> chain \<Rightarrow> chain res" where
  "streaming_platform_report_apply o1 s =
     bindE (get_account (spr_consumer o1) s) (\<lambda>(k, consumer).
     guardE ((spr_play_time o1 + acc_total_listening_time consumer) mod 2 ^ 64 \<le> 86400) (
     case idx_by (\<lambda>p. sp_owner p = spr_streaming_platform o1) (platforms s) of None \<Rightarrow> Inl Assert_exn
     | Some (pid, p) \<Rightarrow>
         guardE (is_voted_streaming_platform (spr_streaming_platform o1) s) (
         bindE (get_content (spr_content o1) s) (\<lambda>(cid, c).
         guardE (\<not> con_disabled c) (
         bindE (if spr_playlist_creator o1 \<noteq> []
                then bindE (get_account (spr_playlist_creator o1) s) (\<lambda>(j, x). Inr (Some j)) else Inr None) (\<lambda>creator.
         let r = \<lparr>rep_streaming_platform = pid, rep_consumer = k, rep_content = cid, rep_created = head_block_time s,
                  rep_play_time = spr_play_time o1 mod 2 ^ 32, rep_playlist_creator = creator\<rparr> in
         bindE (modify_account k (add_listening (spr_play_time o1)) (s\<lparr>reports := idx_create r (reports s)\<rparr>)) (
         modify_content cid count_play)))))))"

definition add_platform_vote_count :: "int \<Rightarrow> account \<Rightarrow> account res" where
  "add_platform_vote_count d a =
     Inr (a\<lparr>acc_streaming_platforms_voted_for := nat ((int (acc_streaming_platforms_voted_for a) + d) mod 2 ^ 16)\<rparr>)"

definition approve_platform :: "nat \<Rightarrow> account \<Rightarrow> nat \<Rightarrow> chain \<Rightarrow> chain res" where
  "approve_platform k voter pid s =
     (let s = s\<lparr>platform_votes := idx_create \<lparr>spv_streaming_platform = pid, spv_account = k\<rparr> (platform_votes s)\<rparr> in
      bindE (witness_vote_weight voter) (\<lambda>weight.
      bindE (adjust_streaming_platform_vote pid weight s) (modify_account k (add_platform_vote_count 1))))"

definition reject_platform :: "nat \<Rightarrow> account \<Rightarrow> nat \<Rightarrow> nat \<Rightarrow> chain \<Rightarrow> chain res" where
  "reject_platform k voter pid vid s =
     bindE (witness_vote_weight voter) (\<lambda>weight.
     bindE (safeE (- weight)) (\<lambda>nw.
     bindE (adjust_streaming_platform_vote pid nw s) (\<lambda>s.
     bindE (modify_account k (add_platform_vote_count (- 1)) s) (\<lambda>s.
     bindE (idx_remove vid (platform_votes s)) (\<lambda>ix. Inr (s\<lparr>platform_votes := ix\<rparr>))))))"

definition account_streaming_platform_vote_apply :: "account_streaming_platform_vote_operation \<Rightarrow> chain \<Rightarrow> chain res" where
  "account_streaming_platform_vote_apply o1 s =
     bindE (get_account (asv_account o1) s) (\<lambda>(k, voter).
     bindE (get_streaming_platform (asv_streaming_platform o1) s) (\<lambda>(pid, p).
     case idx_by (\<lambda>v. spv_account v = k \<and> spv_streaming_platform v = pid) (platform_votes s) of
       None \<Rightarrow>
         guardE (asv_approve o1) (
         guardE (acc_streaming_platforms_voted_for voter < MUSE_MAX_ACCOUNT_WITNESS_VOTES) (approve_platform k voter pid s))
     | Some (vid, v) \<Rightarrow> guardE (\<not> asv_approve o1) (reject_platform k voter pid vid s)))"

section \<open>Friends\<close>

definition add_second :: "nat list \<Rightarrow> account \<Rightarrow> account res" where
  "add_second ks a = Inr (a\<lparr>acc_second_level := ins ks (acc_second_level a)\<rparr>)"

definition without :: "'a \<Rightarrow> 'a list \<Rightarrow> 'a list" where "without x xs = filter (\<lambda>y. y \<noteq> x) xs"

text \<open>The friends of one side learn that the other side is now a friend of a friend.\<close>

definition tell_friends :: "nat list \<Rightarrow> nat \<Rightarrow> chain \<Rightarrow> chain res" where
  "tell_friends fs k = foldE (\<lambda>f s. bindE (modify_account f (add_second [k]) s) (recalculate_score f)) fs"

definition befriend :: "nat \<Rightarrow> nat \<Rightarrow> nat list \<Rightarrow> account \<Rightarrow> account res" where
  "befriend self other other_friends a = Inr (a
     \<lparr>acc_waiting := without other (acc_waiting a), acc_friends := ins [other] (acc_friends a),
      acc_second_level := without self (ins other_friends (acc_second_level a))\<rparr>)"

definition accept_friend :: "nat \<Rightarrow> nat list \<Rightarrow> nat \<Rightarrow> account \<Rightarrow> account res" where
  "accept_friend other other_friends self a = Inr (a
     \<lparr>acc_friends := ins [other] (acc_friends a), acc_second_level := without self (ins other_friends (acc_second_level a))\<rparr>)"

definition approve_friendship :: "nat \<Rightarrow> nat \<Rightarrow> chain \<Rightarrow> chain res" where
  "approve_friendship k1 k2 s =
     bindE (idx_get k2 (accounts s)) (\<lambda>a2.
     bindE (tell_friends (acc_friends a2) k1 s) (\<lambda>s.
     bindE (idx_get k1 (accounts s)) (\<lambda>a1.
     bindE (tell_friends (acc_friends a1) k2 s) (\<lambda>s.
     bindE (idx_get k2 (accounts s)) (\<lambda>a2.
     bindE (modify_account k1 (befriend k1 k2 (acc_friends a2)) s) (\<lambda>s.
     bindE (recalculate_score k1 s) (\<lambda>s.
     bindE (idx_get k1 (accounts s)) (\<lambda>a1.
     bindE (modify_account k2 (accept_friend k1 (acc_friends a1) k2) s) (recalculate_score k2)))))))))"

definition friendship_apply :: "friendship_operation \<Rightarrow> chain \<Rightarrow> chain res" where
  "friendship_apply o1 s =
     bindE (get_account (fr_who o1) s) (\<lambda>(k1, a1).
     bindE (get_account (fr_whom o1) s) (\<lambda>(k2, a2).
     if List.member (acc_friends a1) k2 then Inr s
     else if List.member (acc_waiting a2) k1 then Inr s
     else if List.member (acc_waiting a1) k2 then approve_friendship k1 k2 s
     else modify_account k2 (\<lambda>a. Inr (a\<lparr>acc_waiting := ins [k1] (acc_waiting a)\<rparr>)) s))"

text \<open>The friends of the friends of an account, without the account itself.\<close>

definition friends_of_friends :: "nat \<Rightarrow> chain \<Rightarrow> nat list res" where
  "friends_of_friends k s =
     bindE (idx_get k (accounts s)) (\<lambda>a.
     bindE (foldE (\<lambda>f acc. bindE (idx_get f (accounts s)) (\<lambda>x. Inr (ins (acc_friends x) acc))) (acc_friends a) []) (\<lambda>l.
     Inr (without k l)))"

definition rebuild_second :: "nat \<Rightarrow> chain \<Rightarrow> chain res" where
  "rebuild_second k s =
     bindE (friends_of_friends k s) (\<lambda>l. modify_account k (\<lambda>a. Inr (a\<lparr>acc_second_level := l\<rparr>)) s)"

definition drop_friend :: "nat \<Rightarrow> account \<Rightarrow> account res" where
  "drop_friend k a = Inr (a\<lparr>acc_friends := without k (acc_friends a), acc_second_level := []\<rparr>)"

definition rebuild_friends :: "nat \<Rightarrow> chain \<Rightarrow> chain res" where
  "rebuild_friends k s =
     bindE (idx_get k (accounts s)) (\<lambda>a.
     foldE (\<lambda>f s. bindE (rebuild_second f s) (recalculate_score f)) (acc_friends a) s)"

definition end_friendship :: "nat \<Rightarrow> nat \<Rightarrow> chain \<Rightarrow> chain res" where
  "end_friendship k1 k2 s =
     bindE (modify_account k2 (drop_friend k1) s) (\<lambda>s.
     bindE (modify_account k1 (drop_friend k2) s) (\<lambda>s.
     bindE (rebuild_second k1 s) (\<lambda>s.
     bindE (rebuild_second k2 s) (\<lambda>s.
     bindE (recalculate_score k1 s) (\<lambda>s.
     bindE (recalculate_score k2 s) (\<lambda>s.
     bindE (rebuild_friends k1 s) (rebuild_friends k2)))))))"

definition unfriend_apply :: "unfriend_operation \<Rightarrow> chain \<Rightarrow> chain res" where
  "unfriend_apply o1 s =
     bindE (get_account (uf_who o1) s) (\<lambda>(k1, a1).
     bindE (get_account (uf_whom o1) s) (\<lambda>(k2, a2).
     if List.member (acc_waiting a2) k1 then modify_account k2 (\<lambda>a. Inr (a\<lparr>acc_waiting := without k1 (acc_waiting a)\<rparr>)) s
     else if List.member (acc_waiting a1) k2 then modify_account k1 (\<lambda>a. Inr (a\<lparr>acc_waiting := without k2 (acc_waiting a)\<rparr>)) s
     else if List.member (acc_friends a2) k1 then end_friendship k1 k2 s
     else Inr s))"

section \<open>Content\<close>

text \<open>\<open>account_auths[voter] = percentage\<close>: a \<open>flat_map\<close> from names to \<open>uint16_t\<close> weights.\<close>

definition put_auth :: "management_vote \<Rightarrow> (string \<times> 16 word) list \<Rightarrow> (string \<times> 16 word) list" where
  "put_auth m t =
     (if map_of t (mv_voter m) = None then table_insert (mv_voter m) (word_of_nat (mv_percentage m)) t
      else table_update (mv_voter m) (word_of_nat (mv_percentage m)) t)"

definition management_authority :: "management_vote list \<Rightarrow> nat \<Rightarrow> authority" where
  "management_authority ms threshold =
     \<lparr>weight_threshold = word_of_nat threshold, account_auths = fold put_auth ms [], key_auths = []\<rparr>"

definition check_track_json :: "env \<Rightarrow> content_metadata_track_master \<Rightarrow> chain \<Rightarrow> unit res" where
  "check_track_json e m s =
     (case tm_json_metadata m of None \<Rightarrow> Inr ()
      | Some j \<Rightarrow> guardE (env_is_utf8 e j) (
          assertE (if has_hardfork MUSE_HARDFORK_0_3 s then env_json_valid e j else env_json_valid_broken_nul e j)))"

definition accounts_exist :: "string list \<Rightarrow> chain \<Rightarrow> unit res" where
  "accounts_exist ns s = foldE (\<lambda>n u. bindE (get_account n s) (\<lambda>_. Inr u)) ns ()"

text \<open>The sides of the new content: with third-party publishers the composition side has its own managers and payees.\<close>

definition new_content :: "content_operation \<Rightarrow> chain \<Rightarrow> content" where
  "new_content o1 s =
     (let third_party = pm_third_party_publishers (co_comp_meta o1); hf2 = has_hardfork MUSE_HARDFORK_0_2 s in
      \<lparr>con_uploader = co_uploader o1, con_url = co_url o1, con_accumulated_balance_master = 0, con_accumulated_balance_comp = 0,
       con_album_meta = co_album_meta o1, con_track_meta = co_track_meta o1, con_comp_meta = co_comp_meta o1,
       con_track_title = tm_track_title (co_track_meta o1), con_last_update = head_block_time s, con_created = head_block_time s,
       con_last_played = 0, con_distributions_master = co_distributions o1,
       con_distributions_comp = (if third_party then (case co_distributions_comp o1 of None \<Rightarrow> [] | Some ds \<Rightarrow> ds) else []),
       con_playing_reward = (if hf2 then co_playing_reward o1 else 1000),
       con_publishers_share = (if hf2 then (if third_party then co_publishers_share o1 else 0) else 5000),
       con_manage_master = management_authority (co_management o1) (co_management_threshold o1),
       con_manage_comp =
         (if third_party
          then management_authority (case co_management_comp o1 of None \<Rightarrow> [] | Some ms \<Rightarrow> ms)
                 (case co_management_threshold_comp o1 of None \<Rightarrow> 0 | Some t \<Rightarrow> t)
          else empty_authority),
       con_times_played = 0, con_times_played_24 = 0, con_allow_votes = True, con_disabled = False\<rparr>)"

definition content_apply :: "env \<Rightarrow> content_operation \<Rightarrow> chain \<Rightarrow> chain res" where
  "content_apply e o1 s =
     guardE (idx_by (\<lambda>c. con_url c = co_url o1) (contents s) = None) (
     bindE (get_account (co_uploader o1) s) (\<lambda>(k, auth).
     guardE (\<not> (acc_owner_challenged auth \<or> acc_active_challenged auth)) (
     bindE (check_track_json e (co_track_meta o1) s) (\<lambda>_.
     bindE (accounts_exist (map dist_payee (co_distributions o1)) s) (\<lambda>_.
     bindE (accounts_exist (case co_distributions_comp o1 of None \<Rightarrow> [] | Some ds \<Rightarrow> map dist_payee ds) s) (\<lambda>_.
     bindE (accounts_exist (map mv_voter (co_management o1)) s) (\<lambda>_.
     bindE (if pm_third_party_publishers (co_comp_meta o1)
            then (case co_management_comp o1 of None \<Rightarrow> Inl Assert_exn
                  | Some ms \<Rightarrow> guardE (co_management_threshold_comp o1 \<noteq> None) (accounts_exist (map mv_voter ms) s))
            else Inr ()) (\<lambda>_.
     Inr (s\<lparr>contents := idx_create (new_content o1 s) (contents s)\<rparr>)))))))))"

text \<open>The update of one side. \<open>third_party_publishers\<close> keeps its value whatever metadata comes in.\<close>

definition update_master :: "content_update_operation \<Rightarrow> content \<Rightarrow> content" where
  "update_master o1 c =
     (let third_party = pm_third_party_publishers (con_comp_meta c);
          c = (case cup_album_meta o1 of None \<Rightarrow> c | Some m \<Rightarrow> c\<lparr>con_album_meta := m\<rparr>);
          c = (case cup_track_meta o1 of None \<Rightarrow> c | Some m \<Rightarrow> c\<lparr>con_track_meta := m, con_track_title := tm_track_title m\<rparr>);
          c = (case cup_comp_meta o1 of None \<Rightarrow> c | Some m \<Rightarrow> if third_party then c else c\<lparr>con_comp_meta := m\<rparr>);
          c = (if cup_new_distributions o1 \<noteq> [] then c\<lparr>con_distributions_master := cup_new_distributions o1\<rparr> else c)
      in if cup_new_management o1 \<noteq> []
         then c\<lparr>con_manage_master := (con_manage_master c)\<lparr>account_auths := fold put_auth (cup_new_management o1) [],
                  weight_threshold := word_of_nat (cup_new_threshold o1)\<rparr>\<rparr>
         else c)"

definition update_comp :: "content_update_operation \<Rightarrow> content \<Rightarrow> content" where
  "update_comp o1 c =
     (let c = (case cup_comp_meta o1 of None \<Rightarrow> c | Some m \<Rightarrow> c\<lparr>con_comp_meta := m\<rparr>);
          c = (if cup_new_distributions o1 \<noteq> [] then c\<lparr>con_distributions_comp := cup_new_distributions o1\<rparr> else c)
      in if cup_new_management o1 \<noteq> []
         then c\<lparr>con_manage_comp := (con_manage_comp c)\<lparr>account_auths := fold put_auth (cup_new_management o1) [],
                  weight_threshold := word_of_nat (cup_new_threshold o1)\<rparr>\<rparr>
         else c)"

definition update_content :: "content_update_operation \<Rightarrow> bool \<Rightarrow> time_sec \<Rightarrow> content \<Rightarrow> content res" where
  "update_content o1 hf2 now c =
     (let third_party = pm_third_party_publishers (con_comp_meta c);
          c = (if cup_side o1 = side_master then update_master o1 c else update_comp o1 c);
          c = c\<lparr>con_comp_meta := (con_comp_meta c)\<lparr>pm_third_party_publishers := third_party\<rparr>\<rparr>;
          c = (if \<not> hf2 \<or> cup_new_playing_reward o1 > 0 then c\<lparr>con_playing_reward := cup_new_playing_reward o1\<rparr> else c);
          c = (if \<not> hf2 \<or> cup_new_publishers_share o1 > 0 then c\<lparr>con_publishers_share := cup_new_publishers_share o1\<rparr> else c)
      in Inr (c\<lparr>con_last_update := now\<rparr>))"

definition content_update_apply :: "env \<Rightarrow> content_update_operation \<Rightarrow> chain \<Rightarrow> chain res" where
  "content_update_apply e o1 s =
     bindE (get_content (cup_url o1) s) (\<lambda>(cid, c).
     guardE (\<not> con_disabled c) (
     let two_sides = pm_third_party_publishers (con_comp_meta c); hf2 = has_hardfork MUSE_HARDFORK_0_2 s in
     guardE ((if hf2 then two_sides else \<not> two_sides) \<or> cup_side o1 = side_master) (
     bindE (case cup_track_meta o1 of None \<Rightarrow> Inr () | Some m \<Rightarrow> check_track_json e m s) (\<lambda>_.
     bindE (accounts_exist (map dist_payee (cup_new_distributions o1)) s) (\<lambda>_.
     bindE (accounts_exist (map mv_voter (cup_new_management o1)) s) (\<lambda>_.
     let accumulated = (if cup_side o1 = side_master then con_accumulated_balance_master c else con_accumulated_balance_comp c) in
     bindE (modify_content cid (update_content o1 hf2 (head_block_time s)) s) (\<lambda>s.
     if cup_new_distributions o1 \<noteq> [] \<and> accumulated > 0 then
       (if cup_side o1 = side_master then pay_to_content_master cid (mk_asset 0 MUSE_SYMBOL) s
        else pay_to_content_comp cid (mk_asset 0 MUSE_SYMBOL) s)
     else Inr s)))))))"

definition content_disable_apply :: "content_disable_operation \<Rightarrow> chain \<Rightarrow> chain res" where
  "content_disable_apply o1 s =
     bindE (get_content (cd_url o1) s) (\<lambda>(cid, c).
     guardE (\<not> con_disabled c) (modify_content cid (\<lambda>c. Inr (c\<lparr>con_disabled := True\<rparr>)) s))"

text \<open>The indexes \<open>by_content\<close> and \<open>by_approver\<close> of the approvals are both unique.\<close>

definition content_approve_apply :: "content_approve_operation \<Rightarrow> chain \<Rightarrow> chain res" where
  "content_approve_apply o1 s =
     bindE (get_content (cap_url o1) s) (\<lambda>(cid, c).
     guardE (\<not> con_disabled c) (
     bindE (get_account (cap_approver o1) s) (\<lambda>(k, a).
     bindE (idx_insert (\<lambda>x y. cao_content x = cao_content y \<or> cao_approver x = cao_approver y)
              \<lparr>cao_content = cap_url o1, cao_approver = k\<rparr> (content_approvals s)) (\<lambda>ix.
     Inr (s\<lparr>content_approvals := ix\<rparr>)))))"

section \<open>Genesis balances and votes\<close>

definition owns_balance :: "env \<Rightarrow> public_key \<Rightarrow> nat \<Rightarrow> bool" where
  "owns_balance e key owner \<longleftrightarrow>
     env_address e key = owner \<or> env_pts_address e key False 56 = owner \<or> env_pts_address e key True 56 = owner \<or>
     env_pts_address e key False 0 = owner \<or> env_pts_address e key True 0 = owner \<or> env_address e key = owner"

definition change_balances :: "(genesis_balance index \<Rightarrow> genesis_balance index res) \<Rightarrow> chain \<Rightarrow> chain res" where
  "change_balances f s = bindE (f (balances s)) (\<lambda>ix. Inr (s\<lparr>balances := ix\<rparr>))"

definition take_balance :: "asset \<Rightarrow> time_sec \<Rightarrow> genesis_balance \<Rightarrow> genesis_balance res" where
  "take_balance d now b =
     bindE (minus_asset MUSE_SYMBOL (gb_balance b) d) (\<lambda>x. Inr (b\<lparr>gb_balance := x, gb_last_claim_date := now\<rparr>))"

definition balance_claim_apply :: "env \<Rightarrow> balance_claim_operation \<Rightarrow> chain \<Rightarrow> chain res" where
  "balance_claim_apply e o1 s =
     (let bid = bc_balance_to_claim o1; d = bc_total_claimed o1 in
      bindE (idx_get bid (balances s)) (\<lambda>b.
      bindE (get_account (bc_deposit_to_account o1) s) (\<lambda>(k, a).
      guardE (owns_balance e (bc_balance_owner_key o1) (gb_owner b)) (
      bindE (check (asset_le d (mk_asset (gb_balance b) MUSE_SYMBOL))) (\<lambda>_.
      bindE (asset_lt d (mk_asset (gb_balance b) MUSE_SYMBOL)) (\<lambda>part.
      bindE (if part then change_balances (idx_modify bid (take_balance d (head_block_time s))) s
             else change_balances (idx_remove bid) s) (adjust_balance k d)))))))"

definition change_content_votes :: "(content_vote index \<Rightarrow> content_vote index res) \<Rightarrow> chain \<Rightarrow> chain res" where
  "change_content_votes f s = bindE (f (content_votes s)) (\<lambda>ix. Inr (s\<lparr>content_votes := ix\<rparr>))"

definition change_vote :: "int \<Rightarrow> time_sec \<Rightarrow> content_vote \<Rightarrow> content_vote res" where
  "change_vote weight now v = Inr (v\<lparr>cvo_weight := weight, cvo_last_update := now, cvo_num_changes := cvo_num_changes v + 1\<rparr>)"

definition vote_content :: "vote_operation \<Rightarrow> nat \<Rightarrow> chain \<Rightarrow> chain res" where
  "vote_content o1 k s =
     bindE (get_content (vo_url o1) s) (\<lambda>(cid, c).
     guardE (\<not> con_disabled c) (
     guardE (vo_weight o1 > 0 \<longrightarrow> con_allow_votes c) (
     case idx_by (\<lambda>v. cvo_content v = cid \<and> cvo_voter v = k) (content_votes s) of
       Some (vid, v) \<Rightarrow>
         guardE (cvo_num_changes v < MUSE_MAX_VOTE_CHANGES) (
         guardE (cvo_weight v \<noteq> vo_weight o1) (
         change_content_votes (idx_modify vid (change_vote (vo_weight o1) (head_block_time s))) s))
     | None \<Rightarrow>
         guardE (vo_weight o1 \<noteq> 0) (
         change_content_votes (\<lambda>ix. Inr (idx_create \<lparr>cvo_voter = k, cvo_content = cid, cvo_weight = vo_weight o1,
           cvo_num_changes = 0, cvo_marked_for_curation_reward = False, cvo_last_update = head_block_time s\<rparr> ix)) s))))"

definition vote_apply :: "vote_operation \<Rightarrow> chain \<Rightarrow> chain res" where
  "vote_apply o1 s =
     bindE (get_account (vo_voter o1) s) (\<lambda>(k, voter).
     guardE (\<not> (acc_owner_challenged voter \<or> acc_active_challenged voter)) (
     guardE (int (head_block_time s) - int (acc_last_vote_time voter) \<ge> MUSE_MIN_VOTE_INTERVAL_SEC) (
     bindE (modify_account k (\<lambda>a. Inr (a\<lparr>acc_last_vote_time := head_block_time s\<rparr>)) s) (\<lambda>s.
     if vo_url o1 \<noteq> [] then vote_content o1 k s else Inr s))))"

section \<open>User-issued assets\<close>

definition change_assets :: "(asset_object index \<Rightarrow> asset_object index res) \<Rightarrow> chain \<Rightarrow> chain res" where
  "change_assets f s = bindE (f (asset_objects s)) (\<lambda>ix. Inr (s\<lparr>asset_objects := ix\<rparr>))"

definition find_asset :: "string \<Rightarrow> chain \<Rightarrow> (nat \<times> asset_object) option" where
  "find_asset sy s = idx_by (\<lambda>a. aso_symbol_string a = sy) (asset_objects s)"

text \<open>\<open>symbol.rfind('.')\<close> and the prefix before it.\<close>

definition symbol_prefix :: "string \<Rightarrow> string option" where
  "symbol_prefix sy = (if List.member sy (CHR ''.'') then Some (rev (tl (dropWhile (\<lambda>c. c \<noteq> CHR ''.'') (rev sy)))) else None)"

definition is_authorized_asset :: "account \<Rightarrow> asset_object \<Rightarrow> bool" where "is_authorized_asset a x \<longleftrightarrow> True"

definition asset_create_apply :: "asset_create_operation \<Rightarrow> chain \<Rightarrow> chain res" where
  "asset_create_apply o1 s =
     guardE (find_asset (acr_symbol o1) s = None) (
     bindE (get_account (acr_issuer o1) s) (\<lambda>(k, issuer).
     bindE (case symbol_prefix (acr_symbol o1) of None \<Rightarrow> Inr ()
            | Some prefix \<Rightarrow>
                (case find_asset prefix s of None \<Rightarrow> Inl Assert_exn | Some (j, x) \<Rightarrow> assertE (aso_issuer x = k))) (\<lambda>_.
     change_assets (\<lambda>ix. Inr (idx_create \<lparr>aso_current_supply = 0, aso_symbol_string = acr_symbol o1, aso_precision = acr_precision o1,
       aso_issuer = k, aso_options = acr_common_options o1\<rparr> ix)) s)))"

definition add_supply :: "share \<Rightarrow> asset_object \<Rightarrow> asset_object res" where
  "add_supply d x = bindE (safe_add (aso_current_supply x) d) (\<lambda>y. Inr (x\<lparr>aso_current_supply := y\<rparr>))"

definition asset_issue_apply :: "asset_issue_operation \<Rightarrow> chain \<Rightarrow> chain res" where
  "asset_issue_apply o1 s =
     (let d = ais_asset_to_issue o1 in
      case idx_find (asset_id d) (asset_objects s) of None \<Rightarrow> Inl Assert_exn
      | Some x \<Rightarrow>
          bindE (get_account (ais_issuer o1) s) (\<lambda>(k, issuer).
          guardE (k = aso_issuer x) (
          bindE (get_account (ais_issue_to_account o1) s) (\<lambda>(j, to_acc).
          guardE (is_authorized_asset to_acc x) (
          bindE (safe_add (aso_current_supply x) (amount d)) (\<lambda>total_supply.
          guardE (total_supply \<le> ao_max_supply (aso_options x)) (
          bindE (adjust_balance j d s) (change_assets (idx_modify (asset_id d) (add_supply (amount d)))))))))))"

definition sub_supply :: "share \<Rightarrow> asset_object \<Rightarrow> asset_object res" where
  "sub_supply d x = bindE (safe_sub (aso_current_supply x) d) (\<lambda>y. Inr (x\<lparr>aso_current_supply := y\<rparr>))"

definition asset_reserve_apply :: "asset_reserve_operation \<Rightarrow> chain \<Rightarrow> chain res" where
  "asset_reserve_apply o1 s =
     (let d = ars_amount_to_reserve o1 in
      case idx_find (asset_id d) (asset_objects s) of None \<Rightarrow> Inl Assert_exn
      | Some x \<Rightarrow>
          bindE (get_account (ars_payer o1) s) (\<lambda>(k, payer).
          guardE (is_authorized_asset payer x) (
          bindE (asset_neg d) (\<lambda>n.
          bindE (adjust_balance k n s) (change_assets (idx_modify (asset_id d) (sub_supply (amount d))))))))"

text \<open>\<open>asset_object::validate\<close>: neither flags nor permissions of market-issued assets.\<close>

definition asset_object_validate :: "asset_options \<Rightarrow> unit res" where
  "asset_object_validate x =
     guardE (ao_flags x AND 0x10 = 0 \<and> ao_flags x AND 0x20 = 0) (
     assertE (ao_issuer_permissions x AND 0x10 = 0 \<and> ao_issuer_permissions x AND 0x20 = 0))"

definition asset_update_apply :: "asset_update_operation \<Rightarrow> chain \<Rightarrow> chain res" where
  "asset_update_apply o1 s =
     (let aid = aup_asset_to_update o1; opts = aup_new_options o1 in
      case idx_find aid (asset_objects s) of None \<Rightarrow> Inl Assert_exn
      | Some x \<Rightarrow>
          bindE (asset_object_validate opts) (\<lambda>_.
          bindE (case aup_new_issuer o1 of None \<Rightarrow> Inr (aso_issuer x) | Some n \<Rightarrow> bindE (get_account n s) (\<lambda>(j, a). Inr j)) (\<lambda>new_issuer.
          guardE (ao_issuer_permissions opts AND NOT (ao_issuer_permissions (aso_options x)) = 0) (
          guardE ((ao_flags opts XOR ao_flags (aso_options x)) AND NOT (ao_issuer_permissions (aso_options x)) = 0) (
          bindE (get_account (aup_issuer o1) s) (\<lambda>(k, a).
          guardE (k = aso_issuer x) (
          change_assets (idx_modify aid (\<lambda>x. Inr (x\<lparr>aso_issuer := new_issuer, aso_options := opts\<rparr>))) s)))))))"

text \<open>Evaluation on concrete states.\<close>

lemmas content_evaluators_eval [chain_eval] =
  MUSE_MAX_STREAMING_PLATFORM_URL_LENGTH_def MUSE_MAX_VOTED_STREAMING_PLATFORMS_def MUSE_MIN_VOTE_INTERVAL_SEC_def
  MUSE_MAX_VOTE_CHANGES_def platform_before_def platforms_by_vote_def get_voted_streaming_platforms_def
  is_voted_streaming_platform_def is_streaming_platform_def create_platform_def streaming_platform_update_apply_def
  add_listening_def count_play_def streaming_platform_report_apply_def add_platform_vote_count_def approve_platform_def
  reject_platform_def account_streaming_platform_vote_apply_def add_second_def without_def tell_friends_def befriend_def
  accept_friend_def approve_friendship_def friendship_apply_def friends_of_friends_def rebuild_second_def drop_friend_def
  rebuild_friends_def end_friendship_def unfriend_apply_def put_auth_def management_authority_def check_track_json_def
  accounts_exist_def new_content_def content_apply_def update_master_def update_comp_def update_content_def
  content_update_apply_def content_disable_apply_def content_approve_apply_def owns_balance_def change_balances_def
  take_balance_def balance_claim_apply_def change_content_votes_def change_vote_def vote_content_def vote_apply_def
  change_assets_def find_asset_def symbol_prefix_def is_authorized_asset_def asset_create_apply_def add_supply_def
  asset_issue_apply_def sub_supply_def asset_reserve_apply_def asset_object_validate_def asset_update_apply_def

end
