(* ===== verification/Proposals.thy ===== *)
theory Proposals
  imports Content_Evaluators
begin

text \<open>
  Proposed transactions (\<open>proposal_evaluator.cpp\<close>, \<open>proposal_object.cpp\<close>), the execution of an approved proposal
  (\<open>push_proposal\<close>), and the dispatch of operations to their evaluators (\<open>apply_operation\<close>, \<open>initialize_evaluators\<close>).

  Approving a proposal may execute it, and the operations it holds may approve further proposals, so the C++ calls
  nest: \<open>apply_operation\<close>, \<open>proposal_update_evaluator::do_apply\<close>, \<open>push_proposal\<close>, \<open>apply_operation\<close>. Nothing in the code
  bounds the nesting. The model takes the number of nested executions the stack has room for and returns \<open>None\<close> when
  that is exceeded, which is not an exception of the program and is not caught by it.

  \<open>apply_operation\<close> also appends the operation to the log of applied operations and notifies observers; the model's log
  holds the virtual operations only, and no code reads it back.
\<close>

section \<open>Calls that may not return\<close>

type_synonym 'a run = "'a res option"

definition bindR :: "'a run \<Rightarrow> ('a \<Rightarrow> 'b run) \<Rightarrow> 'b run" where
  "bindR m f = (case m of None \<Rightarrow> None | Some (Inl e) \<Rightarrow> Some (Inl e) | Some (Inr x) \<Rightarrow> f x)"

fun foldR :: "('a \<Rightarrow> 's \<Rightarrow> 's run) \<Rightarrow> 'a list \<Rightarrow> 's \<Rightarrow> 's run" where
  "foldR f [] s = Some (Inr s)"
| "foldR f (x # xs) s = bindR (f x s) (foldR f xs)"

lemma bindR_simps [simp]:
  "bindR None f = None" "bindR (Some (Inl e)) f = Some (Inl e)" "bindR (Some (Inr x)) f = f x"
  by (simp_all add: bindR_def)

lemma bindR_Inr_iff [res_simps]: "bindR m f = Some (Inr y) \<longleftrightarrow> (\<exists>x. m = Some (Inr x) \<and> f x = Some (Inr y))"
  by (auto simp: bindR_def split: option.splits sum.splits)

lemma bindR_None_iff: "bindR m f = None \<longleftrightarrow> m = None \<or> (\<exists>x. m = Some (Inr x) \<and> f x = None)"
  by (auto simp: bindR_def split: option.splits sum.splits)

lemma foldR_invariant:
  assumes "foldR f xs s = Some (Inr s')" and "I s"
    and "\<And>x t t'. x \<in> set xs \<Longrightarrow> I t \<Longrightarrow> f x t = Some (Inr t') \<Longrightarrow> I t'"
  shows "I s'"
  using assms by (induction xs arbitrary: s) (auto simp: res_simps)

lemma foldR_returns:
  assumes "I s" and "\<And>x t. x \<in> set xs \<Longrightarrow> I t \<Longrightarrow> f x t \<noteq> None"
    and "\<And>x t t'. x \<in> set xs \<Longrightarrow> I t \<Longrightarrow> f x t = Some (Inr t') \<Longrightarrow> I t'"
  shows "foldR f xs s \<noteq> None"
  using assms
proof (induction xs arbitrary: s)
  case (Cons x xs)
  have "foldR f xs t \<noteq> None" if "f x s = Some (Inr t)" for t
  proof (rule Cons.IH)
    show "I t" by (rule Cons.prems(3) [OF _ _ that]) (use Cons.prems(1) in simp_all)
    show "f y u \<noteq> None" if "y \<in> set xs" "I u" for y u by (rule Cons.prems(2)) (use that in simp_all)
    show "I u'" if "y \<in> set xs" "I u" "f y u = Some (Inr u')" for y u u' by (rule Cons.prems(3) [OF _ that(2,3)]) (use that(1) in simp)
  qed
  moreover have "f x s \<noteq> None" using Cons.prems by auto
  ultimately show ?case by (auto simp: bindR_None_iff)
qed simp

lemma foldR_more:
  assumes "foldR f xs s = Some r" and "\<And>x t r. x \<in> set xs \<Longrightarrow> f x t = Some r \<Longrightarrow> g x t = Some r"
  shows "foldR g xs s = Some r"
  using assms
proof (induction xs arbitrary: s)
  case (Cons x xs)
  obtain q where q: "f x s = Some q" using Cons.prems(1) by (cases "f x s") auto
  then have "g x s = Some q" using Cons.prems(2) by simp
  then show ?case using Cons q by (cases q) auto
qed simp

section \<open>Authorities of the chain\<close>

definition MUSE_MAX_SIG_CHECK_DEPTH :: nat where "MUSE_MAX_SIG_CHECK_DEPTH = 2"

definition account_getter :: "(account \<Rightarrow> authority) \<Rightarrow> chain \<Rightarrow> authority_getter" where
  "account_getter f s n = bindE (get_account n s) (\<lambda>(k, a). Inr (Some (f a)))"

definition content_getter :: "(content \<Rightarrow> authority) \<Rightarrow> chain \<Rightarrow> authority_getter" where
  "content_getter f s u = bindE (get_content u s) (\<lambda>(k, c). Inr (Some (f c)))"

definition chain_getters :: "chain \<Rightarrow> getters" where
  "chain_getters s = \<lparr>g_active = account_getter acc_active s, g_owner = account_getter acc_owner s,
     g_basic = account_getter acc_basic s, g_master_content = content_getter con_manage_master s,
     g_comp_content = content_getter con_manage_comp s\<rparr>"

definition is_authorized_to_execute :: "proposal \<Rightarrow> chain \<Rightarrow> bool" where
  "is_authorized_to_execute p s \<longleftrightarrow>
     (let req = get_required_authorities (tx_operations (prop_proposed_transaction p));
          r = (if \<not> has_hardfork MUSE_HARDFORK_0_3 s
               then verify_authority_v1 req (prop_available_key_approvals p) (chain_getters s) MUSE_MAX_SIG_CHECK_DEPTH
                      (prop_available_active_approvals p) (prop_available_owner_approvals p) (prop_available_basic_approvals p)
               else verify_authority_v2 req (prop_available_key_approvals p) (chain_getters s) True MUSE_MAX_SIG_CHECK_DEPTH
                      (prop_available_active_approvals p) (prop_available_owner_approvals p) (prop_available_basic_approvals p))
      in (case r of Inl e \<Rightarrow> False | Inr _ \<Rightarrow> True))"

section \<open>Creating a proposal\<close>

text \<open>\<open>proposal_op_visitor\<close>.\<close>

fun proposal_op_check :: "chain \<Rightarrow> operation \<Rightarrow> unit res"
  and proposal_ops_check :: "chain \<Rightarrow> operation list \<Rightarrow> unit res" where
  "proposal_op_check s (Account_create x) = (if has_hardfork MUSE_HARDFORK_0_3 s then validate_authority (ac_basic x) else Inr ())"
| "proposal_op_check s (Account_update x) =
     (if has_hardfork MUSE_HARDFORK_0_3 s then validate_opt validate_authority (au_basic x) else Inr ())"
| "proposal_op_check s (Proposal_delete x) = assertE (has_hardfork MUSE_HARDFORK_0_3 s)"
| "proposal_op_check s (Proposal_create _ ops _) = proposal_ops_check s ops"
| "proposal_op_check s _ = Inr ()"
| "proposal_ops_check s [] = Inr ()"
| "proposal_ops_check s (op # ops) = bindE (proposal_op_check s op) (\<lambda>_. proposal_ops_check s ops)"

text \<open>\<open>authority_collector::collect\<close>, with the number of levels that are left.\<close>

definition collect_account :: "string \<Rightarrow> account \<Rightarrow> string list \<Rightarrow> string list" where
  "collect_account n a dest = (if length (key_auths (acc_active a)) > 0 then ins [n] dest else dest)"

fun collect :: "nat \<Rightarrow> authority \<Rightarrow> chain \<Rightarrow> string list \<Rightarrow> string list res" where
  "collect 0 auth s dest =
     foldE (\<lambda>(n, w) dest. bindE (get_account n s) (\<lambda>(k, a). Inr (collect_account n a dest))) (account_auths auth) dest"
| "collect (Suc r) auth s dest =
     foldE (\<lambda>(n, w) dest. bindE (get_account n s) (\<lambda>(k, a). collect r (acc_active a) s (collect_account n a dest)))
       (account_auths auth) dest"

definition collect_content :: "(content \<Rightarrow> authority) \<Rightarrow> string list \<Rightarrow> chain \<Rightarrow> string list \<Rightarrow> string list res" where
  "collect_content f urls s =
     foldE (\<lambda>u dest. bindE (get_content u s) (\<lambda>(k, c). collect MUSE_MAX_SIG_CHECK_DEPTH (f c) s dest)) urls"

text \<open>The approvals a new proposal needs. From hardfork 0.3 on basic approvals covered by active or owner ones are
  dropped, other approvals do not mix with basic ones, and the accounts that manage content are added.\<close>

definition required_approvals :: "operation list \<Rightarrow> chain \<Rightarrow> required_auths res" where
  "required_approvals ops s =
     (let req = get_required_authorities ops in
      if has_hardfork MUSE_HARDFORK_0_3 s then
        let basic = filter (\<lambda>a. \<not> List.member (req_active req) a \<and> \<not> List.member (req_owner req) a) (req_basic req) in
        guardE (length basic = 0 \<or> length (req_active req) = 0 \<and> length (req_owner req) = 0 \<and>
          length (req_master_content req) = 0 \<and> length (req_comp_content req) = 0 \<and> length (req_other req) = 0) (
        bindE (collect_content con_manage_master (req_master_content req) s (req_active req)) (\<lambda>act.
        bindE (collect_content con_manage_comp (req_comp_content req) s act) (\<lambda>act.
        Inr (req\<lparr>req_active := act, req_basic := basic\<rparr>))))
      else Inr req)"

definition can_veto :: "operation list \<Rightarrow> string list" where
  "can_veto ops = (let req = get_required_authorities ops in ins (req_basic req) (ins (req_owner req) (ins (req_active req) [])))"

definition new_proposal :: "time_sec \<Rightarrow> operation list \<Rightarrow> nat option \<Rightarrow> required_auths \<Rightarrow> chain \<Rightarrow> proposal" where
  "new_proposal expiration ops review req s =
     \<lparr>prop_expiration_time = expiration,
      prop_review_period_time = (case review of None \<Rightarrow> None | Some t \<Rightarrow> Some (time_add (head_block_time s) t)),
      prop_proposed_transaction = \<lparr>tx_ref_block_num = 0, tx_ref_block_prefix = 0, tx_expiration = expiration, tx_operations = ops\<rparr>,
      prop_required_active_approvals = filter (\<lambda>a. \<not> List.member (req_owner req) a) (req_active req),
      prop_available_active_approvals = [],
      prop_required_owner_approvals = req_owner req, prop_available_owner_approvals = [],
      prop_required_basic_approvals = req_basic req, prop_available_basic_approvals = [],
      prop_required_master_content_approvals = req_master_content req, prop_required_comp_content_approvals = req_comp_content req,
      prop_available_key_approvals = [], prop_can_veto = can_veto ops\<rparr>"

definition proposal_create_apply :: "env \<Rightarrow> time_sec \<Rightarrow> operation list \<Rightarrow> nat option \<Rightarrow> chain \<Rightarrow> chain res" where
  "proposal_create_apply e expiration ops review s =
     bindE (proposal_ops_check s ops) (\<lambda>_.
     guardE (expiration > head_block_time s) (
     guardE (expiration \<le> time_add (head_block_time s) (maximum_proposal_lifetime (dgp s))) (
     guardE (case review of None \<Rightarrow> True | Some t \<Rightarrow> int t < int expiration - int (head_block_time s)) (
     guardE (list_all (\<lambda>op. \<not> is_proposal_operation op) ops) (
     bindE (transaction_validate e ops) (\<lambda>_.
     bindE (required_approvals ops s) (\<lambda>req.
     Inr (s\<lparr>proposals := idx_create (new_proposal expiration ops review req s) (proposals s)\<rparr>))))))))"

section \<open>Approving and vetoing\<close>

definition change_proposals :: "(proposal index \<Rightarrow> proposal index res) \<Rightarrow> chain \<Rightarrow> chain res" where
  "change_proposals f s = bindE (f (proposals s)) (\<lambda>ix. Inr (s\<lparr>proposals := ix\<rparr>))"

definition all_in :: "'a list \<Rightarrow> 'a list \<Rightarrow> bool" where "all_in xs ys \<longleftrightarrow> list_all (\<lambda>x. List.member ys x) xs"
definition none_in :: "'a list \<Rightarrow> 'a list \<Rightarrow> bool" where "none_in xs ys \<longleftrightarrow> list_all (\<lambda>x. \<not> List.member ys x) xs"

definition proposal_update_check :: "proposal_update_operation \<Rightarrow> proposal \<Rightarrow> chain \<Rightarrow> unit res" where
  "proposal_update_check o1 p s =
     guardE (case prop_review_period_time p of None \<Rightarrow> True
             | Some t \<Rightarrow> head_block_time s \<le> t \<longrightarrow> pu_active_approvals_to_add o1 = [] \<and> pu_owner_approvals_to_add o1 = []) (
     guardE (all_in (pu_active_approvals_to_remove o1) (prop_available_active_approvals p)) (
     guardE (all_in (pu_owner_approvals_to_remove o1) (prop_available_owner_approvals p)) (
     if has_hardfork MUSE_HARDFORK_0_3 s then
       guardE (none_in (pu_active_approvals_to_add o1) (prop_available_active_approvals p)) (
       guardE (all_in (pu_active_approvals_to_add o1) (prop_required_active_approvals p @ prop_required_basic_approvals p)) (
       guardE (none_in (pu_owner_approvals_to_add o1) (prop_available_owner_approvals p)) (
       assertE (all_in (pu_owner_approvals_to_add o1)
         (prop_required_owner_approvals p @ prop_required_active_approvals p @ prop_required_basic_approvals p)))))
     else Inr ())))"

definition erase_all :: "'a list \<Rightarrow> 'a list \<Rightarrow> 'a list" where "erase_all xs ys = filter (\<lambda>y. \<not> List.member xs y) ys"

definition update_approvals :: "proposal_update_operation \<Rightarrow> proposal \<Rightarrow> proposal" where
  "update_approvals o1 p = p
     \<lparr>prop_available_active_approvals :=
        erase_all (pu_active_approvals_to_remove o1) (ins (pu_active_approvals_to_add o1) (prop_available_active_approvals p)),
      prop_available_owner_approvals :=
        erase_all (pu_owner_approvals_to_remove o1) (ins (pu_owner_approvals_to_add o1) (prop_available_owner_approvals p)),
      prop_available_key_approvals :=
        erase_all (pu_key_approvals_to_remove o1) (ins (pu_key_approvals_to_add o1) (prop_available_key_approvals p))\<rparr>"

text \<open>The evaluator up to the decision whether to execute: the new state and that decision.\<close>

definition proposal_update_approve :: "proposal_update_operation \<Rightarrow> chain \<Rightarrow> (bool \<times> chain) res" where
  "proposal_update_approve o1 s =
     bindE (idx_get (pu_proposal o1) (proposals s)) (\<lambda>p.
     bindE (proposal_update_check o1 p s) (\<lambda>_.
     bindE (change_proposals (idx_modify (pu_proposal o1) (\<lambda>p. Inr (update_approvals o1 p))) s) (\<lambda>s.
     Inr (prop_review_period_time p = None \<and> is_authorized_to_execute (update_approvals o1 p) s, s))))"

text \<open>With the execution of a proposal as a parameter; an exception raised by it is caught and its changes are undone.\<close>

definition proposal_update_apply ::
  "(nat \<Rightarrow> chain \<Rightarrow> chain run) \<Rightarrow> proposal_update_operation \<Rightarrow> chain \<Rightarrow> chain run" where
  "proposal_update_apply execute o1 s =
     bindR (Some (proposal_update_approve o1 s)) (\<lambda>(authorized, s).
     if authorized then (case execute (pu_proposal o1) s of None \<Rightarrow> None | Some (Inl e) \<Rightarrow> Some (Inr s) | Some (Inr s') \<Rightarrow> Some (Inr s'))
     else Some (Inr s))"

definition proposal_delete_apply :: "proposal_delete_operation \<Rightarrow> chain \<Rightarrow> chain res" where
  "proposal_delete_apply o1 s =
     guardE (has_hardfork MUSE_HARDFORK_0_3 s) (
     bindE (idx_get (pd_proposal o1) (proposals s)) (\<lambda>p.
     guardE (List.member (prop_can_veto p) (pd_vetoer o1)) (change_proposals (idx_remove (pd_proposal o1)) s)))"

section \<open>The dispatcher\<close>

text \<open>The evaluators registered by \<open>initialize_evaluators\<close>; virtual operations have none.\<close>

fun evaluate :: "env \<Rightarrow> operation \<Rightarrow> chain \<Rightarrow> chain res" where
  "evaluate e (Vote x) s = vote_apply x s"
| "evaluate e (Content x) s = content_apply e x s"
| "evaluate e (Content_update x) s = content_update_apply e x s"
| "evaluate e (Content_approve x) s = content_approve_apply x s"
| "evaluate e (Content_disable x) s = content_disable_apply x s"
| "evaluate e (Transfer x) s = transfer_apply x s"
| "evaluate e (Transfer_to_vesting x) s = transfer_to_vesting_apply x s"
| "evaluate e (Withdraw_vesting x) s = withdraw_vesting_apply e x s"
| "evaluate e (Limit_order_create x) s = limit_order_create_apply x s"
| "evaluate e (Limit_order_create2 x) s = limit_order_create2_apply x s"
| "evaluate e (Limit_order_cancel x) s = limit_order_cancel_apply x s"
| "evaluate e (Feed_publish x) s = feed_publish_apply x s"
| "evaluate e (Convert x) s = convert_apply x s"
| "evaluate e (Account_create x) s = account_create_apply e x s"
| "evaluate e (Account_update x) s = account_update_apply e x s"
| "evaluate e (Witness_update x) s = witness_update_apply x s"
| "evaluate e (Account_witness_vote x) s = account_witness_vote_apply x s"
| "evaluate e (Account_witness_proxy x) s = account_witness_proxy_apply x s"
| "evaluate e (Streaming_platform_update x) s = streaming_platform_update_apply x s"
| "evaluate e (Account_streaming_platform_vote x) s = account_streaming_platform_vote_apply x s"
| "evaluate e (Streaming_platform_report x) s = streaming_platform_report_apply x s"
| "evaluate e (Asset_create x) s = asset_create_apply x s"
| "evaluate e (Asset_update x) s = asset_update_apply x s"
| "evaluate e (Asset_issue x) s = asset_issue_apply x s"
| "evaluate e (Asset_reserve x) s = asset_reserve_apply x s"
| "evaluate e (Custom x) s = custom_apply x s"
| "evaluate e (Report_over_production x) s = report_over_production_apply x s"
| "evaluate e (Custom_json x) s = custom_json_apply e x s"
| "evaluate e (Set_withdraw_vesting_route x) s = set_withdraw_vesting_route_apply x s"
| "evaluate e (Challenge_authority x) s = challenge_authority_apply x s"
| "evaluate e (Prove_authority x) s = prove_authority_apply x s"
| "evaluate e (Request_account_recovery x) s = request_account_recovery_apply x s"
| "evaluate e (Recover_account x) s = recover_account_apply x s"
| "evaluate e (Change_recovery_account x) s = change_recovery_account_apply x s"
| "evaluate e (Escrow_transfer x) s = escrow_transfer_apply x s"
| "evaluate e (Escrow_dispute x) s = escrow_dispute_apply x s"
| "evaluate e (Escrow_release x) s = escrow_release_apply x s"
| "evaluate e (Proposal_create expiration ops review) s = proposal_create_apply e expiration ops review s"
| "evaluate e (Proposal_delete x) s = proposal_delete_apply x s"
| "evaluate e (Friendship x) s = friendship_apply x s"
| "evaluate e (Unfriend x) s = unfriend_apply x s"
| "evaluate e (Balance_claim x) s = balance_claim_apply e x s"
| "evaluate e (Virtual v) s = Inl Assert_exn"
| "evaluate e (Proposal_update x) s = Inl Assert_exn"

text \<open>\<open>apply_operation\<close> with the execution of proposals as a parameter: \<open>proposal_update\<close> is the one operation that uses it.\<close>

definition dispatch :: "(nat \<Rightarrow> chain \<Rightarrow> chain run) \<Rightarrow> env \<Rightarrow> operation \<Rightarrow> chain \<Rightarrow> chain run" where
  "dispatch execute e op s =
     (case op of Proposal_update x \<Rightarrow> proposal_update_apply execute x s | _ \<Rightarrow> Some (evaluate e op s))"

text \<open>The operations of the proposal are those it had when the execution began. A proposal that has removed itself by
  then is removed a second time through a reference to a dead object; the model raises.\<close>

primrec push_proposal :: "nat \<Rightarrow> env \<Rightarrow> nat \<Rightarrow> chain \<Rightarrow> chain run" where
  "push_proposal 0 e pid s = None"
| "push_proposal (Suc n) e pid s =
     bindR (Some (idx_get pid (proposals s))) (\<lambda>p.
     bindR (foldR (dispatch (push_proposal n e) e) (tx_operations (prop_proposed_transaction p)) s) (\<lambda>s.
     Some (change_proposals (idx_remove pid) s)))"

definition apply_operation :: "nat \<Rightarrow> env \<Rightarrow> operation \<Rightarrow> chain \<Rightarrow> chain run" where
  "apply_operation n e op s = dispatch (push_proposal n e) e op s"

section \<open>Expiration\<close>

text \<open>The proposals that have expired, by expiration and id.\<close>

definition expired_proposals :: "chain \<Rightarrow> (nat \<times> proposal) list" where
  "expired_proposals s =
     sort_key (\<lambda>(k, p). prop_expiration_time p) (filter (\<lambda>(k, p). prop_expiration_time p \<le> head_block_time s) (rows (proposals s)))"

definition expire_proposal :: "nat \<Rightarrow> env \<Rightarrow> nat \<Rightarrow> proposal \<Rightarrow> chain \<Rightarrow> chain run" where
  "expire_proposal n e pid p s =
     (if is_authorized_to_execute p s
      then (case push_proposal n e pid s of None \<Rightarrow> None | Some (Inl x) \<Rightarrow> Some (change_proposals (idx_remove pid) s)
            | Some (Inr s') \<Rightarrow> Some (Inr s'))
      else Some (change_proposals (idx_remove pid) s))"

text \<open>The loop takes the first expired proposal until there is none; each round removes the one it takes, so one round per
  proposal is enough.\<close>

primrec expire_loop :: "nat \<Rightarrow> nat \<Rightarrow> env \<Rightarrow> chain \<Rightarrow> chain run" where
  "expire_loop 0 n e s = (case expired_proposals s of [] \<Rightarrow> Some (Inr s) | _ \<Rightarrow> None)"
| "expire_loop (Suc k) n e s =
     (case expired_proposals s of [] \<Rightarrow> Some (Inr s) | (pid, p) # _ \<Rightarrow> bindR (expire_proposal n e pid p s) (expire_loop k n e))"

definition clear_expired_proposals :: "nat \<Rightarrow> env \<Rightarrow> chain \<Rightarrow> chain run" where
  "clear_expired_proposals n e s =
     (if \<not> has_hardfork MUSE_HARDFORK_0_3 s then Some (Inr s) else expire_loop (length (rows (proposals s))) n e s)"

text \<open>Evaluation on concrete states.\<close>

lemmas proposals_eval [chain_eval] =
  bindR_def MUSE_MAX_SIG_CHECK_DEPTH_def account_getter_def content_getter_def chain_getters_def is_authorized_to_execute_def
  collect_account_def collect_content_def required_approvals_def can_veto_def new_proposal_def proposal_create_apply_def
  change_proposals_def all_in_def none_in_def proposal_update_check_def erase_all_def update_approvals_def
  proposal_update_approve_def proposal_update_apply_def proposal_delete_apply_def dispatch_def apply_operation_def
  expired_proposals_def expire_proposal_def clear_expired_proposals_def

end
