(* ===== verification/Frames.thy ===== *)
theory Frames
  imports Proposals Account_Views Reward_Laws
begin

text \<open>
  What a step of the chain leaves alone. A small calculus of relations between the state before and after a call:
  \<open>ensures R s r\<close> says that if the call \<open>r\<close>, started in \<open>s\<close>, returns, then its state is related to \<open>s\<close>. For a reflexive and
  transitive relation the rules below follow the sequencing, branching and looping of the code. The first such relation
  is \<open>frame\<close>: the names and proxies of the accounts, the number, id and time of the head block, the hardforks, the schedule, the proposals, the vesting routes
  and the transaction log are as before.
\<close>

section \<open>Relations along a call\<close>

definition ensures :: "(chain \<Rightarrow> chain \<Rightarrow> bool) \<Rightarrow> chain \<Rightarrow> chain res \<Rightarrow> bool" where
  "ensures R s r \<longleftrightarrow> (\<forall>t. r = Inr t \<longrightarrow> R s t)"

definition ensures_snd :: "(chain \<Rightarrow> chain \<Rightarrow> bool) \<Rightarrow> chain \<Rightarrow> ('x \<times> chain) res \<Rightarrow> bool" where
  "ensures_snd R s r \<longleftrightarrow> (\<forall>x t. r = Inr (x, t) \<longrightarrow> R s t)"

lemma ensuresD: "ensures R s r \<Longrightarrow> r = Inr t \<Longrightarrow> R s t" "ensures_snd R s q \<Longrightarrow> q = Inr (x, t) \<Longrightarrow> R s t"
  by (simp_all add: ensures_def ensures_snd_def)

lemma ensures_error [simp]: "ensures R s (Inl e)" "ensures_snd R s (Inl e)"
  by (simp_all add: ensures_def ensures_snd_def)

lemma ensures_guard: "(P \<Longrightarrow> ensures R s r) \<Longrightarrow> ensures R s (guardE P r)" "(P \<Longrightarrow> ensures_snd R s q) \<Longrightarrow> ensures_snd R s (guardE P q)"
  by (simp_all add: guardE_def)

lemma ensures_if:
  "(P \<Longrightarrow> ensures R s r) \<Longrightarrow> (\<not> P \<Longrightarrow> ensures R s r') \<Longrightarrow> ensures R s (if P then r else r')"
  "(P \<Longrightarrow> ensures_snd R s q) \<Longrightarrow> (\<not> P \<Longrightarrow> ensures_snd R s q') \<Longrightarrow> ensures_snd R s (if P then q else q')"
  by simp_all

lemma ensures_option:
  "(x = None \<Longrightarrow> ensures R s r) \<Longrightarrow> (\<And>y. x = Some y \<Longrightarrow> ensures R s (f y)) \<Longrightarrow>
   ensures R s (case x of None \<Rightarrow> r | Some y \<Rightarrow> f y)"
  by (cases x) simp_all

lemma ensures_prod: "(\<And>a b. x = (a, b) \<Longrightarrow> ensures R s (f a b)) \<Longrightarrow> ensures R s (case x of (a, b) \<Rightarrow> f a b)"
  "(\<And>a b. x = (a, b) \<Longrightarrow> ensures_snd R s (g a b)) \<Longrightarrow> ensures_snd R s (case x of (a, b) \<Rightarrow> g a b)"
  by (cases x; simp)+

lemma ensures_let: "ensures R s (f x) \<Longrightarrow> ensures R s (Let x f)" "ensures_snd R s (g x) \<Longrightarrow> ensures_snd R s (Let x g)"
  by (simp_all add: Let_def)

lemma ensures_bind:
  "(\<And>x. r = Inr x \<Longrightarrow> ensures R s (f x)) \<Longrightarrow> ensures R s (bindE r f)"
  "(\<And>x. r = Inr x \<Longrightarrow> ensures_snd R s (g x)) \<Longrightarrow> ensures_snd R s (bindE r g)"
  by (cases r; simp)+

lemmas ensures_branch = ensures_guard ensures_if ensures_option ensures_prod ensures_let

locale step_relation =
  fixes R :: "chain \<Rightarrow> chain \<Rightarrow> bool"
  assumes R_refl: "R s s" and R_trans: "R s t \<Longrightarrow> R t u \<Longrightarrow> R s u"
begin

lemma ensures_same [simp]: "ensures R s (Inr s)" "ensures_snd R s (Inr (x, s))"
  by (simp_all add: ensures_def ensures_snd_def R_refl)

lemma ensures_state: "R s t \<Longrightarrow> ensures R t r \<Longrightarrow> ensures R s r" "R s t \<Longrightarrow> ensures_snd R t q \<Longrightarrow> ensures_snd R s q"
  by (auto simp: ensures_def ensures_snd_def intro: R_trans)

lemma ensures_seq:
  "ensures R s r \<Longrightarrow> (\<And>t. r = Inr t \<Longrightarrow> ensures R t (f t)) \<Longrightarrow> ensures R s (bindE r f)"
  "ensures R s r \<Longrightarrow> (\<And>t. r = Inr t \<Longrightarrow> ensures_snd R t (g t)) \<Longrightarrow> ensures_snd R s (bindE r g)"
  by (auto simp: ensures_def ensures_snd_def bindE_Inr_iff intro: R_trans)

lemma ensures_seq_snd:
  "ensures_snd R s q \<Longrightarrow> (\<And>x t. q = Inr (x, t) \<Longrightarrow> ensures R t (f x t)) \<Longrightarrow> ensures R s (bindE q (\<lambda>(x, t). f x t))"
  "ensures_snd R s q \<Longrightarrow> (\<And>x t. q = Inr (x, t) \<Longrightarrow> ensures_snd R t (g x t)) \<Longrightarrow> ensures_snd R s (bindE q (\<lambda>(x, t). g x t))"
  by (auto simp: ensures_def ensures_snd_def bindE_Inr_iff intro: R_trans)

lemma ensures_fold:
  assumes "\<And>x t. x \<in> set xs \<Longrightarrow> ensures R t (f x t)"
  shows "ensures R s (foldE f xs s)"
  unfolding ensures_def
proof (intro allI impI)
  fix t assume "foldE f xs s = Inr t"
  then show "R s t"
    by (rule foldE_invariant [where I = "R s"]) (use assms R_refl R_trans in \<open>auto simp: ensures_def\<close>)
qed

lemmas ensures_rules = ensures_seq_snd ensures_seq ensures_branch ensures_bind

end

section \<open>Steps that keep the frame\<close>

definition ident :: "account \<Rightarrow> string \<times> string" where "ident a = (acc_name a, acc_proxy a)"

definition frame :: "chain \<Rightarrow> chain \<Rightarrow> bool" where
  "frame s t \<longleftrightarrow> same_view ident {} s t \<and> next_instance (accounts t) = next_instance (accounts s) \<and> hardforks t = hardforks s \<and>
     wso t = wso s \<and> feed_history t = feed_history s \<and> proposals t = proposals s \<and>
     transaction_objects t = transaction_objects s \<and> block_summaries t = block_summaries s \<and>
     withdraw_routes t = withdraw_routes s"

interpretation framed: step_relation frame
  by unfold_locales (auto simp: frame_def intro: same_view_trans)

lemma frame_tables:
  "accounts t = accounts s \<Longrightarrow> dgp t = dgp s \<Longrightarrow> hardforks t = hardforks s \<Longrightarrow> wso t = wso s \<Longrightarrow> feed_history t = feed_history s \<Longrightarrow>
   proposals t = proposals s \<Longrightarrow> transaction_objects t = transaction_objects s \<Longrightarrow> block_summaries t = block_summaries s \<Longrightarrow>
   withdraw_routes t = withdraw_routes s \<Longrightarrow> frame s t"
  by (simp add: frame_def same_view_accounts)

lemma frame_push [simp]: "frame s (push_virtual_op v t) \<longleftrightarrow> frame s t" "frame (push_virtual_op v s) t \<longleftrightarrow> frame s t"
  by (simp_all add: frame_def) (simp_all add: push_virtual_op_def)

lemma ensures_frame_push [simp]: "ensures frame (push_virtual_op v s) r \<longleftrightarrow> ensures frame s r" "ensures frame s (Inr (push_virtual_op v s))"
  "ensures_snd frame (push_virtual_op v s) q \<longleftrightarrow> ensures_snd frame s q"
  by (simp_all add: ensures_def ensures_snd_def) (simp_all add: framed.R_refl)

lemma frame_account: "(\<And>a b. f a = Inr b \<Longrightarrow> ident b = ident a) \<Longrightarrow> ensures frame s (modify_account k f s)"
  unfolding ensures_def
proof (intro allI impI)
  fix t assume f: "\<And>a b. f a = Inr b \<Longrightarrow> ident b = ident a" and t: "modify_account k f s = Inr t"
  have "same_view ident {} s t" by (rule same_view_account(2) [OF t f])
  then show "frame s t" using t by (auto simp: frame_def modify_account_Inr)
qed

lemma frame_dgp: "(\<And>p q. f p = Inr q \<Longrightarrow> head_of q = head_of p) \<Longrightarrow> ensures frame s (modify_dgp f s)"
  unfolding ensures_def
proof (intro allI impI)
  fix t assume f: "\<And>p q. f p = Inr q \<Longrightarrow> head_of q = head_of p" and t: "modify_dgp f s = Inr t"
  have "same_view ident {} s t" by (rule same_view_dgp [OF t f])
  then show "frame s t" using t by (auto simp: frame_def modify_dgp_def bindE_Inr_iff)
qed

lemma frame_objects: "ensures frame s (modify_witness k f s)" "ensures frame s (modify_platform k g s)"
  "ensures frame s (modify_content k h s)" "ensures frame s (modify_order k i s)" "ensures frame s (remove_order k s)"
  by (auto simp: ensures_def modify_witness_def modify_platform_def modify_content_def modify_order_def remove_order_def
      bindE_Inr_iff intro: frame_tables)


lemma frame_witness_vote: "ensures frame s (adjust_witness_vote w d s)" "ensures frame s (adjust_streaming_platform_vote p d s)"
  by (simp_all add: adjust_witness_vote_def adjust_streaming_platform_vote_def Let_def frame_objects)

lemma frame_votes: "ensures frame s (adjust_witness_votes k d s)" "ensures frame s (adjust_streaming_platform_votes k d s)"
  unfolding adjust_witness_votes_def adjust_streaming_platform_votes_def
  by (rule framed.ensures_fold, rule frame_witness_vote)+

lemma ident_add_proxied: "add_proxied i d a = Inr b \<Longrightarrow> ident b = ident a"
  by (auto simp: res_simps ident_def)

lemma ident_add_proxied_fold: "foldE (\<lambda>i. add_proxied (f i) (g i)) is a = Inr b \<Longrightarrow> ident b = ident a"
  by (rule foldE_preserves) (auto dest: ident_add_proxied)

lemma frame_adjust_proxied: "ensures frame s (adjust_proxied_witness_votes k d depth s)"
proof (induction k d depth s rule: adjust_proxied_witness_votes.induct)
  case (1 k d depth s)
  show ?case
    by (subst adjust_proxied_witness_votes.simps)
      (rule framed.ensures_rules framed.ensures_same frame_votes frame_account 1 | erule ident_add_proxied | assumption | erule sym)+
qed

lemma frame_adjust_proxied_array: "ensures frame s (adjust_proxied_witness_votes_array k d depth s)"
proof (induction k d depth s rule: adjust_proxied_witness_votes_array.induct)
  case (1 k d depth s)
  show ?case
    by (subst adjust_proxied_witness_votes_array.simps)
      (rule framed.ensures_rules framed.ensures_same frame_votes frame_account 1 | erule ident_add_proxied_fold | assumption | erule sym)+
qed

lemma frame_add_score: "ensures frame s (modify_account k (add_score d) s)"
  by (rule frame_account) (auto simp: add_score_def ident_def)

lemma frame_scores: "ensures frame s (recursive_recalculate_score k d s)" "ensures frame s (recalculate_score k s)"
  unfolding recursive_recalculate_score_def recalculate_score_def
  by (rule framed.ensures_rules framed.ensures_same framed.ensures_fold frame_add_score frame_account | auto simp: ident_def)+

lemma frame_adjust_balance: "ensures frame s (adjust_balance k d s)"
proof -
  have p: "ensures frame s (pay_interest k i s)" for i s
    unfolding pay_interest_def
    by (rule framed.ensures_rules frame_account frame_dgp | auto simp: res_simps ident_def)+
  have a: "ensures frame s (accrue_interest k s)" for s
    unfolding accrue_interest_def
    by (rule framed.ensures_rules frame_account p framed.ensures_same ensures_frame_push | auto simp: ident_def)+
  have o: "ensures frame s (adjust_other_balance k d s)"
    by (auto simp: ensures_def adjust_other_balance_def res_simps intro: frame_tables framed.R_refl split: if_splits option.splits)
  show ?thesis unfolding adjust_balance_def
    by (rule framed.ensures_rules a o frame_account | auto simp: res_simps ident_def)+
qed

lemma frame_adjust_supply: "ensures frame s (adjust_supply d v s)"
  unfolding adjust_supply_def Let_def by (rule frame_dgp) (auto simp: res_simps split: if_splits)

lemma frame_create: "ensures_snd frame s (create_mbd k m s)" "ensures_snd frame s (create_vesting k m s)" "ensures frame s (pay_fee k d s)"
proof -
  show "ensures_snd frame s (create_mbd k m s)" unfolding create_mbd_def
    by (rule framed.ensures_rules frame_adjust_balance frame_adjust_supply framed.ensures_same)+
  show "ensures_snd frame s (create_vesting k m s)" unfolding create_vesting_def
    by (rule framed.ensures_rules frame_account frame_dgp frame_adjust_proxied frame_scores framed.ensures_same
        | auto simp: res_simps add_vesting_def ident_def)+
  show "ensures frame s (pay_fee k d s)" unfolding pay_fee_def
    by (rule framed.ensures_rules frame_adjust_balance frame_adjust_supply framed.ensures_same)+
qed

lemma frame_cancel_order: "ensures frame s (cancel_order k s)"
  unfolding cancel_order_def by (rule framed.ensures_rules frame_adjust_balance frame_objects)+

lemma frame_fill_order: "ensures_snd frame s (fill_order k p r s)"
  unfolding fill_order_def
  by (rule framed.ensures_rules frame_adjust_balance frame_objects frame_cancel_order framed.ensures_same)+

lemma frame_fill_push: "ensures_snd frame s (fill_order k p r (push_virtual_op v s))"
  using frame_fill_order [of "push_virtual_op v s"] by simp

lemma frame_match: "ensures_snd frame s (match_orders n m p s)"
  unfolding match_orders_def
  by (rule framed.ensures_rules framed.ensures_same frame_fill_order frame_fill_push)+

lemma frame_match_loop: "ensures frame s (match_loop n ords s)"
  by (induction n ords s rule: match_loop.induct)
    (simp_all, rule framed.ensures_rules framed.ensures_same frame_match | assumption)+

lemma frame_apply_order: "ensures_snd frame s (apply_order n s)"
  unfolding apply_order_def by (rule framed.ensures_rules framed.ensures_same frame_match_loop)+

lemma frame_pay_distributions: "ensures_snd frame s (pay_distributions url p ds t s)"
proof (induction ds arbitrary: t s)
  case (Cons d ds)
  have push: "ensures_snd frame s (pay_distributions url p ds t (push_virtual_op v s))" for t s v
    using Cons.IH [where s = "push_virtual_op v s"] by simp
  show ?case unfolding pay_distributions.simps by (rule framed.ensures_rules frame_create framed.ensures_same push)+
qed simp

lemma frame_pay_content: "ensures frame s (pay_to_content_master c d s)" "ensures frame s (pay_to_content_comp c d s)"
  unfolding pay_to_content_master_def pay_to_content_comp_def keep_master_def keep_comp_def
  by (rule framed.ensures_rules frame_objects frame_pay_distributions framed.ensures_same)+

section \<open>Chains of proxies\<close>

text \<open>The account that an account has chosen as its proxy, and the absence of loops.\<close>

definition proxy_next :: "chain \<Rightarrow> nat \<Rightarrow> nat option" where
  "proxy_next s k =
     (case idx_find k (accounts s) of None \<Rightarrow> None
      | Some a \<Rightarrow> if acc_proxy a = [] then None else map_option fst (find_account (acc_proxy a) s))"

definition proxy_rel :: "chain \<Rightarrow> (nat \<times> nat) set" where "proxy_rel s = {(k, j). proxy_next s k = Some j}"

definition no_proxy_loops :: "chain \<Rightarrow> bool" where "no_proxy_loops s \<longleftrightarrow> acyclic (proxy_rel s)"

text \<open>The table of names and proxies decides both.\<close>

definition idents :: "chain \<Rightarrow> (nat \<times> string \<times> string) list" where
  "idents s = map (\<lambda>(k, a). (k, ident a)) (rows (accounts s))"

lemma map_of_idents: "map_of (idents s) k = view_of ident s k"
proof -
  have "map_of (map (\<lambda>(k, a). (k, ident a)) t) k = map_option ident (map_of t k)" for t by (induction t) auto
  then show ?thesis by (simp add: idents_def view_of_def idx_find_def)
qed

lemma proxy_next_idents:
  "proxy_next s k =
     (case map_of (idents s) k of None \<Rightarrow> None
      | Some (n, p) \<Rightarrow> if p = [] then None else map_option fst (find (\<lambda>(j, m, q). m = p) (idents s)))"
proof -
  have m: "map_of (idents s) k = map_option ident (idx_find k (accounts s))"
    by (simp add: map_of_idents view_of_def)
  have f: "map_option fst (find (\<lambda>(j, m, q). m = p) (map (\<lambda>(k, a). (k, ident a)) t)) = map_option fst (find (\<lambda>(j, a). acc_name a = p) t)"
    for p and t :: "(nat \<times> account) list"
    by (induction t) (auto simp: ident_def)
  show ?thesis unfolding proxy_next_def m find_account_def idx_by_def f [of _ "rows (accounts s)", folded idents_def]
    by (auto simp: ident_def split: option.splits)
qed

lemma idents_same:
  assumes "same_view ident {} s t" "index_ok (accounts s)"
  shows "idents t = idents s"
proof (rule table_ext)
  have k: "map fst (idents u) = map fst (rows (accounts u))" for u by (simp add: idents_def case_prod_unfold)
  show "table_ok (idents t)" "table_ok (idents s)"
    using assms k by (simp_all add: table_ok_def index_ok_def same_view_def)
  show "map_of (idents t) = map_of (idents s)" using assms(1) by (simp add: fun_eq_iff map_of_idents same_view_def)
qed

lemma loops_idents:
  assumes "idents t = idents s"
  shows "no_proxy_loops t \<longleftrightarrow> no_proxy_loops s"
  unfolding no_proxy_loops_def proxy_rel_def proxy_next_idents assms ..

lemma loops_frame: "frame s t \<Longrightarrow> tables_ok s \<Longrightarrow> no_proxy_loops s \<Longrightarrow> no_proxy_loops t"
  using loops_idents [of t s] idents_same [of s t] by (auto simp: frame_def tables_ok_def)

end
