(* ===== verification/Evaluator_Contract.thy ===== *)
theory Evaluator_Contract
  imports Frames
begin

text \<open>
  What every evaluator respects. The contract of a relation with the basic steps of the evaluators is a locale: a change
  of an account that touches neither its holdings nor its votes, a change of a table outside the books, a payment from
  one account to another, a deposit into vesting shares, and so on. Inside it each evaluator is shown once to respect the
  relation. The locale is interpreted later on the conservation of the books together with the absence of proxy loops, and
  on the frame of time, hardforks, schedule and proposals, and on the bound of vesting routes.
\<close>

section \<open>The contract\<close>

definition unbooked :: "account \<Rightarrow> account \<Rightarrow> bool" where
  "unbooked a b \<longleftrightarrow> ident b = ident a \<and> acc_balance b = acc_balance a \<and> acc_mbd_balance b = acc_mbd_balance a \<and>
     acc_vesting_shares b = acc_vesting_shares a \<and> acc_proxied_vsf_votes b = acc_proxied_vsf_votes a \<and>
     (account_ok a \<longrightarrow> account_ok b)"

definition same_booked :: "chain \<Rightarrow> chain \<Rightarrow> bool" where
  "same_booked s t \<longleftrightarrow> accounts t = accounts s \<and> converts t = converts s \<and> orders t = orders s \<and> balances t = balances s \<and>
     contents t = contents s \<and> dgp t = dgp s \<and> hardforks t = hardforks s \<and> wso t = wso s \<and> feed_history t = feed_history s \<and>
     proposals t = proposals s \<and> transaction_objects t = transaction_objects s \<and> block_summaries t = block_summaries s \<and>
     withdraw_routes t = withdraw_routes s"

definition routes_bounded :: "withdraw_vesting_route index \<Rightarrow> bool" where
  "routes_bounded ix \<longleftrightarrow> list_all (\<lambda>(k, r). int (wr_percent r) \<le> MUSE_100_PERCENT) (rows ix)"

definition same_accumulated :: "content \<Rightarrow> content \<Rightarrow> bool" where
  "same_accumulated c d \<longleftrightarrow> con_accumulated_balance_master d = con_accumulated_balance_master c \<and>
     con_accumulated_balance_comp d = con_accumulated_balance_comp c"

text \<open>An update of content goes through several versions of it.\<close>

lemma accumulated_rules:
  "same_accumulated c x \<Longrightarrow> (\<And>d. same_accumulated c d \<Longrightarrow> same_accumulated c (f d)) \<Longrightarrow> same_accumulated c (Let x f)"
  "same_accumulated c d \<Longrightarrow> (\<And>m. same_accumulated c (g m)) \<Longrightarrow> same_accumulated c (case y of None \<Rightarrow> d | Some m \<Rightarrow> g m)"
  "same_accumulated c d \<Longrightarrow> same_accumulated c d' \<Longrightarrow> same_accumulated c (if P then d else d')"
  by (simp_all split: option.split)

lemma accumulated_fields [simp]:
  "same_accumulated c c" "same_accumulated c (d\<lparr>con_album_meta := m1\<rparr>) \<longleftrightarrow> same_accumulated c d"
  "same_accumulated c (d\<lparr>con_track_meta := m2\<rparr>) \<longleftrightarrow> same_accumulated c d" "same_accumulated c (d\<lparr>con_track_title := n\<rparr>) \<longleftrightarrow> same_accumulated c d"
  "same_accumulated c (d\<lparr>con_comp_meta := m3\<rparr>) \<longleftrightarrow> same_accumulated c d" "same_accumulated c (d\<lparr>con_distributions_master := ds\<rparr>) \<longleftrightarrow> same_accumulated c d"
  "same_accumulated c (d\<lparr>con_distributions_comp := ds\<rparr>) \<longleftrightarrow> same_accumulated c d" "same_accumulated c (d\<lparr>con_manage_master := au\<rparr>) \<longleftrightarrow> same_accumulated c d"
  "same_accumulated c (d\<lparr>con_manage_comp := au\<rparr>) \<longleftrightarrow> same_accumulated c d" "same_accumulated c (d\<lparr>con_playing_reward := r\<rparr>) \<longleftrightarrow> same_accumulated c d"
  "same_accumulated c (d\<lparr>con_publishers_share := r\<rparr>) \<longleftrightarrow> same_accumulated c d" "same_accumulated c (d\<lparr>con_last_update := t\<rparr>) \<longleftrightarrow> same_accumulated c d"
  by (simp_all add: same_accumulated_def)

lemma accumulated_update_side: "same_accumulated c (update_master o1 c)" "same_accumulated c (update_comp o1 c)"
  unfolding update_master_def update_comp_def Let_def [of "pm_third_party_publishers (con_comp_meta c)"]
  by (rule accumulated_rules | simp)+

lemma accumulated_update: "update_content o1 hf now c = Inr d \<Longrightarrow> same_accumulated c d"
proof -
  have push: "Let x (\<lambda>y. Inr (f y) :: content res) = Inr (Let x f)" for x :: content and f by simp
  show "update_content o1 hf now c = Inr d \<Longrightarrow> same_accumulated c d"
    unfolding update_content_def Let_def [of "pm_third_party_publishers (con_comp_meta c)"] push sum.inject
    by (erule subst, (rule accumulated_rules accumulated_update_side | simp)+)
qed

lemma update_account_unbooked: "update_account o1 now a = Inr b \<Longrightarrow> unbooked a b"
  by (cases "au_active o1"; cases "au_basic o1") (auto simp: update_account_def Let_def unbooked_def ident_def account_ok_def)

locale evaluator_contract = step_relation +
  assumes account_step: "(\<And>a b. f a = Inr b \<Longrightarrow> unbooked a b) \<Longrightarrow> ensures R s (modify_account k f s)"
    and table_step: "same_booked s t \<Longrightarrow> R s t"
    and content_step: "(\<And>c d. g c = Inr d \<Longrightarrow> same_accumulated c d) \<Longrightarrow> ensures R s (modify_content k g s)"
    and new_content_step: "con_accumulated_balance_master c + con_accumulated_balance_comp c = 0 \<Longrightarrow>
      R s (s\<lparr>contents := idx_create c (contents s)\<rparr>)"
    and transfer_step: "ensures R s (bindE (pay_from k a d s) (adjust_balance j d))"
    and vest_step: "asset_neg d = Inr n \<Longrightarrow> adjust_balance k n s = Inr t \<Longrightarrow> create_vesting j d t = Inr (v, u) \<Longrightarrow> R s u"
    and user_asset_step: "asset_id d \<noteq> MUSE_SYMBOL \<Longrightarrow> asset_id d \<noteq> MBD_SYMBOL \<Longrightarrow> ensures R s (adjust_balance k d s)"
    and cancel_step: "ensures R s (cancel_order k s)"
    and fee_step: "ensures R s (pay_fee k d s)"
    and payout_step: "ensures R s (pay_to_content_master cid (mk_asset 0 MUSE_SYMBOL) s)"
      "ensures R s (pay_to_content_comp cid (mk_asset 0 MUSE_SYMBOL) s)"
    and new_account_step: "0 \<le> amount (ac_fee ac) \<Longrightarrow> ensures R s (account_create_apply e ac s)"
    and convert_step: "ensures R s (convert_apply cv s)"
    and order_step: "(\<And>q. p = Inr q \<Longrightarrow> asset_id (base q) = asset_id d) \<Longrightarrow> ensures R s (place_order owner orderid d p fk ex s)"
    and claim_step: "ensures R s (balance_claim_apply e bc s)"
    and route_change: "(routes_bounded (withdraw_routes s) \<Longrightarrow> routes_bounded ix) \<Longrightarrow> R s (s\<lparr>withdraw_routes := ix\<rparr>)"
    and proxy_step: "awp_proxy wp \<noteq> awp_account wp \<Longrightarrow> ensures R s (account_witness_proxy_apply wp s)"
begin

lemma table_ensures: "same_booked s t \<Longrightarrow> ensures R s (Inr t)"
  by (simp add: ensures_def table_step)

lemma vest_rule:
  "(\<And>v u. ensures R u (f v u)) \<Longrightarrow>
   ensures R s (bindE (asset_neg d) (\<lambda>n. bindE (adjust_balance k n s) (\<lambda>t. bindE (create_vesting j d t) (\<lambda>(v, u). f v u))))"
  by (auto simp: ensures_def bindE_Inr_iff dest!: vest_step intro: R_trans)

lemma object_step: "ensures R s (modify_witness k f s)" "ensures R s (modify_platform k g s)"
  by (auto simp: ensures_def modify_witness_def modify_platform_def bindE_Inr_iff same_booked_def intro!: table_step)

lemma index_step:
  "ensures R s (change_recovery_index f2 s)" "ensures R s (change_change_recovery_index f3 s)"
  "ensures R s (change_content_votes f4 s)" "ensures R s (change_assets f5 s)" "ensures R s (create_witness w s)"
  "ensures R s (create_platform p s)"
  by (auto simp: ensures_def change_recovery_index_def change_change_recovery_index_def
      change_content_votes_def change_assets_def create_witness_def create_platform_def bindE_Inr_iff same_booked_def
      intro!: table_step)

lemma vote_step: "ensures R s (adjust_witness_vote w d s)" "ensures R s (adjust_streaming_platform_vote p d s)"
  by (simp_all add: adjust_witness_vote_def adjust_streaming_platform_vote_def Let_def object_step)

lemma score_step: "ensures R s (recalculate_score k s)"
  unfolding recalculate_score_def
  by (rule ensures_rules account_step | auto simp: unbooked_def ident_def account_ok_def)+

lemma owner_step: "ensures R s (update_owner_authority k auth s)"
  unfolding update_owner_authority_def
  by (rule ensures_bind(1), rule ensures_let, rule ensures_state(1) [OF table_step account_step])
    (auto simp: same_booked_def unbooked_def ident_def account_ok_def)

lemmas basic_steps = ensures_same table_ensures object_step index_step vote_step score_step owner_step account_step content_step
  cancel_step fee_step payout_step

text \<open>The evaluators of \<open>base_evaluator.cpp\<close>.\<close>

lemma account_update_step: "ensures R s (account_update_apply e o1 s)"
  unfolding account_update_apply_def
  by (rule ensures_rules basic_steps update_account_unbooked | assumption | auto split: option.splits if_splits)+

lemma transfer_evaluator_step: "ensures R s (transfer_apply o1 s)" "ensures R s (transfer_to_vesting_apply o2 s)"
  unfolding transfer_apply_def transfer_to_vesting_apply_def
  by (rule transfer_step vest_rule ensures_rules basic_steps ensures_error
      | auto simp: prove_active_def unbooked_def ident_def account_ok_def)+

lemma withdraw_vesting_step: "ensures R s (withdraw_vesting_apply e o1 s)"
  unfolding withdraw_vesting_apply_def
  by (rule ensures_rules basic_steps
      | auto simp: stop_withdrawal_def start_withdrawal_def Let_def res_simps unbooked_def ident_def account_ok_def in_int64_def int64_min_def int64_max_def)+

lemma change_routes_step:
  assumes "\<And>ix ix'. f ix = Inr ix' \<Longrightarrow> routes_bounded ix \<Longrightarrow> routes_bounded ix'"
  shows "ensures R s (change_routes f s)"
  using assms by (auto simp: ensures_def change_routes_def bindE_Inr_iff intro!: route_change)

lemma route_step:
  assumes "int (sr_percent o1) \<le> MUSE_100_PERCENT"
  shows "ensures R s (set_withdraw_vesting_route_apply o1 s)"
  unfolding set_withdraw_vesting_route_apply_def
  by (rule ensures_rules change_routes_step basic_steps
      | use assms in \<open>auto simp: add_routes_def unbooked_def ident_def account_ok_def routes_bounded_def list_all_iff idx_insert_Inr
          idx_modify_Inr idx_remove_Inr idx_create_def table_update_def table_delete_def\<close>)+

lemma witness_update_step: "ensures R s (witness_update_apply o1 s)"
  unfolding witness_update_apply_def by (rule ensures_rules basic_steps)+

lemma approve_step: "ensures R s (approve_witness k voter wid s)" "ensures R s (approve_platform k voter pid s)"
proof -
  let ?s = "s\<lparr>witness_votes := idx_create \<lparr>wv_witness = wid, wv_account = k\<rparr> (witness_votes s)\<rparr>"
  have "ensures R ?s (approve_witness k voter wid s)"
    unfolding approve_witness_def Let_def
    by (rule ensures_rules basic_steps | auto simp: add_witness_vote_count_def unbooked_def ident_def account_ok_def)+
  then show "ensures R s (approve_witness k voter wid s)"
    by (rule ensures_state(1) [OF table_step, rotated]) (simp add: same_booked_def)
  let ?t = "s\<lparr>platform_votes := idx_create \<lparr>spv_streaming_platform = pid, spv_account = k\<rparr> (platform_votes s)\<rparr>"
  have "ensures R ?t (approve_platform k voter pid s)"
    unfolding approve_platform_def Let_def
    by (rule ensures_rules basic_steps | auto simp: add_platform_vote_count_def unbooked_def ident_def account_ok_def)+
  then show "ensures R s (approve_platform k voter pid s)"
    by (rule ensures_state(1) [OF table_step, rotated]) (simp add: same_booked_def)
qed

lemma reject_step: "ensures R s (reject_witness k voter wid vid s)" "ensures R s (reject_platform k voter pid vid s)"
  unfolding reject_witness_def reject_platform_def
  by (rule ensures_rules basic_steps
      | auto simp: add_witness_vote_count_def add_platform_vote_count_def unbooked_def ident_def account_ok_def same_booked_def)+

lemma witness_vote_step: "ensures R s (account_witness_vote_apply o1 s)" "ensures R s (account_streaming_platform_vote_apply o2 s)"
  unfolding account_witness_vote_apply_def account_streaming_platform_vote_apply_def
  by (rule ensures_rules approve_step reject_step)+

lemma custom_step: "ensures R s (custom_apply o1 s)" "ensures R s (custom_json_apply e o2 s)"
  unfolding custom_apply_def custom_json_apply_def by (rule ensures_rules ensures_fold ensures_same)+

lemma feed_step: "ensures R s (feed_publish_apply o1 s)"
  unfolding feed_publish_apply_def by (rule ensures_rules object_step)+

lemma limit_order_step: "ensures R s (limit_order_create_apply o1 s)" "ensures R s (limit_order_cancel_apply o3 s)"
  unfolding limit_order_create_apply_def limit_order_cancel_apply_def
  by (rule ensures_rules order_step cancel_step | auto simp: lc_get_price_def asset_div_asset_def guardE_Inr_iff)+

lemma limit_order_step2: "asset_id (base (lc2_exchange_rate o2)) = asset_id (lc2_amount_to_sell o2) \<Longrightarrow>
    ensures R s (limit_order_create2_apply o2 s)"
  unfolding limit_order_create2_apply_def by (rule order_step) simp

lemma challenge_step: "ensures R s (challenge_authority_apply o1 s)" "ensures R s (prove_authority_apply o2 s)"
  unfolding challenge_authority_apply_def prove_authority_apply_def
  by (rule vest_rule ensures_rules basic_steps ensures_error | auto simp: Let_def unbooked_def ident_def account_ok_def)+

lemma recovery_step: "ensures R s (request_account_recovery_apply o1 s)" "ensures R s (recover_account_apply o2 s)"
    "ensures R s (change_recovery_account_apply o3 s)"
  unfolding request_account_recovery_apply_def recover_account_apply_def change_recovery_account_apply_def
  by (rule ensures_rules basic_steps ensures_error | auto simp: unbooked_def ident_def account_ok_def)+

text \<open>The evaluators of \<open>muse_evaluator.cpp\<close> and \<open>asset_evaluator.cpp\<close>.\<close>

lemma platform_step: "ensures R s (streaming_platform_update_apply o1 s)"
  unfolding streaming_platform_update_apply_def by (rule ensures_rules basic_steps)+

lemma report_step: "ensures R s (streaming_platform_report_apply o1 s)"
proof -
  have "ensures R (s\<lparr>reports := ix\<rparr>) (bindE (modify_account k (add_listening n) (s\<lparr>reports := ix\<rparr>)) (modify_content cid count_play))"
    for k n ix cid
    by (rule ensures_rules basic_steps
        | auto simp: add_listening_def count_play_def unbooked_def ident_def account_ok_def same_accumulated_def)+
  then have r: "ensures R s (bindE (modify_account k (add_listening n) (s\<lparr>reports := ix\<rparr>)) (modify_content cid count_play))"
    for k n ix cid
    by (rule ensures_state(1) [OF table_step, rotated]) (simp add: same_booked_def)
  show ?thesis unfolding streaming_platform_report_apply_def Let_def
    by (rule r ensures_branch ensures_bind ensures_error)+
qed

lemma friends_step: "ensures R s (tell_friends fs k s)" "ensures R s (rebuild_second k s)"
  unfolding tell_friends_def rebuild_second_def
  by (rule ensures_fold ensures_rules basic_steps | auto simp: add_second_def unbooked_def ident_def account_ok_def)+

lemma rebuild_friends_step: "ensures R s (rebuild_friends k s)"
  unfolding rebuild_friends_def by (rule ensures_fold ensures_rules basic_steps friends_step)+

lemma friend_change: "befriend i j fs a = Inr b \<Longrightarrow> unbooked a b" "accept_friend i fs j a = Inr b \<Longrightarrow> unbooked a b"
    "drop_friend i a = Inr b \<Longrightarrow> unbooked a b"
  by (auto simp: befriend_def accept_friend_def drop_friend_def unbooked_def ident_def account_ok_def)

lemma waiting_change: "Inr (a\<lparr>acc_waiting := w\<rparr>) = Inr b \<Longrightarrow> unbooked a b"
  by (auto simp: unbooked_def ident_def account_ok_def)

lemma approve_friendship_step: "ensures R s (approve_friendship i j s)"
  unfolding approve_friendship_def
  by (rule friends_step ensures_rules basic_steps | erule friend_change)+

lemma end_friendship_step: "ensures R s (end_friendship i j s)"
  unfolding end_friendship_def
  by (rule friends_step rebuild_friends_step ensures_rules basic_steps | erule friend_change)+

lemma friendship_step: "ensures R s (friendship_apply o1 s)" "ensures R s (unfriend_apply o2 s)"
  unfolding friendship_apply_def unfriend_apply_def
  by (rule approve_friendship_step end_friendship_step ensures_rules basic_steps | erule waiting_change)+

lemma content_evaluator_step: "ensures R s (content_apply e o1 s)"
proof -
  have "con_accumulated_balance_master (new_content o1 s) + con_accumulated_balance_comp (new_content o1 s) = 0"
    by (simp add: new_content_def Let_def)
  then have n: "ensures R s (Inr (s\<lparr>contents := idx_create (new_content o1 s) (contents s)\<rparr>))"
    by (simp add: ensures_def new_content_step)
  show ?thesis unfolding content_apply_def by (rule n ensures_branch ensures_bind)+
qed

lemma content_update_step: "ensures R s (content_update_apply e o1 s)"
  unfolding content_update_apply_def by (rule ensures_rules basic_steps | erule accumulated_update)+

lemma content_other_step: "ensures R s (content_disable_apply o1 s)" "ensures R s (content_approve_apply o2 s)"
  unfolding content_disable_apply_def content_approve_apply_def
  by (rule ensures_rules basic_steps | auto simp: same_accumulated_def same_booked_def)+

lemma vote_evaluator_step: "ensures R s (vote_apply o1 s)"
  unfolding vote_apply_def vote_content_def
  by (rule ensures_rules basic_steps | auto simp: unbooked_def ident_def account_ok_def)+

lemma asset_step: "ensures R s (asset_create_apply o1 s)" "ensures R s (asset_update_apply o2 s)"
  unfolding asset_create_apply_def asset_update_apply_def by (rule ensures_rules basic_steps ensures_error)+

lemma issue_step:
  "asset_id (ais_asset_to_issue o1) \<noteq> MUSE_SYMBOL \<Longrightarrow> asset_id (ais_asset_to_issue o1) \<noteq> MBD_SYMBOL \<Longrightarrow>
   ensures R s (asset_issue_apply o1 s)"
  "asset_id (ars_amount_to_reserve o2) \<noteq> MUSE_SYMBOL \<Longrightarrow> asset_id (ars_amount_to_reserve o2) \<noteq> MBD_SYMBOL \<Longrightarrow>
   ensures R s (asset_reserve_apply o2 s)"
  unfolding asset_issue_apply_def asset_reserve_apply_def Let_def
  by (rule ensures_rules user_asset_step index_step ensures_error | simp | auto simp: asset_neg_def bindE_Inr_iff)+

end

end
