(* ===== verification/Proxy_Laws.thy ===== *)
theory Proxy_Laws
  imports Frames
begin

text \<open>
  Chains of proxies: a new account is in none, and \<open>account_witness_proxy_evaluator\<close> refuses exactly what would close a
  loop. Without loops, moving the votes of an account along its chain leaves the account itself alone, so its voting
  weight goes to the new proxy in full.
\<close>

section \<open>New accounts\<close>

lemma acyclic_sink:
  assumes "acyclic r" and "\<And>a b. (a, b) \<in> r' \<Longrightarrow> (a, b) \<in> r \<or> b = z" and "z \<notin> Domain r'"
  shows "acyclic r'"
proof -
  have "(x, y) \<in> r\<^sup>+" if "(x, y) \<in> r'\<^sup>+" "y \<noteq> z" for x y
    using that
  proof (induction rule: trancl_induct)
    case (step y w)
    then have "y \<noteq> z" using assms(3) by auto
    with step show ?case using assms(2) by (metis trancl.trancl_into_trancl)
  qed (use assms(2) in blast)
  then show ?thesis using assms(1,3) by (metis Domain.DomainI acyclic_def tranclD)
qed

lemma create_account_Inr: "create_account a s = Inr t \<Longrightarrow> t = s\<lparr>accounts := idx_create a (accounts s)\<rparr>"
  by (auto simp: create_account_def res_simps)

lemma rows_create: "rows (idx_create x ix) = rows ix @ [(next_instance ix, x)]"
  by (simp add: idx_create_def)

lemma find_snoc: "find P (xs @ [x]) = (case find P xs of None \<Rightarrow> if P x then Some x else None | Some y \<Rightarrow> Some y)"
  by (induction xs) auto

lemma loops_create_account:
  assumes "create_account a s = Inr t" "tables_ok s" "acc_proxy a = []" "no_proxy_loops s"
  shows "no_proxy_loops t"
proof -
  let ?n = "next_instance (accounts s)"
  note t = create_account_Inr [OF assms(1)]
  have ok: "index_ok (accounts s)" using assms(2) by (simp add: tables_ok_def)
  have f: "idx_find j (accounts t) = (if j = ?n then Some a else idx_find j (accounts s))" for j
    using idx_find_create [OF ok, of j a] by (simp add: t)
  have n: "find_account n t = (case find_account n s of None \<Rightarrow> if acc_name a = n then Some (?n, a) else None | Some r \<Rightarrow> Some r)" for n
    using find_snoc [of "\<lambda>(k, x). acc_name x = n" "rows (accounts s)" "(?n, a)"]
    by (simp add: find_account_def idx_by_def t rows_create)
  have e: "k \<noteq> ?n \<and> (proxy_next s k = Some j \<or> j = ?n)" if "proxy_next t k = Some j" for k j
  proof -
    from that obtain b where b: "idx_find k (accounts t) = Some b" "acc_proxy b \<noteq> []" "map_option fst (find_account (acc_proxy b) t) = Some j"
      unfolding proxy_next_def by (cases "idx_find k (accounts t)") (simp_all split: if_splits)
    have k: "k \<noteq> ?n" "idx_find k (accounts s) = Some b" using b(1,2) assms(3) unfolding f by (simp_all split: if_splits)
    have "map_option fst (find_account (acc_proxy b) s) = Some j \<or> j = ?n"
      using b(3) unfolding n by (cases "find_account (acc_proxy b) s") (simp_all split: if_splits)
    then show ?thesis using k b(2) by (simp add: proxy_next_def)
  qed
  show ?thesis unfolding no_proxy_loops_def
  proof (rule acyclic_sink [where z = ?n and r = "proxy_rel s"])
    show "acyclic (proxy_rel s)" using assms(4) by (simp only: no_proxy_loops_def)
    show "(k, j) \<in> proxy_rel s \<or> j = ?n" if "(k, j) \<in> proxy_rel t" for k j
      using e [of k j] that by (simp only: proxy_rel_def mem_Collect_eq prod.case)
    show "?n \<notin> Domain (proxy_rel t)"
    proof
      assume "?n \<in> Domain (proxy_rel t)"
      then obtain j where "proxy_next t ?n = Some j" by (auto simp: proxy_rel_def)
      from e [OF this] show False by simp
    qed
  qed
qed

section \<open>Votes along the chain\<close>

definition above :: "chain \<Rightarrow> nat \<Rightarrow> nat set" where "above s k = {j. (k, j) \<in> (proxy_rel s)\<^sup>+}"

lemma not_above_self: "no_proxy_loops s \<Longrightarrow> k \<notin> above s k"
  by (simp add: no_proxy_loops_def above_def acyclic_def)

lemma above_empty: "proxy_next s k = None \<Longrightarrow> above s k = {}"
  by (auto simp: above_def proxy_rel_def dest: tranclD)

lemma above_next: "proxy_next s k = Some j \<Longrightarrow> insert j (above s j) \<subseteq> above s k"
  by (auto simp: above_def proxy_rel_def intro: trancl_into_trancl2)

lemma proxy_rel_frame: "frame s t \<Longrightarrow> index_ok (accounts s) \<Longrightarrow> proxy_rel t = proxy_rel s"
proof -
  assume "frame s t" "index_ok (accounts s)"
  then have "idents t = idents s" by (simp add: frame_def idents_same)
  then show ?thesis unfolding proxy_rel_def proxy_next_idents by (simp only:)
qed

lemma get_account_find: "get_account n s = Inr (k, a) \<Longrightarrow> index_ok (accounts s) \<Longrightarrow>
    idx_find k (accounts s) = Some a \<and> acc_name a = n \<and> find_account n s = Some (k, a)"
  by (auto simp: get_account_def find_account_def dest: idx_by_Some split: option.splits)

lemma index_ok_account: "modify_account k f s = Inr t \<Longrightarrow> index_ok (accounts s) \<Longrightarrow> index_ok (accounts t)"
  by (auto simp: modify_account_Inr index_ok_update)

lemma view_adjust_array:
  "adjust_proxied_witness_votes_array k delta depth s = Inr t \<Longrightarrow> index_ok (accounts s) \<Longrightarrow> same_view g (above s k) s t"
proof (induction k delta depth s rule: adjust_proxied_witness_votes_array.induct)
  case (1 k delta depth s)
  from 1(2) obtain a where a: "idx_get k (accounts s) = Inr a"
    by (auto simp: adjust_proxied_witness_votes_array.simps [of k] bindE_Inr_iff)
  show ?case
  proof (cases "acc_proxy a = MUSE_PROXY_TO_SELF_ACCOUNT \<or> MUSE_MAX_PROXY_RECURSION_DEPTH \<le> depth")
    case True
    then show ?thesis using 1(2) a same_view_adjust_votes [of k _ s t]
      by (auto simp: adjust_proxied_witness_votes_array.simps [of k] bindE_Inr_iff split: if_splits)
  next
    case False
    let ?f = "foldE (\<lambda>i. add_proxied (i + depth) (delta ! i)) (down_to (MUSE_MAX_PROXY_RECURSION_DEPTH - depth))"
    obtain pid p u where p: "get_account (acc_proxy a) s = Inr (pid, p)" and u: "modify_account pid ?f s = Inr u"
      and r: "adjust_proxied_witness_votes_array pid delta (depth + 1) u = Inr t"
      using False 1(2) a by (auto simp: adjust_proxied_witness_votes_array.simps [of k] bindE_Inr_iff)
    have n: "proxy_next s k = Some pid"
      using False a get_account_find [OF p 1(3)] by (simp add: proxy_next_def idx_get_Inr MUSE_PROXY_TO_SELF_ACCOUNT_def)
    have "frame s u" by (rule ensuresD(1) [OF frame_account u]) (erule ident_add_proxied_fold)
    then have "above u pid = above s pid" using 1(3) by (simp add: above_def proxy_rel_frame)
    then have "same_view g (above s pid) u t"
      using 1(1) [of a "(pid, p)" pid p u] False a p u r index_ok_account [OF u 1(3)] by auto
    moreover have "same_view g {pid} s u" using u by (rule same_view_account)
    ultimately show ?thesis
      using above_next [OF n] by (meson insert_subset same_view_mono same_view_trans empty_subsetI)
  qed
qed

section \<open>Refusing loops\<close>

lemma walk_above:
  "proxy_walk (acc_proxy b) visited s = Inr () \<Longrightarrow> idx_find j (accounts s) = Some b \<Longrightarrow> index_ok (accounts s) \<Longrightarrow>
   i \<in> above s j \<Longrightarrow> i \<notin> set visited"
proof (induction "acc_proxy b" visited s arbitrary: b j rule: proxy_walk.induct)
  case (1 visited s)
  obtain m where m: "proxy_next s j = Some m" "i = m \<or> i \<in> above s m"
    using 1(5) unfolding above_def by (auto simp: proxy_rel_def elim: converse_tranclE)
  then have ne: "acc_proxy b \<noteq> []" using 1(3) by (auto simp: proxy_next_def split: if_splits)
  then obtain k c where k: "get_account (acc_proxy b) s = Inr (k, c)" "k \<notin> set visited" "proxy_walk (acc_proxy c) (k # visited) s = Inr ()"
    "length (k # visited) \<le> MUSE_MAX_PROXY_RECURSION_DEPTH"
    using 1(2) by (auto simp: proxy_walk.simps [of "acc_proxy b"] bindE_Inr_iff guardE_Inr_iff split: if_splits)
  have mk: "m = k" using m(1) get_account_find [OF k(1) 1(4)] 1(3) ne by (simp add: proxy_next_def)
  show ?case
  proof (cases "i = m")
    case False
    then have "i \<in> above s k" using m(2) mk by simp
    then have "i \<notin> set (k # visited)"
      using 1(1) [OF ne k(1) refl k(4) refl k(3)] get_account_find [OF k(1) 1(4)] 1(4) by blast
    then show ?thesis by simp
  qed (use k(2) mk in simp)
qed

lemma find_name_update:
  assumes "\<And>b. (k, b) \<in> set t \<Longrightarrow> acc_name b = acc_name c"
  shows "map_option fst (find (\<lambda>(j, x). acc_name x = q) (table_update k c t)) = map_option fst (find (\<lambda>(j, x). acc_name x = q) t)"
  using assms
proof (induction t)
  case (Cons e t)
  obtain j x where e: "e = (j, x)" by fastforce
  have "j = k \<Longrightarrow> acc_name x = acc_name c" by (rule Cons.prems) (simp add: e)
  moreover have "map_option fst (find (\<lambda>(j, x). acc_name x = q) (table_update k c t)) = map_option fst (find (\<lambda>(j, x). acc_name x = q) t)"
    by (rule Cons.IH, rule Cons.prems) simp
  ultimately show ?case by (cases "j = k") (simp_all add: e table_update_def)
qed (simp add: table_update_def)

lemma set_proxy_next:
  assumes "modify_account k (set_proxy p) s = Inr t" "index_ok (accounts s)"
  shows "proxy_next t i = (if i = k then if p = [] then None else map_option fst (find_account p s) else proxy_next s i)"
proof -
  obtain a where a: "idx_find k (accounts s) = Some a"
    "t = s\<lparr>accounts := (accounts s)\<lparr>rows := table_update k (a\<lparr>acc_proxy := p\<rparr>) (rows (accounts s))\<rparr>\<rparr>"
    using assms(1) by (auto simp: modify_account_Inr set_proxy_def)
  have f: "idx_find i (accounts t) = (if i = k then Some (a\<lparr>acc_proxy := p\<rparr>) else idx_find i (accounts s))" for i
    using a by (simp add: idx_find_update)
  have "b = a" if "(k, b) \<in> set (rows (accounts s))" for b
    using that a(1) assms(2) by (auto simp: idx_find_def index_ok_def table_ok_def)
  then have n: "map_option fst (find_account q t) = map_option fst (find_account q s)" for q
    unfolding find_account_def idx_by_def a(2) by (simp, intro find_name_update) auto
  show ?thesis unfolding proxy_next_def f n by simp
qed

lemma set_proxy_loops:
  assumes "modify_account k (set_proxy p) s = Inr t" "index_ok (accounts s)" "no_proxy_loops s"
    and "p \<noteq> [] \<Longrightarrow> map_option fst (find_account p s) = Some j \<and> j \<noteq> k \<and> k \<notin> above s j"
  shows "no_proxy_loops t"
proof -
  have "proxy_rel t \<subseteq> (if p = [] then proxy_rel s else insert (k, j) (proxy_rel s))"
    using assms(4) by (auto simp: proxy_rel_def set_proxy_next [OF assms(1,2)] split: if_splits)
  moreover have "acyclic (if p = [] then proxy_rel s else insert (k, j) (proxy_rel s))"
    using assms(3,4) by (auto simp: no_proxy_loops_def acyclic_insert above_def rtrancl_eq_or_trancl)
  ultimately show ?thesis unfolding no_proxy_loops_def by (rule acyclic_subset [rotated])
qed

lemma find_account_frame:
  assumes "frame s t" "index_ok (accounts s)"
  shows "map_option fst (find_account n t) = map_option fst (find_account n s)"
proof -
  have f: "map_option fst (find_account n u) = map_option fst (find (\<lambda>(j, m, q). m = n) (idents u))" for u
  proof -
    have "map_option fst (find (\<lambda>(j, m, q). m = n) (map (\<lambda>(k, a). (k, ident a)) xs)) = map_option fst (find (\<lambda>(j, a). acc_name a = n) xs)"
      for xs :: "(nat \<times> account) list"
      by (induction xs) (auto simp: ident_def)
    then show ?thesis by (simp add: find_account_def idx_by_def idents_def)
  qed
  have "idents t = idents s" using assms by (simp add: frame_def idents_same)
  then show ?thesis by (simp only: f)
qed

section \<open>Changing the proxy\<close>

text \<open>The voting weight an account passes on to its proxy, and the part that stays with it at the end of the chain.\<close>

definition carried :: "account \<Rightarrow> int" where "carried a = acc_vesting_shares a + sum_list (take 3 (acc_proxied_vsf_votes a))"

definition stake :: "account \<Rightarrow> int \<times> int list \<times> string" where
  "stake a = (acc_vesting_shares a, acc_proxied_vsf_votes a, acc_proxy a)"

definition own_votes :: "account \<Rightarrow> int list" where
  "own_votes a = acc_vesting_shares a # take MUSE_MAX_PROXY_RECURSION_DEPTH (acc_proxied_vsf_votes a)"

lemma four_votes: "length (vs :: int list) = 4 \<Longrightarrow> \<exists>a b c d. vs = [a, b, c, d]"
  by (cases vs; cases "tl vs"; cases "tl (tl vs)"; cases "tl (tl (tl vs))") auto

lemma own_votes_carried:
  assumes "account_ok a"
  shows "length (own_votes a) = 5" and "sum_list (take 4 (own_votes a)) = carried a"
    and "sum_list (take 4 (map uminus (own_votes a))) = - carried a"
    and "vsf_weight a = (if acc_proxy a = [] then carried a else 0) + acc_proxied_vsf_votes a ! 3"
proof -
  obtain v1 v2 v3 v4 where v: "acc_proxied_vsf_votes a = [v1, v2, v3, v4]"
    using four_votes [of "acc_proxied_vsf_votes a"] assms by (auto simp: account_ok_def MUSE_MAX_PROXY_RECURSION_DEPTH_def)
  show "length (own_votes a) = 5" "sum_list (take 4 (own_votes a)) = carried a"
    "sum_list (take 4 (map uminus (own_votes a))) = - carried a"
    "vsf_weight a = (if acc_proxy a = [] then carried a else 0) + acc_proxied_vsf_votes a ! 3"
    by (simp_all add: own_votes_def carried_def v MUSE_MAX_PROXY_RECURSION_DEPTH_def vsf_weight_def MUSE_PROXY_TO_SELF_ACCOUNT_def)
qed

lemma neg_all_Inr: "neg_all ds = Inr ns \<Longrightarrow> ns = map uminus ds"
proof -
  have "foldE (\<lambda>d acc. bindE (safeE (- d)) (\<lambda>x. Inr (acc @ [x]))) ds acc = Inr ns \<Longrightarrow> ns = acc @ map uminus ds" for acc
    by (induction ds arbitrary: acc) (fastforce simp: res_simps)+
  then show "neg_all ds = Inr ns \<Longrightarrow> ns = map uminus ds" by (fastforce simp: neg_all_def)
qed

lemma moves_set_proxy:
  assumes "modify_account k (set_proxy p) s = Inr t" "tables_ok s" "idx_find k (accounts s) = Some a" "stake a = (v, vs, q)"
  shows "moves (0, 0, 0, (if q = [] then carried a else 0) - (if p = [] then carried a else 0)) s t"
    and "idx_find k (accounts t) = Some (a\<lparr>acc_proxy := p\<rparr>)"
proof -
  have ok: "account_ok a" by (rule account_ok_find [OF assms(2,3)])
  then have ok': "account_ok (a\<lparr>acc_proxy := p\<rparr>)" "carried (a\<lparr>acc_proxy := p\<rparr>) = carried a"
    by (simp_all add: account_ok_def carried_def)
  have q: "acc_proxy a = q" using assms(4) by (simp add: stake_def)
  show "idx_find k (accounts t) = Some (a\<lparr>acc_proxy := p\<rparr>)"
    using assms(1,3) by (auto simp: modify_account_Inr set_proxy_def idx_find_update)
  show "moves (0, 0, 0, (if q = [] then carried a else 0) - (if p = [] then carried a else 0)) s t"
    by (rule moves_account [OF assms(1,2)])
      (use assms(3) ok' own_votes_carried(4) [OF ok] own_votes_carried(4) [OF ok'(1)] q in \<open>auto simp: set_proxy_def\<close>)
qed

lemma clear_votes_step:
  assumes "clear_witness_votes k s = Inr t" "clear_streaming_platform_votes k t = Inr u"
  shows "frame s u" "same_view stake {} s u" "tables_ok s \<Longrightarrow> moves (0, 0, 0, 0) s u"
proof -
  have w: "frame r r' \<and> same_view stake {} r r' \<and> (tables_ok r \<longrightarrow> moves (0, 0, 0, 0) r r')"
    if m: "modify_account k f q = Inr r'" and f: "\<And>a b. f a = Inr b \<Longrightarrow> ident b = ident a \<and> stake b = stake a \<and>
        acc_balance b = acc_balance a \<and> acc_mbd_balance b = acc_mbd_balance a \<and> acc_vesting_withdraw_rate b = acc_vesting_withdraw_rate a"
      and q: "frame r q" "same_view stake {} r q" "tables_ok r \<Longrightarrow> moves (0, 0, 0, 0) r q" for f q r r'
  proof (intro conjI impI)
    show "frame r r'" by (rule framed.R_trans [OF q(1) ensuresD(1) [OF frame_account m]]) (use f in blast)
    show "same_view stake {} r r'" by (rule same_view_trans [OF q(2) same_view_account(2) [OF m]]) (use f in blast)
    assume "tables_ok r"
    note 1 = q(3) [OF this]
    have 2: "moves (0, 0, 0, 0) q r'" by (rule moves_account_keep [OF m moves_tables [OF 1]]) (use f in \<open>auto simp: stake_def\<close>)
    show "moves (0, 0, 0, 0) r r'" using moves_trans [OF 1 2] by simp
  qed
  have 1: "frame s t \<and> same_view stake {} s t \<and> (tables_ok s \<longrightarrow> moves (0, 0, 0, 0) s t)"
    using assms(1) unfolding clear_witness_votes_def Let_def
    by (rule w) (auto simp: ident_def stake_def intro: frame_tables same_view_accounts books_unchanged)
  have 2: "frame t u \<and> same_view stake {} t u \<and> (tables_ok t \<longrightarrow> moves (0, 0, 0, 0) t u)"
    using assms(2) unfolding clear_streaming_platform_votes_def Let_def
    by (rule w) (auto simp: ident_def stake_def intro: frame_tables same_view_accounts books_unchanged)
  show "frame s u" "same_view stake {} s u" using 1 2 by (blast intro: framed.R_trans same_view_trans)+
  show "moves (0, 0, 0, 0) s u" if "tables_ok s"
    using that 1 2 moves_tables [of "(0, 0, 0, 0)" s t] moves_trans [of 0 0 0 0 s t 0 0 0 0 u] by auto
qed

text \<open>The votes an account has passed on so far are taken back. If its chain has no loop, its own row is as before.\<close>

lemma take_back_votes:
  assumes "adjust_proxied_witness_votes_array k (map uminus (own_votes a)) 0 s = Inr t" "idx_find k (accounts s) = Some a"
    "tables_ok s" "no_proxy_loops s"
  shows "moves (0, 0, 0, if acc_proxy a = [] then 0 else carried a) s t" "frame s t" "no_proxy_loops t"
    "\<exists>b. idx_find k (accounts t) = Some b \<and> stake b = stake a"
proof -
  note c = own_votes_carried [OF account_ok_find [OF assms(3,2)]]
  show "moves (0, 0, 0, if acc_proxy a = [] then 0 else carried a) s t"
    using moves_adjust_proxied_array [OF assms(1,3,2)] c
    by (simp add: through_proxy_array_def MUSE_MAX_PROXY_RECURSION_DEPTH_def MUSE_PROXY_TO_SELF_ACCOUNT_def split: if_splits)
  show f: "frame s t" by (rule ensuresD(1) [OF frame_adjust_proxied_array assms(1)])
  show "no_proxy_loops t" by (rule loops_frame [OF f assms(3,4)])
  show "\<exists>b. idx_find k (accounts t) = Some b \<and> stake b = stake a"
    by (rule same_view_find [OF view_adjust_array [OF assms(1) tables_okD(1) [OF assms(3)]] not_above_self [OF assms(4)] assms(2)])
qed

end
