(* ===== verification/Evaluator_Laws.thy ===== *)
theory Evaluator_Laws
  imports Evaluator_Contract Proxy_Laws Market_Laws
begin

text \<open>
  The contract of the evaluators on the books of the chain: every basic step of the evaluators keeps the four books in
  balance and the proxies free of loops, so every evaluator does.
\<close>

section \<open>The books\<close>

definition keeps_books :: "chain \<Rightarrow> chain \<Rightarrow> bool" where
  "keeps_books s t \<longleftrightarrow> (tables_ok s \<and> no_proxy_loops s \<longrightarrow> moves (0, 0, 0, 0) s t \<and> no_proxy_loops t)"

interpretation books: step_relation keeps_books
proof
  show "keeps_books s s" for s by (simp add: keeps_books_def moves_refl)
  show "keeps_books s u" if "keeps_books s t" "keeps_books t u" for s t u
    using that moves_tables [of "(0, 0, 0, 0)" s t] moves_trans [of 0 0 0 0 s t 0 0 0 0 u] by (auto simp: keeps_books_def)
qed

lemma keeps_books_frame: "frame s t \<Longrightarrow> (tables_ok s \<Longrightarrow> moves (0, 0, 0, 0) s t) \<Longrightarrow> keeps_books s t"
  by (simp add: keeps_books_def loops_frame)

lemma ensures_books: "ensures frame s r \<Longrightarrow> (\<And>t. r = Inr t \<Longrightarrow> tables_ok s \<Longrightarrow> moves (0, 0, 0, 0) s t) \<Longrightarrow> ensures keeps_books s r"
  by (auto simp: ensures_def intro: keeps_books_frame)

lemma books_account: "(\<And>a b. f a = Inr b \<Longrightarrow> unbooked a b) \<Longrightarrow> ensures keeps_books s (modify_account k f s)"
  by (rule ensures_books, rule frame_account, simp add: unbooked_def, erule moves_account, assumption)
    (auto simp: unbooked_def vsf_weight_def ident_def)

lemma books_tables: "same_booked s t \<Longrightarrow> keeps_books s t"
  by (rule keeps_books_frame) (auto simp: same_booked_def intro: frame_tables books_unchanged)

lemma books_routes: "keeps_books s (s\<lparr>withdraw_routes := ix\<rparr>)"
proof -
  have "no_proxy_loops (s\<lparr>withdraw_routes := ix\<rparr>) \<longleftrightarrow> no_proxy_loops s" by (rule loops_idents) (simp add: idents_def)
  moreover have "tables_ok s \<Longrightarrow> moves (0, 0, 0, 0) s (s\<lparr>withdraw_routes := ix\<rparr>)" by (rule books_unchanged) simp_all
  ultimately show ?thesis by (simp add: keeps_books_def)
qed

lemma books_content: "(\<And>c d. g c = Inr d \<Longrightarrow> same_accumulated c d) \<Longrightarrow> ensures keeps_books s (modify_content k g s)"
  by (rule ensures_books, rule frame_objects, erule moves_content, assumption) (auto simp: same_accumulated_def)

lemma books_new_content:
  "con_accumulated_balance_master c + con_accumulated_balance_comp c = 0 \<Longrightarrow> keeps_books s (s\<lparr>contents := idx_create c (contents s)\<rparr>)"
  by (rule keeps_books_frame) (auto simp: moves_def tables_ok_def index_ok_create muse_gap_def mbd_gap_def vests_gap_def
      vsf_gap_def muse_held_def mbd_held_def vests_held_def vsf_held_def intro: frame_tables)

lemma moves_pay_from:
  assumes "pay_from k a d s = Inr t" "tables_ok s"
  shows "moves (of_symbol MUSE_SYMBOL d, of_symbol MBD_SYMBOL d, 0, 0) s t"
proof -
  obtain n where n: "asset_neg d = Inr n" "adjust_balance k n s = Inr t" using assms(1) by (auto simp: pay_from_def bindE_Inr_iff)
  show ?thesis using moves_adjust_balance [OF n(2) assms(2)] n(1) by (auto simp: res_simps of_symbol_def split: if_splits)
qed

lemma frame_pay_from: "ensures frame s (pay_from k a d s)"
  unfolding pay_from_def by (rule framed.ensures_rules frame_adjust_balance)+

lemma books_transfer: "ensures keeps_books s (bindE (pay_from k a d s) (adjust_balance j d))"
proof (rule ensures_books)
  show "ensures frame s (bindE (pay_from k a d s) (adjust_balance j d))"
    by (rule framed.ensures_rules frame_pay_from frame_adjust_balance)+
  fix t assume "bindE (pay_from k a d s) (adjust_balance j d) = Inr t" and ok: "tables_ok s"
  then obtain u where u: "pay_from k a d s = Inr u" "adjust_balance j d u = Inr t" by (auto simp: bindE_Inr_iff)
  note 1 = moves_pay_from [OF u(1) ok]
  from moves_trans [OF 1 moves_adjust_balance [OF u(2) moves_tables [OF 1]]] show "moves (0, 0, 0, 0) s t" by simp
qed

lemma create_vesting_symbol: "create_vesting k d s = Inr (v, t) \<Longrightarrow> asset_id d = MUSE_SYMBOL"
  by (auto simp: create_vesting_def modify_dgp_def bindE_Inr_iff res_simps)

lemma books_vest:
  assumes "asset_neg d = Inr n" "adjust_balance k n s = Inr t" "create_vesting j d t = Inr (v, u)"
  shows "keeps_books s u"
proof (rule keeps_books_frame)
  have "frame s t" "frame t u" using frame_adjust_balance frame_create(2) assms by (auto simp: ensures_def ensures_snd_def)
  then show "frame s u" by (rule framed.R_trans)
  assume ok: "tables_ok s"
  note 1 = moves_adjust_balance [OF assms(2) ok]
  from moves_trans [OF 1 moves_create_vesting [OF assms(3) moves_tables [OF 1]]] show "moves (0, 0, 0, 0) s u"
    using assms(1) create_vesting_symbol [OF assms(3)] by (simp add: res_simps of_symbol_def)
qed

lemma books_user_asset: "asset_id d \<noteq> MUSE_SYMBOL \<Longrightarrow> asset_id d \<noteq> MBD_SYMBOL \<Longrightarrow> ensures keeps_books s (adjust_balance k d s)"
  by (rule ensures_books, rule frame_adjust_balance, drule moves_adjust_balance) (auto simp: of_symbol_def)

lemma books_market: "ensures keeps_books s (cancel_order k s)" "ensures keeps_books s (pay_fee k d s)"
  by (rule ensures_books, rule frame_cancel_order, erule moves_cancel_order, assumption)
    (rule ensures_books, rule frame_create, erule moves_pay_fee)

lemma books_payout: "ensures keeps_books s (pay_to_content_master c (mk_asset 0 MUSE_SYMBOL) s)"
  "ensures keeps_books s (pay_to_content_comp c (mk_asset 0 MUSE_SYMBOL) s)"
  by (rule ensures_books, rule frame_pay_content, drule moves_pay_to_content_master moves_pay_to_content_comp, auto)+

text \<open>New accounts hold nothing and have no proxy.\<close>

lemma moves_create_account:
  assumes "create_account a s = Inr t" "tables_ok s" "account_ok a" "acc_balance a = 0" "acc_mbd_balance a = 0"
    "acc_vesting_shares a = 0" "vsf_weight a = 0"
  shows "moves (0, 0, 0, 0) s t"
  using assms by (simp add: create_account_Inr [OF assms(1)] moves_def tables_ok_def index_ok_create muse_gap_def mbd_gap_def
      vests_gap_def vsf_gap_def muse_held_def mbd_held_def vests_held_def vsf_held_def rows_create)

lemma minus_asset_Inr: "minus_asset i x d = Inr y \<Longrightarrow> asset_id d = i \<and> y = x - amount d"
  by (auto simp: res_simps)

lemma moves_sub_balance: "modify_account k (sub_balance d) s = Inr t \<Longrightarrow> tables_ok s \<Longrightarrow> moves (amount d, 0, 0, 0) s t"
  by (erule moves_account) (auto simp: sub_balance_def bindE_Inr_iff account_ok_def vsf_weight_def dest!: minus_asset_Inr)

lemma frame_sub_balance: "ensures frame s (modify_account k (sub_balance d) s)"
  by (rule frame_account) (auto simp: sub_balance_def bindE_Inr_iff ident_def)

lemma new_account_fields: "account_ok (new_account o1 now)" "acc_proxy (new_account o1 now) = []"
    "acc_balance (new_account o1 now) = 0" "acc_mbd_balance (new_account o1 now) = 0"
    "acc_vesting_shares (new_account o1 now) = 0" "vsf_weight (new_account o1 now) = 0"
  by (simp_all add: new_account_def default_account_def account_ok_def vsf_weight_def in_int64_def int64_min_def int64_max_def
      MUSE_PROXY_TO_SELF_ACCOUNT_def MUSE_MAX_PROXY_RECURSION_DEPTH_def eval_nat_numeral)

lemma books_new_account:
  assumes "0 \<le> amount (ac_fee o1)"
  shows "ensures keeps_books s (account_create_apply e o1 s)"
  unfolding ensures_def keeps_books_def
proof (intro allI impI, elim conjE)
  fix t assume t: "account_create_apply e o1 s = Inr t" and ok: "tables_ok s" "no_proxy_loops s"
  obtain k u v where u: "modify_account k (sub_balance (ac_fee o1)) s = Inr u"
    "create_account (new_account o1 (head_block_time u)) u = Inr v"
    and w: "(if amount (ac_fee o1) > 0 then bindE (create_vesting (next_instance (accounts u)) (ac_fee o1) v) (\<lambda>(x, s). Inr s) else Inr v) = Inr t"
    using t unfolding account_create_apply_def Let_def by (auto simp: bindE_Inr_iff)
  note 1 = moves_sub_balance [OF u(1) ok(1)]
  have lu: "no_proxy_loops u" using frame_sub_balance u(1) ok loops_frame by (blast dest: ensuresD)
  note 2 = moves_create_account [OF u(2) moves_tables [OF 1] new_account_fields(1,3-6)]
  note lv = loops_create_account [OF u(2) moves_tables [OF 1] new_account_fields(2) lu]
  note 3 = moves_trans [OF 1 2]
  show "moves (0, 0, 0, 0) s t \<and> no_proxy_loops t"
  proof (cases "amount (ac_fee o1) > 0")
    case True
    then obtain x where x: "create_vesting (next_instance (accounts u)) (ac_fee o1) v = Inr (x, t)" using w by (auto simp: bindE_Inr_iff)
    have "no_proxy_loops t" using loops_frame [OF ensuresD(2) [OF frame_create(2) x] moves_tables [OF 2] lv] .
    with moves_trans [OF 3 moves_create_vesting [OF x moves_tables [OF 2]]] show ?thesis by simp
  next
    case False
    with assms 3 lv w show ?thesis by simp
  qed
qed

text \<open>What is converted or offered leaves the account and is held by the request or the order.\<close>

lemma books_after_pay:
  assumes "pay_from k a d s = Inr u" "frame u t" "tables_ok u \<Longrightarrow> moves (- of_symbol MUSE_SYMBOL d, - of_symbol MBD_SYMBOL d, 0, 0) u t"
  shows "keeps_books s t"
proof (rule keeps_books_frame)
  show "frame s t" by (rule framed.R_trans [OF ensuresD(1) [OF frame_pay_from assms(1)] assms(2)])
  assume "tables_ok s"
  note 1 = moves_pay_from [OF assms(1) this]
  from moves_trans [OF 1 assms(3) [OF moves_tables [OF 1]]] show "moves (0, 0, 0, 0) s t" by simp
qed

lemma create_request_step:
  assumes "create_convert_request c s = Inr t"
  shows "frame s t" and "tables_ok s \<Longrightarrow> moves (- of_symbol MUSE_SYMBOL (cr_amount c), - of_symbol MBD_SYMBOL (cr_amount c), 0, 0) s t"
proof -
  have t: "t = s\<lparr>converts := idx_create c (converts s)\<rparr>" using assms by (auto simp: create_convert_request_def res_simps)
  show "frame s t" by (rule frame_tables) (simp_all add: t)
  assume "tables_ok s"
  then show "moves (- of_symbol MUSE_SYMBOL (cr_amount c), - of_symbol MBD_SYMBOL (cr_amount c), 0, 0) s t"
    by (simp add: t moves_def tables_ok_def index_ok_create muse_gap_def mbd_gap_def vests_gap_def vsf_gap_def
        muse_held_def mbd_held_def vests_held_def vsf_held_def)
qed

lemma create_order_step:
  assumes "create_limit_order ord s = Inr (n, t)"
  shows "frame s t"
    and "tables_ok s \<Longrightarrow> moves (- of_symbol MUSE_SYMBOL (amount_for_sale ord), - of_symbol MBD_SYMBOL (amount_for_sale ord), 0, 0) s t"
proof -
  have t: "t = s\<lparr>orders := idx_create ord (orders s)\<rparr>" using assms by (auto simp: create_limit_order_def res_simps)
  show "frame s t" by (rule frame_tables) (simp_all add: t)
  assume "tables_ok s"
  then show "moves (- of_symbol MUSE_SYMBOL (amount_for_sale ord), - of_symbol MBD_SYMBOL (amount_for_sale ord), 0, 0) s t"
    by (intro moves_order_change [OF _ t]) (simp_all add: t index_ok_create tables_okD)
qed

lemma books_convert: "ensures keeps_books s (convert_apply o1 s)"
  unfolding ensures_def
proof (intro allI impI)
  fix t assume "convert_apply o1 s = Inr t"
  then obtain k a u c where u: "pay_from k a (cv_amount o1) s = Inr u" "create_convert_request c u = Inr t" "cr_amount c = cv_amount o1"
    unfolding convert_apply_def by (auto simp: bindE_Inr_iff guardE_Inr_iff)
  from create_request_step [OF u(2)] show "keeps_books s t" unfolding u(3) by (rule books_after_pay [OF u(1)])
qed

lemma books_order:
  assumes "\<And>q. p = Inr q \<Longrightarrow> asset_id (base q) = asset_id d"
  shows "ensures keeps_books s (place_order owner orderid d p fk ex s)"
  unfolding ensures_def
proof (intro allI impI)
  fix t assume "place_order owner orderid d p fk ex s = Inr t"
  then obtain k a u ord n v f where u: "pay_from k a d s = Inr u" "create_limit_order ord u = Inr (n, v)" "apply_order n v = Inr (f, t)"
    and "amount_for_sale ord = mk_asset (amount d) (asset_id d)"
    unfolding place_order_def by (auto simp: bindE_Inr_iff guardE_Inr_iff amount_for_sale_def assms)
  then have d: "of_symbol i (amount_for_sale ord) = of_symbol i d" for i by (simp add: of_symbol_def)
  have "frame u t" using create_order_step(1) [OF u(2)] ensuresD(2) [OF frame_apply_order u(3)] by (rule framed.R_trans)
  then show "keeps_books s t"
  proof (rule books_after_pay [OF u(1)])
    assume "tables_ok u"
    note 1 = create_order_step(2) [OF u(2) this]
    from moves_trans [OF 1 moves_apply_order [OF u(3) moves_tables [OF 1]]]
    show "moves (- of_symbol MUSE_SYMBOL d, - of_symbol MBD_SYMBOL d, 0, 0) u t" by (simp add: d)
  qed
qed

lemma change_balances_step:
  assumes "change_balances f s = Inr t" "index_ok (balances s) \<Longrightarrow> index_ok (balances t)"
  shows "frame s t" and "tables_ok s \<Longrightarrow> moves (idx_sum gb_balance (balances s) - idx_sum gb_balance (balances t), 0, 0, 0) s t"
proof -
  obtain ix where t: "t = s\<lparr>balances := ix\<rparr>" using assms(1) by (auto simp: change_balances_def res_simps)
  show "frame s t" by (rule frame_tables) (simp_all add: t)
  assume "tables_ok s"
  then show "moves (idx_sum gb_balance (balances s) - idx_sum gb_balance (balances t), 0, 0, 0) s t"
    using assms(2) by (simp add: t moves_def tables_ok_def muse_gap_def mbd_gap_def vests_gap_def vsf_gap_def
        muse_held_def mbd_held_def vests_held_def vsf_held_def)
qed

text \<open>Both ways to take a claim out of a genesis balance take exactly the amount that is claimed.\<close>

lemma take_claim:
  assumes "(if part then change_balances (idx_modify bid (take_balance d now)) s else change_balances (idx_remove bid) s) = Inr t"
    and b: "idx_find bid (balances s) = Some b" and "part \<longleftrightarrow> amount d < gb_balance b" "amount d \<le> gb_balance b"
  shows "frame s t \<and> (tables_ok s \<longrightarrow> moves (amount d, 0, 0, 0) s t)"
proof -
  have "\<exists>f. change_balances f s = Inr t \<and> (index_ok (balances s) \<longrightarrow> index_ok (balances t) \<and>
      idx_sum gb_balance (balances s) - idx_sum gb_balance (balances t) = amount d)"
  proof (cases part)
    case True
    then have m: "change_balances (idx_modify bid (take_balance d now)) s = Inr t" using assms(1) by simp
    then obtain y where "t = s\<lparr>balances := (balances s)\<lparr>rows := table_update bid y (rows (balances s))\<rparr>\<rparr>" "gb_balance y = gb_balance b - amount d"
      using b by (auto simp: change_balances_def take_balance_def bindE_Inr_iff idx_modify_Inr dest!: minus_asset_Inr)
    then show ?thesis using m b by (auto simp: index_ok_update idx_sum_update)
  next
    case False
    then have m: "change_balances (idx_remove bid) s = Inr t" using assms(1) by simp
    then have "t = s\<lparr>balances := (balances s)\<lparr>rows := table_delete bid (rows (balances s))\<rparr>\<rparr>" "gb_balance b = amount d"
      using False assms(3,4) by (auto simp: change_balances_def bindE_Inr_iff idx_remove_Inr)
    then show ?thesis using m b by (auto simp: index_ok_delete idx_sum_delete)
  qed
  then obtain f where f: "change_balances f s = Inr t" "index_ok (balances s) \<Longrightarrow> index_ok (balances t)"
    "index_ok (balances s) \<Longrightarrow> idx_sum gb_balance (balances s) - idx_sum gb_balance (balances t) = amount d" by blast
  from change_balances_step [OF f(1,2)] f(3) show ?thesis by (auto simp: tables_okD)
qed

lemma books_claim: "ensures keeps_books s (balance_claim_apply e o1 s)"
  unfolding ensures_def
proof (intro allI impI)
  fix t assume "balance_claim_apply e o1 s = Inr t"
  then obtain b k part u where b: "idx_find (bc_balance_to_claim o1) (balances s) = Some b"
    and le: "check (asset_le (bc_total_claimed o1) (mk_asset (gb_balance b) MUSE_SYMBOL)) = Inr ()"
    and lt: "asset_lt (bc_total_claimed o1) (mk_asset (gb_balance b) MUSE_SYMBOL) = Inr part"
    and u: "(if part then change_balances (idx_modify (bc_balance_to_claim o1) (take_balance (bc_total_claimed o1) (head_block_time s))) s
      else change_balances (idx_remove (bc_balance_to_claim o1)) s) = Inr u"
    and t: "adjust_balance k (bc_total_claimed o1) u = Inr t"
    unfolding balance_claim_apply_def Let_def by (auto simp: bindE_Inr_iff guardE_Inr_iff idx_get_Inr)
  have p: "part \<longleftrightarrow> amount (bc_total_claimed o1) < gb_balance b" "amount (bc_total_claimed o1) \<le> gb_balance b"
    and sym: "asset_id (bc_total_claimed o1) = MUSE_SYMBOL"
    using le lt by (auto simp: check_def asset_le_def asset_lt_def res_simps split: if_splits)
  note c = take_claim [OF u b p]
  show "keeps_books s t"
  proof (rule keeps_books_frame)
    show "frame s t" by (rule framed.R_trans [OF conjunct1 [OF c] ensuresD(1) [OF frame_adjust_balance t]])
    assume "tables_ok s"
    with c have 1: "moves (amount (bc_total_claimed o1), 0, 0, 0) s u" by blast
    from moves_trans [OF 1 moves_adjust_balance [OF t moves_tables [OF 1]]] show "moves (0, 0, 0, 0) s t"
      by (simp add: of_symbol_def sym)
  qed
qed

text \<open>Changing the proxy: the votes are taken back, the row of the account is changed, and the votes go to the new proxy.\<close>

lemma books_no_proxy:
  assumes "idx_find k (accounts s) = Some a" "acc_proxy a \<noteq> []"
    and "adjust_proxied_witness_votes_array k (map uminus (own_votes a)) 0 s = Inr u" "modify_account k (set_proxy []) u = Inr t"
    and "tables_ok s" "no_proxy_loops s"
  shows "moves (0, 0, 0, 0) s t \<and> no_proxy_loops t"
proof
  note u = take_back_votes [OF assms(3,1,5,6)]
  obtain b where b: "idx_find k (accounts u) = Some b" "stake b = stake a" using u(4) by blast
  then have c: "carried b = carried a" "stake b = (acc_vesting_shares a, acc_proxied_vsf_votes a, acc_proxy a)"
    by (simp_all add: stake_def carried_def)
  show "moves (0, 0, 0, 0) s t"
    using moves_trans [OF u(1) moves_set_proxy(1) [OF assms(4) moves_tables [OF u(1)] b(1) c(2)]] assms(2) c(1) by simp
  show "no_proxy_loops t" by (rule set_proxy_loops [OF assms(4) tables_okD(1) [OF moves_tables [OF u(1)]] u(3)]) simp
qed

lemma books_new_proxy:
  assumes k: "idx_find k (accounts s) = Some a" and p: "p \<noteq> []"
    and u: "adjust_proxied_witness_votes_array k (map uminus (own_votes a)) 0 s = Inr u"
    and j: "get_account p u = Inr (j, b)" "j \<noteq> k" "proxy_walk (acc_proxy b) (remdups [j, k]) u = Inr ()"
    and v: "clear_witness_votes k u = Inr v'" "clear_streaming_platform_votes k v' = Inr v" "modify_account k (set_proxy p) v = Inr w"
    and t: "adjust_proxied_witness_votes_array k (own_votes a) 0 w = Inr t"
    and ok: "tables_ok s" "no_proxy_loops s"
  shows "moves (0, 0, 0, 0) s t \<and> no_proxy_loops t"
proof
  note 1 = take_back_votes [OF u k ok]
  note iu = tables_okD(1) [OF moves_tables [OF 1(1)]]
  note 2 = clear_votes_step [OF v(1,2)]
  note m2 = 2(3) [OF moves_tables [OF 1(1)]]
  note iv = tables_okD(1) [OF moves_tables [OF m2]]
  obtain c where c: "idx_find k (accounts v) = Some c" "stake c = stake a"
    using 1(4) same_view_find [OF 2(2)] by fastforce
  then have q: "carried c = carried a" "stake c = (acc_vesting_shares a, acc_proxied_vsf_votes a, acc_proxy a)"
    by (simp_all add: stake_def carried_def)
  note 3 = moves_set_proxy [OF v(3) moves_tables [OF m2] c(1) q(2)]
  have 4: "moves (0, 0, 0, - carried a) w t"
    using moves_adjust_proxied_array [OF t moves_tables [OF 3(1)] 3(2)] own_votes_carried [OF account_ok_find [OF ok(1) k]] p
    by (simp add: through_proxy_array_def MUSE_MAX_PROXY_RECURSION_DEPTH_def MUSE_PROXY_TO_SELF_ACCOUNT_def)
  show "moves (0, 0, 0, 0) s t"
    using moves_trans [OF moves_trans [OF moves_trans [OF 1(1) m2] 3(1)] 4] p q(1) by (simp split: if_splits)
  have g: "map_option fst (find_account p v) = Some j" "k \<notin> above v j"
    using get_account_find [OF j(1) iu] walk_above [OF j(3) _ iu, of j k, unfolded set_remdups] find_account_frame [OF 2(1) iu, of p]
      proxy_rel_frame [OF 2(1) iu] by (auto simp: above_def)
  have "no_proxy_loops w"
    by (rule set_proxy_loops [OF v(3) iv loops_frame [OF 2(1) moves_tables [OF 1(1)] 1(3)]]) (use g j(2) in blast)
  then show "no_proxy_loops t"
    by (rule loops_frame [OF ensuresD(1) [OF frame_adjust_proxied_array t] moves_tables [OF 3(1)]])
qed

lemma books_proxy:
  assumes "awp_proxy o1 \<noteq> awp_account o1"
  shows "ensures keeps_books s (account_witness_proxy_apply o1 s)"
  unfolding ensures_def keeps_books_def
proof (intro allI impI, elim conjE)
  fix t assume t: "account_witness_proxy_apply o1 s = Inr t" and ok: "tables_ok s" "no_proxy_loops s"
  let ?p = "awp_proxy o1"
  obtain k a delta u where k: "get_account (awp_account o1) s = Inr (k, a)" "acc_proxy a \<noteq> ?p"
    and n: "neg_all (own_votes a) = Inr delta" and u: "adjust_proxied_witness_votes_array k delta 0 s = Inr u"
    and r: "(if ?p \<noteq> [] then
       bindE (get_account ?p u) (\<lambda>(j, new_proxy). bindE (proxy_walk (acc_proxy new_proxy) (remdups [j, k]) u) (\<lambda>_.
       bindE (clear_witness_votes k u) (\<lambda>s. bindE (clear_streaming_platform_votes k s) (\<lambda>s.
       bindE (modify_account k (set_proxy ?p) s) (\<lambda>s. bindE (neg_all delta) (\<lambda>delta.
       adjust_proxied_witness_votes_array k delta 0 s))))))
     else modify_account k (set_proxy ?p) u) = Inr t"
    using t unfolding account_witness_proxy_apply_def own_votes_def bindE_Inr_iff guardE_Inr_iff split_paired_Ex prod.case by blast
  note fk = get_account_find [OF k(1) tables_okD(1) [OF ok(1)]]
  note d = neg_all_Inr [OF n]
  note u' = u [unfolded d]
  show "moves (0, 0, 0, 0) s t \<and> no_proxy_loops t"
  proof (cases "?p = []")
    case True
    with r have "modify_account k (set_proxy []) u = Inr t" by simp
    from books_no_proxy [OF conjunct1 [OF fk] _ u' this ok] True k(2) show ?thesis by simp
  next
    case False
    then obtain j b v' v w e where j: "get_account ?p u = Inr (j, b)" "proxy_walk (acc_proxy b) (remdups [j, k]) u = Inr ()"
      and v: "clear_witness_votes k u = Inr v'" "clear_streaming_platform_votes k v' = Inr v" "modify_account k (set_proxy ?p) v = Inr w"
      and e: "neg_all delta = Inr e" "adjust_proxied_witness_votes_array k e 0 w = Inr t"
      using r unfolding if_P [OF False] bindE_Inr_iff split_paired_Ex prod.case by (metis old.unit.exhaust)
    have "e = own_votes a" using neg_all_Inr [OF e(1)] d by (simp add: comp_def)
    moreover have "j \<noteq> k"
    proof
      assume "j = k"
      note tb = take_back_votes [OF u' conjunct1 [OF fk] ok]
      have "view_of ident u k = view_of ident s k" using tb(2) by (simp add: frame_def same_view_def)
      then have "ident b = ident a"
        using get_account_find [OF j(1) tables_okD(1) [OF moves_tables [OF tb(1)]]] fk \<open>j = k\<close> by (simp add: view_of_def)
      then show False
        using get_account_find [OF j(1) tables_okD(1) [OF moves_tables [OF tb(1)]]] fk assms by (simp add: ident_def)
    qed
    ultimately show ?thesis using books_new_proxy [OF conjunct1 [OF fk] False u' j(1) _ j(2) v _ ok] e(2) by simp
  qed
qed

interpretation booked: evaluator_contract keeps_books
  by (unfold_locales)
    (rule books_account books_tables books_routes books_content books_new_content books_transfer books_vest books_user_asset books_market
      books_payout books_new_account books_convert books_order books_claim books_proxy | assumption)+

end
