(* ===== verification/Operation_Laws.thy ===== *)
theory Operation_Laws
  imports Evaluator_Laws
begin

text \<open>
  The laws of whole operations. Every evaluator respects a relation that meets the contract, so the dispatcher does; with
  the handling of proposals this gives the conservation of the books by \<open>apply_operation\<close>, whatever proposals it executes.
\<close>

section \<open>The dispatcher\<close>

text \<open>Issuing and reserving the two assets of the chain itself changes holdings without the recorded supplies. Issuing
  them takes the authority of an account nobody can sign for; anybody may reserve them.\<close>

definition native :: "asset \<Rightarrow> bool" where "native a \<longleftrightarrow> asset_id a = MUSE_SYMBOL \<or> asset_id a = MBD_SYMBOL"

fun native_free :: "operation \<Rightarrow> bool" where
  "native_free (Asset_issue x) \<longleftrightarrow> \<not> native (ais_asset_to_issue x)"
| "native_free (Asset_reserve x) \<longleftrightarrow> \<not> native (ars_amount_to_reserve x)"
| "native_free (Proposal_create _ ops _) \<longleftrightarrow> list_all native_free ops"
| "native_free _ \<longleftrightarrow> True"

fun handles_proposals :: "operation \<Rightarrow> bool" where
  "handles_proposals (Proposal_create _ _ _) = True"
| "handles_proposals (Proposal_update _) = True"
| "handles_proposals (Proposal_delete _) = True"
| "handles_proposals _ = False"

context evaluator_contract
begin

text \<open>Six evaluators respect the relation under a condition on the operation.\<close>

lemma evaluate_cases:
  assumes "\<not> handles_proposals op"
    and "\<And>x. op = Account_create x \<Longrightarrow> ensures R s (account_create_apply e x s)"
    and "\<And>x. op = Account_witness_proxy x \<Longrightarrow> ensures R s (account_witness_proxy_apply x s)"
    and "\<And>x. op = Limit_order_create2 x \<Longrightarrow> ensures R s (limit_order_create2_apply x s)"
    and "\<And>x. op = Asset_issue x \<Longrightarrow> ensures R s (asset_issue_apply x s)"
    and "\<And>x. op = Asset_reserve x \<Longrightarrow> ensures R s (asset_reserve_apply x s)"
    and "\<And>x. op = Set_withdraw_vesting_route x \<Longrightarrow> ensures R s (set_withdraw_vesting_route_apply x s)"
  shows "ensures R s (evaluate e op s)"
  by (cases op)
    (use assms in \<open>simp_all add: vote_evaluator_step content_evaluator_step content_update_step
      content_other_step transfer_evaluator_step withdraw_vesting_step limit_order_step feed_step convert_step account_update_step
      witness_update_step witness_vote_step platform_step report_step asset_step custom_step report_over_production_apply_def
      challenge_step recovery_step escrow_transfer_apply_def escrow_dispute_apply_def escrow_release_apply_def
      friendship_step claim_step\<close>)

lemma evaluate_step:
  assumes "operation_validate e op = Inr ()" "native_free op" "\<not> handles_proposals op"
  shows "ensures R s (evaluate e op s)"
proof (rule evaluate_cases [OF assms(3)])
  fix x assume op: "op = Account_create x"
  then have "0 \<le> amount (ac_fee x)"
    using assms(1) by (auto simp: account_create_validate_def check_def asset_ge_def asset_lt_def is_asset_type_def res_simps split: if_splits)
  then show "ensures R s (account_create_apply e x s)" by (rule new_account_step)
next
  fix x assume op: "op = Account_witness_proxy x"
  then have "awp_proxy x \<noteq> awp_account x"
    using assms(1) by (auto simp: account_witness_proxy_validate_def res_simps)
  then show "ensures R s (account_witness_proxy_apply x s)" by (rule proxy_step)
next
  fix x assume op: "op = Limit_order_create2 x"
  then have "asset_id (base (lc2_exchange_rate x)) = asset_id (lc2_amount_to_sell x)"
    using assms(1) by (auto simp: limit_order_create2_validate_def Let_def res_simps)
  then show "ensures R s (limit_order_create2_apply x s)" by (rule limit_order_step2)
next
  fix x assume op: "op = Set_withdraw_vesting_route x"
  then have "int (sr_percent x) \<le> MUSE_100_PERCENT"
    using assms(1) by (auto simp: set_withdraw_vesting_route_validate_def res_simps)
  then show "ensures R s (set_withdraw_vesting_route_apply x s)" by (rule route_step)
qed (use assms(2) in \<open>auto simp: native_def intro: issue_step\<close>)

end

section \<open>What only proposals and blocks change\<close>

definition statics :: "chain \<Rightarrow> chain \<Rightarrow> bool" where
  "statics s t \<longleftrightarrow> head_of (dgp t) = head_of (dgp s) \<and> hardforks t = hardforks s \<and> wso t = wso s \<and>
     feed_history t = feed_history s \<and> proposals t = proposals s \<and> transaction_objects t = transaction_objects s \<and>
     block_summaries t = block_summaries s"

definition outer :: "chain \<Rightarrow> chain \<Rightarrow> bool" where
  "outer s t \<longleftrightarrow> statics s t \<and> withdraw_routes t = withdraw_routes s"

lemma outer_frame: "frame s t \<Longrightarrow> outer s t"
  by (simp add: outer_def frame_def same_view_def statics_def head_block_time_def)

text \<open>A relation that holds whenever these parts are untouched needs no other law than the one for vesting routes to meet
  the contract of the evaluators.\<close>

locale outer_contract = step_relation +
  assumes outer_R: "outer s t \<Longrightarrow> R s t"
    and outer_routes: "(routes_bounded (withdraw_routes s) \<Longrightarrow> routes_bounded ix) \<Longrightarrow> R s (s\<lparr>withdraw_routes := ix\<rparr>)"
begin

lemma ensures_outer: "ensures frame s r \<Longrightarrow> ensures R s r" "ensures_snd frame s q \<Longrightarrow> ensures_snd R s q"
  by (auto simp: ensures_def ensures_snd_def intro: outer_R outer_frame)

lemma outer_account: "ensures R s (modify_account k f s)" "ensures R s (create_account a s)"
  by (auto simp: ensures_def modify_account_Inr create_account_def bindE_Inr_iff outer_def statics_def head_block_time_def intro!: outer_R)

lemma outer_vest: "ensures_snd R s (create_vesting k d s)" "ensures R s (adjust_balance k d s)"
  by (rule ensures_outer frame_create frame_adjust_balance)+

lemma outer_pay: "ensures R s (pay_from k a d s)"
  by (rule ensures_outer frame_pay_from)+

lemma outer_create: "ensures R s (create_convert_request c s)" "ensures_snd R s (create_limit_order ord s)" "ensures R s (change_balances h s)"
  by (auto simp: ensures_def ensures_snd_def create_convert_request_def create_limit_order_def change_balances_def bindE_Inr_iff
      outer_def statics_def head_block_time_def intro!: outer_R)

lemma outer_order: "ensures R s (place_order owner orderid d p fk ex s)"
  unfolding place_order_def
  by (rule ensures_rules outer_pay outer_create ensures_outer(2) frame_apply_order ensures_same)+

lemma outer_new_account: "ensures R s (account_create_apply e o1 s)"
  unfolding account_create_apply_def
  by (rule ensures_seq_snd ensures_seq(1) [OF outer_account(1)] ensures_seq(1) [OF outer_account(2)]
      ensures_branch ensures_bind outer_vest ensures_same)+

lemma outer_claim: "ensures R s (balance_claim_apply e o1 s)" "ensures R s (convert_apply o2 s)"
  unfolding balance_claim_apply_def convert_apply_def
  by (rule ensures_rules outer_create outer_pay outer_vest)+

lemma outer_clear: "ensures R s (clear_witness_votes k s)" "ensures R s (clear_streaming_platform_votes k s)"
  by (auto simp: ensures_def clear_witness_votes_def clear_streaming_platform_votes_def Let_def modify_account_Inr outer_def statics_def
      head_block_time_def intro!: outer_R)

lemma outer_proxy: "ensures R s (account_witness_proxy_apply o1 s)"
  unfolding account_witness_proxy_apply_def
  by (rule ensures_rules ensures_outer(1) [OF frame_adjust_proxied_array] outer_clear outer_account)+

end

sublocale outer_contract \<subseteq> evaluator_contract R
proof unfold_locales
  show "R s t" if "same_booked s t" for s t
    using that by (intro outer_R) (simp add: same_booked_def outer_def statics_def head_block_time_def)
  show "R s u" if "asset_neg d = Inr n" "adjust_balance k n s = Inr t" "create_vesting j d t = Inr (v, u)" for d n k s t j v u
    using ensuresD(1) [OF outer_vest(2) that(2)] ensuresD(2) [OF outer_vest(1) that(3)] by (rule R_trans)
  show "ensures R s (modify_content k g s)" for k g s by (rule ensures_outer frame_objects)+
  show "ensures R s (bindE (pay_from k a d s) (adjust_balance j d))" for s k a d j
    by (rule ensures_rules outer_pay outer_vest)+
  show "ensures R s (cancel_order k s)" for k s by (rule ensures_outer frame_cancel_order)+
  show "ensures R s (pay_fee k d s)" for k d s by (rule ensures_outer frame_create)+
  show "ensures R s (pay_to_content_master c d s)" "ensures R s (pay_to_content_comp c d s)" for c d s
    by (rule ensures_outer frame_pay_content)+
  show "R s (s\<lparr>withdraw_routes := ix\<rparr>)" if "routes_bounded (withdraw_routes s) \<Longrightarrow> routes_bounded ix" for s ix
    using that by (rule outer_routes)
  show "R s (s\<lparr>contents := idx_create c (contents s)\<rparr>)" for s c
    by (rule outer_R) (simp add: outer_def statics_def head_block_time_def)
qed (rule outer_account outer_vest outer_new_account outer_claim outer_order outer_proxy)+

context outer_contract
begin

lemma outer_issue: "ensures R s (asset_issue_apply o1 s)" "ensures R s (asset_reserve_apply o2 s)"
  unfolding asset_issue_apply_def asset_reserve_apply_def
  by (rule ensures_rules outer_vest index_step ensures_error)+

lemma outer_evaluate:
  assumes "\<not> handles_proposals op" "\<And>x. op = Set_withdraw_vesting_route x \<Longrightarrow> ensures R s (set_withdraw_vesting_route_apply x s)"
  shows "ensures R s (evaluate e op s)"
  using assms
  by (intro evaluate_cases)
    (simp_all add: outer_new_account outer_proxy limit_order_create2_apply_def outer_order outer_issue)

end

interpretation still: outer_contract statics
  by unfold_locales (simp_all add: outer_def statics_def head_block_time_def)

definition bounded_routes :: "chain \<Rightarrow> chain \<Rightarrow> bool" where
  "bounded_routes s t \<longleftrightarrow> (routes_bounded (withdraw_routes s) \<longrightarrow> routes_bounded (withdraw_routes t))"

interpretation routed: outer_contract bounded_routes
  by unfold_locales (auto simp: bounded_routes_def outer_def)

lemma statics_change_routes: "ensures statics s (change_routes f s)"
  by (auto simp: ensures_def change_routes_def bindE_Inr_iff statics_def head_block_time_def)

lemma statics_route: "ensures statics s (set_withdraw_vesting_route_apply o1 s)"
  unfolding set_withdraw_vesting_route_apply_def
  by (rule still.ensures_rules still.outer_account statics_change_routes still.ensures_same)+

lemma statics_evaluate: "\<not> handles_proposals op \<Longrightarrow> ensures statics s (evaluate e op s)"
  using still.outer_evaluate statics_route by blast

lemma routes_evaluate:
  assumes "operation_validate e op = Inr ()" "\<not> handles_proposals op"
  shows "ensures bounded_routes s (evaluate e op s)"
proof (rule routed.outer_evaluate [OF assms(2)])
  fix x assume "op = Set_withdraw_vesting_route x"
  then have "int (sr_percent x) \<le> MUSE_100_PERCENT"
    using assms(1) by (auto simp: set_withdraw_vesting_route_validate_def res_simps)
  then show "ensures bounded_routes s (set_withdraw_vesting_route_apply x s)" by (rule routed.route_step)
qed

section \<open>Proposals\<close>

definition op_sound :: "env \<Rightarrow> operation \<Rightarrow> bool" where
  "op_sound e op \<longleftrightarrow> operation_validate e op = Inr () \<and> native_free op"

definition proposals_sound :: "env \<Rightarrow> chain \<Rightarrow> bool" where
  "proposals_sound e s \<longleftrightarrow> list_all (\<lambda>(k, p). list_all (op_sound e) (tx_operations (prop_proposed_transaction p))) (rows (proposals s))"

definition books_ok :: "env \<Rightarrow> chain \<Rightarrow> bool" where
  "books_ok e s \<longleftrightarrow> tables_ok s \<and> no_proxy_loops s \<and> proposals_sound e s \<and> routes_bounded (withdraw_routes s)"

definition conserves :: "env \<Rightarrow> chain \<Rightarrow> chain \<Rightarrow> bool" where
  "conserves e s t \<longleftrightarrow> (books_ok e s \<longrightarrow> moves (0, 0, 0, 0) s t \<and> books_ok e t)"

lemma conserves_refl: "conserves e s s"
  by (simp add: conserves_def books_ok_def moves_refl)

lemma conserves_trans: "conserves e s t \<Longrightarrow> conserves e t u \<Longrightarrow> conserves e s u"
  using moves_trans [of 0 0 0 0 s t 0 0 0 0 u] by (auto simp: conserves_def)

lemma conserves_evaluate:
  assumes "evaluate e op s = Inr t" "op_sound e op" "\<not> handles_proposals op"
  shows "conserves e s t"
proof -
  have "keeps_books s t" "statics s t" "bounded_routes s t"
    using assms booked.evaluate_step statics_evaluate routes_evaluate by (auto simp: op_sound_def ensures_def)
  then show ?thesis using moves_tables [of "(0, 0, 0, 0)" s t]
    by (auto simp: conserves_def books_ok_def keeps_books_def statics_def proposals_sound_def bounded_routes_def)
qed

text \<open>A change of the table of proposals leaves the books alone.\<close>

lemma conserves_proposals:
  assumes "proposals_sound e s \<Longrightarrow> proposals_sound e (s\<lparr>proposals := ix\<rparr>)"
  shows "conserves e s (s\<lparr>proposals := ix\<rparr>)"
proof -
  have "no_proxy_loops (s\<lparr>proposals := ix\<rparr>) \<longleftrightarrow> no_proxy_loops s" by (rule loops_idents) (simp add: idents_def)
  moreover have "tables_ok s \<Longrightarrow> moves (0, 0, 0, 0) s (s\<lparr>proposals := ix\<rparr>)" by (rule books_unchanged) simp_all
  ultimately show ?thesis using assms moves_tables [of "(0, 0, 0, 0)" s "s\<lparr>proposals := ix\<rparr>"]
    by (auto simp: conserves_def books_ok_def)
qed

lemma conserves_remove: "change_proposals (idx_remove k) s = Inr t \<Longrightarrow> conserves e s t"
  by (auto simp: change_proposals_def bindE_Inr_iff idx_remove_Inr proposals_sound_def list_all_iff table_delete_def
      intro!: conserves_proposals)

lemma list_all_update: "list_all P t \<Longrightarrow> P (k, y) \<Longrightarrow> list_all P (table_update k y t)"
  by (auto simp: list_all_iff table_update_def)

lemma conserves_modify:
  assumes "change_proposals (idx_modify k (\<lambda>p. Inr (f p))) s = Inr t" "\<And>p. prop_proposed_transaction (f p) = prop_proposed_transaction p"
  shows "conserves e s t"
proof -
  obtain p where "idx_find k (proposals s) = Some p" and t: "t = s\<lparr>proposals := (proposals s)\<lparr>rows := table_update k (f p) (rows (proposals s))\<rparr>\<rparr>"
    using assms(1) by (auto simp: change_proposals_def bindE_Inr_iff idx_modify_Inr)
  then have m: "(k, p) \<in> set (rows (proposals s))" by (auto simp: idx_find_def dest: map_of_SomeD)
  show ?thesis unfolding t
  proof (rule conserves_proposals)
    assume s: "proposals_sound e s"
    then have "list_all (op_sound e) (tx_operations (prop_proposed_transaction p))"
      using m unfolding proposals_sound_def list_all_iff by blast
    then show "proposals_sound e (s\<lparr>proposals := (proposals s)\<lparr>rows := table_update k (f p) (rows (proposals s))\<rparr>\<rparr>)"
      using s by (simp add: proposals_sound_def list_all_update assms(2))
  qed
qed

lemma operations_validate_iff: "operations_validate e ops = Inr () \<longleftrightarrow> list_all (\<lambda>op. operation_validate e op = Inr ()) ops"
  by (induction ops) (auto simp: bindE_Inr_iff)

lemma conserves_create:
  assumes "proposal_create_apply e expiration ops review s = Inr t" "list_all native_free ops"
  shows "conserves e s t"
proof -
  obtain req where t: "t = s\<lparr>proposals := idx_create (new_proposal expiration ops review req s) (proposals s)\<rparr>"
    and "transaction_validate e ops = Inr ()"
    using assms(1) unfolding proposal_create_apply_def by (auto simp: bindE_Inr_iff guardE_Inr_iff)
  then have "list_all (op_sound e) ops"
    using assms(2) by (auto simp: transaction_validate_def guardE_Inr_iff operations_validate_iff op_sound_def list_all_iff)
  then show ?thesis unfolding t
    by (intro conserves_proposals) (simp add: proposals_sound_def rows_create new_proposal_def)
qed

lemma conserves_delete: "proposal_delete_apply o1 s = Inr t \<Longrightarrow> conserves e s t"
  by (auto simp: proposal_delete_apply_def bindE_Inr_iff guardE_Inr_iff intro: conserves_remove)

lemma conserves_approve: "proposal_update_approve o1 s = Inr (b, t) \<Longrightarrow> conserves e s t"
  by (auto simp: proposal_update_approve_def bindE_Inr_iff update_approvals_def intro: conserves_modify)

lemma conserves_update:
  assumes "proposal_update_apply execute o1 s = Some (Inr t)" "\<And>k s t. execute k s = Some (Inr t) \<Longrightarrow> conserves e s t"
  shows "conserves e s t"
proof -
  obtain b u where u: "proposal_update_approve o1 s = Inr (b, u)"
    "t = u \<or> execute (pu_proposal o1) u = Some (Inr t)"
    using assms(1) by (auto simp: proposal_update_apply_def bindR_Inr_iff split: if_splits option.splits sum.splits)
  from conserves_approve [OF u(1)] u(2) assms(2) show ?thesis by (blast intro: conserves_trans)
qed

lemma conserves_dispatch:
  assumes "dispatch execute e op s = Some (Inr t)" "op_sound e op" "\<And>k s t. execute k s = Some (Inr t) \<Longrightarrow> conserves e s t"
  shows "conserves e s t"
proof (cases "handles_proposals op")
  case False
  then have "evaluate e op s = Inr t" using assms(1) by (cases op) (simp_all add: dispatch_def)
  then show ?thesis by (rule conserves_evaluate) fact+
next
  case True
  then show ?thesis using assms
    by (cases op) (auto simp: dispatch_def op_sound_def intro: conserves_create conserves_delete conserves_update)
qed

lemma conserves_push: "push_proposal n e k s = Some (Inr t) \<Longrightarrow> conserves e s t"
proof (induction n arbitrary: k s t)
  case (Suc n)
  obtain p u where p: "idx_find k (proposals s) = Some p" and r: "change_proposals (idx_remove k) u = Inr t"
    and u: "foldR (dispatch (push_proposal n e) e) (tx_operations (prop_proposed_transaction p)) s = Some (Inr u)"
    using Suc.prems by (auto simp: bindR_Inr_iff idx_get_Inr)
  show ?case unfolding conserves_def
  proof
    assume ok: "books_ok e s"
    then have sound: "op \<in> set (tx_operations (prop_proposed_transaction p)) \<Longrightarrow> op_sound e op" for op
      using p by (auto simp: books_ok_def proposals_sound_def list_all_iff idx_find_def dest!: map_of_SomeD)
    have "conserves e s u"
    proof (rule foldR_invariant [OF u conserves_refl])
      fix op a b assume op: "op \<in> set (tx_operations (prop_proposed_transaction p))"
        and a: "conserves e s a" and b: "dispatch (push_proposal n e) e op a = Some (Inr b)"
      from a conserves_dispatch [OF b sound [OF op] Suc.IH] show "conserves e s b" by (rule conserves_trans)
    qed
    then have "conserves e s t" using conserves_remove [OF r] by (rule conserves_trans)
    with ok show "moves (0, 0, 0, 0) s t \<and> books_ok e t" by (simp add: conserves_def)
  qed
qed simp

text \<open>Property C6. Every operation that passes validation, other than one that issues or reserves MUSE or MBD or proposes to do
  so, keeps the four books of the chain in balance: recorded supplies of
  MUSE and MBD, vesting shares and voting weight change exactly as the holdings do. It keeps the proxies free of loops
  and the stored proposals valid, and no vesting route above 100 percent. This holds in every state whose stored
  proposals are valid and free of such operations too, through every proposal the operation executes, nested to any depth.\<close>

theorem apply_operation_conserves:
  assumes "apply_operation n e op s = Some (Inr t)" "operation_validate e op = Inr ()" "native_free op"
    and "tables_ok s" "no_proxy_loops s" "proposals_sound e s" "routes_bounded (withdraw_routes s)"
  shows "muse_gap t = muse_gap s \<and> mbd_gap t = mbd_gap s \<and> vests_gap t = vests_gap s \<and> vsf_gap t = vsf_gap s \<and>
    tables_ok t \<and> no_proxy_loops t \<and> proposals_sound e t \<and> routes_bounded (withdraw_routes t)"
proof -
  have "conserves e s t"
    using assms(1-3) by (auto simp: apply_operation_def op_sound_def intro: conserves_dispatch conserves_push)
  then have "moves (0, 0, 0, 0) s t \<and> books_ok e t" using assms(4-7) by (simp add: conserves_def books_ok_def)
  then show ?thesis by (simp add: moves_def books_ok_def)
qed

text \<open>A chain on which the approval of a proposal executes the transfer it holds.\<close>

definition demo_env :: env where
  [chain_eval]: "demo_env = \<lparr>env_is_utf8 = (\<lambda>_. True), env_json_valid = (\<lambda>_. True), env_json_valid_broken_nul = (\<lambda>_. True),
     env_signee = (\<lambda>_. 1), env_header_sha = (\<lambda>_. 0), env_now = 0, env_address = (\<lambda>k. k), env_pts_address = (\<lambda>k c v. k)\<rparr>"

definition demo_approval :: "string list \<Rightarrow> public_key list \<Rightarrow> proposal_update_operation" where
  [chain_eval]: "demo_approval names keys = \<lparr>pu_proposal = 0, pu_active_approvals_to_add = names, pu_active_approvals_to_remove = [],
     pu_owner_approvals_to_add = [], pu_owner_approvals_to_remove = [], pu_key_approvals_to_add = keys, pu_key_approvals_to_remove = []\<rparr>"

definition demo_proposal :: "operation list \<Rightarrow> string list \<Rightarrow> proposal" where
  [chain_eval]: "demo_proposal ops names = \<lparr>prop_expiration_time = 100, prop_review_period_time = None,
     prop_proposed_transaction = \<lparr>tx_ref_block_num = 0, tx_ref_block_prefix = 0, tx_expiration = 100, tx_operations = ops\<rparr>,
     prop_required_active_approvals = names, prop_available_active_approvals = [], prop_required_owner_approvals = [],
     prop_available_owner_approvals = [], prop_required_basic_approvals = [], prop_available_basic_approvals = [],
     prop_required_master_content_approvals = [], prop_required_comp_content_approvals = [],
     prop_available_key_approvals = [], prop_can_veto = names\<rparr>"

definition demo_transfer :: operation where
  [chain_eval]: "demo_transfer = Transfer \<lparr>tr_from = ''alice'', tr_to = ''bobby'', tr_amount = mk_asset 30 MUSE_SYMBOL, tr_memo = []\<rparr>"

definition demo_proposed :: "operation list \<Rightarrow> string list \<Rightarrow> chain" where
  [chain_eval]: "demo_proposed ops names =
     (demo_chain [demo_account ''alice'' 100 0 0, demo_account ''bobby'' 0 0 0] [] (demo_dgp 100 0 0 0))
       \<lparr>proposals := index_of [demo_proposal ops names]\<rparr>"

lemma no_proxies: "list_all (\<lambda>(k, a). acc_proxy a = []) (rows (accounts s)) \<Longrightarrow> no_proxy_loops s"
proof -
  assume "list_all (\<lambda>(k, a). acc_proxy a = []) (rows (accounts s))"
  then have "proxy_rel s = {}"
    by (auto simp: proxy_rel_def proxy_next_def idx_find_def list_all_iff split: option.splits if_splits dest!: map_of_SomeD)
  then show ?thesis by (simp add: no_proxy_loops_def acyclic_def)
qed

lemma demo_transfer_runs: "\<exists>t. apply_operation 1 demo_env (Proposal_update (demo_approval [''alice''] [])) (demo_proposed [demo_transfer] [''alice'']) = Some (Inr t)
    \<and> map (acc_balance \<circ> snd) (rows (accounts t)) = [70, 30]"
  by (simp add: chain_eval)

lemma demo_transfer_ok:
  "operation_validate demo_env (Proposal_update (demo_approval [''alice''] [])) = Inr ()"
  "tables_ok (demo_proposed [demo_transfer] [''alice''])" "proposals_sound demo_env (demo_proposed [demo_transfer] [''alice''])"
  "routes_bounded (withdraw_routes (demo_proposed [demo_transfer] [''alice'']))"
  by (simp_all add: chain_eval proposals_sound_def op_sound_def name_loop.simps routes_bounded_def)

theorem apply_operation_conserves_witness:
  "\<exists>t. apply_operation 1 demo_env (Proposal_update (demo_approval [''alice''] [])) (demo_proposed [demo_transfer] [''alice'']) = Some (Inr t)
     \<and> map (acc_balance \<circ> snd) (rows (accounts t)) = [70, 30] \<and> muse_gap t = muse_gap (demo_proposed [demo_transfer] [''alice'']) \<and>
     no_proxy_loops t"
proof -
  obtain t where t: "apply_operation 1 demo_env (Proposal_update (demo_approval [''alice''] [])) (demo_proposed [demo_transfer] [''alice'']) = Some (Inr t)"
    "map (acc_balance \<circ> snd) (rows (accounts t)) = [70, 30]"
    using demo_transfer_runs by (elim exE conjE)
  have "no_proxy_loops (demo_proposed [demo_transfer] [''alice''])" by (rule no_proxies) (simp add: chain_eval)
  from apply_operation_conserves [OF t(1) demo_transfer_ok(1) _ demo_transfer_ok(2) this demo_transfer_ok(3,4)] t show ?thesis
    by (intro exI [of _ t] conjI) simp_all
qed

end
