(* ===== verification/Proposal_Laws.thy ===== *)
theory Proposal_Laws
  imports Operation_Laws
begin

text \<open>
  When the execution of proposals ends. A proposal that approves itself by key executes itself without end; if the
  references between proposals go down a rank, the execution returns; and a larger stack never changes a result.
\<close>

section \<open>A proposal that approves itself\<close>

lemma fold_insert_absent: "set new \<subseteq> set old \<Longrightarrow> fold insort_insert new old = old"
  by (induction new) (auto simp: insort_insert_triv)

lemma set_fold_insert: "set (fold insort_insert new old) = set new \<union> set old"
  by (induction new arbitrary: old) (auto simp: set_insort_insert)

lemma ins_idem: "ins new (ins new old) = ins new old"
  unfolding ins_def by (rule fold_insert_absent) (simp add: set_fold_insert)

definition only_keys :: "proposal_update_operation \<Rightarrow> bool" where
  "only_keys u \<longleftrightarrow> pu_active_approvals_to_add u = [] \<and> pu_active_approvals_to_remove u = [] \<and> pu_owner_approvals_to_add u = [] \<and>
     pu_owner_approvals_to_remove u = [] \<and> pu_key_approvals_to_remove u = []"

lemma update_approvals_keys: "only_keys u \<Longrightarrow> update_approvals u (update_approvals u p) = update_approvals u p"
  by (simp add: only_keys_def update_approvals_def erase_all_def ins_idem)

lemma table_update_same: "table_ok t \<Longrightarrow> map_of t k = Some y \<Longrightarrow> table_update k y t = t"
  unfolding table_update_def by (rule map_idI) (auto simp: table_ok_def dest: eq_key_imp_eq_value)

text \<open>Approving by key alone has no check that the approval is new: once given, it can be given again with the same effect.\<close>

lemma approve_again:
  assumes "proposal_update_approve u s = Inr (b, t)" "only_keys u" "index_ok (proposals s)"
  shows "proposal_update_approve u t = Inr (b, t)" and "\<exists>p q. idx_find (pu_proposal u) (proposals s) = Some p \<and>
    idx_find (pu_proposal u) (proposals t) = Some q \<and> prop_proposed_transaction q = prop_proposed_transaction p"
proof -
  let ?k = "pu_proposal u"
  obtain p where p: "idx_find ?k (proposals s) = Some p"
    and t: "t = s\<lparr>proposals := (proposals s)\<lparr>rows := table_update ?k (update_approvals u p) (rows (proposals s))\<rparr>\<rparr>"
    and b: "b \<longleftrightarrow> prop_review_period_time p = None \<and> is_authorized_to_execute (update_approvals u p) t"
    using assms(1) unfolding proposal_update_approve_def change_proposals_def bindE_Inr_iff idx_modify_Inr idx_get_Inr by fastforce
  have q: "idx_find ?k (proposals t) = Some (update_approvals u p)" using p by (simp add: t idx_find_update)
  moreover have "prop_proposed_transaction (update_approvals u p) = prop_proposed_transaction p"
    "prop_review_period_time (update_approvals u p) = prop_review_period_time p"
    by (simp_all add: update_approvals_def)
  moreover have "proposal_update_check u (update_approvals u p) t = Inr ()"
    using assms(2) by (simp add: proposal_update_check_def only_keys_def all_in_def none_in_def guardE_def assertE_def split: option.split)
  moreover have "change_proposals (idx_modify ?k (\<lambda>p. Inr (update_approvals u p))) t = Inr t"
  proof -
    have "index_ok (proposals t)" using assms(3) by (simp add: t index_ok_update)
    then have "table_update ?k (update_approvals u p) (rows (proposals t)) = rows (proposals t)"
      using q by (intro table_update_same) (simp_all add: index_ok_def idx_find_def)
    then show ?thesis using q by (simp add: change_proposals_def idx_modify_def idx_get_def update_approvals_keys [OF assms(2)])
  qed
  ultimately show "proposal_update_approve u t = Inr (b, t)" "\<exists>p q. idx_find ?k (proposals s) = Some p \<and>
    idx_find ?k (proposals t) = Some q \<and> prop_proposed_transaction q = prop_proposed_transaction p"
    using p b by (simp_all add: proposal_update_approve_def idx_get_def update_approvals_keys [OF assms(2)])
qed

text \<open>Property C19. A proposal whose first operation approves the proposal itself by a key, and that this approval
  authorizes, is executed without end: no depth of nested calls is enough for the operation to return. The check
  against approving twice covers names only, not keys.\<close>

theorem self_approving_proposal_diverges:
  assumes "idx_find (pu_proposal u) (proposals s) = Some p" "tx_operations (prop_proposed_transaction p) = Proposal_update u # ops"
    and "only_keys u" "proposal_update_approve u s = Inr (True, t)" "index_ok (proposals s)"
  shows "apply_operation n e (Proposal_update u) s = None"
proof -
  note again = approve_again [OF assms(4,3,5)]
  obtain q where q: "idx_find (pu_proposal u) (proposals t) = Some q" "tx_operations (prop_proposed_transaction q) = Proposal_update u # ops"
    using again(2) assms(1,2) by auto
  have "push_proposal m e (pu_proposal u) t = None" for m
  proof (induction m)
    case (Suc m)
    then have "dispatch (push_proposal m e) e (Proposal_update u) t = None"
      using again(1) by (simp add: dispatch_def proposal_update_apply_def)
    then show ?case using q by (simp add: idx_get_def)
  qed simp
  then show ?thesis using assms(4) by (simp add: apply_operation_def dispatch_def proposal_update_apply_def)
qed

definition demo_loop :: chain where
  [chain_eval]: "demo_loop = demo_proposed [Proposal_update (demo_approval [] [7])] []"

lemma demo_loop_ok:
  "idx_find 0 (proposals demo_loop) = Some (demo_proposal [Proposal_update (demo_approval [] [7])] [])" "only_keys (demo_approval [] [7])"
  "\<exists>t. proposal_update_approve (demo_approval [] [7]) demo_loop = Inr (True, t)" "index_ok (proposals demo_loop)"
  by (simp_all add: chain_eval only_keys_def)

theorem self_approving_proposal_diverges_witness:
  "apply_operation 1000 demo_env (Proposal_update (demo_approval [] [7])) demo_loop = None"
proof -
  obtain t where t: "proposal_update_approve (demo_approval [] [7]) demo_loop = Inr (True, t)" using demo_loop_ok(3) by (elim exE)
  have "pu_proposal (demo_approval [] [7]) = 0" by (simp add: chain_eval)
  then show ?thesis
    by (intro self_approving_proposal_diverges [OF _ _ demo_loop_ok(2) t demo_loop_ok(4), where ops = "[]"])
      (simp_all add: demo_loop_ok(1), simp add: demo_proposal_def)
qed

section \<open>Proposals that refer downwards\<close>

definition refers_below :: "(nat \<Rightarrow> nat) \<Rightarrow> nat \<Rightarrow> operation \<Rightarrow> bool" where
  "refers_below r m op \<longleftrightarrow> (case op of Proposal_update u \<Rightarrow> r (pu_proposal u) < m | _ \<Rightarrow> \<not> is_proposal_operation op)"

definition ranked :: "(nat \<Rightarrow> nat) \<Rightarrow> chain \<Rightarrow> bool" where
  "ranked r s \<longleftrightarrow>
     list_all (\<lambda>(k, p). list_all (refers_below r (r k)) (tx_operations (prop_proposed_transaction p))) (rows (proposals s))"

lemma list_all_delete: "list_all P t \<Longrightarrow> list_all P (table_delete k t)"
  by (simp add: list_all_iff table_delete_def)

lemma length_table_update: "length (table_update k y t) = length t"
  by (simp add: table_update_def)

definition pending :: "chain \<Rightarrow> nat" where "pending s = length (rows (proposals s))"

definition shrinks :: "(nat \<Rightarrow> nat) \<Rightarrow> chain \<Rightarrow> chain \<Rightarrow> bool" where
  "shrinks r s t \<longleftrightarrow> (ranked r s \<longrightarrow> ranked r t \<and> pending t \<le> pending s)"

lemma shrinks_refl: "shrinks r s s" by (simp add: shrinks_def)

lemma shrinks_trans: "shrinks r s t \<Longrightarrow> shrinks r t u \<Longrightarrow> shrinks r s u"
  by (auto simp: shrinks_def)

lemma shrinks_remove:
  assumes "change_proposals (idx_remove k) s = Inr t"
  shows "shrinks r s t" "pending t < pending s"
proof -
  obtain p where "idx_find k (proposals s) = Some p" and t: "t = s\<lparr>proposals := (proposals s)\<lparr>rows := table_delete k (rows (proposals s))\<rparr>\<rparr>"
    using assms by (auto simp: change_proposals_def bindE_Inr_iff idx_remove_Inr)
  then have "(k, p) \<in> set (rows (proposals s))" by (auto simp: idx_find_def dest: map_of_SomeD)
  then show "pending t < pending s" by (auto simp: pending_def t table_delete_def intro: length_filter_less)
  then show "shrinks r s t" by (simp add: shrinks_def ranked_def t list_all_delete)
qed

lemma shrinks_approve:
  assumes "proposal_update_approve u s = Inr (b, t)"
  shows "shrinks r s t"
  unfolding shrinks_def
proof
  assume r: "ranked r s"
  obtain p where p: "idx_find (pu_proposal u) (proposals s) = Some p"
    and t: "t = s\<lparr>proposals := (proposals s)\<lparr>rows := table_update (pu_proposal u) (update_approvals u p) (rows (proposals s))\<rparr>\<rparr>"
    using assms(1) unfolding proposal_update_approve_def change_proposals_def bindE_Inr_iff idx_modify_Inr idx_get_Inr by fastforce
  from p have "(pu_proposal u, p) \<in> set (rows (proposals s))" by (auto simp: idx_find_def dest: map_of_SomeD)
  then have "list_all (refers_below r (r (pu_proposal u))) (tx_operations (prop_proposed_transaction p))"
    using r unfolding ranked_def list_all_iff by blast
  then show "ranked r t \<and> pending t \<le> pending s"
    using r by (simp add: ranked_def t list_all_update update_approvals_def pending_def length_table_update)
qed

lemma shrinks_dispatch:
  assumes "dispatch execute e op s = Some (Inr t)" "refers_below r m op" "\<And>k s t. execute k s = Some (Inr t) \<Longrightarrow> shrinks r s t"
  shows "shrinks r s t"
proof (cases "handles_proposals op")
  case False
  then have "evaluate e op s = Inr t" using assms(1) by (cases op) (simp_all add: dispatch_def)
  then have "statics s t" using statics_evaluate [OF False] by (auto simp: ensures_def)
  then show ?thesis by (simp add: statics_def ranked_def shrinks_def pending_def)
next
  case True
  show ?thesis
  proof (cases op)
    case (Proposal_update u)
    then obtain b v where v: "proposal_update_approve u s = Inr (b, v)" "t = v \<or> execute (pu_proposal u) v = Some (Inr t)"
      using assms(1) by (auto simp: dispatch_def proposal_update_apply_def bindR_Inr_iff split: if_splits option.splits sum.splits)
    then show ?thesis using shrinks_approve [OF v(1)] assms(3) by (blast intro: shrinks_trans)
  next
    case (Proposal_delete u)
    then show ?thesis using assms(1)
      by (auto simp: dispatch_def proposal_delete_apply_def bindE_Inr_iff guardE_Inr_iff intro: shrinks_remove)
  qed (use True assms(2) in \<open>simp_all add: refers_below_def\<close>)
qed

lemma ranked_ops: "ranked r s \<Longrightarrow> idx_find k (proposals s) = Some p \<Longrightarrow>
    op \<in> set (tx_operations (prop_proposed_transaction p)) \<Longrightarrow> refers_below r (r k) op"
  by (auto simp: ranked_def list_all_iff idx_find_def dest!: map_of_SomeD)

lemma shrinks_push:
  assumes "push_proposal n e k s = Some (Inr t)"
  shows "shrinks r s t" and "ranked r s \<Longrightarrow> pending t < pending s"
proof -
  have "ranked r s \<Longrightarrow> ranked r t \<and> pending t < pending s"
    using assms
  proof (induction n arbitrary: k s t)
    case (Suc n)
    obtain p u where p: "idx_find k (proposals s) = Some p" and t: "change_proposals (idx_remove k) u = Inr t"
      and u: "foldR (dispatch (push_proposal n e) e) (tx_operations (prop_proposed_transaction p)) s = Some (Inr u)"
      using Suc.prems(2) by (auto simp: bindR_Inr_iff idx_get_Inr)
    have "shrinks r s u"
    proof (rule foldR_invariant [where I = "shrinks r s", OF u shrinks_refl])
      fix op a b assume op: "op \<in> set (tx_operations (prop_proposed_transaction p))" and a: "shrinks r s a"
        and b: "dispatch (push_proposal n e) e op a = Some (Inr b)"
      have "shrinks r a b"
        by (rule shrinks_dispatch [OF b ranked_ops [OF Suc.prems(1) p op]]) (use Suc.IH in \<open>auto simp: shrinks_def dest: less_imp_le\<close>)
      with a show "shrinks r s b" by (rule shrinks_trans)
    qed
    with shrinks_remove(1) [OF t, of r] shrinks_remove(2) [OF t] Suc.prems(1) show ?case by (auto simp: shrinks_def)
  qed simp
  then show "shrinks r s t" "ranked r s \<Longrightarrow> pending t < pending s" by (auto simp: shrinks_def)
qed

lemma push_returns: "ranked r s \<Longrightarrow> r k < n \<Longrightarrow> push_proposal n e k s \<noteq> None"
proof (induction n arbitrary: k s)
  case (Suc n)
  show ?case
  proof (cases "idx_find k (proposals s)")
    case (Some p)
    note ops = ranked_ops [OF Suc.prems(1) Some]
    have "foldR (dispatch (push_proposal n e) e) (tx_operations (prop_proposed_transaction p)) s \<noteq> None"
    proof (rule foldR_returns [where I = "ranked r", OF Suc.prems(1)])
      fix op a assume op: "op \<in> set (tx_operations (prop_proposed_transaction p))" and a: "ranked r a"
      show "dispatch (push_proposal n e) e op a \<noteq> None"
      proof (cases op)
        case (Proposal_update u)
        have "push_proposal n e (pu_proposal u) v \<noteq> None" if "proposal_update_approve u a = Inr (b, v)" for b v
          using Suc.IH [of v] shrinks_approve [OF that, of r] a ops [OF op] Suc.prems(2) Proposal_update by (simp add: refers_below_def shrinks_def)
        then show ?thesis
          by (auto simp: Proposal_update dispatch_def proposal_update_apply_def bindR_None_iff split: option.splits sum.splits)
      qed (simp_all add: dispatch_def)
    next
      fix op a b assume op: "op \<in> set (tx_operations (prop_proposed_transaction p))" and a: "ranked r a"
        and b: "dispatch (push_proposal n e) e op a = Some (Inr b)"
      show "ranked r b" using shrinks_dispatch [OF b ops [OF op] shrinks_push(1)] a by (simp add: shrinks_def)
    qed
    then show ?thesis using Some by (auto simp: idx_get_def bindR_None_iff)
  qed (simp add: idx_get_def)
qed simp

text \<open>Property C18. If the proposals can be ranked so that each one approves only proposals of lower rank and none creates
  further proposals, then approving a proposal returns: as many nested executions as its rank allows are enough, whatever
  the operations do on the way.\<close>

theorem ranked_proposals_return:
  assumes "ranked r s" "r (pu_proposal u) < n"
  shows "\<exists>res. apply_operation n e (Proposal_update u) s = Some res"
proof -
  have "push_proposal n e (pu_proposal u) v \<noteq> None" if "proposal_update_approve u s = Inr (b, v)" for b v
    using push_returns [of r v "pu_proposal u" n e] assms shrinks_approve [OF that, of r] by (simp add: shrinks_def)
  then have "apply_operation n e (Proposal_update u) s \<noteq> None"
    by (auto simp: apply_operation_def dispatch_def proposal_update_apply_def bindR_None_iff split: option.splits sum.splits)
  then show ?thesis by blast
qed

theorem ranked_proposals_return_witness:
  "\<exists>res. apply_operation 1 demo_env (Proposal_update (demo_approval [''alice''] [])) (demo_proposed [demo_transfer] [''alice'']) = Some res"
  by (rule ranked_proposals_return [where r = "\<lambda>_. 0"]) (simp_all add: chain_eval ranked_def refers_below_def)

section \<open>Expiration\<close>

lemma expire_shrinks:
  assumes "ranked r s" "expire_proposal n e k p s = Some (Inr t)"
  shows "ranked r t \<and> pending t < pending s"
proof -
  consider (push) "push_proposal n e k s = Some (Inr t)" | (remove) "change_proposals (idx_remove k) s = Inr t"
    using assms(2) by (auto simp: expire_proposal_def split: if_splits option.splits sum.splits)
  then show ?thesis
  proof cases
    case push
    then show ?thesis using shrinks_push [OF push, of r] assms(1) by (simp add: shrinks_def)
  next
    case remove
    then show ?thesis using shrinks_remove(1) [OF remove, of r] shrinks_remove(2) [OF remove] assms(1) by (simp add: shrinks_def)
  qed
qed

lemma expired_pending: "expired_proposals s \<noteq> [] \<Longrightarrow> pending s \<noteq> 0"
  by (auto simp: expired_proposals_def pending_def)

lemma expire_loop_returns: "ranked r s \<Longrightarrow> (\<And>k. r k < n) \<Longrightarrow> pending s \<le> m \<Longrightarrow> expire_loop m n e s \<noteq> None"
proof (induction m arbitrary: s)
  case 0
  then show ?case using expired_pending [of s] by (cases "expired_proposals s") auto
next
  case (Suc m)
  have "expire_proposal n e k p s \<noteq> None" for k p
    using push_returns [OF Suc.prems(1,2), of e k] by (auto simp: expire_proposal_def split: option.splits sum.splits)
  moreover have "expire_loop m n e t \<noteq> None" if "expire_proposal n e k p s = Some (Inr t)" for k p t
    using Suc.IH [of t] expire_shrinks [OF Suc.prems(1) that] Suc.prems(2,3) by simp
  ultimately have "bindR (expire_proposal n e k p s) (expire_loop m n e) \<noteq> None" for k p
    unfolding bindR_None_iff by blast
  then show ?case by (simp split: list.split)
qed

text \<open>Property C20. The expiration of proposals at the end of a block ends when the proposals are ranked, each approving only
  proposals of lower rank and none creating proposals, and the stack allows nested executions up to the highest rank: each round of
  the loop removes the proposal it takes, executed or not, and no round adds one, so a round per proposal is enough.\<close>

theorem clear_expired_proposals_returns:
  assumes "ranked r s" "\<And>k. r k < n"
  shows "\<exists>res. clear_expired_proposals n e s = Some res"
  using expire_loop_returns [OF assms, of "length (rows (proposals s))" e] by (auto simp: clear_expired_proposals_def pending_def)

theorem clear_expired_proposals_returns_witness:
  "\<exists>res. clear_expired_proposals 1 demo_env (demo_proposed [demo_transfer] [''alice'']) = Some res"
  by (rule clear_expired_proposals_returns [where r = "\<lambda>_. 0"]) (simp_all add: chain_eval ranked_def refers_below_def)

end
