(* ===== verification/Schedule.thy ===== *)
theory Schedule
  imports Proposals "HOL-Library.Product_Lexorder"
begin

text \<open>
  Slots and the schedule of witnesses (\<open>database.cpp\<close>): which witness produces at which time, how the schedule of a
  round is chosen from votes and virtual time and shuffled, how the witnesses' properties, feeds and versions become
  those of the chain, and when a block is irreversible.
\<close>

unbundle bit_operations_syntax

definition MUSE_MAX_VOTED_WITNESSES :: nat where "MUSE_MAX_VOTED_WITNESSES = 20"
definition MUSE_MAX_RUNNER_WITNESSES :: nat where "MUSE_MAX_RUNNER_WITNESSES = 1"
definition MUSE_MAX_MINERS :: nat where "MUSE_MAX_MINERS = MUSE_MAX_VOTED_WITNESSES + MUSE_MAX_RUNNER_WITNESSES"
definition MUSE_HARDFORK_REQUIRED_WITNESSES :: nat where "MUSE_HARDFORK_REQUIRED_WITNESSES = 17"
definition MUSE_IRREVERSIBLE_THRESHOLD :: nat where "MUSE_IRREVERSIBLE_THRESHOLD = 51 * (10000 div 100)"
definition MUSE_FEED_INTERVAL_BLOCKS :: nat where "MUSE_FEED_INTERVAL_BLOCKS = 60 * 60 div MUSE_BLOCK_INTERVAL"
definition MUSE_FEED_HISTORY_WINDOW :: nat where "MUSE_FEED_HISTORY_WINDOW = 24 * 7"
definition MUSE_MAX_FEED_AGE :: nat where "MUSE_MAX_FEED_AGE = 7 * 24 * 60 * 60"
definition MUSE_MIN_FEEDS :: nat where "MUSE_MIN_FEEDS = 1"

section \<open>Slots\<close>

text \<open>An empty schedule makes the code divide by zero.\<close>

definition get_scheduled_witness :: "nat \<Rightarrow> chain \<Rightarrow> string res" where
  "get_scheduled_witness slot_num s =
     (let ws = wso_current_shuffled_witnesses (wso s); aslot = (current_aslot (dgp s) + slot_num) mod 2 ^ 64 in
      if ws = [] then Inl Div_by_zero_exn else Inr (ws ! (aslot mod length ws)))"

definition get_slot_time :: "nat \<Rightarrow> chain \<Rightarrow> time_sec" where
  "get_slot_time slot_num s =
     (if slot_num = 0 then 0
      else if head_block_num s = 0 then time_add (dgp_time (dgp s)) (slot_num * MUSE_BLOCK_INTERVAL)
      else
        let head_block_abs_slot = head_block_time s div MUSE_BLOCK_INTERVAL;
            head_slot_time = head_block_abs_slot * MUSE_BLOCK_INTERVAL in
        time_add head_slot_time (slot_num * MUSE_BLOCK_INTERVAL))"

definition get_slot_at_time :: "time_sec \<Rightarrow> chain \<Rightarrow> nat" where
  "get_slot_at_time when s =
     (let first_slot_time = get_slot_time 1 s in
      if when < first_slot_time then 0 else (when - first_slot_time) div MUSE_BLOCK_INTERVAL + 1)"

definition popcount :: "128 word \<Rightarrow> nat" where "popcount w = length (filter (bit w) [0..<128])"

definition witness_participation_rate :: "chain \<Rightarrow> nat" where
  "witness_participation_rate s = 10000 * popcount (recent_slots_filled (dgp s)) div 128"

section \<open>Choosing the witnesses of a round\<close>

text \<open>The order of \<open>by_schedule_time\<close>.\<close>

definition witnesses_by_time :: "chain \<Rightarrow> (nat \<times> witness) list" where
  "witnesses_by_time s = sort_key (\<lambda>(k, w). wit_virtual_scheduled_time w) (rows (witnesses s))"

text \<open>From hardfork 0.3 on witnesses without a signing key are passed over.\<close>

definition can_produce :: "chain \<Rightarrow> nat \<times> witness \<Rightarrow> bool" where
  "can_produce s = (\<lambda>(k, w). \<not> (has_hardfork MUSE_HARDFORK_0_3 s \<and> wit_signing_key w = 0))"

definition voted_witnesses :: "chain \<Rightarrow> (nat \<times> witness) list" where
  "voted_witnesses s = take MUSE_MAX_VOTED_WITNESSES (filter (can_produce s) (witnesses_by_vote s))"

text \<open>The loop over the witnesses in the lead: \<open>n\<close> witnesses are chosen so far; the result is the virtual time reached, the
  witnesses passed and the owners chosen.\<close>

fun run_loop :: "((nat \<times> witness) \<Rightarrow> bool) \<Rightarrow> nat list \<Rightarrow> nat \<Rightarrow> (nat \<times> witness) list \<Rightarrow>
    128 word \<times> nat list \<times> string list \<Rightarrow> 128 word \<times> nat list \<times> string list" where
  "run_loop ok selected n [] r = r"
| "run_loop ok selected n ((k, w) # ws) (vt, passed, active) =
     (if n < MUSE_MAX_MINERS then
        if \<not> ok (k, w) \<or> List.member selected k
        then run_loop ok selected n ws (wit_virtual_scheduled_time w, passed @ [k], active)
        else run_loop ok selected (n + 1) ws (wit_virtual_scheduled_time w, passed @ [k], active @ [wit_owner w])
      else (vt, passed, active))"

definition active_witnesses :: "chain \<Rightarrow> 128 word \<times> nat list \<times> string list" where
  "active_witnesses s =
     (let selected = map fst (voted_witnesses s) in
      run_loop (can_produce s) selected (length selected) (witnesses_by_time s)
        (wso_current_virtual_time (wso s), [], map (\<lambda>(k, w). wit_owner w) (voted_witnesses s)))"

text \<open>The witnesses that were passed start a new lap; a lap that overflows virtual time ends the loop and resets it.\<close>

fun reschedule :: "128 word \<Rightarrow> nat list \<Rightarrow> chain \<Rightarrow> (bool \<times> chain) res" where
  "reschedule vt [] s = Inr (False, s)"
| "reschedule vt (k # ks) s =
     bindE (idx_get k (witnesses s)) (\<lambda>w.
     if wit_votes w + 1 = 0 then Inl Div_by_zero_exn
     else
       let t = vt + VIRTUAL_SCHEDULE_LAP_LENGTH2 div u128 (wit_votes w + 1) in
       if t < vt then Inr (True, s)
       else bindE (modify_witness k (\<lambda>w. Inr (w\<lparr>wit_virtual_position := 0, wit_virtual_last_update := vt,
                     wit_virtual_scheduled_time := t\<rparr>)) s) (reschedule vt ks))"

definition reset_witness :: "witness \<Rightarrow> witness res" where
  "reset_witness w =
     (if wit_votes w + 1 = 0 then Inl Div_by_zero_exn
      else Inr (w\<lparr>wit_virtual_position := 0, wit_virtual_last_update := 0,
                  wit_virtual_scheduled_time := VIRTUAL_SCHEDULE_LAP_LENGTH2 div u128 (wit_votes w + 1)\<rparr>))"

definition reset_virtual_schedule_time :: "chain \<Rightarrow> chain res" where
  "reset_virtual_schedule_time s =
     (let s = s\<lparr>wso := (wso s)\<lparr>wso_current_virtual_time := 0\<rparr>\<rparr> in
      foldE (\<lambda>k. modify_witness k reset_witness) (map fst (rows (witnesses s))) s)"

section \<open>Versions and hardfork votes\<close>

fun get_witnesses :: "string list \<Rightarrow> chain \<Rightarrow> witness list res" where
  "get_witnesses [] s = Inr []"
| "get_witnesses (n # ns) s =
     bindE (get_witness n s) (\<lambda>(k, w). bindE (get_witnesses ns s) (\<lambda>ws. Inr (w # ws)))"

text \<open>A \<open>flat_map\<close> of counts: the keys in order, each with the number of witnesses that have it.\<close>

definition tally :: "('a \<Rightarrow> 'k::linorder) \<Rightarrow> 'a list \<Rightarrow> ('k \<times> nat) list" where
  "tally f xs = map (\<lambda>k. (k, length (filter (\<lambda>x. f x = k) xs))) (sort (remdups (map f xs)))"

text \<open>The highest version that enough witnesses run at least.\<close>

fun majority_version :: "nat \<Rightarrow> (32 word \<times> nat) list \<Rightarrow> 32 word option" where
  "majority_version n [] = None"
| "majority_version n ((v, m) # vs) = (if n + m \<ge> MUSE_HARDFORK_REQUIRED_WITNESSES then Some v else majority_version (n + m) vs)"

definition running_majority :: "witness list \<Rightarrow> 32 word option" where
  "running_majority ws = majority_version 0 (rev (tally (\<lambda>w. v_num (wit_running_version w)) ws))"

definition hardfork_vote :: "witness \<Rightarrow> 32 word \<times> nat" where
  "hardfork_vote w = (v_num (wit_hardfork_version_vote w), wit_hardfork_time_vote w)"

definition next_hardfork :: "witness list \<Rightarrow> hardfork_property \<Rightarrow> hardfork_property" where
  "next_hardfork ws h =
     (case find (\<lambda>(v, n). n \<ge> MUSE_HARDFORK_REQUIRED_WITNESSES) (tally hardfork_vote ws) of
        Some ((v, t), n) \<Rightarrow> h\<lparr>hf_next_hardfork := \<lparr>v_num = v\<rparr>, hf_next_hardfork_time := t\<rparr>
      | None \<Rightarrow> h\<lparr>hf_next_hardfork := hf_current_hardfork_version h\<rparr>)"

section \<open>Shuffling\<close>

definition xorshift_multiplier :: "64 word" where "xorshift_multiplier = 2685821657736338717"

definition shuffle_key :: "64 word \<Rightarrow> nat \<Rightarrow> 64 word" where
  "shuffle_key now_hi i =
     (let k = now_hi + of_nat i * xorshift_multiplier;
          k = k XOR drop_bit 12 k;
          k = k XOR push_bit 25 k;
          k = k XOR drop_bit 27 k
      in k * xorshift_multiplier)"

definition swap :: "nat \<Rightarrow> nat \<Rightarrow> 'a list \<Rightarrow> 'a list" where "swap i j xs = xs[i := xs ! j, j := xs ! i]"

function shuffle_from :: "64 word \<Rightarrow> nat \<Rightarrow> 'a list \<Rightarrow> 'a list" where
  "shuffle_from now_hi i xs =
     (if i < length xs then
        let jmax = length xs - i; j = i + unat (shuffle_key now_hi i) mod jmax in shuffle_from now_hi (Suc i) (swap i j xs)
      else xs)"
  by pat_completeness auto
termination by (relation "measure (\<lambda>(h, i, xs). length xs - i)") (auto simp: swap_def Let_def)

declare shuffle_from.simps [simp del]

lemma shuffle_from_step:
  "i < length xs \<Longrightarrow> shuffle_from h i xs = shuffle_from h (Suc i) (swap i (i + unat (shuffle_key h i) mod (length xs - i)) xs)"
  "\<not> i < length xs \<Longrightarrow> shuffle_from h i xs = xs"
  by (simp_all add: shuffle_from.simps [of h i xs] Let_def)

definition shuffle :: "time_sec \<Rightarrow> 'a list \<Rightarrow> 'a list" where
  "shuffle now xs = shuffle_from (push_bit 32 (of_nat now)) 0 xs"

section \<open>Properties of the chain from the witnesses\<close>

text \<open>Reading the middle of an empty vector is undefined; the model raises. The sorts of the code are not stable; the value at
  the middle is the same for every order of the witnesses with equal values.\<close>

definition median_by :: "('a \<Rightarrow> 'k::linorder) \<Rightarrow> 'a list \<Rightarrow> 'a" where
  "median_by f xs = sort_key f xs ! (length xs div 2)"

definition update_median_witness_props :: "chain \<Rightarrow> chain res" where
  "update_median_witness_props s =
     bindE (get_witnesses (wso_current_shuffled_witnesses (wso s)) s) (\<lambda>active.
     if active = [] then Inl Not_found_exn
     else
       let creation = median_by (\<lambda>w. amount (cp_account_creation_fee (wit_props w))) active;
           update = median_by (\<lambda>w. amount (cp_streaming_platform_update_fee (wit_props w))) active;
           size = median_by (\<lambda>w. cp_maximum_block_size (wit_props w)) active;
           rate = median_by (\<lambda>w. cp_mbd_interest_rate (wit_props w)) active in
       Inr (s\<lparr>wso := (wso s)\<lparr>wso_median_props := (wso_median_props (wso s))
                \<lparr>cp_account_creation_fee := cp_account_creation_fee (wit_props creation),
                 cp_streaming_platform_update_fee := cp_streaming_platform_update_fee (wit_props update)\<rparr>\<rparr>,
              dgp := (dgp s)\<lparr>maximum_block_size := cp_maximum_block_size (wit_props size),
                mbd_interest_rate := cp_mbd_interest_rate (wit_props rate)\<rparr>\<rparr>))"

definition update_witness_schedule4 :: "chain \<Rightarrow> chain res" where
  "update_witness_schedule4 s =
     (case active_witnesses s of (vt, passed, active) \<Rightarrow>
      bindE (reschedule vt passed s) (\<lambda>(reset, s).
      bindE (if reset then reset_virtual_schedule_time s else Inr s) (\<lambda>s.
      guardE (length active \<le> MUSE_MAX_MINERS) (
      bindE (get_witnesses (wso_current_shuffled_witnesses (wso s)) s) (\<lambda>ws.
      update_median_witness_props
        (s\<lparr>hardforks := next_hardfork ws (hardforks s),
           wso := (wso s)
             \<lparr>wso_current_shuffled_witnesses := shuffle (head_block_time s) active,
              wso_current_virtual_time := (if reset then 0 else vt),
              wso_next_shuffle_block_num := head_block_num s + length active,
              wso_majority_version := (case running_majority ws of Some v \<Rightarrow> \<lparr>v_num = v\<rparr> | None \<Rightarrow> wso_majority_version (wso s))\<rparr>\<rparr>))))))"

definition update_witness_schedule :: "chain \<Rightarrow> chain res" where
  "update_witness_schedule s = (if head_block_num s mod MUSE_MAX_MINERS = 0 then update_witness_schedule4 s else Inr s)"

section \<open>The price feed\<close>

text \<open>\<open>std::sort\<close> of prices; of several representations of one price the model takes the first.\<close>

fun insert_price :: "price \<Rightarrow> price list \<Rightarrow> price list" where
  "insert_price p [] = [p]"
| "insert_price p (q # qs) = (if price_lt q p then q # insert_price p qs else p # q # qs)"

definition sort_prices :: "price list \<Rightarrow> price list" where "sort_prices ps = foldr insert_price ps []"

definition median_price_of :: "price list \<Rightarrow> price" where "median_price_of ps = sort_prices ps ! (length ps div 2)"

definition push_feed :: "price \<Rightarrow> feed_history \<Rightarrow> feed_history" where
  "push_feed p h =
     (let ps = fh_price_history h @ [p];
          ps = (if length ps > MUSE_FEED_HISTORY_WINDOW then tl ps else ps) in
      h\<lparr>fh_price_history := ps, fh_current_median_history := (if ps = [] then fh_current_median_history h else median_price_of ps)\<rparr>)"

definition current_feeds :: "time_sec \<Rightarrow> witness list \<Rightarrow> price list" where
  "current_feeds now ws =
     map wit_mbd_exchange_rate
       (filter (\<lambda>w. wit_last_mbd_exchange_update w < now + MUSE_MAX_FEED_AGE \<and> \<not> price_is_null (wit_mbd_exchange_rate w)) ws)"

definition update_median_feed :: "chain \<Rightarrow> chain res" where
  "update_median_feed s =
     (if head_block_num s mod MUSE_FEED_INTERVAL_BLOCKS \<noteq> 0 then Inr s
      else
        bindE (get_witnesses (wso_current_shuffled_witnesses (wso s)) s) (\<lambda>ws.
        let feeds = current_feeds (head_block_time s) ws in
        Inr (if length feeds \<ge> MUSE_MIN_FEEDS then s\<lparr>feed_history := push_feed (median_price_of feeds) (feed_history s)\<rparr> else s)))"

section \<open>Irreversible blocks\<close>

definition irreversible_offset :: "nat \<Rightarrow> nat" where
  "irreversible_offset n = (10000 - MUSE_IRREVERSIBLE_THRESHOLD) * n div 10000"

text \<open>\<open>nth_element\<close> puts at the offset what sorting would. An empty schedule reads past the end; the model raises.\<close>

definition confirmed_by_most :: "witness list \<Rightarrow> nat" where
  "confirmed_by_most ws = sort (map wit_last_confirmed_block_num ws) ! irreversible_offset (length ws)"

definition update_last_irreversible_block :: "chain \<Rightarrow> chain res" where
  "update_last_irreversible_block s =
     (if head_block_num s < MUSE_START_MINER_VOTING_BLOCK then
        Inr (if head_block_num s > MUSE_MAX_MINERS
             then s\<lparr>dgp := (dgp s)\<lparr>last_irreversible_block_num := head_block_num s - MUSE_MAX_MINERS\<rparr>\<rparr> else s)
      else
        bindE (get_witnesses (wso_current_shuffled_witnesses (wso s)) s) (\<lambda>ws.
        if ws = [] then Inl Not_found_exn
        else
          let n = confirmed_by_most ws in
          Inr (if n > last_irreversible_block_num (dgp s) then s\<lparr>dgp := (dgp s)\<lparr>last_irreversible_block_num := n\<rparr>\<rparr> else s)))"

text \<open>Evaluation on concrete states.\<close>

lemmas schedule_eval [chain_eval] =
  MUSE_MAX_VOTED_WITNESSES_def MUSE_MAX_RUNNER_WITNESSES_def MUSE_MAX_MINERS_def MUSE_HARDFORK_REQUIRED_WITNESSES_def
  MUSE_IRREVERSIBLE_THRESHOLD_def MUSE_FEED_INTERVAL_BLOCKS_def MUSE_FEED_HISTORY_WINDOW_def
  MUSE_MAX_FEED_AGE_def MUSE_MIN_FEEDS_def get_scheduled_witness_def get_slot_time_def get_slot_at_time_def
  witness_participation_rate_def witnesses_by_time_def can_produce_def voted_witnesses_def active_witnesses_def
  reset_witness_def reset_virtual_schedule_time_def tally_def running_majority_def hardfork_vote_def next_hardfork_def
  xorshift_multiplier_def shuffle_key_def swap_def shuffle_from_step shuffle_def median_by_def update_median_witness_props_def
  update_witness_schedule4_def update_witness_schedule_def sort_prices_def median_price_of_def push_feed_def current_feeds_def
  update_median_feed_def irreversible_offset_def confirmed_by_most_def update_last_irreversible_block_def

end
