(* ===== verification/Schedule_Laws.thy ===== *)
theory Schedule_Laws
  imports Schedule Demo_Chain "HOL-Library.Multiset"
begin

text \<open>
  The laws of the schedule: slots and times determine each other, a round's schedule is a permutation of the right
  witnesses, medians split the witnesses in halves, and an irreversible block is confirmed by the required share of them.
\<close>

section \<open>Slots\<close>

definition slot_zero :: "chain \<Rightarrow> time_sec" where
  "slot_zero s = (if head_block_num s = 0 then dgp_time (dgp s) else head_block_time s div MUSE_BLOCK_INTERVAL * MUSE_BLOCK_INTERVAL)"

lemma slot_zero_le: "slot_zero s \<le> head_block_time s"
  by (simp add: slot_zero_def head_block_time_def)

lemma get_slot_time_zero: "0 < n \<Longrightarrow> slot_zero s + n * MUSE_BLOCK_INTERVAL < 2 ^ 32 \<Longrightarrow>
    get_slot_time n s = slot_zero s + n * MUSE_BLOCK_INTERVAL"
  by (auto simp: get_slot_time_def slot_zero_def time_add_def Let_def split: if_splits)

lemma slot_in_interval:
  fixes t :: nat
  assumes "t \<ge> z + 3"
  shows "z + ((t - (z + 3)) div 3 + 1) * 3 \<le> t" "t < z + ((t - (z + 3)) div 3 + 1) * 3 + 3"
  using assms by presburger+

text \<open>Slots and times determine each other as long as time stays within 32 bits: the slot at the time of slot \<open>n\<close>
  is \<open>n\<close>; a time from the first slot on lies in the block interval that starts at the time of its slot; an earlier time
  has slot 0.\<close>

theorem slot_time_roundtrip:
  assumes "0 < n" "head_block_time s + n * MUSE_BLOCK_INTERVAL < 2 ^ 32" "now < 2 ^ 32"
  shows "get_slot_at_time (get_slot_time n s) s = n \<and>
    (if now < get_slot_time 1 s then get_slot_at_time now s = 0
     else get_slot_time (get_slot_at_time now s) s \<le> now \<and> now < get_slot_time (get_slot_at_time now s) s + MUSE_BLOCK_INTERVAL)"
proof -
  have z: "slot_zero s + n * 3 < 2 ^ 32" using slot_zero_le [of s] assms(2) by (simp add: MUSE_BLOCK_INTERVAL_def)
  then have one: "get_slot_time 1 s = slot_zero s + 3" and n: "get_slot_time n s = slot_zero s + n * 3"
    using get_slot_time_zero [of 1 s] get_slot_time_zero [OF assms(1), of s] assms(1) by (simp_all add: MUSE_BLOCK_INTERVAL_def)
  have "get_slot_at_time (get_slot_time n s) s = n"
    unfolding get_slot_at_time_def Let_def one n using assms(1) by (simp add: MUSE_BLOCK_INTERVAL_def)
  moreover have "get_slot_time (get_slot_at_time now s) s \<le> now \<and> now < get_slot_time (get_slot_at_time now s) s + MUSE_BLOCK_INTERVAL"
    if "\<not> now < get_slot_time 1 s"
  proof -
    have ge: "now \<ge> slot_zero s + 3" using that one by simp
    have at: "get_slot_at_time now s = (now - (slot_zero s + 3)) div 3 + 1"
      unfolding get_slot_at_time_def Let_def one using that one by (simp add: MUSE_BLOCK_INTERVAL_def)
    have "get_slot_time (get_slot_at_time now s) s = slot_zero s + ((now - (slot_zero s + 3)) div 3 + 1) * 3"
      unfolding at using get_slot_time_zero [of "(now - (slot_zero s + 3)) div 3 + 1" s] slot_in_interval(1) [OF ge] assms(3)
      by (simp add: MUSE_BLOCK_INTERVAL_def)
    then show ?thesis using slot_in_interval [OF ge] by (simp add: MUSE_BLOCK_INTERVAL_def)
  qed
  ultimately show ?thesis by (simp add: get_slot_at_time_def Let_def)
qed

theorem slot_time_roundtrip_witness:
  "get_slot_at_time (get_slot_time 5 (demo_chain [] [] (demo_dgp 0 0 0 0))) (demo_chain [] [] (demo_dgp 0 0 0 0)) = 5 \<and>
   get_slot_at_time 70 (demo_chain [] [] (demo_dgp 0 0 0 0)) = 7"
  using slot_time_roundtrip [of 5 "demo_chain [] [] (demo_dgp 0 0 0 0)" 70]
  by (simp add: chain_eval get_slot_at_time_def get_slot_time_def)

section \<open>Shuffling\<close>

lemma mset_shuffle_from: "mset (shuffle_from h i xs) = mset xs"
proof (induction h i xs rule: shuffle_from.induct)
  case (1 h i xs)
  show ?case
  proof (cases "i < length xs")
    case True
    let ?j = "i + unat (shuffle_key h i) mod (length xs - i)"
    have "unat (shuffle_key h i) mod (length xs - i) < length xs - i" using True by simp
    then have "?j < length xs" by linarith
    then show ?thesis using 1 [OF True refl refl] True mset_swap [of ?j xs i]
      by (simp add: shuffle_from.simps [of h i xs] swap_def Let_def)
  qed (simp add: shuffle_from.simps)
qed

lemma mset_shuffle: "mset (shuffle now xs) = mset xs"
  by (simp add: shuffle_def mset_shuffle_from)

lemma shuffle_facts: "length (shuffle now xs) = length xs" "set (shuffle now xs) = set xs" "distinct (shuffle now xs) = distinct xs"
  using mset_shuffle [of now xs] by (metis size_mset, metis set_mset_mset, metis mset_eq_imp_distinct_iff)

section \<open>The witnesses of a round\<close>

lemma run_loop_active:
  "snd (snd (run_loop ok sel n ws (vt, passed, active))) =
     active @ map (\<lambda>(k, w). wit_owner w) (take (MUSE_MAX_MINERS - n) (filter (\<lambda>(k, w). ok (k, w) \<and> k \<notin> set sel) ws))"
proof (induction ok sel n ws "(vt, passed, active)" arbitrary: vt passed active rule: run_loop.induct)
  case (2 ok sel n k w ws)
  show ?case
  proof (cases "n < MUSE_MAX_MINERS")
    case True
    then have "MUSE_MAX_MINERS - n = Suc (MUSE_MAX_MINERS - (n + 1))" by simp
    then show ?thesis using 2 True by auto
  qed simp
qed simp

lemma mset_by_vote: "mset (witnesses_by_vote s) = mset (rows (witnesses s))"
proof -
  have "mset (insert_by_vote x ys) = add_mset x (mset ys)" for x ys by (induction x ys rule: insert_by_vote.induct) auto
  then have "mset (foldr insert_by_vote xs []) = mset xs" for xs by (induction xs) auto
  then show ?thesis by (simp add: witnesses_by_vote_def)
qed

lemma mset_by_time: "mset (witnesses_by_time s) = mset (rows (witnesses s))"
  by (simp add: witnesses_by_time_def)

definition producers :: "chain \<Rightarrow> (nat \<times> witness) list" where "producers s = filter (can_produce s) (rows (witnesses s))"

definition owners_differ :: "chain \<Rightarrow> bool" where
  "owners_differ s \<longleftrightarrow> index_ok (witnesses s) \<and> distinct (map (\<lambda>(k, w). wit_owner w) (rows (witnesses s)))"

lemma filter_take_rest:
  assumes "mset xs = mset ys" "distinct (map fst ys)"
  shows "mset (filter (\<lambda>x. fst x \<notin> fst ` set (take m xs)) ys) = mset (drop m xs)"
proof -
  have dx: "distinct (map fst xs)" using assms by (metis mset_eq_imp_distinct_iff mset_map)
  have "filter (\<lambda>x. fst x \<notin> fst ` set (take m xs)) xs = drop m xs"
  proof -
    have "filter (\<lambda>x. fst x \<notin> fst ` set (take m xs)) (take m xs @ drop m xs) = drop m xs"
    proof -
      have "fst ` set (take m xs) \<inter> fst ` set (drop m xs) = {}"
        using dx by (metis append_take_drop_id distinct_append map_append set_map)
      then have "filter (\<lambda>x. fst x \<notin> fst ` set (take m xs)) (drop m xs) = drop m xs" by (intro filter_True) blast
      then show ?thesis unfolding filter_append by (simp add: filter_empty_conv)
    qed
    then show ?thesis by simp
  qed
  then show ?thesis using assms(1) by (metis mset_filter)
qed

text \<open>The owners chosen for a round: the most voted of those able to produce, then the ones in the lead among the rest.\<close>

lemma active_owners:
  assumes "owners_differ s" "active_witnesses s = (vt, passed, active)"
  shows "\<exists>rest. active = map (\<lambda>(k, w). wit_owner w) (voted_witnesses s @ rest) \<and> distinct (map fst (voted_witnesses s @ rest)) \<and>
    set (voted_witnesses s @ rest) \<subseteq> set (producers s) \<and> length (voted_witnesses s @ rest) = min MUSE_MAX_MINERS (length (producers s))"
proof -
  let ?V = "filter (can_produce s) (witnesses_by_vote s)"
  let ?T = "filter (can_produce s) (witnesses_by_time s)"
  let ?v = "voted_witnesses s"
  let ?R = "filter (\<lambda>x. fst x \<notin> fst ` set ?v) ?T"
  let ?rest = "take (MUSE_MAX_MINERS - length ?v) ?R"
  have d: "distinct (map fst (rows (witnesses s)))" using assms(1) by (simp add: owners_differ_def index_ok_def table_ok_def)
  have mV: "mset ?V = mset (producers s)" and mT: "mset ?T = mset (producers s)"
    by (simp_all add: producers_def mset_by_vote mset_by_time mset_filter)
  have dp: "distinct (map fst (producers s))" using d by (simp add: producers_def distinct_map_filter)
  have dT: "distinct (map fst ?T)" using dp mT by (metis mset_eq_imp_distinct_iff mset_map)
  have v: "?v = take MUSE_MAX_VOTED_WITNESSES ?V" by (simp add: voted_witnesses_def)
  have mR: "mset ?R = mset (drop MUSE_MAX_VOTED_WITNESSES ?V)"
    unfolding v using mV mT dT by (intro filter_take_rest) simp_all
  have "active = map (\<lambda>(k, w). wit_owner w) (?v @ ?rest)"
    using assms(2) run_loop_active [of "can_produce s" "map fst ?v" "length ?v" "witnesses_by_time s" "wso_current_virtual_time (wso s)" "[]"
        "map (\<lambda>(k, w). wit_owner w) ?v"]
    by (simp add: active_witnesses_def Let_def case_prod_unfold conj_commute)
  moreover have "distinct (map fst (?v @ ?rest))"
  proof -
    have "distinct (map fst ?v)" using dp mV v by (metis distinct_take mset_eq_imp_distinct_iff mset_map take_map)
    moreover have "distinct (map fst ?rest)" using dT by (metis distinct_map_filter distinct_take take_map)
    ultimately show ?thesis by (force dest!: in_set_takeD)
  qed
  moreover have "set (?v @ ?rest) \<subseteq> set (producers s)"
  proof -
    have "set ?V = set (producers s)" "set ?T = set (producers s)" using mV mT by (metis set_mset_mset)+
    moreover have "set ?v \<subseteq> set ?V" unfolding v by (rule set_take_subset)
    moreover have "set ?rest \<subseteq> set ?T" using set_take_subset [of _ ?R] filter_is_subset by fastforce
    ultimately show ?thesis unfolding set_append by blast
  qed
  moreover have "length (?v @ ?rest) = min MUSE_MAX_MINERS (length (producers s))"
  proof -
    have "length ?R = length (producers s) - MUSE_MAX_VOTED_WITNESSES" using mR mV by (metis length_drop size_mset)
    moreover have "length ?v = min MUSE_MAX_VOTED_WITNESSES (length (producers s))" using v mV by (metis length_take min.commute size_mset)
    ultimately show ?thesis by (simp add: MUSE_MAX_MINERS_def MUSE_MAX_VOTED_WITNESSES_def MUSE_MAX_RUNNER_WITNESSES_def)
  qed
  ultimately show ?thesis by blast
qed

lemma schedule4_active:
  assumes "update_witness_schedule4 s = Inr t" "active_witnesses s = (vt, passed, active)"
  shows "wso_current_shuffled_witnesses (wso t) = shuffle (head_block_time s) active"
proof -
  obtain r u v ws where r: "reschedule vt passed s = Inr (r, u)" "(if r then reset_virtual_schedule_time u else Inr u) = Inr v"
    and t: "update_median_witness_props (v\<lparr>hardforks := next_hardfork ws (hardforks v),
       wso := (wso v)\<lparr>wso_current_shuffled_witnesses := shuffle (head_block_time v) active,
              wso_current_virtual_time := (if r then 0 else vt), wso_next_shuffle_block_num := head_block_num v + length active,
              wso_majority_version := (case running_majority ws of Some v \<Rightarrow> \<lparr>v_num = v\<rparr> | None \<Rightarrow> wso_majority_version (wso v))\<rparr>\<rparr>) = Inr t"
    using assms unfolding update_witness_schedule4_def by (auto simp: bindE_Inr_iff guardE_Inr_iff)
  have m: "modify_witness k f a = Inr b \<Longrightarrow> dgp b = dgp a" for k f a b by (auto simp: modify_witness_def bindE_Inr_iff)
  have "reschedule vt ks a = Inr (c, b) \<Longrightarrow> dgp b = dgp a" for ks a b c
    by (induction ks arbitrary: a) (auto simp: bindE_Inr_iff Let_def dest!: m split: if_splits)
  then have "dgp u = dgp s" using r(1) .
  moreover have "dgp b = dgp a" if "reset_virtual_schedule_time a = Inr b" for a b
    using that unfolding reset_virtual_schedule_time_def Let_def
    by (rule foldE_invariant [where I = "\<lambda>b. dgp b = dgp a"]) (auto dest: m)
  ultimately have "head_block_time v = head_block_time s" using r(2) by (auto simp: head_block_time_def split: if_splits)
  with t show ?thesis by (auto simp: update_median_witness_props_def bindE_Inr_iff Let_def split: if_splits)
qed

text \<open>Property C16. The schedule of a new round names as many witnesses as can produce, up to \<open>MUSE_MAX_MINERS\<close>, none of them twice;
  all of them are witnesses able to produce, and the most voted ones are all among them. The shuffle loses none.\<close>

theorem schedule_round:
  assumes "update_witness_schedule4 s = Inr t" "owners_differ s"
  shows "length (wso_current_shuffled_witnesses (wso t)) = min MUSE_MAX_MINERS (length (producers s)) \<and>
    distinct (wso_current_shuffled_witnesses (wso t)) \<and>
    set (wso_current_shuffled_witnesses (wso t)) \<subseteq> (\<lambda>(k, w). wit_owner w) ` set (producers s) \<and>
    (\<lambda>(k, w). wit_owner w) ` set (voted_witnesses s) \<subseteq> set (wso_current_shuffled_witnesses (wso t))"
proof -
  obtain vt passed active where a: "active_witnesses s = (vt, passed, active)" by (cases "active_witnesses s")
  obtain rest where r: "active = map (\<lambda>(k, w). wit_owner w) (voted_witnesses s @ rest)"
    "distinct (map fst (voted_witnesses s @ rest))" "set (voted_witnesses s @ rest) \<subseteq> set (producers s)"
    "length (voted_witnesses s @ rest) = min MUSE_MAX_MINERS (length (producers s))"
    using active_owners [OF assms(2) a] by blast
  have "inj_on (\<lambda>(k, w). wit_owner w) (set (rows (witnesses s)))" using assms(2) by (simp add: owners_differ_def distinct_map)
  then have "inj_on (\<lambda>(k, w). wit_owner w) (set (voted_witnesses s @ rest))"
    by (rule inj_on_subset) (use r(3) in \<open>auto simp: producers_def\<close>)
  then have "distinct active" unfolding r(1) using r(2) by (simp only: distinct_map)
  then show ?thesis unfolding schedule4_active [OF assms(1) a] shuffle_facts using r(1,3,4) by auto
qed

section \<open>Medians\<close>

lemma sorted_split:
  fixes xs :: "'a::linorder list"
  assumes "sorted xs" "m < length xs"
  shows "length (filter (\<lambda>x. x < xs ! m) xs) \<le> m" "length (filter (\<lambda>x. x > xs ! m) xs) \<le> length xs - Suc m"
proof -
  have "filter (\<lambda>x. x < xs ! m) (drop m xs) = []"
    using assms by (auto simp: filter_empty_conv in_set_conv_nth not_less intro!: sorted_nth_mono)
  then have "length (filter (\<lambda>x. x < xs ! m) xs) = length (filter (\<lambda>x. x < xs ! m) (take m xs))"
    by (metis append_Nil2 append_take_drop_id filter_append)
  also have "\<dots> \<le> m" using length_filter_le [of _ "take m xs"] by (metis length_take min.boundedE)
  finally show "length (filter (\<lambda>x. x < xs ! m) xs) \<le> m" .
  have "filter (\<lambda>x. x > xs ! m) (take (Suc m) xs) = []"
    using assms by (auto simp: filter_empty_conv in_set_conv_nth not_less less_Suc_eq_le intro!: sorted_nth_mono)
  then have "length (filter (\<lambda>x. x > xs ! m) xs) = length (filter (\<lambda>x. x > xs ! m) (drop (Suc m) xs))"
    by (metis append_Nil append_take_drop_id filter_append)
  also have "\<dots> \<le> length xs - Suc m" using length_filter_le [of _ "drop (Suc m) xs"] by simp
  finally show "length (filter (\<lambda>x. x > xs ! m) xs) \<le> length xs - Suc m" .
qed

definition splits_evenly :: "('a \<Rightarrow> 'k::linorder) \<Rightarrow> 'a list \<Rightarrow> 'k \<Rightarrow> bool" where
  "splits_evenly f xs v \<longleftrightarrow> 2 * length (filter (\<lambda>x. f x < v) xs) \<le> length xs \<and> 2 * length (filter (\<lambda>x. f x > v) xs) < length xs \<and> v \<in> f ` set xs"

lemma median_splits:
  assumes "xs \<noteq> []"
  shows "splits_evenly f xs (f (median_by f xs))"
proof -
  let ?ys = "map f (sort_key f xs)" and ?m = "length xs div 2"
  have m: "?m < length ?ys" using assms by (cases xs) auto
  have v: "f (median_by f xs) = ?ys ! ?m" using m by (simp add: median_by_def)
  have c: "length (filter P ?ys) = length (filter (\<lambda>x. P (f x)) xs)" for P
  proof -
    have "mset ?ys = mset (map f xs)" by simp
    then show ?thesis by (metis (no_types, lifting) comp_apply filter_cong filter_map length_map mset_filter size_mset)
  qed
  have "length (filter (\<lambda>x. x < ?ys ! ?m) ?ys) \<le> ?m" "length (filter (\<lambda>x. x > ?ys ! ?m) ?ys) \<le> length ?ys - Suc ?m"
    by (rule sorted_split [OF sorted_sort_key m])+
  moreover have "?ys ! ?m \<in> f ` set xs" using nth_mem [OF m] by simp
  ultimately show ?thesis unfolding splits_evenly_def v c using assms by (cases xs) auto
qed

text \<open>The fees, the block size and the interest rate the chain adopts are medians of what the scheduled witnesses
  propose: each is the proposal of one of them, at most half of them propose less and fewer than half propose more.\<close>

theorem median_witness_props:
  assumes "update_median_witness_props s = Inr t"
  shows "\<exists>ws. get_witnesses (wso_current_shuffled_witnesses (wso s)) s = Inr ws \<and>
    splits_evenly (\<lambda>w. amount (cp_account_creation_fee (wit_props w))) ws (amount (cp_account_creation_fee (wso_median_props (wso t)))) \<and>
    splits_evenly (\<lambda>w. amount (cp_streaming_platform_update_fee (wit_props w))) ws
      (amount (cp_streaming_platform_update_fee (wso_median_props (wso t)))) \<and>
    splits_evenly (\<lambda>w. cp_maximum_block_size (wit_props w)) ws (maximum_block_size (dgp t)) \<and>
    splits_evenly (\<lambda>w. cp_mbd_interest_rate (wit_props w)) ws (mbd_interest_rate (dgp t))"
proof -
  obtain ws where "get_witnesses (wso_current_shuffled_witnesses (wso s)) s = Inr ws" "ws \<noteq> []"
    and "t = s\<lparr>wso := (wso s)\<lparr>wso_median_props := (wso_median_props (wso s))
                \<lparr>cp_account_creation_fee := cp_account_creation_fee (wit_props (median_by (\<lambda>w. amount (cp_account_creation_fee (wit_props w))) ws)),
                 cp_streaming_platform_update_fee :=
                   cp_streaming_platform_update_fee (wit_props (median_by (\<lambda>w. amount (cp_streaming_platform_update_fee (wit_props w))) ws))\<rparr>\<rparr>,
              dgp := (dgp s)\<lparr>maximum_block_size := cp_maximum_block_size (wit_props (median_by (\<lambda>w. cp_maximum_block_size (wit_props w)) ws)),
                mbd_interest_rate := cp_mbd_interest_rate (wit_props (median_by (\<lambda>w. cp_mbd_interest_rate (wit_props w)) ws))\<rparr>\<rparr>"
    using assms by (auto simp: update_median_witness_props_def bindE_Inr_iff Let_def split: if_splits)
  moreover note median_splits [of ws "\<lambda>w. amount (cp_account_creation_fee (wit_props w))"]
    median_splits [of ws "\<lambda>w. amount (cp_streaming_platform_update_fee (wit_props w))"]
    median_splits [of ws "\<lambda>w. cp_maximum_block_size (wit_props w)"] median_splits [of ws "\<lambda>w. cp_mbd_interest_rate (wit_props w)"]
  ultimately show ?thesis by simp
qed

section \<open>Irreversible blocks\<close>

lemma sorted_suffix_count:
  fixes xs :: "'a::linorder list"
  assumes "sorted xs" "m < length xs"
  shows "length xs - m \<le> length (filter (\<lambda>x. x \<ge> xs ! m) xs)"
proof -
  have "filter (\<lambda>x. x \<ge> xs ! m) (drop m xs) = drop m xs"
    using assms by (auto simp: filter_id_conv in_set_conv_nth intro!: sorted_nth_mono)
  then have "length xs - m \<le> length (filter (\<lambda>x. x \<ge> xs ! m) (take m xs) @ filter (\<lambda>x. x \<ge> xs ! m) (drop m xs))" by simp
  then show ?thesis by (simp only: filter_append [symmetric] append_take_drop_id)
qed

text \<open>Property C17. Once voting has begun, the last irreversible block never goes back, and when it advances, at least
  51 of 100 scheduled witnesses have produced a block at or above it.\<close>

theorem irreversible_confirmed:
  assumes "update_last_irreversible_block s = Inr t" "MUSE_START_MINER_VOTING_BLOCK \<le> head_block_num s"
  shows "last_irreversible_block_num (dgp s) \<le> last_irreversible_block_num (dgp t) \<and>
    (last_irreversible_block_num (dgp s) < last_irreversible_block_num (dgp t) \<longrightarrow>
     (\<exists>ws. get_witnesses (wso_current_shuffled_witnesses (wso s)) s = Inr ws \<and>
        51 * length ws \<le> 100 * length (filter (\<lambda>w. wit_last_confirmed_block_num w \<ge> last_irreversible_block_num (dgp t)) ws)))"
proof -
  obtain ws where ws: "get_witnesses (wso_current_shuffled_witnesses (wso s)) s = Inr ws" "ws \<noteq> []"
    and t: "t = (if confirmed_by_most ws > last_irreversible_block_num (dgp s)
      then s\<lparr>dgp := (dgp s)\<lparr>last_irreversible_block_num := confirmed_by_most ws\<rparr>\<rparr> else s)"
    using assms by (auto simp: update_last_irreversible_block_def bindE_Inr_iff Let_def split: if_splits)
  let ?ys = "sort (map wit_last_confirmed_block_num ws)" and ?m = "irreversible_offset (length ws)"
  have m: "?m < length ?ys" using ws(2) by (cases ws) (auto simp: irreversible_offset_def MUSE_IRREVERSIBLE_THRESHOLD_def)
  have "length ?ys - ?m \<le> length (filter (\<lambda>x. x \<ge> ?ys ! ?m) ?ys)" by (rule sorted_suffix_count [OF sorted_sort m])
  also have "\<dots> = length (filter (\<lambda>x. x \<ge> ?ys ! ?m) (map wit_last_confirmed_block_num ws))"
    by (metis mset_filter mset_sort size_mset)
  also have "\<dots> = length (filter (\<lambda>w. wit_last_confirmed_block_num w \<ge> confirmed_by_most ws) ws)"
    by (simp add: filter_map comp_def confirmed_by_most_def)
  finally have "51 * length ws \<le> 100 * length (filter (\<lambda>w. wit_last_confirmed_block_num w \<ge> confirmed_by_most ws) ws)"
    by (simp add: irreversible_offset_def MUSE_IRREVERSIBLE_THRESHOLD_def)
  then show ?thesis using ws(1) by (simp add: t)
qed

section \<open>A concrete round\<close>

definition demo_witness :: "string \<Rightarrow> share \<Rightarrow> nat \<Rightarrow> share \<Rightarrow> witness" where
  [chain_eval]: "demo_witness n votes confirmed fee = default_witness
     \<lparr>wit_owner := n, wit_signing_key := 1, wit_votes := votes, wit_last_confirmed_block_num := confirmed,
      wit_props := default_props\<lparr>cp_account_creation_fee := mk_asset fee MUSE_SYMBOL\<rparr>\<rparr>"

definition demo_round :: chain where
  [chain_eval]: "demo_round = (demo_chain [] [] (demo_dgp 100 0 0 0))
     \<lparr>witnesses := index_of [demo_witness ''alice'' 5 300000 7, demo_witness ''bobby'' 9 299999 3, demo_witness ''carol'' 1 299998 5],
      wso := \<lparr>wso_current_virtual_time = 0, wso_next_shuffle_block_num = 1,
        wso_current_shuffled_witnesses = [''alice'', ''bobby'', ''carol''], wso_median_props = demo_props, wso_majority_version = \<lparr>v_num = 0\<rparr>\<rparr>\<rparr>"

lemma mod_Suc_2: "n mod Suc (Suc 0) = n mod 2"
  by (simp add: numeral_2_eq_2)

lemma demo_round_runs: "\<exists>t. update_witness_schedule4 demo_round = Inr t"
  by (simp add: chain_eval mod_Suc_2)

theorem schedule_round_witness:
  "\<exists>t. update_witness_schedule4 demo_round = Inr t \<and> length (wso_current_shuffled_witnesses (wso t)) = 3 \<and>
     distinct (wso_current_shuffled_witnesses (wso t))"
proof -
  obtain t where t: "update_witness_schedule4 demo_round = Inr t" using demo_round_runs by (elim exE)
  have "owners_differ demo_round" "min MUSE_MAX_MINERS (length (producers demo_round)) = 3"
    by (simp_all add: chain_eval owners_differ_def producers_def)
  then show ?thesis using schedule_round [OF t] t by (intro exI [of _ t] conjI) simp_all
qed

theorem median_witness_props_witness:
  "\<exists>t (ws :: witness list). update_median_witness_props demo_round = Inr t \<and> amount (cp_account_creation_fee (wso_median_props (wso t))) = 5 \<and>
     splits_evenly (\<lambda>w. amount (cp_account_creation_fee (wit_props w))) ws 5"
proof -
  have "\<exists>t. update_median_witness_props demo_round = Inr t \<and> amount (cp_account_creation_fee (wso_median_props (wso t))) = 5"
    by (simp add: chain_eval)
  then obtain t where t: "update_median_witness_props demo_round = Inr t" "amount (cp_account_creation_fee (wso_median_props (wso t))) = 5"
    by (elim exE conjE)
  obtain ws :: "witness list" where "splits_evenly (\<lambda>w. amount (cp_account_creation_fee (wit_props w))) ws (amount (cp_account_creation_fee (wso_median_props (wso t))))"
    using median_witness_props [OF t(1)] by blast
  then show ?thesis using t by (intro exI [of _ t] exI [of _ ws] conjI) (simp_all only: t)
qed

theorem irreversible_confirmed_witness:
  "\<exists>t (ws :: witness list). update_last_irreversible_block demo_round = Inr t \<and> last_irreversible_block_num (dgp t) = 299999 \<and>
     51 * length ws \<le> 100 * length (filter (\<lambda>w. wit_last_confirmed_block_num w \<ge> 299999) ws)"
proof -
  have "\<exists>t. update_last_irreversible_block demo_round = Inr t \<and> last_irreversible_block_num (dgp t) = 299999"
    by (simp add: chain_eval)
  then obtain t where t: "update_last_irreversible_block demo_round = Inr t" "last_irreversible_block_num (dgp t) = 299999"
    by (elim exE conjE)
  have "MUSE_START_MINER_VOTING_BLOCK \<le> head_block_num demo_round" "last_irreversible_block_num (dgp demo_round) = 0"
    by (simp_all add: chain_eval)
  then obtain ws :: "witness list" where "51 * length ws \<le> 100 * length (filter (\<lambda>w. wit_last_confirmed_block_num w \<ge> last_irreversible_block_num (dgp t)) ws)"
    using irreversible_confirmed [OF t(1)] t(2) by auto
  then show ?thesis using t by (intro exI [of _ t] exI [of _ ws] conjI) (simp_all only: t)
qed

end
