(* ===== verification/Transactions.thy ===== *)
theory Transactions
  imports Schedule
begin

text \<open>
  Transactions (\<open>database.cpp\<close>): the bandwidth of accounts, the checks of a transaction against the chain, the list that
  keeps a transaction from being applied twice, and \<open>_apply_transaction\<close>. Sizes, ids and recovered keys come from code
  outside the sources and are parameters.
\<close>

unbundle bit_operations_syntax

record node_env =
  ne_env :: env
  ne_tx_id :: "signed_transaction \<Rightarrow> nat"
  ne_tx_size :: "signed_transaction \<Rightarrow> nat"                              \<comment> \<open>\<open>fc::raw::pack_size\<close>\<close>
  ne_tx_keys :: "signed_transaction \<Rightarrow> public_key list"                  \<comment> \<open>one recovered key per signature\<close>
  ne_tx_digest :: "signed_transaction \<Rightarrow> nat"                            \<comment> \<open>\<open>merkle_digest\<close>\<close>
  ne_pack :: "signed_transaction signed_block \<Rightarrow> 8 word list"                  \<comment> \<open>\<open>fc::raw::pack\<close>\<close>
  ne_unpack :: "8 word list \<Rightarrow> signed_transaction signed_block option"
  ne_block_sha :: "signed_transaction signed_block \<Rightarrow> 128 word"
  ne_block_signee :: "signed_transaction signed_block \<Rightarrow> public_key"
  ne_pair_hash :: "nat \<Rightarrow> nat \<Rightarrow> nat"
  ne_root_hash :: "nat \<Rightarrow> nat"
  ne_stack :: nat                                                       \<comment> \<open>nested proposals the stack has room for\<close>

record skip_flags =
  skip_witness_signature :: bool
  skip_transaction_signatures :: bool
  skip_transaction_dupe_check :: bool
  skip_fork_db :: bool
  skip_block_size_check :: bool
  skip_tapos_check :: bool
  skip_authority_check :: bool
  skip_merkle_check :: bool
  skip_undo_history_check :: bool
  skip_witness_schedule_check :: bool
  skip_validate :: bool
  skip_validate_invariants :: bool

definition skip_nothing :: skip_flags where
  "skip_nothing = \<lparr>skip_witness_signature = False, skip_transaction_signatures = False, skip_transaction_dupe_check = False,
     skip_fork_db = False, skip_block_size_check = False, skip_tapos_check = False, skip_authority_check = False,
     skip_merkle_check = False, skip_undo_history_check = False, skip_witness_schedule_check = False, skip_validate = False,
     skip_validate_invariants = False\<rparr>"

section \<open>Bandwidth\<close>

definition MUSE_BANDWIDTH_AVERAGE_WINDOW_SECONDS :: nat where "MUSE_BANDWIDTH_AVERAGE_WINDOW_SECONDS = 60 * 60 * 24 * 7"
definition MUSE_BANDWIDTH_PRECISION :: nat where "MUSE_BANDWIDTH_PRECISION = 1000000"

definition u64 :: "int \<Rightarrow> nat" where "u64 x = nat (x mod 2 ^ 64)"

text \<open>The moving average after \<open>n\<close> more units, \<open>delta\<close> seconds after the last update, in unsigned 64 bit arithmetic.\<close>

definition average_after :: "nat \<Rightarrow> nat \<Rightarrow> int \<Rightarrow> nat" where
  "average_after average n delta =
     (if delta \<ge> int MUSE_BANDWIDTH_AVERAGE_WINDOW_SECONDS then n
      else
        let old_weight = u64 (int average * (int MUSE_BANDWIDTH_AVERAGE_WINDOW_SECONDS - delta));
            new_weight = u64 (delta * int n) in
        u64 (int old_weight + int new_weight) div MUSE_BANDWIDTH_AVERAGE_WINDOW_SECONDS)"

definition within_share :: "share \<Rightarrow> nat \<Rightarrow> nat \<Rightarrow> share \<Rightarrow> bool" where
  "within_share vshares max_bandwidth average total_vshares \<longleftrightarrow>
     u128 vshares * of_nat max_bandwidth > of_nat average * u128 total_vshares"

definition use_bandwidth :: "nat \<Rightarrow> chain \<Rightarrow> account \<Rightarrow> account res" where
  "use_bandwidth trx_size s a =
     (let n = u64 (int trx_size * int MUSE_BANDWIDTH_PRECISION);
          average = average_after (acc_average_bandwidth a) n (int (head_block_time s) - int (acc_last_bandwidth_update a));
          vshares = (if acc_vesting_shares a > 0 then acc_vesting_shares a else 1) in
      guardE (within_share vshares (max_virtual_bandwidth (dgp s)) average (total_vesting_shares (dgp s))) (
      Inr (a\<lparr>acc_lifetime_bandwidth := u64 (int (acc_lifetime_bandwidth a) + int n), acc_average_bandwidth := average,
             acc_last_bandwidth_update := head_block_time s\<rparr>)))"

definition update_account_bandwidth :: "nat \<Rightarrow> nat \<Rightarrow> chain \<Rightarrow> chain res" where
  "update_account_bandwidth k trx_size s =
     (if total_vesting_shares (dgp s) > 0 then modify_account k (use_bandwidth trx_size s) s else Inr s)"

definition use_market_bandwidth :: "nat \<Rightarrow> chain \<Rightarrow> account \<Rightarrow> account res" where
  "use_market_bandwidth trx_size s a =
     (let n = u64 (int trx_size * int MUSE_BANDWIDTH_PRECISION);
          average = average_after (acc_average_market_bandwidth a) n (int (head_block_time s) - int (acc_last_market_bandwidth_update a)) in
      guardE (acc_vesting_shares a > 0) (
      guardE (within_share (acc_vesting_shares a) (max_virtual_bandwidth (dgp s) div 10) average (total_vesting_shares (dgp s))) (
      Inr (a\<lparr>acc_average_market_bandwidth := average, acc_last_market_bandwidth_update := head_block_time s\<rparr>))))"

definition update_account_market_bandwidth :: "nat \<Rightarrow> nat \<Rightarrow> chain \<Rightarrow> chain res" where
  "update_account_market_bandwidth k trx_size s =
     (if total_vesting_shares (dgp s) > 0 then modify_account k (use_market_bandwidth trx_size s) s else Inr s)"

section \<open>Applying a transaction\<close>

definition MUSE_MAX_TIME_UNTIL_EXPIRATION :: nat where "MUSE_MAX_TIME_UNTIL_EXPIRATION = 60 * 60"

text \<open>The second word of a block id, which a transaction quotes to name the chain it is meant for.\<close>

definition id_prefix :: "block_id \<Rightarrow> nat" where "id_prefix i = unat (drop_bit 96 (bid_hash i))"

definition is_known_transaction :: "nat \<Rightarrow> chain \<Rightarrow> bool" where
  "is_known_transaction i s \<longleftrightarrow> list_ex (\<lambda>(k, t). tro_trx_id t = i) (rows (transaction_objects s))"

definition required_names :: "operation list \<Rightarrow> string list" where
  "required_names ops = (let r = get_required_authorities ops in ins (req_basic r) (ins (req_owner r) (req_active r)))"

definition charge_bandwidth :: "nat \<Rightarrow> operation list \<Rightarrow> string \<Rightarrow> chain \<Rightarrow> chain res" where
  "charge_bandwidth trx_size ops n s =
     bindE (get_account n s) (\<lambda>(k, a).
     bindE (update_account_bandwidth k trx_size s) (\<lambda>s.
     if list_ex is_market_operation ops then update_account_market_bandwidth k trx_size s else Inr s))"

definition check_expiration :: "skip_flags \<Rightarrow> signed_transaction \<Rightarrow> chain \<Rightarrow> unit res" where
  "check_expiration sk trx s =
     (if head_block_num s > 0 then
        bindE (if \<not> skip_tapos_check sk then assertE (tx_ref_block_prefix trx = id_prefix (block_summaries s (tx_ref_block_num trx))) else Inr ())
          (\<lambda>_.
        guardE (tx_expiration trx \<le> head_block_time s + MUSE_MAX_TIME_UNTIL_EXPIRATION) (
        guardE (head_block_time s < tx_expiration trx) (assertE (head_block_time s \<le> tx_expiration trx))))
      else Inr ())"

definition create_transaction :: "node_env \<Rightarrow> signed_transaction \<Rightarrow> chain \<Rightarrow> chain res" where
  "create_transaction ne trx s =
     bindE (idx_insert (\<lambda>x y. tro_trx_id x = tro_trx_id y) \<lparr>tro_trx = trx, tro_trx_id = ne_tx_id ne trx\<rparr> (transaction_objects s))
       (\<lambda>ix. Inr (s\<lparr>transaction_objects := ix\<rparr>))"

text \<open>What happens before the operations: checks, bandwidth and the entry in the list of known transactions.\<close>

definition admit_transaction :: "node_env \<Rightarrow> skip_flags \<Rightarrow> signed_transaction \<Rightarrow> chain \<Rightarrow> chain res" where
  "admit_transaction ne sk trx s =
     (let ops = tx_operations trx in
      bindE (if \<not> skip_validate sk then transaction_validate (ne_env ne) ops else Inr ()) (\<lambda>_.
      guardE (skip_transaction_dupe_check sk \<or> \<not> is_known_transaction (ne_tx_id ne trx) s) (
      bindE (if \<not> (skip_transaction_signatures sk \<or> skip_authority_check sk)
             then verify_authority (get_required_authorities ops) (ne_tx_keys ne trx) (chain_getters s)
                    (if has_hardfork MUSE_HARDFORK_0_3 s then 2 else 1) MUSE_MAX_SIG_CHECK_DEPTH
             else Inr ()) (\<lambda>_.
      bindE (foldE (charge_bandwidth (ne_tx_size ne trx) ops) (required_names ops) s) (\<lambda>s.
      bindE (check_expiration sk trx s) (\<lambda>_.
      if \<not> skip_transaction_dupe_check sk then create_transaction ne trx s else Inr s))))))"

definition apply_transaction :: "node_env \<Rightarrow> skip_flags \<Rightarrow> signed_transaction \<Rightarrow> chain \<Rightarrow> chain run" where
  "apply_transaction ne sk trx s =
     bindR (Some (admit_transaction ne sk trx s)) (foldR (apply_operation (ne_stack ne) (ne_env ne)) (tx_operations trx))"

text \<open>The loop removes the first transaction by expiration as long as that lies in the past: all that have expired.\<close>

definition clear_expired_transactions :: "chain \<Rightarrow> chain" where
  "clear_expired_transactions s =
     s\<lparr>transaction_objects := (transaction_objects s)
         \<lparr>rows := filter (\<lambda>(k, t). \<not> head_block_time s > tx_expiration (tro_trx t)) (rows (transaction_objects s))\<rparr>\<rparr>"

text \<open>Evaluation on concrete states.\<close>

lemmas transactions_eval [chain_eval] =
  skip_nothing_def MUSE_BANDWIDTH_AVERAGE_WINDOW_SECONDS_def MUSE_BANDWIDTH_PRECISION_def u64_def average_after_def within_share_def
  use_bandwidth_def update_account_bandwidth_def use_market_bandwidth_def update_account_market_bandwidth_def
  MUSE_MAX_TIME_UNTIL_EXPIRATION_def id_prefix_def is_known_transaction_def required_names_def charge_bandwidth_def
  check_expiration_def create_transaction_def admit_transaction_def apply_transaction_def clear_expired_transactions_def

end
