(* ===== verification/Block_Application.thy ===== *)
theory Block_Application
  imports Transactions Withdrawals
begin

text \<open>
  Applying a block (\<open>database.cpp\<close>): the header, its extensions, the transactions, the bookkeeping of slots, sizes and
  participation, the maintenance steps in the order the code runs them, and hardforks.
\<close>

unbundle bit_operations_syntax

type_synonym block = "signed_transaction signed_block"

definition block_number :: "block \<Rightarrow> nat" where "block_number b = unat (block_num b)"

definition block_size :: "node_env \<Rightarrow> block \<Rightarrow> nat" where "block_size ne b = length (ne_pack ne b)"

definition block_id_of :: "node_env \<Rightarrow> block \<Rightarrow> block_id" where "block_id_of ne b = signed_block_id (ne_block_sha ne) b"

section \<open>Hardforks\<close>

definition MUSE_NUM_HARDFORKS :: nat where "MUSE_NUM_HARDFORKS = 3"
definition MUSE_INIT_MINER_NAME :: string where "MUSE_INIT_MINER_NAME = ''initminer''"

definition hardfork_times :: "time_sec list" where "hardfork_times = [MUSE_GENESIS_TIME, 1510617600, 1516203600, 1528383600]"
definition hardfork_versions :: "version list" where
  "hardfork_versions = [mk_version 0 0 0, mk_version 0 1 0, mk_version 0 2 0, mk_version 0 3 0]"

text \<open>Hardfork 0.1 only logs an operation on test networks, but looks up the account; 0.2 repairs the recorded supply; 0.3
  drops the proposals that have expired.\<close>

definition hardfork_changes :: "nat \<Rightarrow> chain \<Rightarrow> chain res" where
  "hardfork_changes hardfork s =
     (if hardfork = MUSE_HARDFORK_0_1 then bindE (get_account MUSE_INIT_MINER_NAME s) (\<lambda>_. Inr s)
      else if hardfork = MUSE_HARDFORK_0_2 then
        modify_dgp (\<lambda>p.
          bindE (safe_add (current_supply p) (supply_delta p)) (\<lambda>c.
          bindE (safe_add (virtual_supply p) (supply_delta p)) (\<lambda>v.
          Inr (p\<lparr>current_supply := c, virtual_supply := v, supply_delta := 0\<rparr>)))) s
      else if hardfork = MUSE_HARDFORK_0_3 then
        Inr (s\<lparr>proposals := (proposals s)
                 \<lparr>rows := filter (\<lambda>(k, p). \<not> prop_expiration_time p \<le> head_block_time s) (rows (proposals s))\<rparr>\<rparr>)
      else Inr s)"

definition apply_hardfork :: "nat \<Rightarrow> chain \<Rightarrow> chain res" where
  "apply_hardfork hardfork s =
     bindE (hardfork_changes hardfork s) (\<lambda>s.
     let h = hardforks s; ts = hf_processed_hardforks h @ [hardfork_times ! hardfork] in
     guardE (hardfork = hf_last_hardfork h + 1) (
     guardE (length (hf_processed_hardforks h) = hardfork) (
     guardE (ts ! hardfork = hardfork_times ! hardfork) (
     Inr (s\<lparr>hardforks := h\<lparr>hf_processed_hardforks := ts, hf_last_hardfork := hardfork,
              hf_current_hardfork_version := hardfork_versions ! hardfork\<rparr>\<rparr>)))))"

lemma apply_hardfork_last: "apply_hardfork n s = Inr t \<Longrightarrow> hf_last_hardfork (hardforks t) = n"
  by (auto simp: apply_hardfork_def Let_def bindE_Inr_iff guardE_Inr_iff)

function process_hardforks :: "chain \<Rightarrow> chain res" where
  "process_hardforks s =
     (let h = hardforks s in
      if version_lt (hardfork_versions ! hf_last_hardfork h) (hf_next_hardfork h) \<and> hf_next_hardfork_time h \<le> head_block_time s then
        if hf_last_hardfork h < MUSE_NUM_HARDFORKS then bindE (apply_hardfork (hf_last_hardfork h + 1) s) process_hardforks
        else Inl Other_exn
      else Inr s)"
  by pat_completeness auto
termination
  by (relation "measure (\<lambda>s. MUSE_NUM_HARDFORKS - hf_last_hardfork (hardforks s))") (auto dest: apply_hardfork_last)

declare process_hardforks.simps [simp del]

section \<open>The header\<close>

definition validate_block_header :: "node_env \<Rightarrow> skip_flags \<Rightarrow> block \<Rightarrow> chain \<Rightarrow> nat res" where
  "validate_block_header ne sk b s =
     guardE (head_block_id (dgp s) = previous b) (
     guardE (head_block_time s < timestamp b) (
     bindE (get_witness (signed_block.witness b) s) (\<lambda>(k, w).
     guardE (skip_witness_signature sk \<or> ne_block_signee ne b = wit_signing_key w) (
     bindE (if \<not> skip_witness_schedule_check sk then
              let slot_num = get_slot_at_time (timestamp b) s in
              guardE (slot_num > 0) (
              bindE (get_scheduled_witness slot_num s) (\<lambda>n. assertE (wit_owner w = n)))
            else Inr ()) (\<lambda>_. Inr k)))))"

definition process_header_extension :: "block \<Rightarrow> block_header_extension \<Rightarrow> chain \<Rightarrow> chain res" where
  "process_header_extension b x s =
     (case x of
        Ext_void \<Rightarrow> Inr s
      | Ext_version v \<Rightarrow>
          bindE (get_witness (signed_block.witness b) s) (\<lambda>(k, w).
          if v \<noteq> wit_running_version w then modify_witness k (\<lambda>w. Inr (w\<lparr>wit_running_version := v\<rparr>)) s else Inr s)
      | Ext_hardfork_vote v \<Rightarrow>
          bindE (get_witness (signed_block.witness b) s) (\<lambda>(k, w).
          if hf_version v \<noteq> wit_hardfork_version_vote w \<or> hf_time v \<noteq> wit_hardfork_time_vote w
          then modify_witness k (\<lambda>w. Inr (w\<lparr>wit_hardfork_version_vote := hf_version v, wit_hardfork_time_vote := hf_time v\<rparr>)) s
          else Inr s))"

definition process_header_extensions :: "block \<Rightarrow> chain \<Rightarrow> chain res" where
  "process_header_extensions b s = foldE (process_header_extension b) (extensions b) s"

section \<open>Bookkeeping of the head block\<close>

definition MUSE_MAX_RESERVE_RATIO :: nat where "MUSE_MAX_RESERVE_RATIO = 20000"
definition MUSE_MAX_UNDO_HISTORY :: nat where "MUSE_MAX_UNDO_HISTORY = 10000"

text \<open>A witness that missed its slot; from hardfork 0.3 on one that has not produced for a day loses its signing key.\<close>

definition miss_slot :: "chain \<Rightarrow> witness \<Rightarrow> witness res" where
  "miss_slot s w =
     (let w = w\<lparr>wit_total_missed := (wit_total_missed w + 1) mod 2 ^ 32\<rparr> in
      Inr (if has_hardfork MUSE_HARDFORK_0_3 s \<and>
              (2 ^ 32 + head_block_num s - wit_last_confirmed_block_num w) mod 2 ^ 32 > MUSE_BLOCKS_PER_DAY
           then w\<lparr>wit_signing_key := 0\<rparr> else w))"

definition count_missed :: "block \<Rightarrow> nat \<Rightarrow> chain \<Rightarrow> chain res" where
  "count_missed b i s =
     bindE (get_scheduled_witness (i + 1) s) (\<lambda>n.
     bindE (get_witness n s) (\<lambda>(k, w).
     if wit_owner w \<noteq> signed_block.witness b then modify_witness k (miss_slot s) s else Inr s))"

text \<open>One round of the loop over the slots since the last block: the oldest slot leaves the window, the new one enters.\<close>

definition fill_slot :: "nat \<Rightarrow> 128 word \<times> nat \<Rightarrow> 128 word \<times> nat" where
  "fill_slot i = (\<lambda>(slots, count).
     let count = (256 + count - (if bit slots 127 then 1 else 0)) mod 256 in
     (push_bit 1 slots + (if i = 0 then 1 else 0), (count + (if i = 0 then 1 else 0)) mod 256))"

definition reserve_ratio :: "dynamic_global_property \<Rightarrow> nat" where
  "reserve_ratio p =
     (if head_block_number p mod 20 = 0 then
        min MUSE_MAX_RESERVE_RATIO
          (if average_block_size p > maximum_block_size p div 4 then current_reserve_ratio p div 2 else current_reserve_ratio p + 1)
      else current_reserve_ratio p)"

text \<open>A product of unsigned 64 bit integers, which wraps around before the division.\<close>

definition virtual_bandwidth :: "nat \<Rightarrow> nat \<Rightarrow> nat" where
  "virtual_bandwidth max_size ratio =
     u64 (int max_size * int ratio * int MUSE_BANDWIDTH_PRECISION * int MUSE_BANDWIDTH_AVERAGE_WINDOW_SECONDS) div MUSE_BLOCK_INTERVAL"

definition advance_head :: "node_env \<Rightarrow> block \<Rightarrow> nat \<Rightarrow> dynamic_global_property \<Rightarrow> dynamic_global_property" where
  "advance_head ne b missed p =
     (let (slots, count) = fold fill_slot [0..<missed + 1] (recent_slots_filled p, participation_count p);
          p = p\<lparr>recent_slots_filled := slots, participation_count := count, head_block_number := block_number b,
                head_block_id := block_id_of ne b, dgp_time := timestamp b,
                current_aslot := (current_aslot p + missed + 1) mod 2 ^ 64,
                average_block_size := (99 * average_block_size p mod 2 ^ 32 + block_size ne b) div 100 mod 2 ^ 32\<rparr>;
          p = p\<lparr>current_reserve_ratio := reserve_ratio p\<rparr> in
      p\<lparr>max_virtual_bandwidth := virtual_bandwidth (maximum_block_size p) (current_reserve_ratio p)\<rparr>)"

text \<open>The number of slots since the last block; the code asserts that the block has one.\<close>

definition update_global_dynamic_data :: "node_env \<Rightarrow> skip_flags \<Rightarrow> block \<Rightarrow> chain \<Rightarrow> chain res" where
  "update_global_dynamic_data ne sk b s =
     (let slot = get_slot_at_time (timestamp b) s in
      guardE (head_block_time s \<noteq> 0 \<longrightarrow> slot \<noteq> 0) (
      let missed = (if head_block_time s \<noteq> 0 then slot - 1 else 0) in
      bindE (foldE (count_missed b) [0..<missed] s) (\<lambda>s.
      let p = advance_head ne b missed (dgp s) in
      guardE (skip_undo_history_check sk \<or>
        (2 ^ 32 + head_block_number p - last_irreversible_block_num p) mod 2 ^ 32 < MUSE_MAX_UNDO_HISTORY) (
      Inr (s\<lparr>dgp := p\<rparr>)))))"

definition update_signing_witness :: "nat \<Rightarrow> block \<Rightarrow> chain \<Rightarrow> chain res" where
  "update_signing_witness k b s =
     (let new_block_aslot = (current_aslot (dgp s) + get_slot_at_time (timestamp b) s) mod 2 ^ 64 in
      modify_witness k (\<lambda>w. Inr (w\<lparr>wit_last_aslot := new_block_aslot, wit_last_confirmed_block_num := block_number b\<rparr>)) s)"

definition create_block_summary :: "node_env \<Rightarrow> block \<Rightarrow> chain \<Rightarrow> chain" where
  "create_block_summary ne b s = s\<lparr>block_summaries := (block_summaries s)(block_number b mod 2 ^ 16 := block_id_of ne b)\<rparr>"

section \<open>The block\<close>

definition block_header_step :: "node_env \<Rightarrow> skip_flags \<Rightarrow> block \<Rightarrow> chain \<Rightarrow> (nat \<times> chain) res" where
  "block_header_step ne sk b s =
     guardE (skip_merkle_check sk \<or>
       transaction_merkle_root b = calculate_merkle_root (ne_pair_hash ne) (ne_root_hash ne) (ne_tx_digest ne) b) (
     bindE (validate_block_header ne sk b s) (\<lambda>k.
     guardE (block_size ne b \<le> maximum_block_size (dgp s)) (
     bindE (process_header_extensions b (s\<lparr>dgp := (dgp s)\<lparr>current_witness := signed_block.witness b\<rparr>\<rparr>)) (\<lambda>s.
     bindE (get_witness (signed_block.witness b) s) (\<lambda>(j, w).
     guardE (version_le (hf_current_hardfork_version (hardforks s)) (wit_running_version w)) (Inr (k, s)))))))"

definition head_step :: "node_env \<Rightarrow> nat \<Rightarrow> block \<Rightarrow> chain \<Rightarrow> chain res" where
  "head_step ne k b s =
     bindE (update_signing_witness k b s) (\<lambda>s.
     bindE (update_last_irreversible_block s) (\<lambda>s.
     Inr (clear_expired_transactions (create_block_summary ne b s))))"

definition maintenance_step :: "chain \<Rightarrow> chain res" where
  "maintenance_step s =
     bindE (clear_expired_orders s) (\<lambda>s.
     bindE (update_witness_schedule s) (\<lambda>s.
     bindE (update_median_feed s) (\<lambda>s.
     bindE (update_virtual_supply s) (\<lambda>s.
     bindE (block_rewards s) (\<lambda>s.
     bindE (process_vesting_withdrawals s) (\<lambda>s.
     bindE (update_virtual_supply s) (\<lambda>s.
     bindE (account_recovery_processing s) process_hardforks)))))))"

text \<open>The block in two parts: up to the point where the sizes of the undo and fork databases are set, and the rest.\<close>

definition apply_block_head :: "node_env \<Rightarrow> skip_flags \<Rightarrow> block \<Rightarrow> chain \<Rightarrow> (nat \<times> chain) run" where
  "apply_block_head ne sk b s =
     bindR (Some (block_header_step ne sk b s)) (\<lambda>(k, s).
     bindR (foldR (apply_transaction ne sk) (transactions b) s) (\<lambda>s.
     bindR (Some (update_global_dynamic_data ne sk b s)) (\<lambda>s. Some (Inr (k, s)))))"

definition apply_block_tail :: "node_env \<Rightarrow> block \<Rightarrow> nat \<times> chain \<Rightarrow> chain run" where
  "apply_block_tail ne b = (\<lambda>(k, s).
     bindR (Some (head_step ne k b s)) (\<lambda>s.
     bindR (clear_expired_proposals (ne_stack ne) (ne_env ne) s) (\<lambda>s. Some (maintenance_step s))))"

definition apply_block_body :: "node_env \<Rightarrow> skip_flags \<Rightarrow> block \<Rightarrow> chain \<Rightarrow> chain run" where
  "apply_block_body ne sk b s = bindR (apply_block_head ne sk b s) (apply_block_tail ne b)"

text \<open>\<open>apply_block\<close>: a block at a checkpoint must match it, and up to the last checkpoint most checks are skipped. The
  checkpoints are sorted by number.\<close>

definition checkpoint_skip :: skip_flags where
  "checkpoint_skip = \<lparr>skip_witness_signature = True, skip_transaction_signatures = True, skip_transaction_dupe_check = True,
     skip_fork_db = True, skip_block_size_check = True, skip_tapos_check = True, skip_authority_check = True,
     skip_merkle_check = True, skip_undo_history_check = True, skip_witness_schedule_check = True, skip_validate = True,
     skip_validate_invariants = True\<rparr>"

type_synonym checkpoints = "(nat \<times> block_id) list"

definition add_checkpoints :: "checkpoints \<Rightarrow> checkpoints \<Rightarrow> checkpoints" where
  "add_checkpoints checkpts cs = fold (\<lambda>(k, i) cs. if map_of cs k = None then table_insert k i cs else table_update k i cs) checkpts cs"

definition before_last_checkpoint :: "checkpoints \<Rightarrow> chain \<Rightarrow> bool" where
  "before_last_checkpoint cs s \<longleftrightarrow> cs \<noteq> [] \<and> fst (last cs) \<ge> head_block_num s"

definition checkpoint_flags :: "node_env \<Rightarrow> checkpoints \<Rightarrow> skip_flags \<Rightarrow> block \<Rightarrow> skip_flags res" where
  "checkpoint_flags ne cs sk b =
     (if cs \<noteq> [] \<and> snd (last cs) \<noteq> null_block_id then
        guardE (case map_of cs (block_number b) of None \<Rightarrow> True | Some i \<Rightarrow> block_id_of ne b = i) (
        Inr (if fst (last cs) \<ge> block_number b then checkpoint_skip else sk))
      else Inr sk)"

definition apply_block :: "node_env \<Rightarrow> checkpoints \<Rightarrow> skip_flags \<Rightarrow> block \<Rightarrow> chain \<Rightarrow> chain run" where
  "apply_block ne cs sk b s = bindR (Some (checkpoint_flags ne cs sk b)) (\<lambda>sk. apply_block_body ne sk b s)"

text \<open>Evaluation on concrete states.\<close>

lemmas blocks_eval [chain_eval] =
  block_number_def block_id_of_def MUSE_NUM_HARDFORKS_def MUSE_INIT_MINER_NAME_def hardfork_times_def hardfork_versions_def
  hardfork_changes_def apply_hardfork_def validate_block_header_def process_header_extension_def
  process_header_extensions_def MUSE_MAX_RESERVE_RATIO_def MUSE_MAX_UNDO_HISTORY_def miss_slot_def count_missed_def fill_slot_def
  reserve_ratio_def virtual_bandwidth_def advance_head_def update_global_dynamic_data_def update_signing_witness_def
  create_block_summary_def block_header_step_def head_step_def maintenance_step_def apply_block_head_def apply_block_tail_def
  apply_block_body_def checkpoint_skip_def checkpoint_flags_def apply_block_def block_size_def

end
