(* ===== verification/Snapshots.thy ===== *)
theory Snapshots
  imports Undo_Sessions
begin

text \<open>
  The undo database as the chain database uses it: the current objects and a stack of whole snapshots. Each operation of
  \<open>undo_database\<close>, which records differences, is simulated by the operation on snapshots of the same name.
\<close>

record 'v history =
  h_now :: 'v
  h_saved :: "'v list"
  h_active :: nat
  h_max :: nat

definition h_start :: "'v history \<Rightarrow> 'v history" where
  "h_start h = h\<lparr>h_saved := h_now h # take (h_max h) (h_saved h), h_active := h_active h + 1\<rparr>"

definition h_undo :: "'v history \<Rightarrow> 'v history res" where
  "h_undo h =
     guardE (h_active h > 0) (
     case h_saved h of [] \<Rightarrow> Inl Other_exn
     | v # vs \<Rightarrow> Inr (h\<lparr>h_now := v, h_saved := vs, h_active := h_active h - 1\<rparr>))"

definition h_merge :: "'v history \<Rightarrow> 'v history res" where
  "h_merge h =
     guardE (h_active h > 0) (
     if h_active h = 1 \<and> length (h_saved h) = 1 then Inr (h\<lparr>h_saved := [], h_active := 0\<rparr>)
     else case h_saved h of
       _ # v # vs \<Rightarrow> Inr (h\<lparr>h_saved := v # vs, h_active := h_active h - 1\<rparr>)
     | _ \<Rightarrow> Inl Assert_exn)"

definition h_commit :: "'v history \<Rightarrow> 'v history res" where
  "h_commit h = guardE (h_active h > 0) (Inr (h\<lparr>h_active := h_active h - 1\<rparr>))"

definition h_pop_commit :: "'v history \<Rightarrow> 'v history res" where
  "h_pop_commit h =
     guardE (h_active h = 0) (
     case h_saved h of [] \<Rightarrow> Inl Assert_exn | v # vs \<Rightarrow> Inr (h\<lparr>h_now := v, h_saved := vs\<rparr>))"

definition h_set_max_size :: "nat \<Rightarrow> 'v history \<Rightarrow> 'v history" where
  "h_set_max_size n h = h\<lparr>h_max := n\<rparr>"

lemmas history_defs = h_start_def h_undo_def h_merge_def h_commit_def h_pop_commit_def h_set_max_size_def

section \<open>Snapshots are a session store\<close>

definition h_step :: "'v history \<Rightarrow> 'v history \<Rightarrow> bool" where
  "h_step h h' \<longleftrightarrow> (\<exists>v. h' = h\<lparr>h_now := v\<rparr>)"

interpretation snapshot_db: session_store h_now "\<lambda>h vs. h_saved h = vs" h_active h_max h_step h_start h_undo h_merge
  by unfold_locales (auto simp: history_defs h_step_def)

section \<open>The undo database simulates snapshots\<close>

definition simulates :: "(object_id \<Rightarrow> 'o \<Rightarrow> 'k list) \<Rightarrow> 'o object_database \<Rightarrow> 'o store history \<Rightarrow> bool" where
  "simulates uk db h \<longleftrightarrow> undo_history uk db (h_saved h) \<and> db_store db = h_now h \<and> active_sessions db = h_active h \<and>
     max_size db = h_max h"

text \<open>Both sides of an operation fail, or both succeed and stay in the relation.\<close>

definition agree :: "(object_id \<Rightarrow> 'o \<Rightarrow> 'k list) \<Rightarrow> 'o object_database res \<Rightarrow> 'o store history res \<Rightarrow> bool" where
  "agree uk r q \<longleftrightarrow> (case (r, q) of (Inr db, Inr h) \<Rightarrow> simulates uk db h | (Inl e, Inl e') \<Rightarrow> e = e' | _ \<Rightarrow> False)"

lemma snapshots_length: "snapshots uk sts vs cur \<Longrightarrow> length sts = length vs"
  by (induction uk sts vs cur rule: snapshots.induct) auto

lemma simulates_stack: "simulates uk db h \<Longrightarrow> length (undo_stack db) = length (h_saved h)"
  by (auto simp: simulates_def undo_history_def dest: snapshots_length)

lemma simulates_start: "simulates uk db h \<Longrightarrow> simulates uk (snd (start_undo_session False db)) (h_start h)"
  using undo_db.start_law [of uk db "h_saved h"] by (auto simp: simulates_def h_start_def)

lemma simulates_undo: "simulates uk db h \<Longrightarrow> agree uk (undo uk db) (h_undo h)"
proof (cases "h_saved h")
  case Nil
  assume "simulates uk db h"
  then show ?thesis using Nil
    by (cases "undo_stack db") (auto simp: simulates_def agree_def undo_def h_undo_def guardE_def undo_history_def rollback_state_def)
next
  case (Cons v vs)
  assume s: "simulates uk db h"
  show ?thesis
  proof (cases "h_active h > 0")
    case True
    then show ?thesis using history_undo [of uk db v vs] s Cons by (auto simp: simulates_def agree_def h_undo_def)
  next
    case False
    then show ?thesis using s by (auto simp: simulates_def agree_def undo_def h_undo_def undo_history_def)
  qed
qed

lemma simulates_pop: "simulates uk db h \<Longrightarrow> agree uk (pop_commit uk db) (h_pop_commit h)"
proof (cases "h_saved h")
  case Nil
  assume "simulates uk db h"
  then show ?thesis using Nil simulates_stack [of uk db h]
    by (auto simp: simulates_def agree_def pop_commit_def h_pop_commit_def guardE_def)
next
  case (Cons v vs)
  assume s: "simulates uk db h"
  then have "undo_stack db \<noteq> []" using Cons simulates_stack [OF s] by auto
  then show ?thesis using history_rollback [of uk db v vs] s Cons
    by (auto simp: simulates_def agree_def pop_commit_def h_pop_commit_def guardE_def undo_history_def)
qed

lemma simulates_commit: "simulates uk db h \<Longrightarrow> agree uk (commit db) (h_commit h)"
  by (auto simp: simulates_def agree_def commit_def h_commit_def guardE_def undo_history_def)

text \<open>Merging the only session leaves no history.\<close>

lemma simulates_merge:
  assumes s: "simulates uk db h"
  shows "agree uk (merge db) (h_merge h)"
proof (cases "h_active h > 0 \<and> (\<exists>v w vs. h_saved h = v # w # vs)")
  case True
  then obtain v w vs where h: "h_saved h = v # w # vs" by blast
  then show ?thesis using history_merge [of uk db v w vs] s True
    by (auto simp: simulates_def agree_def h_merge_def)
next
  case False
  then consider "h_active h = 0" | "h_saved h = []" | v where "h_saved h = [v]"
    by (metis neq_Nil_conv not_gr_zero)
  then show ?thesis
  proof cases
    case 1
    then show ?thesis using s by (simp add: simulates_def agree_def merge_def h_merge_def)
  next
    case 2
    then have "undo_stack db = []" using simulates_stack [OF s] by simp
    then show ?thesis using s 2 by (simp add: simulates_def agree_def merge_def h_merge_def guardE_def)
  next
    case 3
    then obtain st where st: "undo_stack db = [st]" using simulates_stack [OF s] by (auto simp: length_Suc_conv)
    then show ?thesis using s 3
      by (auto simp: simulates_def agree_def merge_def h_merge_def guardE_def undo_history_def)
  qed
qed

section \<open>Properties\<close>

text \<open>Property C5. The undo database behaves as a stack of whole snapshots: opening, undoing, merging and committing a session,
  and popping a committed one, succeed or fail on both sides together and keep the objects, the snapshots, the number of
  open sessions and the size limit in step; a change of the objects in an open session does so as well.\<close>

theorem undo_database_simulates_snapshots:
  assumes "simulates uk db h"
  shows "simulates uk (snd (start_undo_session False db)) (h_start h) \<and> agree uk (undo uk db) (h_undo h) \<and>
    agree uk (merge db) (h_merge h) \<and> agree uk (commit db) (h_commit h) \<and> agree uk (pop_commit uk db) (h_pop_commit h) \<and>
    simulates uk (db\<lparr>max_size := n\<rparr>) (h_set_max_size n h) \<and>
    (\<forall>db'. db_step uk db db' \<and> h_saved h \<noteq> [] \<longrightarrow> simulates uk db' (h\<lparr>h_now := db_store db'\<rparr>))"
proof -
  have "simulates uk (db\<lparr>max_size := n\<rparr>) (h_set_max_size n h)"
    using assms by (auto simp: simulates_def h_set_max_size_def undo_history_def)
  moreover have "simulates uk db' (h\<lparr>h_now := db_store db'\<rparr>)" if "db_step uk db db'" "h_saved h \<noteq> []" for db'
  proof -
    from that(2) obtain v vs where "h_saved h = v # vs" by (cases "h_saved h") auto
    then show ?thesis using history_step [of uk db v vs db'] assms that(1) by (simp add: simulates_def)
  qed
  ultimately show ?thesis
    using simulates_start simulates_undo simulates_merge simulates_commit simulates_pop assms by blast
qed

theorem undo_database_simulates_snapshots_witness:
  "\<exists>h. simulates demo_key demo_start h \<and> h_saved h = [db_store demo_db] \<and> agree demo_key (undo demo_key demo_start) (h_undo h)"
proof -
  let ?h = "\<lparr>h_now = db_store demo_db, h_saved = [], h_active = 0, h_max = 256\<rparr>"
  have h: "simulates demo_key demo_db ?h"
    using demo_history by (simp add: simulates_def demo_db_def)
  have s: "simulates demo_key demo_start (h_start ?h)"
    using undo_database_simulates_snapshots [OF h, of 0] by (simp add: demo_start_def)
  have "agree demo_key (undo demo_key demo_start) (h_undo (h_start ?h))"
    using undo_database_simulates_snapshots [OF s, of 0] by blast
  then show ?thesis using s by (intro exI [of _ "h_start ?h"]) (simp add: h_start_def)
qed

end
