(* ===== verification/Node.thy ===== *)
theory Node
  imports Block_Application Snapshots Fork_Database Block_Store
begin

text \<open>
  The node (\<open>database.cpp\<close>, \<open>db_with.hpp\<close>): the chain of objects with its history, the fork database, the block
  database and the pending transactions, and the operations that keep them together: pushing blocks and transactions,
  switching forks, popping, generating a block, closing.

  An exception leaves the changes made before it in place, so an action returns the node with the result. The objects
  themselves are always covered by a session, whose destructor rolls them back: the model leaves them as they were when the
  application of a block or transaction throws. Sessions that \<open>push_proposal\<close> opens inside may drop one more of the oldest
  snapshots than the model does; no property here relies on a snapshot being dropped.
\<close>

section \<open>State and actions\<close>

record node =
  nd_hist :: "chain history"
  nd_fork :: "signed_transaction fork_db"
  nd_store :: block_store
  nd_pending :: "signed_transaction list"
  nd_session :: bool                           \<comment> \<open>\<open>_pending_tx_session.valid()\<close>\<close>
  nd_popped :: "signed_transaction list"
  nd_checkpoints :: checkpoints

abbreviation nd_chain :: "node \<Rightarrow> chain" where "nd_chain n \<equiv> h_now (nd_hist n)"

definition nd_head_id :: "node \<Rightarrow> block_id" where "nd_head_id n = head_block_id (dgp (nd_chain n))"

type_synonym 'a act = "node \<Rightarrow> ('a res \<times> node) option"

definition returnN :: "'a \<Rightarrow> 'a act" where "returnN x n = Some (Inr x, n)"

definition throwN :: "exn \<Rightarrow> 'a act" where "throwN e n = Some (Inl e, n)"

definition bindN :: "'a act \<Rightarrow> ('a \<Rightarrow> 'b act) \<Rightarrow> 'b act" where
  "bindN m f n = (case m n of None \<Rightarrow> None | Some (Inl e, n') \<Rightarrow> Some (Inl e, n') | Some (Inr x, n') \<Rightarrow> f x n')"

definition catchN :: "'a act \<Rightarrow> (exn \<Rightarrow> 'a act) \<Rightarrow> 'a act" where
  "catchN m h n = (case m n of Some (Inl e, n') \<Rightarrow> h e n' | r \<Rightarrow> r)"

definition updN :: "(node \<Rightarrow> node) \<Rightarrow> unit act" where "updN f n = Some (Inr (), f n)"

definition tryN :: "(node \<Rightarrow> node res) \<Rightarrow> unit act" where
  "tryN f n = (case f n of Inl e \<Rightarrow> Some (Inl e, n) | Inr n' \<Rightarrow> Some (Inr (), n'))"

primrec foldN :: "('a \<Rightarrow> unit act) \<Rightarrow> 'a list \<Rightarrow> unit act" where
  "foldN f [] = returnN ()"
| "foldN f (x # xs) = bindN (f x) (\<lambda>_. foldN f xs)"

definition on_hist :: "(chain history \<Rightarrow> chain history res) \<Rightarrow> node \<Rightarrow> node res" where
  "on_hist f n = bindE (f (nd_hist n)) (\<lambda>h. Inr (n\<lparr>nd_hist := h\<rparr>))"

definition upd_fork :: "(signed_transaction fork_db \<Rightarrow> signed_transaction fork_db) \<Rightarrow> node \<Rightarrow> node" where
  "upd_fork f n = n\<lparr>nd_fork := f (nd_fork n)\<rparr>"

definition start_session :: "node \<Rightarrow> node" where "start_session n = n\<lparr>nd_hist := h_start (nd_hist n)\<rparr>"

text \<open>The destructor of a session swallows an exception of \<open>undo\<close>.\<close>

definition drop_session :: "node \<Rightarrow> node" where
  "drop_session n = (case h_undo (nd_hist n) of Inl _ \<Rightarrow> n | Inr h \<Rightarrow> n\<lparr>nd_hist := h\<rparr>)"

definition reset_session :: "node \<Rightarrow> node" where
  "reset_session n = (if nd_session n then (drop_session n)\<lparr>nd_session := False\<rparr> else n)"

section \<open>Blocks\<close>

text \<open>The number of blocks that may still be undone, which limits the undo and the fork database.\<close>

definition undo_window :: "chain \<Rightarrow> nat" where
  "undo_window s = (2 ^ 32 + head_block_number (dgp s) - last_irreversible_block_num (dgp s) + 1) mod 2 ^ 32"

definition set_windows :: "nat \<Rightarrow> node \<Rightarrow> node" where
  "set_windows w n = n\<lparr>nd_hist := h_set_max_size w (nd_hist n), nd_fork := fork_set_max_size (of_nat w) (nd_fork n)\<rparr>"

definition node_apply_block :: "node_env \<Rightarrow> skip_flags \<Rightarrow> block \<Rightarrow> unit act" where
  "node_apply_block ne sk b n =
     (case bindR (Some (checkpoint_flags ne (nd_checkpoints n) sk b)) (\<lambda>sk. apply_block_head ne sk b (nd_chain n)) of
        None \<Rightarrow> None
      | Some (Inl e) \<Rightarrow> Some (Inl e, n)
      | Some (Inr (k, s)) \<Rightarrow>
          let n = set_windows (undo_window s) n in
          (case apply_block_tail ne b (k, s) of
             None \<Rightarrow> None
           | Some (Inl e) \<Rightarrow> Some (Inl e, n)
           | Some (Inr t) \<Rightarrow> Some (Inr (), n\<lparr>nd_hist := (nd_hist n)\<lparr>h_now := t\<rparr>\<rparr>)))"

text \<open>A session around applying a block and storing it under an id.\<close>

definition apply_and_store :: "node_env \<Rightarrow> skip_flags \<Rightarrow> block_id \<Rightarrow> block \<Rightarrow> unit act" where
  "apply_and_store ne sk i b =
     bindN (updN start_session) (\<lambda>_.
     catchN
       (bindN (node_apply_block ne sk b) (\<lambda>_.
        bindN (updN (\<lambda>n. n\<lparr>nd_store := bs_store (ne_block_sha ne) (ne_pack ne) i b (nd_store n)\<rparr>)) (\<lambda>_.
        tryN (on_hist h_commit))))
       (\<lambda>e. bindN (updN drop_session) (\<lambda>_. throwN e)))"

definition fetch_block_by_id :: "node_env \<Rightarrow> block_id \<Rightarrow> node \<Rightarrow> block option" where
  "fetch_block_by_id ne i n =
     (case fork_fetch_block i (nd_fork n) of
        Some it \<Rightarrow> Some (fi_data it)
      | None \<Rightarrow> bs_fetch_optional (ne_block_sha ne) (ne_unpack ne) i (nd_store n))"

definition fetch_block_by_number :: "node_env \<Rightarrow> 32 word \<Rightarrow> node \<Rightarrow> block option" where
  "fetch_block_by_number ne num n =
     (case fork_fetch_by_number num (nd_fork n) of
        [it] \<Rightarrow> Some (fi_data it)
      | _ \<Rightarrow> bs_fetch_by_number (ne_block_sha ne) (ne_unpack ne) num (nd_store n))"

definition is_known_block :: "block_id \<Rightarrow> node \<Rightarrow> bool" where
  "is_known_block i n \<longleftrightarrow> fork_is_known_block i (nd_fork n) \<or> bs_contains i (nd_store n)"

text \<open>\<open>pop_block\<close> in three steps; the first two may throw with the pending session already gone.\<close>

definition take_head :: "node_env \<Rightarrow> node \<Rightarrow> (block \<times> node) res" where
  "take_head ne n =
     bindE (case fetch_block_by_id ne (nd_head_id n) n of None \<Rightarrow> Inl Assert_exn | Some b \<Rightarrow> Inr b) (\<lambda>b.
     bindE (fork_pop_block (nd_fork n)) (\<lambda>f. Inr (b, n\<lparr>nd_fork := f\<rparr>)))"

definition pop_block :: "node_env \<Rightarrow> node \<Rightarrow> unit res \<times> node" where
  "pop_block ne n =
     (let n = reset_session n in
      case take_head ne n of
        Inl e \<Rightarrow> (Inl e, n)
      | Inr (b, n) \<Rightarrow>
          (case h_pop_commit (nd_hist n) of
             Inl e \<Rightarrow> (Inl e, n)
           | Inr h \<Rightarrow> (Inr (), n\<lparr>nd_hist := h, nd_popped := transactions b @ nd_popped n\<rparr>)))"

lemma drop_session_length: "length (h_saved (nd_hist (reset_session n))) \<le> length (h_saved (nd_hist n))"
  by (auto simp: reset_session_def drop_session_def h_undo_def guardE_def split: list.splits if_splits sum.splits)

lemma pop_block_shorter:
  assumes "pop_block ne n = (Inr (), n')"
  shows "length (h_saved (nd_hist n')) < length (h_saved (nd_hist n))"
proof -
  from assms obtain b m h where p: "take_head ne (reset_session n) = Inr (b, m)" "h_pop_commit (nd_hist m) = Inr h"
      "n' = m\<lparr>nd_hist := h, nd_popped := transactions b @ nd_popped m\<rparr>"
    by (auto simp: pop_block_def Let_def split: sum.splits prod.splits)
  then have "nd_hist m = nd_hist (reset_session n)" by (auto simp: take_head_def bindE_Inr_iff)
  then show ?thesis using p drop_session_length [of n]
    by (auto simp: h_pop_commit_def guardE_def split: list.splits if_splits)
qed

text \<open>Popping blocks until the head is the given block; every round takes a snapshot off the history.\<close>

function pop_until :: "node_env \<Rightarrow> block_id \<Rightarrow> unit act" where
  "pop_until ne i n =
     (if nd_head_id n = i then Some (Inr (), n)
      else case pop_block ne n of
        (Inl e, n') \<Rightarrow> Some (Inl e, n')
      | (Inr _, n') \<Rightarrow> pop_until ne i n')"
  by pat_completeness auto
termination
  by (relation "measure (\<lambda>(ne, i, n). length (h_saved (nd_hist n)))") (auto dest!: pop_block_shorter [OF sym])

declare pop_until.simps [simp del]

section \<open>Forks\<close>

text \<open>When a block of the new branch does not apply: it and those above it leave the fork database, and the old branch
  is applied again. The code stores those blocks under the id of the block that was pushed.\<close>

definition restore_branch :: "node_env \<Rightarrow> skip_flags \<Rightarrow> block \<Rightarrow> signed_transaction fork_item list \<Rightarrow> signed_transaction fork_item list \<Rightarrow> unit act" where
  "restore_branch ne sk new_block bad good =
     bindN (updN (upd_fork (fold (\<lambda>it. fork_remove (block_id_of ne (fi_data it))) bad))) (\<lambda>_.
     bindN (updN (upd_fork (fork_set_head (hd good)))) (\<lambda>_.
     bindN (pop_until ne (fi_previous_id (last good))) (\<lambda>_.
     foldN (\<lambda>it. apply_and_store ne sk (block_id_of ne new_block) (fi_data it)) (rev good))))"

primrec push_branch :: "node_env \<Rightarrow> skip_flags \<Rightarrow> block \<Rightarrow> signed_transaction fork_item list \<Rightarrow> signed_transaction fork_item list \<Rightarrow> unit act" where
  "push_branch ne sk new_block good [] = returnN ()"
| "push_branch ne sk new_block good (it # its) =
     bindN (catchN (apply_and_store ne sk (fi_id it) (fi_data it))
              (\<lambda>e. bindN (restore_branch ne sk new_block (it # its) good) (\<lambda>_. throwN e)))
       (\<lambda>_. push_branch ne sk new_block good its)"

definition switch_fork :: "node_env \<Rightarrow> skip_flags \<Rightarrow> block \<Rightarrow> signed_transaction fork_item \<Rightarrow> unit act" where
  "switch_fork ne sk new_block new_head n =
     (case fetch_branch_from (2 ^ 32) (nd_fork n) (block_id_of ne (fi_data new_head)) (nd_head_id n) of
        None \<Rightarrow> None
      | Some (Inl e) \<Rightarrow> Some (Inl e, n)
      | Some (Inr (first, second)) \<Rightarrow>
          bindN (pop_until ne (fi_previous_id (last second))) (\<lambda>_. push_branch ne sk new_block second (rev first)) n)"

text \<open>The part of \<open>_push_block\<close> for a block on top of the head.\<close>

definition extend_head :: "node_env \<Rightarrow> skip_flags \<Rightarrow> block \<Rightarrow> bool act" where
  "extend_head ne sk b =
     bindN (catchN (apply_and_store ne sk (block_id_of ne b) b)
              (\<lambda>e. bindN (updN (upd_fork (fork_remove (block_id_of ne b)))) (\<lambda>_. throwN e)))
       (\<lambda>_. returnN False)"

definition fork_push :: "node_env \<Rightarrow> block \<Rightarrow> signed_transaction fork_item act" where
  "fork_push ne b n =
     (case fork_push_block (ne_block_sha ne) b (nd_fork n) of
        Inl e \<Rightarrow> Some (Inl e, n)
      | Inr (None, f) \<Rightarrow> Some (Inl Other_exn, n\<lparr>nd_fork := f\<rparr>)
      | Inr (Some h, f) \<Rightarrow> Some (Inr h, n\<lparr>nd_fork := f\<rparr>))"

definition push_block_inner :: "node_env \<Rightarrow> skip_flags \<Rightarrow> block \<Rightarrow> bool act" where
  "push_block_inner ne sk b =
     (if \<not> skip_fork_db sk then
        bindN (fork_push ne b) (\<lambda>new_head n.
          if previous (fi_data new_head) \<noteq> nd_head_id n then
            if unat (block_num (fi_data new_head)) > head_block_num (nd_chain n)
            then bindN (switch_fork ne sk b new_head) (\<lambda>_. returnN True) n
            else returnN False n
          else extend_head ne sk b n)
      else extend_head ne sk b)"

section \<open>Transactions\<close>

definition push_transaction_inner :: "node_env \<Rightarrow> skip_flags \<Rightarrow> signed_transaction \<Rightarrow> unit act" where
  "push_transaction_inner ne sk trx =
     bindN (updN (\<lambda>n. if nd_session n then n else (start_session n)\<lparr>nd_session := True\<rparr>)) (\<lambda>_.
     bindN (updN start_session) (\<lambda>_ n.
       case apply_transaction ne sk trx (nd_chain n) of
         None \<Rightarrow> None
       | Some (Inl e) \<Rightarrow> Some (Inl e, drop_session n)
       | Some (Inr s) \<Rightarrow>
           let n = n\<lparr>nd_hist := (nd_hist n)\<lparr>h_now := s\<rparr>, nd_pending := nd_pending n @ [trx]\<rparr> in
           catchN (tryN (on_hist h_merge)) (\<lambda>e n. Some (Inl e, drop_session n)) n))"

definition push_transaction :: "node_env \<Rightarrow> skip_flags \<Rightarrow> signed_transaction \<Rightarrow> unit act" where
  "push_transaction ne sk trx n =
     (if int (ne_tx_size ne trx) \<le> (int (maximum_block_size (dgp (nd_chain n))) - 256) mod 2 ^ 32
      then push_transaction_inner ne sk trx n else Some (Inl Assert_exn, n))"

definition clear_pending :: "node \<Rightarrow> node" where
  "clear_pending n = reset_session (n\<lparr>nd_pending := []\<rparr>)"

text \<open>\<open>pending_transactions_restorer\<close>: what was popped and what was pending is pushed again; what has become known or
  invalid is left out.\<close>

definition repush :: "node_env \<Rightarrow> skip_flags \<Rightarrow> signed_transaction \<Rightarrow> unit act" where
  "repush ne sk trx n =
     (if is_known_transaction (ne_tx_id ne trx) (nd_chain n) then Some (Inr (), n)
      else catchN (push_transaction_inner ne sk trx) (\<lambda>_. returnN ()) n)"

definition restore_pending :: "node_env \<Rightarrow> skip_flags \<Rightarrow> signed_transaction list \<Rightarrow> unit act" where
  "restore_pending ne sk pending n =
     bindN (foldN (repush ne sk) (nd_popped n)) (\<lambda>_.
     bindN (updN (\<lambda>n. n\<lparr>nd_popped := []\<rparr>)) (\<lambda>_. foldN (repush ne sk) pending)) n"

definition without_pending :: "node_env \<Rightarrow> skip_flags \<Rightarrow> 'a act \<Rightarrow> 'a act" where
  "without_pending ne sk m n =
     (case m (clear_pending n) of
        None \<Rightarrow> None
      | Some (r, n') \<Rightarrow> (case restore_pending ne sk (nd_pending n) n' of None \<Rightarrow> None | Some (_, n'') \<Rightarrow> Some (r, n'')))"

definition push_block :: "node_env \<Rightarrow> skip_flags \<Rightarrow> block \<Rightarrow> bool act" where
  "push_block ne sk b = without_pending ne sk (push_block_inner ne sk b)"

end
