(* ===== verification/Reward_Frames.thy ===== *)
theory Reward_Frames
  imports Frames Withdrawal_Laws
begin

text \<open>
  The maintenance steps that pay out, the rewards of a block and the due vesting withdrawals, keep the frame: they change
  neither names and proxies nor the schedule, proposals or routes.
\<close>

section \<open>Rewards\<close>

text \<open>Calls that return two values beside the state.\<close>

definition frames :: "chain \<Rightarrow> ('a \<times> 'b \<times> chain) res \<Rightarrow> bool" where
  "frames s r \<longleftrightarrow> (\<forall>a b t. r = Inr (a, b, t) \<longrightarrow> frame s t)"

lemma frames_rules:
  "ensures_snd frame s q \<Longrightarrow> (\<And>x t. q = Inr (x, t) \<Longrightarrow> frames t (g x t)) \<Longrightarrow> frames s (bindE q (\<lambda>(x, t). g x t))"
  "ensures frame s r \<Longrightarrow> (\<And>t. r = Inr t \<Longrightarrow> frames t (f t)) \<Longrightarrow> frames s (bindE r f)"
  "(P \<Longrightarrow> frames s x) \<Longrightarrow> frames s (guardE P x)" "(P \<Longrightarrow> frames s x) \<Longrightarrow> (\<not> P \<Longrightarrow> frames s y) \<Longrightarrow> frames s (if P then x else y)"
  "(\<And>k a. p = (k, a) \<Longrightarrow> frames s (h k a)) \<Longrightarrow> frames s (case p of (k, a) \<Rightarrow> h k a)"
  "(\<And>z. o1 = Inr z \<Longrightarrow> frames s (k1 z)) \<Longrightarrow> frames s (bindE o1 k1)"
  "frames s (Inr (a, b, s))"
  by (auto simp: frames_def ensures_def ensures_snd_def bindE_Inr_iff guardE_Inr_iff framed.R_refl intro: framed.R_trans split: prod.splits)

lemma frames_fold:
  assumes "\<And>x a b t. frames t (f x (a, b, t))"
  shows "frames s (foldE f xs (a, b, s))"
  unfolding frames_def
proof (intro allI impI)
  fix a' b' t assume "foldE f xs (a, b, s) = Inr (a', b', t)"
  then have "(\<lambda>(_, _, u). frame s u) (a', b', t)"
    by (rule foldE_invariant) (use assms in \<open>auto simp: frames_def framed.R_refl intro: framed.R_trans\<close>)
  then show "frame s t" by simp
qed

lemma frame_seq_triple:
  "frames s q \<Longrightarrow> (\<And>a b t. ensures frame t (f a b t)) \<Longrightarrow> ensures frame s (bindE q (\<lambda>(a, b, t). f a b t))"
  "frames s q \<Longrightarrow> (\<And>a b t. ensures_snd frame t (g a b t)) \<Longrightarrow> ensures_snd frame s (bindE q (\<lambda>(a, b, t). g a b t))"
  by (auto simp: frames_def ensures_def ensures_snd_def bindE_Inr_iff intro: framed.R_trans)

lemma frame_producer: "ensures_snd frame s (get_producer_reward s)"
  unfolding get_producer_reward_def
  by (rule framed.ensures_rules frame_create frame_account framed.ensures_same | auto simp: res_simps ident_def)+

lemma frame_funds: "ensures frame s (process_funds c w v s)" "ensures frame s (adjust_funds c p s)"
  unfolding process_funds_def adjust_funds_def
  by (rule framed.ensures_rules frame_dgp | auto simp: res_simps)+

lemma frame_removals: "ensures frame s (remove_convert k (push_virtual_op v s))" "ensures frame s (remove_report k s)"
  by (auto simp: ensures_def remove_convert_def remove_report_def bindE_Inr_iff push_virtual_op_def intro: frame_tables)

lemma frames_convert_one: "frames s (convert_one x (a, b, s))"
  unfolding convert_one_def
  by (cases x, simp only: prod.case) (rule frames_rules frame_adjust_balance frame_removals)+

lemma frame_conversions: "ensures frame s (process_conversions s)"
  unfolding process_conversions_def
  by (rule ensures_branch framed.ensures_same frame_seq_triple frame_dgp frames_fold frames_convert_one | auto simp: res_simps)+

text \<open>Payments for content.\<close>

lemma frame_push_result [simp]: "ensures frame s (Inr (push_virtual_op v t)) \<longleftrightarrow> frame s t"
  by (simp add: ensures_def)

lemma frame_pay_to: "ensures frame s (pay_to_platform p d url s)"
  unfolding pay_to_platform_def
  by (rule framed.ensures_rules frame_create | simp add: framed.R_refl)+

lemma frame_pay_to_content: "ensures_snd frame s (pay_to_content c d p s)"
  unfolding pay_to_content_def
  by (rule framed.ensures_rules frame_pay_content frame_pay_to frame_objects framed.ensures_same)+

lemma frame_sub_listening: "ensures frame s (modify_account k (sub_listening n) s)"
  by (rule frame_account) (auto simp: sub_listening_def ident_def)

lemma frames_pay_report: "frames s (pay_report d n m x (a, b, s))"
  unfolding pay_report_def
  by (cases x, simp only: prod.case) (rule frames_rules ensures_if frame_pay_to_content frame_sub_listening frame_removals framed.ensures_same)+

lemma frame_cashout: "ensures_snd frame s (process_content_cashout d s)"
proof -
  have m: "ensures frame u (foldE (\<lambda>(c, t). modify_account c (sub_listening t)) xs u)" for xs u
    by (rule framed.ensures_fold) (auto simp: frame_sub_listening split: prod.splits)
  show ?thesis unfolding process_content_cashout_def Let_def
    by (rule framed.ensures_seq(2) [OF m] framed.ensures_seq(2) [OF ensures_if(1)] ensures_branch framed.ensures_same frame_seq_triple frames_fold frames_pay_report
        m ensures_bind)+
qed

lemma frame_block_rewards: "ensures frame s (block_rewards s)"
  unfolding block_rewards_def Let_def
  by (rule framed.ensures_seq_snd framed.ensures_seq frame_producer frame_funds frame_conversions frame_cashout)+

section \<open>Withdrawals\<close>

lemma frame_vest_pass: "ensures_snd frame s (vest_pass n w rs d s)"
proof (induction rs arbitrary: d s)
  case (Cons r rs)
  have push: "ensures_snd frame s (vest_pass n w rs d (push_virtual_op v s))" for d s v
    using Cons.IH [where s = "push_virtual_op v s"] by simp
  show ?case unfolding vest_pass.simps
    by (rule framed.ensures_rules frame_account frame_adjust_proxied frame_scores push Cons.IH
        | auto simp: add_vests_def res_simps ident_def)+
qed simp

lemma frame_withdraw_fund: "ensures frame s (withdraw_fund c v s)"
  unfolding withdraw_fund_def by (rule frame_dgp) (auto simp: res_simps)

lemma frames_muse_pass: "frames s (muse_pass n w rs d c s)"
proof (induction rs arbitrary: d c s)
  case (Cons r rs)
  have push: "frames s (muse_pass n w rs d c (push_virtual_op v s))" for d c s v
    using Cons.IH [where s = "push_virtual_op v s"] by (simp add: frames_def)
  show ?case unfolding muse_pass.simps
    by (rule frames_rules frame_account frame_withdraw_fund push Cons.IH | auto simp: res_simps ident_def)+
qed (simp add: frames_def framed.R_refl)

lemma frame_withdraw_one: "ensures frame s (withdraw_one k s)"
  unfolding withdraw_one_def Let_def
  by (rule framed.ensures_seq_snd frame_seq_triple framed.ensures_seq ensures_branch ensures_bind frame_vest_pass frames_muse_pass
      frame_account frame_withdraw_fund frame_adjust_proxied frame_scores framed.ensures_same
      | auto simp: withdraw_from_def next_withdrawal_def res_simps ident_def framed.R_refl)+

lemma frame_withdraw_loop: "withdraw_loop n cur s = Some (Inr t) \<Longrightarrow> frame s t"
proof (induction n arbitrary: cur s)
  case 0
  then show ?case
    by (cases cur) (auto simp: withdraw_loop.simps(2) framed.R_refl split: sum.splits if_splits)
next
  case (Suc n)
  show ?case
  proof (cases cur)
    case None
    then show ?thesis using Suc.prems by (simp add: framed.R_refl)
  next
    case (Some aid)
    then have "t = s \<or> (\<exists>u cur'. withdraw_one aid s = Inr u \<and> withdraw_loop n cur' u = Some (Inr t))"
      using Suc.prems by (auto simp: withdraw_loop.simps(2) split: sum.splits if_splits)
    then show ?thesis
      using Suc.IH ensuresD(1) [OF frame_withdraw_one] framed.R_trans framed.R_refl by blast
  qed
qed

lemma frame_withdrawals: "ensures frame s (process_vesting_withdrawals s)"
  by (auto simp: ensures_def process_vesting_withdrawals_def dest: frame_withdraw_loop split: option.splits)

end
