(* ===== verification/Block_Laws.thy ===== *)
theory Block_Laws
  imports Block_Application Reward_Frames Operation_Laws Schedule_Laws
begin

text \<open>
  The laws of whole blocks: every step of the application of a block keeps the books, so a block does; the bookkeeping of
  participation is exact; the bound on bandwidth overflows.
\<close>

section \<open>Steps outside the books\<close>

interpretation kept: step_relation "conserves e" for e
  by unfold_locales (rule conserves_refl, rule conserves_trans)

lemma conservesI: "keeps_books s t \<Longrightarrow> statics s t \<Longrightarrow> bounded_routes s t \<Longrightarrow> conserves e s t"
  using moves_tables [of "(0, 0, 0, 0)" s t]
  by (auto simp: conserves_def books_ok_def keeps_books_def statics_def proposals_sound_def bounded_routes_def)

lemma conserves_frame: "frame s t \<Longrightarrow> (tables_ok s \<Longrightarrow> moves (0, 0, 0, 0) s t) \<Longrightarrow> conserves e s t"
  using outer_frame [of s t]
  by (intro conservesI keeps_books_frame still.outer_R routed.outer_R)

definition money :: "dynamic_global_property \<Rightarrow> share \<times> share \<times> share \<times> share" where
  "money p = (current_supply p + supply_delta p, current_mbd_supply p, total_vesting_fund_muse p, total_vesting_shares p)"

lemma conserves_outside:
  assumes "accounts t = accounts s" "converts t = converts s" "orders t = orders s" "balances t = balances s" "contents t = contents s"
    and "withdraw_routes t = withdraw_routes s" "money (dgp t) = money (dgp s)" "set (rows (proposals t)) \<subseteq> set (rows (proposals s))"
  shows "conserves e s t"
proof -
  have "no_proxy_loops t \<longleftrightarrow> no_proxy_loops s" by (rule loops_idents) (simp add: idents_def assms(1))
  moreover have "proposals_sound e s \<Longrightarrow> proposals_sound e t" using assms(8) by (auto simp: proposals_sound_def list_all_iff)
  moreover have "tables_ok s \<Longrightarrow> moves (0, 0, 0, 0) s t"
    using assms by (simp add: moves_def tables_ok_def money_def muse_gap_def mbd_gap_def vests_gap_def vsf_gap_def muse_held_def
        mbd_held_def vests_held_def vsf_held_def)
  ultimately show ?thesis using assms(6) moves_tables [of "(0, 0, 0, 0)" s t] by (auto simp: conserves_def books_ok_def)
qed

lemma conserves_witness: "ensures (conserves e) s (modify_witness k f s)"
  by (auto simp: ensures_def modify_witness_def bindE_Inr_iff intro!: conserves_outside)

lemma conserves_account: "(\<And>a b. f a = Inr b \<Longrightarrow> unbooked a b) \<Longrightarrow> ensures (conserves e) s (modify_account k f s)"
  using booked.account_step [of f s k] still.outer_account(1) [of s k f] routed.outer_account(1) [of s k f]
  by (auto simp: ensures_def intro: conservesI)

section \<open>Transactions\<close>

lemma conserves_bandwidth: "ensures (conserves e) s (charge_bandwidth n ops name s)"
  unfolding charge_bandwidth_def update_account_bandwidth_def update_account_market_bandwidth_def
  by (rule kept.ensures_rules conserves_account kept.ensures_same
      | auto simp: use_bandwidth_def use_market_bandwidth_def Let_def guardE_Inr_iff unbooked_def ident_def account_ok_def)+

lemma conserves_admit: "ensures (conserves e) s (admit_transaction ne sk trx s)"
proof -
  have "ensures (conserves e) s (create_transaction ne trx s)" for s
    by (auto simp: ensures_def create_transaction_def bindE_Inr_iff intro!: conserves_outside)
  then show ?thesis unfolding admit_transaction_def Let_def
    by (intro kept.ensures_seq(1) kept.ensures_fold conserves_bandwidth ensures_branch ensures_bind kept.ensures_same)
qed

lemma conserves_operation: "apply_operation n e op s = Some (Inr t) \<Longrightarrow> op_sound e op \<Longrightarrow> conserves e s t"
  by (auto simp: apply_operation_def op_sound_def intro: conserves_dispatch conserves_push)

lemma conserves_transaction:
  assumes "apply_transaction ne sk trx s = Some (Inr t)" "\<not> skip_validate sk" "list_all native_free (tx_operations trx)"
  shows "conserves (ne_env ne) s t"
proof -
  obtain u where u: "admit_transaction ne sk trx s = Inr u"
    and t: "foldR (apply_operation (ne_stack ne) (ne_env ne)) (tx_operations trx) u = Some (Inr t)"
    using assms(1) by (auto simp: apply_transaction_def bindR_Inr_iff)
  have "transaction_validate (ne_env ne) (tx_operations trx) = Inr ()"
    using u assms(2) by (auto simp: admit_transaction_def Let_def bindE_Inr_iff)
  then have sound: "op \<in> set (tx_operations trx) \<Longrightarrow> op_sound (ne_env ne) op" for op
    using assms(3) by (auto simp: transaction_validate_def guardE_Inr_iff operations_validate_iff op_sound_def list_all_iff)
  have "conserves (ne_env ne) u t"
    by (rule foldR_invariant [OF t conserves_refl]) (blast intro: conserves_trans conserves_operation sound)
  with ensuresD(1) [OF conserves_admit u] show ?thesis by (rule conserves_trans)
qed

section \<open>The head of the block\<close>

lemma conserves_extensions: "ensures (conserves e) s (process_header_extensions b s)"
proof -
  have "ensures (conserves e) s (process_header_extension b x s)" for x s
    unfolding process_header_extension_def
    by (cases x) (simp_all, (rule kept.ensures_rules conserves_witness kept.ensures_same)+)
  then show ?thesis unfolding process_header_extensions_def by (rule kept.ensures_fold)
qed

lemma conserves_header: "ensures_snd (conserves e) s (block_header_step ne sk b s)"
proof -
  have "conserves e s (s\<lparr>dgp := (dgp s)\<lparr>current_witness := w\<rparr>\<rparr>)" for w
    by (rule conserves_outside) (simp_all add: money_def)
  then show ?thesis unfolding block_header_step_def
    by (intro ensures_branch ensures_bind kept.ensures_seq(2) [OF kept.ensures_state(1) [OF _ conserves_extensions]])
      (simp_all add: kept.ensures_same split: prod.splits)
qed

lemma money_advance: "money (advance_head ne b n p) = money p"
  by (simp add: advance_head_def money_def Let_def split: prod.splits)

lemma conserves_head_data: "ensures (conserves e) s (update_global_dynamic_data ne sk b s)"
proof -
  have c: "ensures (conserves e) s (count_missed b i s)" for i s
    unfolding count_missed_def by (rule kept.ensures_rules conserves_witness kept.ensures_same)+
  have d: "conserves e s (s\<lparr>dgp := advance_head ne b n (dgp s)\<rparr>)" for n s
    by (rule conserves_outside) (simp_all add: money_advance)
  show ?thesis unfolding update_global_dynamic_data_def Let_def
    by (intro ensures_branch kept.ensures_seq(1) [OF kept.ensures_fold [OF c]]) (simp add: ensures_def d)
qed

lemma conserves_irreversible: "ensures (conserves e) s (update_last_irreversible_block s)"
proof -
  have "conserves e s (s\<lparr>dgp := (dgp s)\<lparr>last_irreversible_block_num := n\<rparr>\<rparr>)" for n
    by (rule conserves_outside) (simp_all add: money_def)
  then show ?thesis by (auto simp: update_last_irreversible_block_def ensures_def bindE_Inr_iff conserves_refl Let_def split: if_splits)
qed

lemma conserves_head_step: "ensures (conserves e) s (head_step ne k b s)"
proof -
  have "conserves e s (clear_expired_transactions (create_block_summary ne b s))" for s
    by (rule conserves_outside) (simp_all add: clear_expired_transactions_def create_block_summary_def)
  then have t: "ensures (conserves e) s (Inr (clear_expired_transactions (create_block_summary ne b s)))" for s
    by (simp add: ensures_def)
  show ?thesis unfolding head_step_def update_signing_witness_def Let_def
    by (rule kept.ensures_seq conserves_witness conserves_irreversible t)+
qed

section \<open>Maintenance\<close>

lemma conserves_expire_loop: "expire_loop k n e s = Some (Inr t) \<Longrightarrow> conserves e s t"
proof (induction k arbitrary: s)
  case 0
  then show ?case by (simp add: conserves_refl split: list.splits)
next
  case (Suc k)
  show ?case
  proof (cases "expired_proposals s")
    case Nil
    then show ?thesis using Suc.prems by (simp add: conserves_refl)
  next
    case (Cons x xs)
    obtain pid p where x: "x = (pid, p)" by (cases x)
    obtain u where u: "expire_proposal n e pid p s = Some (Inr u)" "expire_loop k n e u = Some (Inr t)"
      using Suc.prems Cons x by (auto simp: bindR_Inr_iff)
    have "conserves e s u"
      using u(1) by (auto simp: expire_proposal_def intro: conserves_push conserves_remove split: if_splits option.splits sum.splits)
    then show ?thesis using Suc.IH [OF u(2)] by (rule conserves_trans)
  qed
qed

lemma conserves_expired: "clear_expired_proposals n e s = Some (Inr t) \<Longrightarrow> conserves e s t"
  by (auto simp: clear_expired_proposals_def conserves_refl intro: conserves_expire_loop split: if_splits)

lemma conserves_orders: "ensures (conserves e) s (clear_expired_orders s)"
  unfolding clear_expired_orders_def
proof (rule kept.ensures_fold)
  show "ensures (conserves e) t (cancel_order x t)" for x t
    using ensuresD(1) [OF frame_cancel_order] moves_cancel_order by (auto simp: ensures_def intro!: conserves_frame)
qed

lemma conserves_reschedule: "ensures_snd (conserves e) s (reschedule vt ks s)"
proof (induction ks arbitrary: s)
  case (Cons k ks)
  show ?case unfolding reschedule.simps
    by (rule kept.ensures_rules conserves_witness kept.ensures_same ensures_error Cons.IH)+
qed simp

lemma conserves_medians: "ensures (conserves e) s (update_median_witness_props s)"
  unfolding update_median_witness_props_def Let_def
  by (auto simp: ensures_def bindE_Inr_iff money_def intro!: conserves_outside split: if_splits)

lemma conserves_reset: "ensures (conserves e) s (reset_virtual_schedule_time s)"
proof -
  have "conserves e s (s\<lparr>wso := w\<rparr>)" for w by (rule conserves_outside) simp_all
  then show ?thesis unfolding reset_virtual_schedule_time_def Let_def
    by (rule kept.ensures_state(1) [OF _ kept.ensures_fold]) (rule conserves_witness)
qed

lemma conserves_schedule: "ensures (conserves e) s (update_witness_schedule s)"
proof -
  have m: "ensures (conserves e) s (update_median_witness_props (s\<lparr>hardforks := h, wso := w\<rparr>))" for s h w
    by (rule kept.ensures_state(1) [OF conserves_outside conserves_medians]) simp_all
  show ?thesis unfolding update_witness_schedule_def update_witness_schedule4_def
    by (rule kept.ensures_seq_snd kept.ensures_seq ensures_branch conserves_reschedule conserves_reset kept.ensures_same m ensures_bind)+
qed

lemma conserves_feed: "ensures (conserves e) s (update_median_feed s)"
proof -
  have "conserves e s (s\<lparr>feed_history := f\<rparr>)" for f by (rule conserves_outside) simp_all
  then show ?thesis unfolding update_median_feed_def Let_def
    by (intro ensures_branch ensures_bind) (simp_all add: ensures_def conserves_refl)
qed

lemma conserves_virtual_supply: "ensures (conserves e) s (update_virtual_supply s)"
  by (auto simp: ensures_def update_virtual_supply_def modify_dgp_def bindE_Inr_iff money_def intro!: conserves_outside split: if_splits)

lemma conserves_rewards: "ensures (conserves e) s (block_rewards s)"
  using ensuresD(1) [OF frame_block_rewards] moves_block_rewards by (auto simp: ensures_def intro!: conserves_frame)

text \<open>Withdrawals need the bound on the routes, which is part of the books.\<close>

lemma conserves_withdrawals: "ensures (conserves e) s (process_vesting_withdrawals s)"
  unfolding ensures_def
proof (intro allI impI)
  fix t assume t: "process_vesting_withdrawals s = Inr t"
  then have l: "withdraw_loop (withdraw_fuel s) (first_withdrawal s) s = Some (Inr t)"
    by (simp add: process_vesting_withdrawals_def split: option.splits)
  note f = ensuresD(1) [OF frame_withdrawals t]
  show "conserves e s t" unfolding conserves_def
  proof
    assume b: "books_ok e s"
    then have "routes_ok s" by (auto simp: books_ok_def routes_bounded_def routes_ok_def route_ok_def list_all_iff nat_le_iff le_nat_iff MUSE_100_PERCENT_def)
    then have "moves (0, 0, 0, 0) s t" using moves_withdraw_loop [OF l] b by (simp add: books_ok_def)
    then show "moves (0, 0, 0, 0) s t \<and> books_ok e t" using conserves_frame [OF f, of e] b by (simp add: conserves_def)
  qed
qed

lemma conserves_recovery: "ensures (conserves e) s (account_recovery_processing s)"
proof -
  have c: "conserves e s (clear_owner_histories (clear_recovery_requests s))"
    by (rule conserves_outside) (simp_all add: clear_owner_histories_def clear_recovery_requests_def Let_def)
  have i: "ensures (conserves e) s (change_change_recovery_index f s)" for f s
    by (auto simp: ensures_def change_change_recovery_index_def bindE_Inr_iff intro!: conserves_outside)
  have a: "ensures (conserves e) s (apply_recovery_change x s)" for x s
    unfolding apply_recovery_change_def
    by (cases x, simp only: prod.case)
      (rule kept.ensures_rules conserves_account i | auto simp: unbooked_def ident_def account_ok_def)+
  show ?thesis unfolding account_recovery_processing_def Let_def
    by (rule kept.ensures_state(1) [OF c kept.ensures_fold]) (rule a)
qed

lemma conserves_hardfork: "ensures (conserves e) s (apply_hardfork n s)"
proof -
  have c: "ensures (conserves e) s (hardfork_changes n s)"
    by (auto simp: ensures_def hardfork_changes_def modify_dgp_def bindE_Inr_iff res_simps money_def
        intro!: conserves_outside split: if_splits)
  have h: "conserves e s (s\<lparr>hardforks := h\<rparr>)" for s h by (rule conserves_outside) simp_all
  show ?thesis unfolding apply_hardfork_def Let_def
    by (rule kept.ensures_seq(1) [OF c]) (auto simp: ensures_def guardE_Inr_iff h)
qed

lemma conserves_hardforks: "process_hardforks s = Inr t \<Longrightarrow> conserves e s t"
proof (induction s rule: process_hardforks.induct)
  case (1 s)
  let ?h = "hardforks s"
  show ?case
  proof (cases "version_lt (hardfork_versions ! hf_last_hardfork ?h) (hf_next_hardfork ?h) \<and> hf_next_hardfork_time ?h \<le> head_block_time s")
    case True
    then obtain u where u: "hf_last_hardfork ?h < MUSE_NUM_HARDFORKS" "apply_hardfork (hf_last_hardfork ?h + 1) s = Inr u" "process_hardforks u = Inr t"
      using "1.prems" by (subst (asm) process_hardforks.simps) (auto simp: Let_def bindE_Inr_iff split: if_splits)
    from ensuresD(1) [OF conserves_hardfork u(2)] "1.IH" [OF refl True u(1,2,3)] show ?thesis by (rule conserves_trans)
  next
    case False
    then show ?thesis using "1.prems" by (subst (asm) process_hardforks.simps) (auto simp: Let_def conserves_refl)
  qed
qed

lemma conserves_maintenance: "ensures (conserves e) s (maintenance_step s)"
  unfolding maintenance_step_def
  by (rule kept.ensures_seq conserves_orders conserves_schedule conserves_feed conserves_virtual_supply conserves_rewards
      conserves_withdrawals conserves_recovery | simp add: ensures_def conserves_hardforks)+

lemma conserves_block:
  assumes "apply_block_body ne sk b s = Some (Inr t)" "\<not> skip_validate sk" "list_all (\<lambda>trx. list_all native_free (tx_operations trx)) (transactions b)"
  shows "conserves (ne_env ne) s t"
proof -
  from assms(1) obtain k s1 s2 s3 s4 s5 where 1: "block_header_step ne sk b s = Inr (k, s1)"
      and 2: "foldR (apply_transaction ne sk) (transactions b) s1 = Some (Inr s2)"
      and 3: "update_global_dynamic_data ne sk b s2 = Inr s3" "head_step ne k b s3 = Inr s4"
      and 4: "clear_expired_proposals (ne_stack ne) (ne_env ne) s4 = Some (Inr s5)" "maintenance_step s5 = Inr t"
    by (auto simp: apply_block_body_def apply_block_head_def apply_block_tail_def bindR_Inr_iff)
  let ?C = "conserves (ne_env ne)"
  have "?C s s1" by (rule ensuresD(2) [OF conserves_header 1])
  moreover have "?C s1 s2"
    by (rule foldR_invariant [OF 2 conserves_refl])
      (use assms(2,3) in \<open>auto simp: list_all_iff intro: conserves_trans [OF _ conserves_transaction]\<close>)
  moreover have "?C s2 s3" "?C s3 s4" "?C s4 s5" "?C s5 t"
    using ensuresD(1) [OF conserves_head_data 3(1)] ensuresD(1) [OF conserves_head_step 3(2)] conserves_expired [OF 4(1)]
      ensuresD(1) [OF conserves_maintenance 4(2)] by blast+
  ultimately show ?thesis using conserves_trans by metis
qed

section \<open>Participation\<close>

lemma popcount_split: "popcount w = length (filter (bit w) [0..<127]) + (if bit w 127 then 1 else 0)"
proof -
  have "[0..<128] = [0..<127] @ [127 :: nat]" by (simp add: upt_rec)
  then show ?thesis by (simp add: popcount_def)
qed

lemma popcount_shift: "popcount (push_bit 1 w + (if b then 1 else 0)) + (if bit w 127 then 1 else 0) = popcount w + (if b then 1 else 0)"
proof -
  let ?v = "push_bit 1 w + (if b then 1 else 0)"
  have v: "?v = push_bit 1 w OR (if b then 1 else 0)"
    by (rule disjunctive_add) (auto simp: bit_simps simp del: push_bit_Suc One_nat_def)
  have bits: "bit ?v 0 = b" "n < 127 \<Longrightarrow> bit ?v (Suc n) = bit w n" for n
    unfolding v by (auto simp: bit_simps simp del: push_bit_Suc One_nat_def)
  have "[0..<128] = 0 # map Suc [0..<127]" by (simp add: map_Suc_upt upt_conv_Cons)
  then have "popcount ?v = (if b then 1 else 0) + length (filter (bit ?v \<circ> Suc) [0..<127])"
    using bits(1) by (simp add: popcount_def filter_map)
  also have "filter (bit ?v \<circ> Suc) [0..<127] = filter (bit w) [0..<127]"
    using bits(2) by (intro filter_cong refl) (simp only: set_upt atLeastLessThan_iff comp_apply)
  finally show ?thesis by (simp add: popcount_split [of w])
qed

lemma popcount_le: "popcount w \<le> 128"
  using length_filter_le [of "bit w" "[0..<128]"] by (simp add: popcount_def)

lemma fill_slot_popcount:
  assumes "fill_slot i (w, popcount w) = (v, c)"
  shows "c = popcount v"
proof -
  let ?b = "i = 0"
  have v: "v = push_bit 1 w + (if ?b then 1 else 0)"
    and c: "c = ((256 + popcount w - (if bit w 127 then 1 else 0)) mod 256 + (if ?b then 1 else 0)) mod 256"
    using assms by (auto simp: fill_slot_def Let_def)
  have p: "popcount v + (if bit w 127 then 1 else 0) = popcount w + (if ?b then 1 else 0)" unfolding v by (rule popcount_shift)
  have le: "(if bit w 127 then 1 else 0) \<le> popcount w" by (simp add: popcount_split)
  then have "(256 + popcount w - (if bit w 127 then 1 else 0)) mod 256 = popcount w - (if bit w 127 then 1 else 0)"
    using popcount_le [of w] by (simp add: mod_if)
  then show ?thesis using c p le popcount_le [of v] popcount_le [of w] by (auto split: if_splits)
qed

lemma fill_slots_popcount: "fold fill_slot is (w, popcount w) = (v, c) \<Longrightarrow> c = popcount v"
proof (induction "is" arbitrary: w)
  case (Cons i "is")
  obtain u d where u: "fill_slot i (w, popcount w) = (u, d)" by (cases "fill_slot i (w, popcount w)")
  then show ?case using Cons fill_slot_popcount [OF u] by simp
qed simp

text \<open>The register after a block with missed slots before it.\<close>

lemma fill_slots_register:
  "bit (fst (fold fill_slot [0..<missed + 1] (w, c))) i \<longleftrightarrow> i < 128 \<and> (i = missed \<or> missed < i \<and> bit w (i - (missed + 1)))"
proof (induction missed arbitrary: i)
  case 0
  have "push_bit 1 w + 1 = push_bit 1 w OR (1 :: 128 word)"
    by (rule disjunctive_add) (auto simp: bit_simps simp del: push_bit_Suc One_nat_def)
  moreover have "fst (fold fill_slot [0..<0 + 1] (w, c)) = push_bit 1 w + 1" by (simp add: fill_slot_def Let_def)
  ultimately show ?case by (auto simp: bit_simps simp del: push_bit_Suc One_nat_def)
next
  case (Suc m)
  let ?v = "fst (fold fill_slot [0..<m + 1] (w, c))"
  have f: "fst (fill_slot (Suc m) q) = push_bit 1 (fst q)" for q by (cases q) (simp add: fill_slot_def Let_def)
  have "fst (fold fill_slot [0..<Suc m + 1] (w, c)) = push_bit 1 ?v" by (simp add: f del: push_bit_Suc)
  then have "bit (fst (fold fill_slot [0..<Suc m + 1] (w, c))) i \<longleftrightarrow> 1 \<le> i \<and> i < 128 \<and> bit ?v (i - 1)"
    by (simp only: bit_push_bit_iff len_bit1 len_bit0 len_num1 possible_bit_word) simp
  then show ?case unfolding Suc.IH by auto
qed

section \<open>Properties\<close>

text \<open>Property C2. Applying a block, with all its transactions, the execution of expired proposals, the cancelled orders, the
  rewards, conversions, withdrawals and hardforks, keeps the books of the chain: recorded supplies of MUSE (with the
  correction pending until hardfork 0.2), MBD and vesting shares and the voting weight differ from what the objects hold by
  exactly as much as before the block. The block may be one after the last checkpoint or pushed without checkpoints, so
  that its operations are validated, and holds no operation that issues or reserves MUSE or MBD or proposes to do so.\<close>

theorem apply_block_conserves:
  assumes "apply_block ne cps sk b s = Some (Inr t)" "checkpoint_flags ne cps sk b = Inr sk'" "\<not> skip_validate sk'"
    and "list_all (\<lambda>trx. list_all native_free (tx_operations trx)) (transactions b)" "books_ok (ne_env ne) s"
  shows "muse_gap t = muse_gap s \<and> mbd_gap t = mbd_gap s \<and> vests_gap t = vests_gap s \<and> vsf_gap t = vsf_gap s \<and> books_ok (ne_env ne) t"
proof -
  have "apply_block_body ne sk' b s = Some (Inr t)" using assms(1,2) by (simp add: apply_block_def)
  from conserves_block [OF this assms(3,4)] assms(5) show ?thesis by (simp add: conserves_def moves_def)
qed

text \<open>One empty block on a chain with one witness.\<close>

definition demo_next_block :: block where
  [chain_eval]: "demo_next_block = \<lparr>previous = null_block_id, timestamp = 53, witness = ''initminer'', transaction_merkle_root = 0,
     extensions = [], witness_signature = 53, transactions = []\<rparr>"

text \<open>Blocks of 100 bytes, of which one is known.\<close>

definition demo_unpack_block :: "8 word list \<Rightarrow> block option" where
  "demo_unpack_block bs = (if bs = replicate 100 0 then Some demo_next_block else None)"

definition demo_node_env :: node_env where
  [chain_eval]: "demo_node_env = \<lparr>ne_env = demo_env, ne_tx_id = (\<lambda>t. length (tx_operations t)), ne_tx_size = (\<lambda>t. 100),
     ne_tx_keys = (\<lambda>t. []), ne_tx_digest = (\<lambda>t. 0), ne_pack = (\<lambda>b. replicate 100 0), ne_unpack = demo_unpack_block,
     ne_block_sha = (\<lambda>b. of_nat (timestamp b)), ne_block_signee = (\<lambda>b. 1), ne_pair_hash = (\<lambda>x y. x + y), ne_root_hash = (\<lambda>x. x),
     ne_stack = 1\<rparr>"

definition demo_producer :: witness where
  [chain_eval]: "demo_producer = (demo_witness ''initminer'' 0 0 7)\<lparr>wit_running_version := \<lparr>v_num = 0x30002\<rparr>\<rparr>"

definition demo_genesis :: chain where
  [chain_eval]: "demo_genesis = (demo_chain [demo_account ''initminer'' 100 0 0] [] ((demo_dgp 100 0 0 0)\<lparr>head_block_number := 0\<rparr>))
     \<lparr>witnesses := index_of [demo_producer],
      hardforks := \<lparr>hf_processed_hardforks = [0, 1, 2, 3], hf_last_hardfork = 3, hf_current_hardfork_version = \<lparr>v_num = 0x30000\<rparr>,
        hf_next_hardfork = \<lparr>v_num = 0\<rparr>, hf_next_hardfork_time = 0\<rparr>\<rparr>"

definition demo_head :: chain where
  [chain_eval]: "demo_head = demo_genesis\<lparr>dgp := (dgp demo_genesis)\<lparr>head_block_number := 1, head_block_id := \<lparr>bid_num = 1, bid_hash = 53\<rparr>,
     dgp_time := 53, average_block_size := 1, current_aslot := 2, recent_slots_filled := 1, participation_count := 1,
     max_virtual_bandwidth := 26424115200000000\<rparr>\<rparr>"

definition demo_signed :: chain where
  [chain_eval]: "demo_signed = demo_head\<lparr>witnesses := index_of [demo_producer\<lparr>wit_last_aslot := 2, wit_last_confirmed_block_num := 1\<rparr>],
     block_summaries := (\<lambda>_. null_block_id)(1 := \<lparr>bid_num = 1, bid_hash = 53\<rparr>)\<rparr>"

definition demo_paid :: chain where
  [chain_eval]: "demo_paid = demo_signed\<lparr>accounts := index_of [(demo_account ''initminer'' 100 0 100000)
       \<lparr>acc_score := nat ((uint (isqrt_loop 32 100000 0 0) - uint (isqrt_loop 32 0 0 0)) mod 2 ^ 64)\<rparr>],
     dgp := (dgp demo_signed)\<lparr>virtual_supply := 200, current_supply := 200, total_vesting_fund_muse := 100, total_vesting_shares := 100000\<rparr>\<rparr>"

lemmas block_eval = signed_block_id_def block_num_def num_from_id_def null_block_id_def calculate_merkle_root_def version_le_def version_lt_def

lemma demo_block_head: "apply_block_head demo_node_env skip_nothing demo_next_block demo_genesis = Some (Inr (0, demo_head))"
proof -
  have 1: "block_header_step demo_node_env skip_nothing demo_next_block demo_genesis = Inr (0, demo_genesis)"
    by (simp add: chain_eval block_eval)
  have s: "get_slot_at_time (timestamp demo_next_block) demo_genesis = 1" by (simp add: chain_eval block_eval)
  have a: "demo_genesis\<lparr>dgp := advance_head demo_node_env demo_next_block 0 (dgp demo_genesis)\<rparr> = demo_head"
    by (simp add: chain_eval block_eval)
  have d: "advance_head demo_node_env demo_next_block 0 (dgp demo_genesis) = dgp demo_head" by (simp flip: a)
  have 2: "update_global_dynamic_data demo_node_env skip_nothing demo_next_block demo_genesis = Inr demo_head"
    unfolding update_global_dynamic_data_def Let_def s using a d
    by (simp add: demo_head_def demo_genesis_def demo_chain_def demo_dgp_def MUSE_MAX_UNDO_HISTORY_def skip_nothing_def)
  show ?thesis using 1 2 by (simp add: apply_block_head_def demo_next_block_def)
qed

lemma demo_block_tail: "apply_block_tail demo_node_env demo_next_block (0, demo_head) = Some (Inr demo_paid)"
proof -
  have 1: "head_step demo_node_env 0 demo_next_block demo_head = Inr demo_signed" by (simp add: chain_eval block_eval)
  have 2: "clear_expired_proposals (ne_stack demo_node_env) (ne_env demo_node_env) demo_signed = Some (Inr demo_signed)"
    "clear_expired_orders demo_signed = Inr demo_signed" "update_witness_schedule demo_signed = Inr demo_signed"
    "update_median_feed demo_signed = Inr demo_signed" "update_virtual_supply demo_signed = Inr demo_signed"
    by (simp_all add: chain_eval block_eval)
  have 3: "block_rewards demo_signed = Inr demo_paid" by (simp add: chain_eval block_eval)
  have 4: "process_vesting_withdrawals demo_paid = Inr demo_paid" "update_virtual_supply demo_paid = Inr demo_paid"
    "account_recovery_processing demo_paid = Inr demo_paid" by (simp_all add: chain_eval block_eval)
  have 5: "process_hardforks demo_paid = Inr demo_paid" by (subst process_hardforks.simps) (simp add: chain_eval block_eval)
  show ?thesis using 1 2 3 4 5 by (simp add: apply_block_tail_def maintenance_step_def)
qed

lemma demo_block_applies: "apply_block demo_node_env [] skip_nothing demo_next_block demo_genesis = Some (Inr demo_paid)"
  by (simp add: apply_block_def checkpoint_flags_def apply_block_body_def demo_block_head demo_block_tail)

lemma demo_genesis_books: "books_ok demo_env demo_genesis"
proof -
  have "no_proxy_loops demo_genesis" by (rule no_proxies) (simp add: chain_eval)
  then show ?thesis by (simp add: books_ok_def chain_eval proposals_sound_def routes_bounded_def)
qed

theorem apply_block_conserves_witness:
  "\<exists>t. apply_block demo_node_env [] skip_nothing demo_next_block demo_genesis = Some (Inr t) \<and> current_supply (dgp t) = 200 \<and>
     muse_gap t = muse_gap demo_genesis \<and> books_ok demo_env t"
  using apply_block_conserves [OF demo_block_applies, of skip_nothing] demo_block_applies demo_genesis_books
  by (intro exI [of _ demo_paid]) (simp add: checkpoint_flags_def skip_nothing_def demo_next_block_def demo_node_env_def demo_paid_def)

text \<open>Property C34. What a block after some missed slots does to the register of recent slots and to the participation count: the
  older marks move up by the slots that passed, exactly one mark is added, and the 8 bit counter stays the number of
  marks in the register and never wraps. The mark of the new block comes at the position of the oldest missed slot, with the
  missed slots as unmarked below it, as the loop enters the slots in reverse order.\<close>

theorem participation_count_exact:
  assumes "participation_count p = popcount (recent_slots_filled p)"
  shows "participation_count (advance_head ne b missed p) = popcount (recent_slots_filled (advance_head ne b missed p)) \<and>
    participation_count (advance_head ne b missed p) \<le> 128 \<and>
    (bit (recent_slots_filled (advance_head ne b missed p)) i \<longleftrightarrow>
       i < 128 \<and> (i = missed \<or> missed < i \<and> bit (recent_slots_filled p) (i - (missed + 1))))"
proof -
  obtain v c where f: "fold fill_slot [0..<missed + 1] (recent_slots_filled p, participation_count p) = (v, c)"
    by (metis surj_pair)
  have "c = popcount v" using f fill_slots_popcount unfolding assms by blast
  moreover have "recent_slots_filled (advance_head ne b missed p) = v" "participation_count (advance_head ne b missed p) = c"
    using f by (simp_all add: advance_head_def Let_def)
  moreover have "bit v i \<longleftrightarrow> i < 128 \<and> (i = missed \<or> missed < i \<and> bit (recent_slots_filled p) (i - (missed + 1)))"
    using fill_slots_register [of missed "recent_slots_filled p" "participation_count p" i] f by simp
  ultimately show ?thesis by (simp add: popcount_le)
qed

theorem participation_count_exact_witness:
  "participation_count (advance_head demo_node_env demo_next_block 2 (dgp demo_head)) =
     popcount (recent_slots_filled (advance_head demo_node_env demo_next_block 2 (dgp demo_head))) \<and>
   bit (recent_slots_filled (advance_head demo_node_env demo_next_block 2 (dgp demo_head))) 3"
proof -
  have "participation_count (dgp demo_head) = popcount (recent_slots_filled (dgp demo_head))" "recent_slots_filled (dgp demo_head) = 1"
    using popcount_shift [of 0 True] by (simp_all add: demo_head_def popcount_def)
  from participation_count_exact [OF this(1), of demo_node_env demo_next_block 2 3] this(2) show ?thesis by simp
qed

text \<open>The bandwidth available to all accounts is the documented product as long as that fits 64 bits. With blocks of
  128 kB it does not from a reserve ratio of 233 on, although the ratio grows up to 20000: the bandwidth then falls below
  what it was at the lowest ratio.\<close>

theorem virtual_bandwidth_wraps:
  assumes "max_size * ratio * MUSE_BANDWIDTH_PRECISION * MUSE_BANDWIDTH_AVERAGE_WINDOW_SECONDS < 2 ^ 64"
  shows "virtual_bandwidth max_size ratio =
      max_size * ratio * MUSE_BANDWIDTH_PRECISION * MUSE_BANDWIDTH_AVERAGE_WINDOW_SECONDS div MUSE_BLOCK_INTERVAL \<and>
    virtual_bandwidth 131072 233 < virtual_bandwidth 131072 1 \<and> 233 \<le> MUSE_MAX_RESERVE_RATIO"
proof -
  have "virtual_bandwidth 131072 233 < virtual_bandwidth 131072 1 \<and> 233 \<le> MUSE_MAX_RESERVE_RATIO"
    by (simp add: virtual_bandwidth_def u64_def MUSE_BANDWIDTH_PRECISION_def MUSE_BANDWIDTH_AVERAGE_WINDOW_SECONDS_def
        MUSE_BLOCK_INTERVAL_def MUSE_MAX_RESERVE_RATIO_def)
  moreover have "u64 (int max_size * int ratio * int MUSE_BANDWIDTH_PRECISION * int MUSE_BANDWIDTH_AVERAGE_WINDOW_SECONDS) =
      max_size * ratio * MUSE_BANDWIDTH_PRECISION * MUSE_BANDWIDTH_AVERAGE_WINDOW_SECONDS"
  proof -
    have "int max_size * int ratio * int MUSE_BANDWIDTH_PRECISION * int MUSE_BANDWIDTH_AVERAGE_WINDOW_SECONDS =
        int (max_size * ratio * MUSE_BANDWIDTH_PRECISION * MUSE_BANDWIDTH_AVERAGE_WINDOW_SECONDS)" by simp
    moreover have "int (max_size * ratio * MUSE_BANDWIDTH_PRECISION * MUSE_BANDWIDTH_AVERAGE_WINDOW_SECONDS) < 2 ^ 64"
      using assms by (metis of_nat_less_iff of_nat_numeral of_nat_power)
    ultimately show ?thesis unfolding u64_def by (metis mod_pos_pos_trivial nat_int of_nat_0_le_iff)
  qed
  ultimately show ?thesis by (simp add: virtual_bandwidth_def)
qed

theorem virtual_bandwidth_wraps_witness: "virtual_bandwidth 131072 232 = 232 * virtual_bandwidth 131072 1"
proof -
  have "virtual_bandwidth 131072 232 = 131072 * 232 * MUSE_BANDWIDTH_PRECISION * MUSE_BANDWIDTH_AVERAGE_WINDOW_SECONDS div MUSE_BLOCK_INTERVAL"
    using virtual_bandwidth_wraps [of 131072 232] by (simp add: MUSE_BANDWIDTH_PRECISION_def MUSE_BANDWIDTH_AVERAGE_WINDOW_SECONDS_def)
  then show ?thesis
    by (simp add: virtual_bandwidth_def u64_def MUSE_BANDWIDTH_PRECISION_def MUSE_BANDWIDTH_AVERAGE_WINDOW_SECONDS_def MUSE_BLOCK_INTERVAL_def)
qed

end
