(* ===== verification/Node_Laws.thy ===== *)
theory Node_Laws
  imports Node Block_Laws
begin

text \<open>
  What pushing blocks and transactions keeps of a node, whatever the outcome: the state of the head block is the replay of
  blocks from snapshot to snapshot, and the pending state is the result of the pending transactions on top of it.
\<close>

section \<open>Assertions that survive both outcomes\<close>

definition keeps :: "(node \<Rightarrow> bool) \<Rightarrow> 'a act \<Rightarrow> bool" where
  "keeps I m \<longleftrightarrow> (\<forall>n r n'. I n \<longrightarrow> m n = Some (r, n') \<longrightarrow> I n')"

named_theorems keeps_rules \<open>one rule per combinator of actions\<close>

lemma keepsD: "keeps I m \<Longrightarrow> I n \<Longrightarrow> m n = Some (r, n') \<Longrightarrow> I n'"
  by (auto simp: keeps_def)

lemma keeps_return [keeps_rules]: "keeps I (returnN x)"
  by (simp add: keeps_def returnN_def)

lemma keeps_throw [keeps_rules]: "keeps I (throwN e)"
  by (simp add: keeps_def throwN_def)

lemma bindN_Some_iff:
  "bindN m f n = Some (r, n') \<longleftrightarrow>
     (\<exists>e. m n = Some (Inl e, n') \<and> r = Inl e) \<or> (\<exists>x n1. m n = Some (Inr x, n1) \<and> f x n1 = Some (r, n'))"
proof (cases "m n")
  case (Some p)
  obtain q n1 where "p = (q, n1)" by (cases p)
  then show ?thesis using Some by (cases q) (auto simp: bindN_def)
qed (simp add: bindN_def)

lemma catchN_Some_iff:
  "catchN m h n = Some (r, n') \<longleftrightarrow>
     (\<exists>e n1. m n = Some (Inl e, n1) \<and> h e n1 = Some (r, n')) \<or> (\<exists>x. m n = Some (Inr x, n') \<and> r = Inr x)"
proof (cases "m n")
  case (Some p)
  obtain q n1 where "p = (q, n1)" by (cases p)
  then show ?thesis using Some by (cases q) (auto simp: catchN_def)
qed (simp add: catchN_def)

lemma keeps_bind [keeps_rules]: "keeps I m \<Longrightarrow> (\<And>x. keeps I (f x)) \<Longrightarrow> keeps I (bindN m f)"
  unfolding keeps_def bindN_Some_iff by meson

lemma keeps_catch [keeps_rules]: "keeps I m \<Longrightarrow> (\<And>e. keeps I (h e)) \<Longrightarrow> keeps I (catchN m h)"
  unfolding keeps_def catchN_Some_iff by meson

lemma keeps_upd [keeps_rules]: "(\<And>n. I n \<Longrightarrow> I (f n)) \<Longrightarrow> keeps I (updN f)"
  by (simp add: keeps_def updN_def)

lemma keeps_fold [keeps_rules]: "(\<And>x. keeps I (f x)) \<Longrightarrow> keeps I (foldN f xs)"
  by (induction xs) (auto intro: keeps_rules)

lemma keeps_if: "keeps I a \<Longrightarrow> keeps I b \<Longrightarrow> keeps I (\<lambda>n. if P n then a n else b n)"
  unfolding keeps_def by meson

lemma run_cases:
  obtains (stuck) "m = None" | (fail) e where "m = Some (Inl e)" | (ok) x where "m = Some (Inr x)"
  by (cases m; cases "the m") auto

section \<open>Consistent nodes\<close>

text \<open>Every snapshot leads to the next state by applying a block.\<close>

inductive replays :: "node_env \<Rightarrow> checkpoints \<Rightarrow> chain \<Rightarrow> chain list \<Rightarrow> bool" for ne cs where
    replays_start: "replays ne cs s []"
  | replays_block: "apply_block ne cs sk b v = Some (Inr s) \<Longrightarrow> replays ne cs v vs \<Longrightarrow> replays ne cs s (v # vs)"

inductive_simps replays_Cons: "replays ne cs s (v # vs)"

inductive applied :: "node_env \<Rightarrow> chain \<Rightarrow> signed_transaction list \<Rightarrow> chain \<Rightarrow> bool" for ne s where
    applied_none: "applied ne s [] s"
  | applied_next: "applied ne s txs t \<Longrightarrow> apply_transaction ne sk trx t = Some (Inr u) \<Longrightarrow> applied ne s (txs @ [trx]) u"

lemma replays_take: "replays ne cs s vs \<Longrightarrow> replays ne cs s (take k vs)"
  by (induction arbitrary: k rule: replays.induct) (auto simp: take_Cons' intro: replays.intros)

text \<open>The state of the head block and the snapshots below it.\<close>

definition nd_base :: "node \<Rightarrow> chain" where
  "nd_base n = (if nd_session n then hd (h_saved (nd_hist n)) else nd_chain n)"

definition nd_below :: "node \<Rightarrow> chain list" where
  "nd_below n = (if nd_session n then tl (h_saved (nd_hist n)) else h_saved (nd_hist n))"

definition node_ok :: "node_env \<Rightarrow> node \<Rightarrow> bool" where
  "node_ok ne n \<longleftrightarrow> h_max (nd_hist n) \<ge> 1 \<and>
     (if nd_session n then
        h_active (nd_hist n) = 1 \<and> (\<exists>v vs. h_saved (nd_hist n) = v # vs \<and> replays ne (nd_checkpoints n) v vs \<and>
          applied ne v (nd_pending n) (nd_chain n))
      else h_active (nd_hist n) = 0 \<and> nd_pending n = [] \<and> replays ne (nd_checkpoints n) (nd_chain n) (h_saved (nd_hist n)))"

text \<open>A consistent node with nothing pending, as every operation on blocks meets it, on a given head state.\<close>

definition at_head :: "node_env \<Rightarrow> node \<Rightarrow> bool" where
  "at_head ne n \<longleftrightarrow> node_ok ne n \<and> \<not> nd_session n \<and> nd_checkpoints n = []"

lemma at_head_iff:
  "at_head ne n \<longleftrightarrow> h_max (nd_hist n) \<ge> 1 \<and> \<not> nd_session n \<and> nd_checkpoints n = [] \<and> h_active (nd_hist n) = 0 \<and>
     nd_pending n = [] \<and> replays ne [] (nd_chain n) (h_saved (nd_hist n))"
  by (auto simp: at_head_def node_ok_def)

lemma drop_session_start:
  "h_max (nd_hist n) \<ge> 1 \<Longrightarrow> nd_hist (drop_session (start_session n)) = (nd_hist n)\<lparr>h_saved := take (h_max (nd_hist n)) (h_saved (nd_hist n))\<rparr>"
  by (simp add: drop_session_def start_session_def h_start_def h_undo_def)

lemma clear_pending_at_head:
  assumes "node_ok ne n" "nd_checkpoints n = []"
  shows "at_head ne (clear_pending n)" "nd_chain (clear_pending n) = nd_base n" "nd_fork (clear_pending n) = nd_fork n"
    "nd_store (clear_pending n) = nd_store n" "nd_below (clear_pending n) = nd_below n" "h_max (nd_hist (clear_pending n)) = h_max (nd_hist n)"
  using assms
  by (auto simp: at_head_iff node_ok_def clear_pending_def reset_session_def drop_session_def h_undo_def nd_base_def nd_below_def)

section \<open>Applying a block\<close>

lemma undo_window_positive:
  assumes "apply_block_head ne sk b s = Some (Inr (k, t))" "\<not> skip_undo_history_check sk"
  shows "undo_window t \<ge> 1"
proof -
  let ?d = "(2 ^ 32 + head_block_number (dgp t) - last_irreversible_block_num (dgp t)) mod 2 ^ 32"
  have d: "?d < MUSE_MAX_UNDO_HISTORY"
    using assms by (auto simp: apply_block_head_def update_global_dynamic_data_def Let_def bindR_Inr_iff guardE_Inr_iff bindE_Inr_iff)
  have "undo_window t = (?d + 1) mod 2 ^ 32" by (simp add: undo_window_def mod_Suc_eq)
  also have "\<dots> = ?d + 1" using d by (intro mod_less) (simp add: MUSE_MAX_UNDO_HISTORY_def)
  finally show ?thesis by simp
qed

text \<open>The two outcomes of applying a block in a session.\<close>

lemma apply_and_store_cases:
  assumes "apply_and_store ne sk i b n = Some (r, n')" "at_head ne n" "\<not> skip_undo_history_check sk"
  shows "nd_session n' = nd_session n \<and> nd_pending n' = nd_pending n \<and> nd_popped n' = nd_popped n \<and>
    nd_checkpoints n' = nd_checkpoints n \<and> h_active (nd_hist n') = 0 \<and> h_max (nd_hist n') \<ge> 1 \<and>
    (h_max (nd_hist n') = h_max (nd_hist n) \<or> h_max (nd_hist n') < 2 ^ 32) \<and>
    (nd_fork n' = nd_fork n \<or> (\<exists>w. nd_fork n' = fork_set_max_size w (nd_fork n))) \<and>
    (case r of
       Inl e \<Rightarrow> nd_chain n' = nd_chain n \<and> nd_store n' = nd_store n \<and> h_saved (nd_hist n') = take (h_max (nd_hist n)) (h_saved (nd_hist n))
     | Inr _ \<Rightarrow> apply_block ne [] sk b (nd_chain n) = Some (Inr (nd_chain n')) \<and>
         nd_store n' = bs_store (ne_block_sha ne) (ne_pack ne) i b (nd_store n) \<and>
         h_saved (nd_hist n') = nd_chain n # take (h_max (nd_hist n)) (h_saved (nd_hist n)))"
proof -
  let ?n = "start_session n"
  have n: "nd_checkpoints n = []" "h_active (nd_hist n) = 0" "h_max (nd_hist n) \<ge> 1" "\<not> nd_session n"
    using assms(2) by (auto simp: at_head_iff)
  have flags: "checkpoint_flags ne [] sk b = Inr sk" by (simp add: checkpoint_flags_def)
  have window: "undo_window s < 2 ^ 32" for s by (simp add: undo_window_def)
  have body: "apply_block ne [] sk b s = bindR (apply_block_head ne sk b s) (apply_block_tail ne b)" for s
    by (simp add: apply_block_def flags apply_block_body_def)
  consider e where "apply_block_head ne sk b (nd_chain n) = Some (Inl e)"
    | k s e where "apply_block_head ne sk b (nd_chain n) = Some (Inr (k, s))" "apply_block_tail ne b (k, s) = Some (Inl e)"
    | k s t where "apply_block_head ne sk b (nd_chain n) = Some (Inr (k, s))" "apply_block_tail ne b (k, s) = Some (Inr t)"
  proof (cases "apply_block_head ne sk b (nd_chain n)" rule: run_cases)
    case stuck
    then show thesis using assms(1) n flags
      by (simp add: apply_and_store_def bindN_def updN_def catchN_def node_apply_block_def start_session_def h_start_def)
  next
    case (fail e)
    then show thesis by (rule that(1))
  next
    case (ok x)
    obtain k s where x: "x = (k, s)" by (cases x)
    show thesis
    proof (cases "apply_block_tail ne b (k, s)" rule: run_cases)
      case stuck
      then show thesis using assms(1) n flags ok x
        by (simp add: apply_and_store_def bindN_def updN_def catchN_def node_apply_block_def start_session_def h_start_def Let_def)
    qed (use that ok x in blast)+
  qed
  then show ?thesis
  proof cases
    case 1
    then show ?thesis using assms(1) n flags
      by (auto simp: apply_and_store_def bindN_def updN_def catchN_def node_apply_block_def start_session_def h_start_def
          drop_session_def h_undo_def throwN_def)
  next
    case 2
    then show ?thesis using assms(1) n flags undo_window_positive [OF 2(1) assms(3)] window [of s]
      by (auto simp: apply_and_store_def bindN_def updN_def catchN_def node_apply_block_def start_session_def h_start_def
          drop_session_def h_undo_def throwN_def set_windows_def h_set_max_size_def Let_def)
  next
    case 3
    then show ?thesis using assms(1) n flags undo_window_positive [OF 3(1) assms(3)] window [of s] body
      by (auto simp: apply_and_store_def bindN_def updN_def catchN_def node_apply_block_def start_session_def h_start_def
          tryN_def on_hist_def h_commit_def set_windows_def h_set_max_size_def Let_def)
  qed
qed

lemma apply_and_store_at_head: "\<not> skip_undo_history_check sk \<Longrightarrow> keeps (at_head ne) (apply_and_store ne sk i b)"
  unfolding keeps_def
proof (intro allI impI)
  fix n r n'
  assume sk: "\<not> skip_undo_history_check sk" and n: "at_head ne n" and a: "apply_and_store ne sk i b n = Some (r, n')"
  note c = apply_and_store_cases [OF a n sk]
  have "replays ne [] (nd_chain n) (take k (h_saved (nd_hist n)))" for k
    using n by (auto simp: at_head_iff intro: replays_take)
  then show "at_head ne n'" using c n by (cases r) (auto simp: at_head_iff intro: replays.intros)
qed

section \<open>Popping and switching forks\<close>

lemma pop_block_at_head:
  assumes "pop_block ne n = (r, n')" "at_head ne n"
  shows "at_head ne n'"
proof -
  have r: "reset_session n = n" using assms(2) by (simp add: at_head_iff reset_session_def)
  show ?thesis
  proof (cases "take_head ne n")
    case (Inl e)
    then show ?thesis using assms r by (simp add: pop_block_def)
  next
    case (Inr p)
    obtain b m where p: "p = (b, m)" by (cases p)
    then have m: "\<exists>f. m = n\<lparr>nd_fork := f\<rparr>" using Inr by (auto simp: take_head_def bindE_Inr_iff)
    then obtain f where f: "m = n\<lparr>nd_fork := f\<rparr>" ..
    show ?thesis
    proof (cases "h_saved (nd_hist n)")
      case Nil
      then show ?thesis using assms r Inr p f by (auto simp: pop_block_def h_pop_commit_def guardE_def at_head_iff)
    next
      case (Cons v vs)
      then show ?thesis using assms r Inr p f
        by (auto simp: pop_block_def h_pop_commit_def at_head_iff replays_Cons)
    qed
  qed
qed

lemma pop_until_at_head [keeps_rules]: "keeps (at_head ne) (pop_until ne i)"
proof -
  have "at_head ne n \<Longrightarrow> pop_until ne i n = Some (r, n') \<Longrightarrow> at_head ne n'" for n r n'
  proof (induction ne i n rule: pop_until.induct)
    case (1 ne i n)
    obtain q m where p: "pop_block ne n = (q, m)" by (cases "pop_block ne n")
    have m: "at_head ne m" by (rule pop_block_at_head [OF p "1.prems"(1)])
    show ?case
    proof (cases "nd_head_id n = i")
      case True
      then show ?thesis using "1.prems" by (simp add: pop_until.simps)
    next
      case False
      then show ?thesis using "1.prems"(2) "1.IH" [OF False p [symmetric]] m p
        by (cases q) (simp_all add: pop_until.simps [of ne i n])
    qed
  qed
  then show ?thesis by (auto simp: keeps_def)
qed

lemma upd_fork_at_head [simp]: "at_head ne (upd_fork f n) \<longleftrightarrow> at_head ne n"
  by (simp add: at_head_iff upd_fork_def)

lemma fork_push_at_head [keeps_rules]: "keeps (at_head ne) (fork_push ne b)"
proof -
  have "at_head ne (n\<lparr>nd_fork := f\<rparr>) \<longleftrightarrow> at_head ne n" for n f by (simp add: at_head_iff)
  then show ?thesis by (auto simp: keeps_def fork_push_def split: sum.splits prod.splits option.splits)
qed

lemma restore_branch_at_head:
  "\<not> skip_undo_history_check sk \<Longrightarrow> keeps (at_head ne) (restore_branch ne sk b bad good)"
  unfolding restore_branch_def by (intro keeps_rules apply_and_store_at_head) simp_all

lemma push_branch_at_head: "\<not> skip_undo_history_check sk \<Longrightarrow> keeps (at_head ne) (push_branch ne sk b good its)"
  by (induction its) (auto intro!: keeps_rules apply_and_store_at_head restore_branch_at_head)

lemma extend_head_at_head: "\<not> skip_undo_history_check sk \<Longrightarrow> keeps (at_head ne) (extend_head ne sk b)"
  unfolding extend_head_def by (intro keeps_rules apply_and_store_at_head) simp_all

lemma switch_fork_at_head:
  assumes "\<not> skip_undo_history_check sk"
  shows "keeps (at_head ne) (switch_fork ne sk b h)"
proof -
  have "keeps (at_head ne) (bindN (pop_until ne i) (\<lambda>_. push_branch ne sk b ys xs))" for i ys xs
    by (intro keeps_rules push_branch_at_head assms)
  note k = this
  show ?thesis unfolding keeps_def
  proof (intro allI impI)
    fix n r n'
    assume n: "at_head ne n" and s: "switch_fork ne sk b h n = Some (r, n')"
    show "at_head ne n'"
    proof (cases "fetch_branch_from (2 ^ 32) (nd_fork n) (block_id_of ne (fi_data h)) (nd_head_id n)" rule: run_cases)
      case stuck
      then show ?thesis using s by (simp add: switch_fork_def)
    next
      case (fail e)
      then show ?thesis using s n by (simp add: switch_fork_def)
    next
      case (ok x)
      obtain xs ys where "x = (xs, ys)" by (cases x)
      then show ?thesis using s ok keepsD [OF k n] by (simp add: switch_fork_def)
    qed
  qed
qed

lemma push_block_inner_at_head:
  assumes "\<not> skip_undo_history_check sk"
  shows "keeps (at_head ne) (push_block_inner ne sk b)"
proof -
  have s: "keeps (at_head ne) (bindN (switch_fork ne sk b h) (\<lambda>_. returnN True))" for h
    by (intro keeps_rules switch_fork_at_head assms)
  have "keeps (at_head ne) (\<lambda>n. if previous (fi_data h) \<noteq> nd_head_id n then
      if unat (block_num (fi_data h)) > head_block_num (nd_chain n) then bindN (switch_fork ne sk b h) (\<lambda>_. returnN True) n
      else returnN False n else extend_head ne sk b n)" for h
    by (intro keeps_if s keeps_return extend_head_at_head assms)
  then show ?thesis using extend_head_at_head [OF assms]
    by (auto simp: push_block_inner_def intro: keeps_rules)
qed

section \<open>Pending transactions\<close>

text \<open>With a pending session open: the state below it, and the pending transactions applied on top.\<close>

lemma open_pending_ok:
  assumes "node_ok ne n"
  defines "n1 \<equiv> if nd_session n then n else (start_session n)\<lparr>nd_session := True\<rparr>"
  shows "node_ok ne n1 \<and> nd_session n1 \<and> nd_base n1 = nd_base n \<and> nd_pending n1 = nd_pending n \<and> nd_chain n1 = nd_chain n \<and>
    nd_checkpoints n1 = nd_checkpoints n \<and> nd_store n1 = nd_store n \<and> nd_fork n1 = nd_fork n \<and> h_max (nd_hist n1) = h_max (nd_hist n) \<and>
    (\<exists>k. nd_below n1 = take k (nd_below n))"
proof -
  have "\<exists>k. nd_below n1 = take k (nd_below n)"
  proof (cases "nd_session n")
    case True
    then show ?thesis by (intro exI [of _ "length (nd_below n)"]) (simp add: n1_def)
  qed (auto simp: n1_def nd_below_def start_session_def h_start_def)
  then show ?thesis using assms by (auto simp: node_ok_def nd_base_def start_session_def h_start_def intro: replays_take applied_none)
qed

lemma apply_over_pending:
  assumes "h_saved (nd_hist n) = v # vs" "h_active (nd_hist n) = 1" "h_max (nd_hist n) = Suc m"
  shows "(case apply_transaction ne sk trx (nd_chain (start_session n)) of
         None \<Rightarrow> None
       | Some (Inl e) \<Rightarrow> Some (Inl e, drop_session (start_session n))
       | Some (Inr s) \<Rightarrow>
           let n = (start_session n)\<lparr>nd_hist := (nd_hist (start_session n))\<lparr>h_now := s\<rparr>, nd_pending := nd_pending (start_session n) @ [trx]\<rparr> in
           catchN (tryN (on_hist h_merge)) (\<lambda>e n. Some (Inl e, drop_session n)) n) =
    (case apply_transaction ne sk trx (nd_chain n) of
        None \<Rightarrow> None
      | Some (Inl e) \<Rightarrow> Some (Inl e, n\<lparr>nd_hist := (nd_hist n)\<lparr>h_saved := v # take m vs\<rparr>\<rparr>)
      | Some (Inr s) \<Rightarrow> Some (Inr (), n\<lparr>nd_hist := (nd_hist n)\<lparr>h_now := s, h_saved := v # take m vs\<rparr>,
                                     nd_pending := nd_pending n @ [trx]\<rparr>))"
  using assms
  by (cases "apply_transaction ne sk trx (nd_chain n)" rule: run_cases)
    (simp_all add: start_session_def h_start_def drop_session_def h_undo_def catchN_def tryN_def on_hist_def h_merge_def Let_def)

lemma push_transaction_inner_cases:
  assumes "push_transaction_inner ne sk trx n = Some (r, n')" "node_ok ne n"
  shows "node_ok ne n' \<and> nd_base n' = nd_base n \<and> nd_checkpoints n' = nd_checkpoints n \<and> nd_store n' = nd_store n \<and> nd_fork n' = nd_fork n \<and>
    h_max (nd_hist n') = h_max (nd_hist n) \<and> (\<exists>k. nd_below n' = take k (nd_below n)) \<and>
    (case r of
       Inl e \<Rightarrow> nd_chain n' = nd_chain n \<and> nd_pending n' = nd_pending n
     | Inr _ \<Rightarrow> apply_transaction ne sk trx (nd_chain n) = Some (Inr (nd_chain n')) \<and> nd_pending n' = nd_pending n @ [trx])"
proof -
  let ?n = "if nd_session n then n else (start_session n)\<lparr>nd_session := True\<rparr>"
  note o = open_pending_ok [OF assms(2)]
  then obtain v vs m where h: "h_saved (nd_hist ?n) = v # vs" "replays ne (nd_checkpoints ?n) v vs"
      "applied ne v (nd_pending ?n) (nd_chain ?n)" "h_active (nd_hist ?n) = 1" "h_max (nd_hist ?n) = Suc m" "nd_session ?n"
    unfolding node_ok_def by (metis Suc_le_D One_nat_def)
  then have t: "replays ne (nd_checkpoints ?n) v (take m vs)" by (simp add: replays_take)
  have b: "nd_base ?n = v" using h by (simp add: nd_base_def)
  obtain j where j: "vs = take j (nd_below n)" using o h(1,6) by (auto simp: nd_below_def)
  have w: "\<exists>k. take m vs = take k (nd_below n)" unfolding j by (intro exI [of _ "min m j"]) simp
  have p: "push_transaction_inner ne sk trx n = (case apply_transaction ne sk trx (nd_chain ?n) of
        None \<Rightarrow> None
      | Some (Inl e) \<Rightarrow> Some (Inl e, ?n\<lparr>nd_hist := (nd_hist ?n)\<lparr>h_saved := v # take m vs\<rparr>\<rparr>)
      | Some (Inr s) \<Rightarrow> Some (Inr (), ?n\<lparr>nd_hist := (nd_hist ?n)\<lparr>h_now := s, h_saved := v # take m vs\<rparr>,
                                     nd_pending := nd_pending ?n @ [trx]\<rparr>))"
    using apply_over_pending [OF h(1,4,5), where ne = ne and sk = sk and trx = trx] by (simp add: push_transaction_inner_def bindN_def updN_def)
  show ?thesis
  proof (cases "apply_transaction ne sk trx (nd_chain ?n)" rule: run_cases)
    case stuck
    then show ?thesis using p assms(1) by simp
  next
    case (fail e)
    then have "r = Inl e" "n' = ?n\<lparr>nd_hist := (nd_hist ?n)\<lparr>h_saved := v # take m vs\<rparr>\<rparr>" using p assms(1) by simp_all
    then show ?thesis using o h t b w by (simp add: node_ok_def nd_base_def nd_below_def)
  next
    case (ok s)
    then have "r = Inr ()" "n' = ?n\<lparr>nd_hist := (nd_hist ?n)\<lparr>h_now := s, h_saved := v # take m vs\<rparr>,
        nd_pending := nd_pending ?n @ [trx]\<rparr>" using p assms(1) by simp_all
    moreover have "applied ne v (nd_pending ?n @ [trx]) s" using h(3) ok by (rule applied_next)
    ultimately show ?thesis using o h t b ok w by (simp add: node_ok_def nd_base_def nd_below_def)
  qed
qed

text \<open>A consistent node on top of another one: the same head state, fork and block database, and at most that history.\<close>

definition rooted :: "node_env \<Rightarrow> node \<Rightarrow> node \<Rightarrow> bool" where
  "rooted ne m n \<longleftrightarrow> node_ok ne n \<and> nd_base n = nd_base m \<and> nd_store n = nd_store m \<and> nd_fork n = nd_fork m \<and>
     h_max (nd_hist n) = h_max (nd_hist m) \<and> (\<exists>k. nd_below n = take k (nd_below m))"

lemma repush_rooted: "keeps (rooted ne m) (repush ne sk trx)"
proof -
  have p: "keeps (rooted ne m) (push_transaction_inner ne sk trx)"
    unfolding keeps_def
  proof (intro allI impI)
    fix n r n' assume n: "rooted ne m n" and p: "push_transaction_inner ne sk trx n = Some (r, n')"
    then have c: "node_ok ne n' \<and> nd_base n' = nd_base n \<and> nd_store n' = nd_store n \<and> nd_fork n' = nd_fork n \<and> h_max (nd_hist n') = h_max (nd_hist n)"
      "\<exists>k. nd_below n' = take k (nd_below n)"
      using push_transaction_inner_cases [OF p] by (simp_all add: rooted_def)
    then show "rooted ne m n'" using n by (auto simp: rooted_def)
  qed
  have "keeps (rooted ne m) (catchN (push_transaction_inner ne sk trx) (\<lambda>_. returnN ()))"
    by (intro keeps_rules p)
  then show ?thesis using keeps_if [of "rooted ne m" "returnN ()" _ "\<lambda>n. is_known_transaction (ne_tx_id ne trx) (nd_chain n)"]
    by (auto simp: repush_def [abs_def] returnN_def keeps_return cong: if_cong)
qed

lemma restore_pending_rooted: "keeps (rooted ne m) (restore_pending ne sk txs)"
proof -
  have "keeps (rooted ne m) (bindN (foldN (repush ne sk) popped) (\<lambda>_.
      bindN (updN (\<lambda>n. n\<lparr>nd_popped := []\<rparr>)) (\<lambda>_. foldN (repush ne sk) txs)))" for popped
    by (intro keeps_rules repush_rooted) (auto simp: rooted_def node_ok_def nd_base_def nd_below_def)
  then show ?thesis unfolding keeps_def restore_pending_def by blast
qed

lemma at_head_rooted: "at_head ne n \<Longrightarrow> rooted ne n n"
  by (auto simp: at_head_def rooted_def intro: exI [of _ "length (nd_below n)"])

text \<open>\<open>push_block\<close>: the state of the head block is what the block left, the pending transactions come on top.\<close>

lemma push_block_splits:
  assumes "push_block ne sk b n = Some (r, n')" "node_ok ne n" "nd_checkpoints n = []" "\<not> skip_undo_history_check sk"
  obtains m where "push_block_inner ne sk b (clear_pending n) = Some (r, m)" "at_head ne m" "rooted ne m n'"
proof -
  from assms(1) obtain m q where m: "push_block_inner ne sk b (clear_pending n) = Some (r, m)"
      and q: "restore_pending ne sk (nd_pending n) m = Some (q, n')"
    by (auto simp: push_block_def without_pending_def split: option.splits prod.splits)
  have h: "at_head ne m"
    by (rule keepsD [OF push_block_inner_at_head [OF assms(4)] clear_pending_at_head(1) [OF assms(2,3)] m])
  have "rooted ne m n'" by (rule keepsD [OF restore_pending_rooted at_head_rooted [OF h] q])
  then show thesis using that m h by blast
qed

section \<open>Refused blocks\<close>

lemma extend_head_fails:
  assumes "extend_head ne sk b n = Some (Inl e, m)" "at_head ne n" "\<not> skip_undo_history_check sk"
  shows "nd_chain m = nd_chain n \<and> nd_store m = nd_store n"
proof -
  from assms(1) obtain m1 where a: "apply_and_store ne sk (block_id_of ne b) b n = Some (Inl e, m1)"
      and m: "m = upd_fork (fork_remove (block_id_of ne b)) m1"
    by (auto simp: extend_head_def bindN_Some_iff catchN_Some_iff updN_def throwN_def returnN_def)
  then show ?thesis using apply_and_store_cases [OF a assms(2,3)] by (simp add: upd_fork_def)
qed

text \<open>The block is on top of the head or too low to become the head, so that the node does not switch forks.\<close>

definition no_switch :: "node_env \<Rightarrow> skip_flags \<Rightarrow> block \<Rightarrow> node \<Rightarrow> bool" where
  "no_switch ne sk b n \<longleftrightarrow> skip_fork_db sk \<or>
     (case fork_push_block (ne_block_sha ne) b (nd_fork n) of
        Inr (Some h, _) \<Rightarrow> previous (fi_data h) = head_block_id (dgp (nd_base n)) \<or>
          unat (block_num (fi_data h)) \<le> head_block_num (nd_base n)
      | _ \<Rightarrow> True)"

lemma refused_inner:
  assumes "push_block_inner ne sk b n = Some (Inl e, m)" "at_head ne n" "\<not> skip_undo_history_check sk" "no_switch ne sk b n"
  shows "nd_chain m = nd_chain n \<and> nd_store m = nd_store n"
proof (cases "skip_fork_db sk")
  case True
  then show ?thesis using assms extend_head_fails by (simp add: push_block_inner_def)
next
  case False
  have b: "nd_base n = nd_chain n" using assms(2) by (simp add: nd_base_def at_head_iff)
  show ?thesis
  proof (cases "fork_push_block (ne_block_sha ne) b (nd_fork n)")
    case (Inl x)
    then show ?thesis using assms(1) False by (simp add: push_block_inner_def bindN_def fork_push_def)
  next
    case (Inr p)
    obtain o1 f where p: "p = (o1, f)" by (cases p)
    have h: "at_head ne (n\<lparr>nd_fork := f\<rparr>)" using assms(2) by (simp add: at_head_iff)
    show ?thesis
    proof (cases o1)
      case None
      then show ?thesis using assms(1) False Inr p by (auto simp: push_block_inner_def bindN_def fork_push_def)
    next
      case (Some it)
      then show ?thesis using assms(1,3,4) False Inr p b extend_head_fails [OF _ h assms(3)]
        by (auto simp: push_block_inner_def bindN_def fork_push_def no_switch_def nd_head_id_def returnN_def split: if_splits)
    qed
  qed
qed

section \<open>Properties\<close>

text \<open>A node at its genesis that takes its first block.\<close>

definition demo_node :: node where
  "demo_node = \<lparr>nd_hist = \<lparr>h_now = demo_genesis, h_saved = [], h_active = 0, h_max = 256\<rparr>,
     nd_fork = \<lparr>fd_index = [], fd_unlinked = [], fd_head = None, fd_max_size = 1024\<rparr>,
     nd_store = \<lparr>bs_blocks = [], bs_index = []\<rparr>, nd_pending = [], nd_session = False, nd_popped = [], nd_checkpoints = []\<rparr>"

lemma demo_node_ok: "node_ok demo_node_env demo_node" "nd_checkpoints demo_node = []" "clear_pending demo_node = demo_node"
  by (simp_all add: node_ok_def demo_node_def replays.intros clear_pending_def reset_session_def)

definition demo_fork :: "block \<Rightarrow> signed_transaction fork_db" where
  "demo_fork b = \<lparr>fd_index = [mk_fork_item (ne_block_sha demo_node_env) b], fd_unlinked = [],
     fd_head = Some (mk_fork_item (ne_block_sha demo_node_env) b), fd_max_size = 1024\<rparr>"

lemma demo_fork_push:
  "fork_push_block (ne_block_sha demo_node_env) b (nd_fork demo_node) =
     Inr (Some (mk_fork_item (ne_block_sha demo_node_env) b), demo_fork b)"
  by (simp add: fork_push_block_def fork_push_item_def link_item_def insert_item_def index_insert_def find_item_def demo_node_def demo_fork_def)

lemma demo_extends:
  assumes "previous b = null_block_id"
  shows "push_block_inner demo_node_env skip_nothing b demo_node = extend_head demo_node_env skip_nothing b (demo_node\<lparr>nd_fork := demo_fork b\<rparr>)"
proof -
  have "nd_head_id (demo_node\<lparr>nd_fork := demo_fork b\<rparr>) = null_block_id"
    by (simp add: nd_head_id_def demo_node_def demo_genesis_def demo_chain_def demo_dgp_def)
  then show ?thesis using assms
    by (simp add: push_block_inner_def skip_nothing_def bindN_def fork_push_def demo_fork_push mk_fork_item_def)
qed

lemma restore_nothing: "nd_popped n = [] \<Longrightarrow> restore_pending ne sk [] n = Some (Inr (), n\<lparr>nd_popped := []\<rparr>)"
  by (simp add: restore_pending_def bindN_def updN_def returnN_def)

lemma demo_push:
  "\<exists>n. push_block demo_node_env skip_nothing demo_next_block demo_node = Some (Inr False, n) \<and> nd_chain n = demo_paid \<and>
     h_saved (nd_hist n) = [demo_genesis]"
proof -
  let ?n = "demo_node\<lparr>nd_fork := demo_fork demo_next_block\<rparr>"
  have flags: "checkpoint_flags demo_node_env [] skip_nothing demo_next_block = Inr skip_nothing" by (simp add: checkpoint_flags_def)
  have "\<exists>n. extend_head demo_node_env skip_nothing demo_next_block ?n = Some (Inr False, n) \<and> nd_chain n = demo_paid \<and>
      h_saved (nd_hist n) = [demo_genesis] \<and> nd_popped n = []"
    by (simp add: extend_head_def apply_and_store_def bindN_def updN_def catchN_def node_apply_block_def start_session_def h_start_def
        demo_node_def flags demo_block_head demo_block_tail Let_def set_windows_def h_set_max_size_def tryN_def on_hist_def h_commit_def returnN_def)
  then obtain n where "extend_head demo_node_env skip_nothing demo_next_block ?n = Some (Inr False, n)" "nd_chain n = demo_paid"
      "h_saved (nd_hist n) = [demo_genesis]" "nd_popped n = []" by blast
  moreover have "nd_pending demo_node = []" by (simp add: demo_node_def)
  ultimately show ?thesis
    using demo_extends [of demo_next_block]
    by (simp add: push_block_def without_pending_def demo_node_ok(3) restore_nothing demo_next_block_def)
qed


definition demo_late_block :: block where "demo_late_block = demo_next_block\<lparr>timestamp := 50\<rparr>"

lemma demo_refused: "\<exists>n. push_block demo_node_env skip_nothing demo_late_block demo_node = Some (Inl Assert_exn, n)"
proof -
  let ?n = "demo_node\<lparr>nd_fork := demo_fork demo_late_block\<rparr>"
  have flags: "checkpoint_flags demo_node_env [] skip_nothing demo_late_block = Inr skip_nothing" by (simp add: checkpoint_flags_def)
  have h: "apply_block_head demo_node_env skip_nothing demo_late_block demo_genesis = Some (Inl Assert_exn)"
    by (simp add: apply_block_head_def block_header_step_def validate_block_header_def demo_late_block_def demo_next_block_def
        demo_genesis_def demo_chain_def demo_dgp_def head_block_time_def skip_nothing_def calculate_merkle_root_def guardE_def demo_node_env_def)
  have "\<exists>n. extend_head demo_node_env skip_nothing demo_late_block ?n = Some (Inl Assert_exn, n) \<and> nd_popped n = []"
    by (simp add: extend_head_def apply_and_store_def bindN_def updN_def catchN_def node_apply_block_def start_session_def h_start_def
        demo_node_def flags h drop_session_def h_undo_def throwN_def upd_fork_def)
  then obtain n where "extend_head demo_node_env skip_nothing demo_late_block ?n = Some (Inl Assert_exn, n)" "nd_popped n = []" by blast
  moreover have "nd_pending demo_node = []" "previous demo_late_block = null_block_id"
    by (simp_all add: demo_node_def demo_late_block_def demo_next_block_def)
  ultimately show ?thesis
    using demo_extends [of demo_late_block] by (simp add: push_block_def without_pending_def demo_node_ok(3) restore_nothing)
qed


end
