(* ===== verification/Head_Laws.thy ===== *)
theory Head_Laws
  imports Block_Laws
begin

text \<open>
  The head of the chain. Operations, transactions and the maintenance at the end of a block leave the number, the id and the time of the head
  block alone; applying a block checks that it links to the head and makes it the new head.
\<close>

section \<open>Steps that leave the head alone\<close>

definition same_head :: "chain \<Rightarrow> chain \<Rightarrow> bool" where
  "same_head s t \<longleftrightarrow> head_of (dgp t) = head_of (dgp s)"

interpretation headed: step_relation same_head
  by unfold_locales (simp_all add: same_head_def)

lemma same_head_frame: "frame s t \<Longrightarrow> same_head s t" "statics s t \<Longrightarrow> same_head s t"
  by (simp_all add: same_head_def frame_def same_view_def statics_def)

lemma same_head_dgp: "dgp t = dgp s \<Longrightarrow> same_head s t"
  by (simp add: same_head_def)

lemma head_frame: "ensures frame s r \<Longrightarrow> ensures same_head s r"
  by (auto simp: ensures_def intro: same_head_frame)

lemma head_modify: "ensures same_head s (modify_witness k f s)" "ensures same_head s (modify_account k g s)"
  by (auto simp: ensures_def modify_witness_def modify_account_def bindE_Inr_iff intro!: same_head_dgp)

section \<open>Operations and proposals\<close>

lemma head_remove: "change_proposals f s = Inr t \<Longrightarrow> same_head s t"
  by (auto simp: change_proposals_def bindE_Inr_iff intro!: same_head_dgp)

lemma head_approve: "proposal_update_approve o1 s = Inr (b, t) \<Longrightarrow> same_head s t"
  by (auto simp: proposal_update_approve_def bindE_Inr_iff dest: head_remove)

lemma head_dispatch:
  assumes "dispatch execute e op s = Some (Inr t)" "\<And>k s t. execute k s = Some (Inr t) \<Longrightarrow> same_head s t"
  shows "same_head s t"
proof (cases "handles_proposals op")
  case False
  then have "evaluate e op s = Inr t" using assms(1) by (cases op) (simp_all add: dispatch_def)
  then show ?thesis using statics_evaluate [OF False] by (auto simp: ensures_def intro: same_head_frame)
next
  case True
  show ?thesis
  proof (cases op)
    case (Proposal_update u)
    then obtain b v where v: "proposal_update_approve u s = Inr (b, v)" "t = v \<or> execute (pu_proposal u) v = Some (Inr t)"
      using assms(1) by (auto simp: dispatch_def proposal_update_apply_def bindR_Inr_iff split: if_splits option.splits sum.splits)
    then show ?thesis using head_approve [OF v(1)] assms(2) by (blast intro: headed.R_trans)
  next
    case (Proposal_delete u)
    then show ?thesis using assms(1) by (auto simp: dispatch_def proposal_delete_apply_def bindE_Inr_iff guardE_Inr_iff dest: head_remove)
  next
    case (Proposal_create x ops y)
    then show ?thesis using assms(1)
      by (auto simp: dispatch_def proposal_create_apply_def bindE_Inr_iff guardE_Inr_iff intro!: same_head_dgp)
  qed (use True in simp_all)
qed

lemma head_push: "push_proposal n e k s = Some (Inr t) \<Longrightarrow> same_head s t"
proof (induction n arbitrary: k s t)
  case (Suc n)
  obtain p u where p: "idx_find k (proposals s) = Some p" and r: "change_proposals (idx_remove k) u = Inr t"
    and u: "foldR (dispatch (push_proposal n e) e) (tx_operations (prop_proposed_transaction p)) s = Some (Inr u)"
    using Suc.prems by (auto simp: bindR_Inr_iff idx_get_Inr)
  have "same_head s u"
    by (rule foldR_invariant [where I = "same_head s", OF u headed.R_refl]) (blast intro: headed.R_trans head_dispatch Suc.IH)
  then show ?case using head_remove [OF r] by (rule headed.R_trans)
qed simp

lemma head_operation: "apply_operation n e op s = Some (Inr t) \<Longrightarrow> same_head s t"
  by (auto simp: apply_operation_def intro: head_dispatch head_push)

lemma head_admit: "ensures same_head s (admit_transaction ne sk trx s)"
proof -
  have "ensures same_head s (create_transaction ne trx s)" for s
    by (auto simp: ensures_def create_transaction_def bindE_Inr_iff intro!: same_head_dgp)
  moreover have "ensures same_head s (charge_bandwidth n ops name s)" for n ops name s
    unfolding charge_bandwidth_def update_account_bandwidth_def update_account_market_bandwidth_def
    by (rule headed.ensures_rules head_modify headed.ensures_same)+
  ultimately show ?thesis unfolding admit_transaction_def Let_def
    by (intro headed.ensures_seq(1) headed.ensures_fold ensures_branch ensures_bind headed.ensures_same)
qed

text \<open>A transaction leaves the head alone.\<close>

lemma head_transaction:
  assumes "apply_transaction ne sk trx s = Some (Inr t)"
  shows "same_head s t"
proof -
  obtain u where u: "admit_transaction ne sk trx s = Inr u"
    and t: "foldR (apply_operation (ne_stack ne) (ne_env ne)) (tx_operations trx) u = Some (Inr t)"
    using assms by (auto simp: apply_transaction_def bindR_Inr_iff)
  have "same_head u t"
    by (rule foldR_invariant [where I = "same_head u", OF t headed.R_refl]) (blast intro: headed.R_trans head_operation)
  with ensuresD(1) [OF head_admit u] show ?thesis by (rule headed.R_trans)
qed

section \<open>The end of a block\<close>

lemma head_expire_loop: "expire_loop k n e s = Some (Inr t) \<Longrightarrow> same_head s t"
proof (induction k arbitrary: s)
  case 0
  then show ?case by (simp add: headed.R_refl split: list.splits)
next
  case (Suc k)
  show ?case
  proof (cases "expired_proposals s")
    case Nil
    then show ?thesis using Suc.prems by (simp add: headed.R_refl)
  next
    case (Cons x xs)
    obtain pid p where x: "x = (pid, p)" by (cases x)
    obtain u where u: "expire_proposal n e pid p s = Some (Inr u)" "expire_loop k n e u = Some (Inr t)"
      using Suc.prems Cons x by (auto simp: bindR_Inr_iff)
    have "same_head s u"
      using u(1) by (auto simp: expire_proposal_def intro: head_push head_remove split: if_splits option.splits sum.splits)
    then show ?thesis using Suc.IH [OF u(2)] by (rule headed.R_trans)
  qed
qed

lemma head_expired: "clear_expired_proposals n e s = Some (Inr t) \<Longrightarrow> same_head s t"
  by (auto simp: clear_expired_proposals_def headed.R_refl intro: head_expire_loop split: if_splits)

lemma head_schedule: "ensures same_head s (update_witness_schedule s)"
proof -
  have re: "ensures_snd same_head s (reschedule vt ks s)" for vt ks s
  proof (induction ks arbitrary: s)
    case (Cons k ks)
    show ?case unfolding reschedule.simps by (rule headed.ensures_rules head_modify headed.ensures_same ensures_error Cons.IH)+
  qed simp
  have me: "ensures same_head s (update_median_witness_props (s\<lparr>hardforks := h, wso := w\<rparr>))" for s h w
    by (auto simp: update_median_witness_props_def Let_def ensures_def bindE_Inr_iff same_head_def split: if_splits)
  have "same_head s (s\<lparr>wso := w\<rparr>)" for s w by (rule same_head_dgp) simp
  then have reset: "ensures same_head s (reset_virtual_schedule_time s)" for s unfolding reset_virtual_schedule_time_def Let_def
    by (rule headed.ensures_state(1) [OF _ headed.ensures_fold]) (rule head_modify)
  show ?thesis unfolding update_witness_schedule_def update_witness_schedule4_def
    by (rule headed.ensures_seq_snd headed.ensures_seq ensures_branch re reset headed.ensures_same me ensures_bind)+
qed

lemma head_feed: "ensures same_head s (update_median_feed s)"
proof -
  have "same_head s (s\<lparr>feed_history := f\<rparr>)" for f by (rule same_head_dgp) simp
  then show ?thesis unfolding update_median_feed_def Let_def
    by (intro ensures_branch ensures_bind) (simp_all add: ensures_def headed.R_refl)
qed

lemma head_virtual_supply: "ensures same_head s (update_virtual_supply s)"
  by (auto simp: ensures_def update_virtual_supply_def modify_dgp_def bindE_Inr_iff same_head_def split: if_splits)

lemma head_recovery: "ensures same_head s (account_recovery_processing s)"
proof -
  have c: "same_head s (clear_owner_histories (clear_recovery_requests s))"
    by (rule same_head_dgp) (simp add: clear_owner_histories_def clear_recovery_requests_def Let_def)
  have i: "ensures same_head s (change_change_recovery_index f s)" for f s
    by (auto simp: ensures_def change_change_recovery_index_def bindE_Inr_iff intro!: same_head_dgp)
  have a: "ensures same_head s (apply_recovery_change x s)" for x s
    unfolding apply_recovery_change_def by (cases x, simp only: prod.case) (rule headed.ensures_rules head_modify i)+
  show ?thesis unfolding account_recovery_processing_def Let_def
    by (rule headed.ensures_state(1) [OF c headed.ensures_fold]) (rule a)
qed

lemma head_hardfork: "ensures same_head s (apply_hardfork n s)"
proof -
  have c: "ensures same_head s (hardfork_changes n s)"
    by (auto simp: ensures_def hardfork_changes_def modify_dgp_def bindE_Inr_iff res_simps same_head_def split: if_splits)
  have h: "same_head s (s\<lparr>hardforks := h\<rparr>)" for s h by (rule same_head_dgp) simp
  show ?thesis unfolding apply_hardfork_def Let_def
    by (rule headed.ensures_seq(1) [OF c]) (auto simp: ensures_def guardE_Inr_iff h)
qed

lemma head_hardforks: "process_hardforks s = Inr t \<Longrightarrow> same_head s t"
proof (induction s rule: process_hardforks.induct)
  case (1 s)
  let ?h = "hardforks s"
  show ?case
  proof (cases "version_lt (hardfork_versions ! hf_last_hardfork ?h) (hf_next_hardfork ?h) \<and> hf_next_hardfork_time ?h \<le> head_block_time s")
    case True
    then obtain u where u: "hf_last_hardfork ?h < MUSE_NUM_HARDFORKS" "apply_hardfork (hf_last_hardfork ?h + 1) s = Inr u" "process_hardforks u = Inr t"
      using "1.prems" by (subst (asm) process_hardforks.simps) (auto simp: Let_def bindE_Inr_iff split: if_splits)
    have "same_head s u" by (rule ensuresD(1) [OF head_hardfork u(2)])
    then show ?thesis using "1.IH" [OF refl True u(1,2,3)] by (rule headed.R_trans)
  next
    case False
    then show ?thesis using "1.prems" by (subst (asm) process_hardforks.simps) (auto simp: Let_def headed.R_refl)
  qed
qed

lemma head_maintenance: "ensures same_head s (maintenance_step s)"
proof -
  have o: "ensures same_head s (clear_expired_orders s)" for s
    unfolding clear_expired_orders_def by (rule headed.ensures_fold) (rule head_frame [OF frame_cancel_order])
  show ?thesis unfolding maintenance_step_def
    by (rule headed.ensures_seq o head_schedule head_feed head_virtual_supply head_frame [OF frame_block_rewards]
        head_frame [OF frame_withdrawals] head_recovery | simp add: ensures_def head_hardforks)+
qed

lemma head_head_step: "ensures same_head s (head_step ne k b s)"
proof -
  have "same_head s (s\<lparr>dgp := (dgp s)\<lparr>last_irreversible_block_num := n\<rparr>\<rparr>)" for s n by (simp add: same_head_def)
  then have i: "ensures same_head s (update_last_irreversible_block s)" for s
    by (auto simp: update_last_irreversible_block_def ensures_def bindE_Inr_iff headed.R_refl Let_def split: if_splits)
  have "same_head s (clear_expired_transactions (create_block_summary ne b s))" for s
    by (rule same_head_dgp) (simp add: clear_expired_transactions_def create_block_summary_def)
  then have t: "ensures same_head s (Inr (clear_expired_transactions (create_block_summary ne b s)))" for s
    by (simp add: ensures_def)
  show ?thesis unfolding head_step_def update_signing_witness_def Let_def by (rule headed.ensures_seq head_modify i t)+
qed

text \<open>A block that is applied links to the head and is the new head.\<close>

lemma advance_head_id [simp]: "head_block_id (advance_head ne b m p) = block_id_of ne b" "head_block_number (advance_head ne b m p) = block_number b"
  by (simp_all add: advance_head_def Let_def split: prod.splits)

lemma apply_block_links:
  assumes "apply_block ne cps sk b s = Some (Inr t)"
  shows "previous b = head_block_id (dgp s)" "head_block_id (dgp t) = block_id_of ne b" "head_block_number (dgp t) = block_number b"
proof -
  obtain f k s1 s2 s3 s4 s5 where 1: "block_header_step ne f b s = Inr (k, s1)"
      and 3: "update_global_dynamic_data ne f b s2 = Inr s3" "head_step ne k b s3 = Inr s4"
      and 4: "clear_expired_proposals (ne_stack ne) (ne_env ne) s4 = Some (Inr s5)" "maintenance_step s5 = Inr t"
    using assms by (auto simp: apply_block_def apply_block_body_def apply_block_head_def apply_block_tail_def bindR_Inr_iff)
  show "previous b = head_block_id (dgp s)"
    using 1 by (auto simp: block_header_step_def validate_block_header_def guardE_Inr_iff bindE_Inr_iff)
  have "same_head s3 t"
    using ensuresD(1) [OF head_head_step 3(2)] head_expired [OF 4(1)] ensuresD(1) [OF head_maintenance 4(2)] by (blast intro: headed.R_trans)
  moreover have "head_block_id (dgp s3) = block_id_of ne b" "head_block_number (dgp s3) = block_number b"
    using 3(1) by (auto simp: update_global_dynamic_data_def Let_def guardE_Inr_iff bindE_Inr_iff)
  ultimately show "head_block_id (dgp t) = block_id_of ne b" "head_block_number (dgp t) = block_number b" by (simp_all add: same_head_def)
qed

end
