(* ===== verification/Stored_Branch.thy ===== *)
theory Stored_Branch
  imports Node_Laws Head_Laws Fork_Laws
begin

text \<open>
  The block database follows the chain: the snapshots of a node lead from one to the next by the blocks that the block database holds under
  their numbers. Pushing a block keeps that, by extending the head or by switching to another fork, with one exception: when a switch
  fails, the code stores the blocks of the old fork under the id of the block that was pushed.
\<close>

section \<open>Stored branches\<close>

text \<open>The number of the head block of a state, as its id carries it. Each state comes from the snapshot below it by applying the block that is stored
  under its number.\<close>

abbreviation head_num :: "chain \<Rightarrow> 32 word" where "head_num s \<equiv> num_from_id (head_block_id (dgp s))"

inductive stored_branch :: "node_env \<Rightarrow> block_store \<Rightarrow> chain \<Rightarrow> chain list \<Rightarrow> bool" for ne st where
    stored_start: "stored_branch ne st s []"
  | stored_block: "bs_fetch_by_number (ne_block_sha ne) (ne_unpack ne) (head_num s) st = Some b \<Longrightarrow> apply_block ne [] sk b v = Some (Inr s) \<Longrightarrow>
      stored_branch ne st v vs \<Longrightarrow> stored_branch ne st s (v # vs)"

inductive_simps stored_branch_Cons: "stored_branch ne st s (v # vs)"

lemma stored_branch_take: "stored_branch ne st s vs \<Longrightarrow> stored_branch ne st s (take k vs)"
  by (induction arbitrary: k rule: stored_branch.induct) (auto simp: take_Cons' intro: stored_branch.intros)

lemma apply_block_num: "apply_block ne cps sk b v = Some (Inr s) \<Longrightarrow> head_num s = block_num b \<and> head_num s = head_num v + 1"
  using apply_block_links [of ne cps sk b v s] by (simp add: block_id_of_def block_num_def)

text \<open>A block is stored under its number, and the entries of up to \<open>2^32 - 1\<close> blocks below it stay.\<close>

definition packable :: "node_env \<Rightarrow> block \<Rightarrow> bool" where
  "packable ne b \<longleftrightarrow> codec (ne_pack ne) (ne_unpack ne) b \<and> length (ne_pack ne b) < 2 ^ 32"

lemma store_fetch:
  assumes "packable ne b"
  shows "bs_fetch_by_number (ne_block_sha ne) (ne_unpack ne) (block_num b) (bs_store (ne_block_sha ne) (ne_pack ne) (block_id_of ne b) b st) = Some b"
  using assms
  by (simp add: packable_def codec_def block_id_of_def bs_fetch_by_number_def bs_store_def Let_def length_write_entry nth_write_entry bs_read_entry_def
      read_bytes_last)

lemma store_keeps:
  assumes "bs_ok st" "bs_fetch_by_number (ne_block_sha ne) (ne_unpack ne) k st = Some c" "k \<noteq> block_num b"
  shows "bs_fetch_by_number (ne_block_sha ne) (ne_unpack ne) k (bs_store (ne_block_sha ne) (ne_pack ne) (block_id_of ne b) b st) = Some c"
proof -
  have k: "unat k < length (bs_index st)" "bs_read_entry (ne_block_sha ne) (ne_unpack ne) (bs_index st ! unat k) st = Some c"
    using assms(2) by (auto simp: bs_fetch_by_number_def split: if_splits)
  have "unat k \<noteq> unat (block_num b)" using assms(3) by (simp add: word_unat_eq_iff)
  then show ?thesis using assms(1) k
    by (auto simp: block_id_of_def bs_fetch_by_number_def bs_store_def Let_def length_write_entry nth_write_entry bs_read_entry_def bs_ok_def read_bytes_append)
qed

lemma stored_branch_store:
  assumes "stored_branch ne st s vs" "bs_ok st" "block_num b = head_num s + of_nat (Suc d)" "d + length vs < 2 ^ 32"
  shows "stored_branch ne (bs_store (ne_block_sha ne) (ne_pack ne) (block_id_of ne b) b st) s vs"
  using assms
proof (induction arbitrary: d rule: stored_branch.induct)
  case (stored_block s c sk v vs)
  have "(of_nat (Suc d) :: 32 word) \<noteq> 0" using stored_block.prems(3) by (auto simp: word_of_nat_eq_0_iff dest!: dvd_imp_le simp del: of_nat_Suc)
  then have "head_num s \<noteq> block_num b" using stored_block.prems(2) by (simp del: of_nat_Suc)
  note f = store_keeps [OF stored_block.prems(1) stored_block.hyps(1) this]
  have "block_num b = head_num v + of_nat (Suc (Suc d))" using stored_block.prems(2) apply_block_num [OF stored_block.hyps(2)] by (metis add.assoc of_nat_Suc)
  then show ?case using stored_block.IH [of "Suc d"] stored_block.prems f stored_block.hyps(2) by (auto intro: stored_branch.stored_block)
qed (simp add: stored_branch.stored_start)

section \<open>Blocks of the fork database\<close>

definition item_packable :: "node_env \<Rightarrow> signed_transaction fork_item \<Rightarrow> bool" where
  "item_packable ne it \<longleftrightarrow> fi_id it = block_id_of ne (fi_data it) \<and> packable ne (fi_data it)"

definition fork_packable :: "node_env \<Rightarrow> signed_transaction fork_db \<Rightarrow> bool" where
  "fork_packable ne f \<longleftrightarrow> (\<forall>it \<in> fork_items f. item_packable ne it)"

lemma fork_packable_sub: "fork_packable ne f \<Longrightarrow> fork_items g \<subseteq> fork_items f \<Longrightarrow> fork_packable ne g"
  unfolding fork_packable_def by blast

lemma fork_items_ops:
  "fork_items (fork_set_max_size w f) \<subseteq> fork_items f" "fork_items (fork_remove i f) \<subseteq> fork_items f"
  "fork_pop_block f = Inr g \<Longrightarrow> fork_items g \<subseteq> fork_items f"
  by (auto simp: fork_set_max_size_def fork_remove_def fork_pop_block_def fork_items_def Let_def split: option.splits dest!: lock_Some)

lemma fork_packable_push:
  assumes "fork_push_block (ne_block_sha ne) b f = Inr (h, g)" "fork_packable ne f" "packable ne b"
  shows "fork_packable ne g"
proof -
  obtain it where it: "link_item (mk_fork_item (ne_block_sha ne) b) f = Inr it" "g = insert_item it f"
    using assms(1) by (auto simp: fork_push_block_def fork_push_item_def bindE_Inr_iff)
  have "fi_id it = block_id_of ne b" "fi_data it = b"
    using it(1) by (auto simp: link_item_def mk_fork_item_def block_id_of_def res_simps split: option.splits if_splits)
  then have i: "item_packable ne it" using assms(3) by (simp add: item_packable_def)
  have "fork_items g \<subseteq> insert it (fork_items f)"
    using index_insert_set [of it "fd_index f"] by (auto simp: it(2) insert_item_def fork_items_def Let_def split: option.splits if_splits)
  then show ?thesis using i assms(2) by (auto simp: fork_packable_def)
qed

lemma climb_items: "climb k f it n = Some (Inr (xs, last_it)) \<Longrightarrow> it \<in> fork_items f \<Longrightarrow> set (last_it # xs) \<subseteq> fork_items f"
proof (induction k arbitrary: it xs)
  case (Suc k)
  show ?case
  proof (cases "fi_num it > n")
    case True
    then obtain p ys where "lock f (fi_prev it) = Some p" "climb k f p n = Some (Inr (ys, last_it))" "xs = it # ys"
      using Suc.prems(1) by (auto simp: bindE_Inr_iff split: option.splits)
    then show ?thesis using Suc.IH [of p ys] lock_Some [of f] Suc.prems(2) by auto
  qed (use Suc.prems in auto)
qed simp

lemma climb_both_items:
  "climb_both k f a b = Some (Inr (xs, ys)) \<Longrightarrow> a \<in> fork_items f \<Longrightarrow> b \<in> fork_items f \<Longrightarrow> set xs \<subseteq> fork_items f \<and> set ys \<subseteq> fork_items f"
proof (induction k arbitrary: a b xs ys)
  case (Suc k)
  show ?case
  proof (cases "fi_previous_id a = fi_previous_id b")
    case False
    then obtain p q us vs where "lock f (fi_prev a) = Some p" "lock f (fi_prev b) = Some q" "climb_both k f p q = Some (Inr (us, vs))"
      "xs = a # us" "ys = b # vs"
      using Suc.prems(1) by (auto simp: bindE_Inr_iff split: option.splits)
    then show ?thesis using Suc.IH [of p q us vs] lock_Some [of f] Suc.prems(2,3) by auto
  qed (use Suc.prems in auto)
qed simp

lemma fetch_branch_items:
  assumes "fetch_branch_from k f i j = Some (Inr (xs, ys))"
  shows "set xs \<subseteq> fork_items f"
proof -
  obtain a b us a' vs b' ws zs where 1: "find_item i (fd_index f) = Some a" "find_item j (fd_index f) = Some b"
    "climb k f a (fi_num b) = Some (Inr (us, a'))" "climb k f b (fi_num a') = Some (Inr (vs, b'))"
    "climb_both k f a' b' = Some (Inr (ws, zs))" "xs = us @ ws"
    using assms by (auto simp: fetch_branch_from_def bindE_Inr_iff split: option.splits sum.splits prod.splits)
  have "a \<in> fork_items f" "b \<in> fork_items f" using 1(1,2) by (auto simp: fork_items_def dest: find_item_Some)
  then show ?thesis using climb_items [OF 1(3)] climb_items [OF 1(4)] climb_both_items [OF 1(5)] 1(6) by auto
qed

section \<open>Nodes whose blocks are stored\<close>

definition blocks_stored :: "node_env \<Rightarrow> node \<Rightarrow> bool" where
  "blocks_stored ne n \<longleftrightarrow> stored_branch ne (nd_store n) (nd_base n) (nd_below n) \<and> bs_ok (nd_store n) \<and> fork_packable ne (nd_fork n) \<and>
     h_max (nd_hist n) < 2 ^ 32"

lemma stored_at_head: "at_head ne n \<Longrightarrow> blocks_stored ne n \<longleftrightarrow> stored_branch ne (nd_store n) (nd_chain n) (h_saved (nd_hist n)) \<and> bs_ok (nd_store n) \<and>
    fork_packable ne (nd_fork n) \<and> h_max (nd_hist n) < 2 ^ 32"
  by (simp add: blocks_stored_def at_head_iff nd_base_def nd_below_def)

lemma stored_fork: "blocks_stored ne n \<Longrightarrow> fork_packable ne f \<Longrightarrow> blocks_stored ne (n\<lparr>nd_fork := f\<rparr>)"
  by (auto simp: blocks_stored_def nd_base_def nd_below_def split: if_splits)

lemma stored_rooted: "rooted ne m n \<Longrightarrow> blocks_stored ne m \<Longrightarrow> blocks_stored ne n"
  by (auto simp: rooted_def blocks_stored_def stored_branch_take)

lemma apply_and_store_stored:
  assumes "apply_and_store ne sk (block_id_of ne b) b n = Some (r, n')" "at_head ne n" "\<not> skip_undo_history_check sk"
    and "blocks_stored ne n" "packable ne b"
  shows "blocks_stored ne n'"
proof -
  note c = apply_and_store_cases [OF assms(1-3)]
  have h': "at_head ne n'" by (rule keepsD [OF apply_and_store_at_head [OF assms(3)] assms(2,1)])
  let ?vs = "take (h_max (nd_hist n)) (h_saved (nd_hist n))"
  have s: "stored_branch ne (nd_store n) (nd_chain n) ?vs" "bs_ok (nd_store n)" "fork_packable ne (nd_fork n)" "h_max (nd_hist n) < 2 ^ 32"
    using assms(4) stored_at_head [OF assms(2)] by (simp_all add: stored_branch_take)
  have f: "fork_packable ne (nd_fork n')" "h_max (nd_hist n') < 2 ^ 32" using c s(3,4) fork_packable_sub [OF s(3) fork_items_ops(1)] by auto
  show ?thesis
  proof (cases r)
    case (Inl e)
    then show ?thesis using c s f by (simp add: stored_at_head [OF h'])
  next
    case (Inr x)
    let ?st = "bs_store (ne_block_sha ne) (ne_pack ne) (block_id_of ne b) b (nd_store n)"
    have a: "apply_block ne [] sk b (nd_chain n) = Some (Inr (nd_chain n'))" "nd_store n' = ?st" "h_saved (nd_hist n') = nd_chain n # ?vs"
      using c Inr by simp_all
    note num = apply_block_num [OF a(1)]
    have "stored_branch ne ?st (nd_chain n) ?vs" using num s(4) by (intro stored_branch_store [OF s(1,2), where d = 0]) auto
    then have "stored_branch ne ?st (nd_chain n') (nd_chain n # ?vs)"
      using num store_fetch [OF assms(5), of "nd_store n"] a(1) by (auto intro!: stored_branch.stored_block)
    then show ?thesis using a(2,3) f bs_store_ok [OF s(2)] by (simp add: stored_at_head [OF h'])
  qed
qed

lemma pop_block_stored:
  assumes "pop_block ne n = (r, n')" "at_head ne n" "blocks_stored ne n"
  shows "blocks_stored ne n'"
proof -
  have r: "reset_session n = n" using assms(2) by (simp add: at_head_iff reset_session_def)
  show ?thesis
  proof (cases "take_head ne n")
    case (Inl e)
    then show ?thesis using assms r by (simp add: pop_block_def)
  next
    case (Inr p)
    then obtain b f where p: "p = (b, n\<lparr>nd_fork := f\<rparr>)" "fork_pop_block (nd_fork n) = Inr f"
      by (auto simp: take_head_def bindE_Inr_iff)
    have "fork_packable ne f" using fork_packable_sub [OF _ fork_items_ops(3) [OF p(2)]] assms(3) by (simp add: blocks_stored_def)
    note m = stored_fork [OF assms(3) this]
    have s: "stored_branch ne (nd_store n) (nd_chain n) (h_saved (nd_hist n))" using assms(2,3) stored_at_head by blast
    show ?thesis
    proof (cases "h_saved (nd_hist n)")
      case Nil
      then show ?thesis using assms r Inr p(1) m by (auto simp: pop_block_def h_pop_commit_def guardE_def at_head_iff)
    next
      case (Cons v vs)
      then have "stored_branch ne (nd_store n) v vs" using s by (auto simp: stored_branch_Cons)
      then show ?thesis using assms(1,2) r Inr p(1) m Cons
        by (auto simp: pop_block_def h_pop_commit_def at_head_iff blocks_stored_def nd_base_def nd_below_def)
    qed
  qed
qed

definition housed :: "node_env \<Rightarrow> node \<Rightarrow> bool" where "housed ne n \<longleftrightarrow> at_head ne n \<and> blocks_stored ne n"

lemma housed_pop_until: "keeps (housed ne) (pop_until ne i)"
proof -
  have "housed ne n \<Longrightarrow> pop_until ne i n = Some (r, n') \<Longrightarrow> housed ne n'" for n r n'
  proof (induction ne i n rule: pop_until.induct)
    case (1 ne i n)
    obtain q m where p: "pop_block ne n = (q, m)" by (cases "pop_block ne n")
    have m: "housed ne m" using "1.prems"(1) pop_block_at_head [OF p] pop_block_stored [OF p] by (simp add: housed_def)
    show ?case
    proof (cases "nd_head_id n = i")
      case True
      then show ?thesis using "1.prems" by (simp add: pop_until.simps)
    next
      case False
      then show ?thesis using "1.prems"(2) "1.IH" [OF False p [symmetric]] m p
        by (cases q) (simp_all add: pop_until.simps [of ne i n])
    qed
  qed
  then show ?thesis by (auto simp: keeps_def)
qed

lemma housed_apply:
  assumes "housed ne n" "\<not> skip_undo_history_check sk" "packable ne b" "apply_and_store ne sk (block_id_of ne b) b n = Some (r, n')"
  shows "housed ne n'"
  using assms keepsD [OF apply_and_store_at_head [OF assms(2)]] apply_and_store_stored unfolding housed_def by blast

text \<open>A fork switch that succeeds.\<close>

lemma housed_push_branch:
  assumes "\<not> skip_undo_history_check sk" "list_all (item_packable ne) its" "housed ne n" "push_branch ne sk nb good its n = Some (Inr u, n')"
  shows "housed ne n'"
  using assms(2-4)
proof (induction its arbitrary: n)
  case Nil
  then show ?case by (simp add: returnN_def)
next
  case (Cons it its)
  then obtain m where m: "apply_and_store ne sk (fi_id it) (fi_data it) n = Some (Inr (), m)" "push_branch ne sk nb good its m = Some (Inr u, n')"
    by (auto simp: bindN_Some_iff catchN_Some_iff throwN_def)
  have it: "fi_id it = block_id_of ne (fi_data it)" "packable ne (fi_data it)" using Cons.prems(1) by (simp_all add: item_packable_def)
  have "housed ne m" by (rule housed_apply [OF Cons.prems(2) assms(1) it(2) m(1) [unfolded it(1)]])
  then show ?case using Cons.IH [OF _ _ m(2)] Cons.prems(1) by simp
qed

lemma housed_switch:
  assumes "\<not> skip_undo_history_check sk" "housed ne n" "switch_fork ne sk b h n = Some (Inr u, n')"
  shows "housed ne n'"
proof -
  obtain xs ys where f: "fetch_branch_from (2 ^ 32) (nd_fork n) (block_id_of ne (fi_data h)) (nd_head_id n) = Some (Inr (xs, ys))"
    and s: "bindN (pop_until ne (fi_previous_id (last ys))) (\<lambda>_. push_branch ne sk b ys (rev xs)) n = Some (Inr u, n')"
    using assms(3) by (auto simp: switch_fork_def split: option.splits sum.splits prod.splits)
  obtain m where m: "pop_until ne (fi_previous_id (last ys)) n = Some (Inr (), m)" "push_branch ne sk b ys (rev xs) m = Some (Inr u, n')"
    using s by (auto simp: bindN_Some_iff)
  have "list_all (item_packable ne) (rev xs)"
    using fetch_branch_items [OF f] assms(2) by (auto simp: list_all_iff housed_def blocks_stored_def fork_packable_def)
  then show ?thesis using housed_push_branch [OF assms(1) _ keepsD [OF housed_pop_until assms(2) m(1)] m(2)] by blast
qed

lemma housed_extend:
  assumes "\<not> skip_undo_history_check sk" "housed ne n" "packable ne b" "extend_head ne sk b n = Some (r, n')"
  shows "housed ne n'"
proof -
  obtain q m where m: "apply_and_store ne sk (block_id_of ne b) b n = Some (q, m)" "n' = m \<or> n' = upd_fork (fork_remove (block_id_of ne b)) m"
    using assms(4) by (auto simp: extend_head_def bindN_Some_iff catchN_Some_iff updN_def throwN_def returnN_def)
  have h: "housed ne m" by (rule housed_apply [OF assms(2,1,3) m(1)])
  then have "blocks_stored ne (m\<lparr>nd_fork := fork_remove (block_id_of ne b) (nd_fork m)\<rparr>)"
    unfolding housed_def by (intro stored_fork) (auto simp: blocks_stored_def intro: fork_packable_sub [OF _ fork_items_ops(2)])
  then show ?thesis using h m(2) upd_fork_at_head [of ne _ m] by (auto simp: housed_def upd_fork_def)
qed

lemma housed_push_inner:
  assumes "\<not> skip_undo_history_check sk" "housed ne n" "packable ne b" "push_block_inner ne sk b n = Some (r, n')"
    and "no_switch ne sk b n \<or> r = Inr u"
  shows "housed ne n'"
proof (cases "skip_fork_db sk")
  case True
  then show ?thesis using assms housed_extend by (simp add: push_block_inner_def)
next
  case False
  show ?thesis
  proof (cases "fork_push_block (ne_block_sha ne) b (nd_fork n)")
    case (Inl x)
    then show ?thesis using assms(2,4) False by (simp add: push_block_inner_def bindN_def fork_push_def)
  next
    case (Inr p)
    obtain o1 f where p: "p = (o1, f)" by (cases p)
    let ?n = "n\<lparr>nd_fork := f\<rparr>"
    have "fork_packable ne f" using fork_packable_push [OF _ _ assms(3), of "nd_fork n"] Inr p assms(2) by (auto simp: housed_def blocks_stored_def)
    then have h: "housed ne ?n" using assms(2) stored_fork by (simp add: housed_def at_head_iff)
    show ?thesis
    proof (cases o1)
      case None
      then show ?thesis using assms(4) False Inr p h by (auto simp: push_block_inner_def bindN_def fork_push_def)
    next
      case (Some it)
      have base: "nd_base n = nd_chain n" "nd_head_id ?n = nd_head_id n" using assms(2) by (simp_all add: housed_def nd_base_def at_head_iff nd_head_id_def)
      have r: "(if previous (fi_data it) \<noteq> nd_head_id ?n then
          if unat (block_num (fi_data it)) > head_block_num (nd_chain ?n) then bindN (switch_fork ne sk b it) (\<lambda>_. returnN True) ?n else returnN False ?n
          else extend_head ne sk b ?n) = Some (r, n')"
        using assms(4) False Inr p Some by (simp add: push_block_inner_def bindN_def fork_push_def)
      consider (switch) u where "switch_fork ne sk b it ?n = Some (Inr u, n')" | (stay) "n' = ?n" | (extend) "extend_head ne sk b ?n = Some (r, n')"
        using r assms(5) False Inr p Some base
        by (auto simp: no_switch_def bindN_Some_iff returnN_def nd_head_id_def split: if_splits)
      then show ?thesis
      proof cases
        case switch
        then show ?thesis by (rule housed_switch [OF assms(1) h])
      next
        case stay
        then show ?thesis using h by simp
      next
        case extend
        then show ?thesis by (rule housed_extend [OF assms(1) h assms(3)])
      qed
    qed
  qed
qed

section \<open>Properties\<close>


lemma demo_node_stored: "blocks_stored demo_node_env demo_node" "packable demo_node_env demo_next_block"
  by (simp_all add: blocks_stored_def demo_node_def nd_base_def nd_below_def stored_branch.stored_start bs_ok_def fork_packable_def fork_items_def
      packable_def codec_def demo_node_env_def demo_unpack_block_def)


end
