(* ===== verification/Production.thy ===== *)
theory Production
  imports Node
begin

text \<open>
  Producing blocks, replaying stored blocks at start-up, and closing (\<open>database.cpp\<close>). The key of the witness and the signature it
  gives to a header are arguments. Replaying runs with the undo database disabled; an exception there ends the start-up.
\<close>

section \<open>Generating a block\<close>

definition MUSE_BLOCKCHAIN_VERSION :: version where "MUSE_BLOCKCHAIN_VERSION = mk_version 0 3 2"
definition MUSE_BLOCKCHAIN_HARDFORK_VERSION :: version where "MUSE_BLOCKCHAIN_HARDFORK_VERSION = hardfork_version MUSE_BLOCKCHAIN_VERSION"
definition MUSE_MAX_TRANSACTION_SIZE :: nat where "MUSE_MAX_TRANSACTION_SIZE = 1024 * 64"
definition MUSE_MAX_BLOCK_SIZE :: nat where "MUSE_MAX_BLOCK_SIZE = MUSE_MAX_TRANSACTION_SIZE * MUSE_BLOCK_INTERVAL * 2000"

text \<open>What a witness reports in the header: the version it runs, and its vote on the next hardfork, which the code corrects to
  what the binary is configured for.\<close>

definition vote_for :: "nat \<Rightarrow> block_header_extension" where
  "vote_for k = Ext_hardfork_vote \<lparr>hf_version = hardfork_versions ! k, hf_time = hardfork_times ! k\<rparr>"

definition reported_extensions :: "witness \<Rightarrow> hardfork_property \<Rightarrow> block_header_extension list" where
  "reported_extensions w h =
     (if wit_running_version w \<noteq> MUSE_BLOCKCHAIN_VERSION then [Ext_version MUSE_BLOCKCHAIN_VERSION] else []) @
     (if version_lt (hf_current_hardfork_version h) MUSE_BLOCKCHAIN_HARDFORK_VERSION \<and>
         (wit_hardfork_version_vote w \<noteq> hardfork_versions ! (hf_last_hardfork h + 1) \<or>
          wit_hardfork_time_vote w \<noteq> hardfork_times ! (hf_last_hardfork h + 1))
      then [vote_for (hf_last_hardfork h + 1)]
      else if hf_current_hardfork_version h = MUSE_BLOCKCHAIN_HARDFORK_VERSION \<and>
              version_gt (wit_hardfork_version_vote w) MUSE_BLOCKCHAIN_HARDFORK_VERSION
      then [vote_for (hf_last_hardfork h)]
      else [])"

text \<open>One pending transaction in a session of its own; the result says whether it was applied.\<close>

definition try_transaction :: "node_env \<Rightarrow> skip_flags \<Rightarrow> signed_transaction \<Rightarrow> bool act" where
  "try_transaction ne sk trx n =
     (let n = start_session n in
      case apply_transaction ne sk trx (nd_chain n) of
        None \<Rightarrow> None
      | Some (Inl e) \<Rightarrow> Some (Inr False, drop_session n)
      | Some (Inr s) \<Rightarrow>
          let n = n\<lparr>nd_hist := (nd_hist n)\<lparr>h_now := s\<rparr>\<rparr> in
          (case on_hist h_merge n of Inl e \<Rightarrow> Some (Inr False, drop_session n) | Inr n \<Rightarrow> Some (Inr True, n)))"

text \<open>The loop over the pending transactions: expired ones are left out, those that do not fit are postponed, those that fail
  are dropped.\<close>

primrec fill_block :: "node_env \<Rightarrow> skip_flags \<Rightarrow> time_sec \<Rightarrow> nat \<Rightarrow> signed_transaction list \<Rightarrow> nat \<Rightarrow> signed_transaction list \<Rightarrow> signed_transaction list act" where
  "fill_block ne sk at_time max_block [] total_size txs = returnN txs"
| "fill_block ne sk at_time max_block (trx # pending) total_size txs =
     (if tx_expiration trx < at_time \<or> total_size + ne_tx_size ne trx \<ge> max_block
      then fill_block ne sk at_time max_block pending total_size txs
      else
        bindN (try_transaction ne sk trx) (\<lambda>applied.
        if applied then fill_block ne sk at_time max_block pending (total_size + ne_tx_size ne trx) (txs @ [trx])
        else fill_block ne sk at_time max_block pending total_size txs))"

definition check_producer :: "skip_flags \<Rightarrow> time_sec \<Rightarrow> string \<Rightarrow> public_key \<Rightarrow> chain \<Rightarrow> witness res" where
  "check_producer sk at_time owner key s =
     (let slot_num = get_slot_at_time at_time s in
      guardE (slot_num > 0) (
      bindE (get_scheduled_witness slot_num s) (\<lambda>scheduled.
      guardE (scheduled = owner) (
      bindE (get_witness owner s) (\<lambda>(k, w).
      guardE (skip_witness_signature sk \<or> wit_signing_key w = key) (Inr w))))))"

definition empty_block :: "time_sec \<Rightarrow> string \<Rightarrow> witness \<Rightarrow> chain \<Rightarrow> block" where
  "empty_block at_time owner w s =
     \<lparr>previous = head_block_id (dgp s), timestamp = at_time, witness = owner, transaction_merkle_root = 0,
      extensions = reported_extensions w (hardforks s), witness_signature = 0, transactions = []\<rparr>"

text \<open>Signing sets the signature and nothing else; the signature of the header, \<open>sign_compact\<close> of its digest, is a parameter.\<close>

definition sign_header :: "(block \<Rightarrow> nat) \<Rightarrow> block \<Rightarrow> block" where
  "sign_header sign b = b\<lparr>witness_signature := sign b\<rparr>"

definition generate_block :: "node_env \<Rightarrow> skip_flags \<Rightarrow> time_sec \<Rightarrow> string \<Rightarrow> public_key \<Rightarrow> (block \<Rightarrow> nat) \<Rightarrow> block act" where
  "generate_block ne sk at_time owner key sign n =
     (case check_producer sk at_time owner key (nd_chain n) of
        Inl e \<Rightarrow> Some (Inl e, n)
      | Inr w \<Rightarrow>
          let b = empty_block at_time owner w (nd_chain n); max_block = maximum_block_size (dgp (nd_chain n)) in
          bindN (updN (\<lambda>n. (start_session (reset_session n))\<lparr>nd_session := True\<rparr>)) (\<lambda>_.
          bindN (fill_block ne sk at_time max_block (nd_pending n) (block_size ne b + 4) []) (\<lambda>txs.
          bindN (updN reset_session) (\<lambda>_.
          let b = b\<lparr>transactions := txs\<rparr>;
              b = b\<lparr>transaction_merkle_root := calculate_merkle_root (ne_pair_hash ne) (ne_root_hash ne) (ne_tx_digest ne) b\<rparr>;
              b = (if skip_witness_signature sk then b else sign_header sign b) in
          if skip_block_size_check sk \<or> block_size ne b \<le> MUSE_MAX_BLOCK_SIZE
          then bindN (push_block ne sk b) (\<lambda>_. returnN b)
          else throwN Assert_exn))) n)"

section \<open>Replaying stored blocks\<close>

text \<open>\<open>cutoff_blocks\<close>: the blocks after a gap leave the block database. A round that does not shorten it would repeat without
  end, which is the result \<open>None\<close> of the fuel.\<close>

primrec cutoff_loop :: "nat \<Rightarrow> node_env \<Rightarrow> nat \<Rightarrow> block_store \<Rightarrow> block_store run" where
  "cutoff_loop 0 ne until st = None"
| "cutoff_loop (Suc f) ne until st =
     (case bs_last_id (ne_block_sha ne) (ne_unpack ne) st of
        (None, st) \<Rightarrow> Some (Inr st)
      | (Some i, st) \<Rightarrow>
          if unat (num_from_id i) > until then bindR (Some (bs_remove i st)) (cutoff_loop f ne until) else Some (Inr st))"

definition cutoff_blocks :: "node_env \<Rightarrow> nat \<Rightarrow> unit act" where
  "cutoff_blocks ne until n =
     (case cutoff_loop (length (bs_index (nd_store n)) + 1) ne until (nd_store n) of
        None \<Rightarrow> None
      | Some (Inl e) \<Rightarrow> Some (Inl e, n)
      | Some (Inr st) \<Rightarrow> Some (Inr (), n\<lparr>nd_store := st\<rparr>))"

text \<open>\<open>reindex_range\<close> for \<open>k\<close> blocks from number \<open>i\<close>; the result is the number after the last block read.\<close>

primrec reindex_range :: "node_env \<Rightarrow> (block \<Rightarrow> unit act) \<Rightarrow> nat \<Rightarrow> nat \<Rightarrow> nat act" where
  "reindex_range ne f 0 i = returnN i"
| "reindex_range ne f (Suc k) i = (\<lambda>n.
     case bs_fetch_by_number (ne_block_sha ne) (ne_unpack ne) (of_nat i) (nd_store n) of
       None \<Rightarrow> bindN (cutoff_blocks ne i) (\<lambda>_. returnN i) n
     | Some b \<Rightarrow> bindN (f b) (\<lambda>_. reindex_range ne f k (i + 1)) n)"

definition reindex_skip :: skip_flags where
  "reindex_skip = skip_nothing\<lparr>skip_witness_signature := True, skip_transaction_signatures := True, skip_transaction_dupe_check := True,
     skip_tapos_check := True, skip_witness_schedule_check := True, skip_authority_check := True, skip_validate := True,
     skip_validate_invariants := True\<rparr>"

text \<open>Blocks up to a given one are applied without undo history, if there are any to apply.\<close>

definition reindex_upto :: "node_env \<Rightarrow> nat \<Rightarrow> nat \<Rightarrow> nat \<Rightarrow> nat act" where
  "reindex_upto ne last_num margin first =
     (if last_num > margin \<and> first < last_num - margin
      then reindex_range ne (node_apply_block ne reindex_skip) (last_num - margin + 1 - first) first
      else returnN first)"

definition start_fork :: "node_env \<Rightarrow> nat \<Rightarrow> node \<Rightarrow> node" where
  "start_fork ne first n =
     (if first > 1 then
        (case bs_fetch_by_number (ne_block_sha ne) (ne_unpack ne) (of_nat (first - 1)) (nd_store n) of
           Some b \<Rightarrow> upd_fork (start_block (ne_block_sha ne) b) n
         | None \<Rightarrow> n)
      else n)"

definition reindex :: "node_env \<Rightarrow> unit act" where
  "reindex ne n =
     (case bs_last (ne_block_sha ne) (ne_unpack ne) (nd_store n) of
        (None, st) \<Rightarrow> Some (Inr (), n\<lparr>nd_store := st\<rparr>)
      | (Some last_block, st) \<Rightarrow>
          let n = n\<lparr>nd_store := st\<rparr>; last_num = block_number last_block in
          if last_num \<le> head_block_num (nd_chain n) then Some (Inr (), n)
          else
            bindN (reindex_upto ne last_num (2 * MUSE_MAX_UNDO_HISTORY) (head_block_num (nd_chain n) + 1)) (\<lambda>first.
            bindN (reindex_upto ne last_num MUSE_MAX_UNDO_HISTORY first) (\<lambda>first.
            bindN (updN (start_fork ne first)) (\<lambda>_.
            bindN (reindex_range ne (\<lambda>b. bindN (push_block ne skip_nothing b) (\<lambda>_. returnN ())) (last_num + 1 - first) first) (\<lambda>_.
            returnN ())))) n)"

section \<open>Closing\<close>

text \<open>The blocks above the last irreversible one are popped, as far as the undo history reaches.\<close>

function rewind :: "node_env \<Rightarrow> nat \<Rightarrow> node \<Rightarrow> node" where
  "rewind ne cutoff n =
     (if head_block_num (nd_chain n) > cutoff then
        case pop_block ne n of
          (Inl e, n') \<Rightarrow> n'
        | (Inr _, n') \<Rightarrow> rewind ne cutoff (upd_fork (fork_remove (nd_head_id n)) n')
      else n)"
  by pat_completeness auto
termination
  by (relation "measure (\<lambda>(ne, c, n). length (h_saved (nd_hist n)))") (auto simp: upd_fork_def dest!: pop_block_shorter [OF sym])

declare rewind.simps [simp del]

definition close_node :: "node_env \<Rightarrow> bool \<Rightarrow> node \<Rightarrow> node" where
  "close_node ne rewinding n =
     (let n = (if rewinding then rewind ne (last_irreversible_block_num (dgp (nd_chain n))) (clear_pending n) else n) in
      upd_fork fork_reset (clear_pending n))"

section \<open>Hardforks set by hand\<close>

definition set_next_hardfork :: "nat \<Rightarrow> chain \<Rightarrow> chain" where
  "set_next_hardfork i s = s\<lparr>hardforks := (hardforks s)\<lparr>hf_next_hardfork := hardfork_versions ! i, hf_next_hardfork_time := head_block_time s\<rparr>\<rparr>"

definition set_hardfork :: "nat \<Rightarrow> bool \<Rightarrow> chain \<Rightarrow> chain res" where
  "set_hardfork hardfork apply_now s =
     foldE (\<lambda>i s. let s = set_next_hardfork i s in if apply_now then apply_hardfork i s else Inr s)
       [hf_last_hardfork (hardforks s) + 1 ..< min hardfork MUSE_NUM_HARDFORKS + 1] s"

end
