(* ===== verification/Asset_Text.thy ===== *)
theory Asset_Text
  imports Chain_State
begin

text \<open>
  Amounts as text: \<open>asset::to_string\<close> and \<open>from_string\<close> (\<open>protocol/asset.cpp\<close>) and \<open>asset_object::amount_to_string\<close> and
  \<open>amount_from_string\<close> (\<open>asset_object.cpp\<close>), with the parts of the standard library they use. The conversions \<open>fc::to_int64\<close>,
  \<open>fc::to_uint64\<close> and \<open>fc::trim\<close> are outside the sources and are arguments.
\<close>

section \<open>The standard library\<close>

definition digit_char :: "nat \<Rightarrow> char" where "digit_char d = ''0123456789'' ! d"

fun decimal :: "nat \<Rightarrow> string" where
  "decimal n = (if n < 10 then [digit_char n] else decimal (n div 10) @ [digit_char (n mod 10)])"

declare decimal.simps [simp del]

text \<open>\<open>std::to_string\<close> and \<open>fc::to_string\<close> of a signed integer.\<close>

definition to_string :: "int \<Rightarrow> string" where
  "to_string i = (if i < 0 then CHR ''-'' # decimal (nat (- i)) else decimal (nat i))"

definition digits_value :: "string \<Rightarrow> nat" where
  "digits_value s = foldl (\<lambda>v c. 10 * v + (of_char c - 48)) 0 s"

text \<open>Positions in a string; \<open>npos\<close> is the largest \<open>size_t\<close>.\<close>

definition npos :: nat where "npos = 2 ^ 64 - 1"

definition find_from :: "char \<Rightarrow> nat \<Rightarrow> string \<Rightarrow> nat" where
  "find_from c i s = (case find (\<lambda>j. s ! j = c) [i..<length s] of None \<Rightarrow> npos | Some j \<Rightarrow> j)"

definition substr :: "nat \<Rightarrow> nat \<Rightarrow> string \<Rightarrow> string res" where
  "substr pos n s = (if pos > length s then Inl Other_exn else Inr (take n (drop pos s)))"

definition after_npos :: "nat \<Rightarrow> nat" where "after_npos i = (i + 1) mod 2 ^ 64"

text \<open>\<open>std::stoll\<close>: white space, a sign, and the longest run of digits; what follows is ignored.\<close>

definition is_space :: "char \<Rightarrow> bool" where "is_space c \<longleftrightarrow> of_char c = (32 :: nat) \<or> 9 \<le> (of_char c :: nat) \<and> (of_char c :: nat) \<le> 13"

definition stoll :: "string \<Rightarrow> int res" where
  "stoll s =
     (let s = dropWhile is_space s;
          neg = (s \<noteq> [] \<and> hd s = CHR ''-'');
          s = (if s \<noteq> [] \<and> (hd s = CHR ''-'' \<or> hd s = CHR ''+'') then tl s else s);
          ds = takeWhile is_digit s;
          v = (if neg then - int (digits_value ds) else int (digits_value ds)) in
      if ds = [] then Inl Other_exn else if in_int64 v then Inr v else Inl Overflow_exn)"

text \<open>Values of 64 bits, signed and unsigned.\<close>

definition wrap_int64 :: "int \<Rightarrow> int" where "wrap_int64 x = (x + 2 ^ 63) mod 2 ^ 64 - 2 ^ 63"

definition crem :: "int \<Rightarrow> int \<Rightarrow> int" where "crem a b = a - b * cdiv a b"

section \<open>Assets\<close>

definition implementation_ids :: nat where "implementation_ids = 2"
definition impl_asset_object_type :: nat where "impl_asset_object_type = 28"
definition MUSE_ASSET_PRECISION :: nat where "MUSE_ASSET_PRECISION = 6"

definition id_string :: "nat \<Rightarrow> nat \<Rightarrow> nat \<Rightarrow> string" where
  "id_string sp ty i = decimal sp @ ''.'' @ decimal ty @ ''.'' @ decimal i"

definition asset_to_string :: "asset \<Rightarrow> string" where
  "asset_to_string a =
     (let init_digits = cdiv (amount a) static_precision;
          fraction = crem (amount a) static_precision mod 2 ^ 64 in
      to_string init_digits @ ''.'' @ tl (decimal (nat ((static_precision + fraction) mod 2 ^ 64))) @ '' '' @
      id_string implementation_ids impl_asset_object_type (asset_id a))"

record text_lib =
  tl_trim :: "string \<Rightarrow> string"
  tl_to_int64 :: "string \<Rightarrow> int res"
  tl_to_uint64 :: "string \<Rightarrow> int res"

text \<open>The amount before the first blank, and the instance number of the asset after the second dot of the id.\<close>

definition amount_part :: "text_lib \<Rightarrow> string \<Rightarrow> nat \<Rightarrow> nat \<Rightarrow> int res" where
  "amount_part l s dot_pos space_pos =
     (if space_pos < dot_pos then
        bindE (substr 0 space_pos s) (\<lambda>intpart. bindE (tl_to_int64 l intpart) (\<lambda>i. Inr (wrap_int64 (i * static_precision))))
      else
        bindE (substr 0 dot_pos s) (\<lambda>intpart.
        bindE (tl_to_int64 l intpart) (\<lambda>i.
        bindE (substr (dot_pos + 1) (min (space_pos - dot_pos - 1) MUSE_ASSET_PRECISION) s) (\<lambda>fractpart.
        bindE (tl_to_int64 l (fractpart @ replicate (MUSE_ASSET_PRECISION - length fractpart) CHR ''0'')) (\<lambda>fract.
        Inr (wrap_int64 (wrap_int64 (i * static_precision) + fract)))))))"

definition asset_part :: "text_lib \<Rightarrow> string \<Rightarrow> nat res" where
  "asset_part l asset_id_s =
     (let first_dot = find_from CHR ''.'' 0 asset_id_s;
          second_dot = find_from CHR ''.'' (after_npos first_dot) asset_id_s in
      guardE (first_dot \<noteq> second_dot) (
      guardE (first_dot \<noteq> 0 \<and> first_dot \<noteq> npos) (
      bindE (substr (after_npos second_dot) npos asset_id_s) (\<lambda>number_s.
      bindE (tl_to_uint64 l number_s) (\<lambda>number.
      guardE (number < 2 ^ 48) (Inr (nat number)))))))"

definition asset_from_string :: "text_lib \<Rightarrow> string \<Rightarrow> asset res" where
  "asset_from_string l str =
     (let s = tl_trim l str; dot_pos = find_from CHR ''.'' 0 s; space_pos = find_from CHR '' '' 0 s in
      guardE (space_pos \<noteq> npos) (
      bindE (amount_part l s dot_pos space_pos) (\<lambda>amt.
      bindE (substr (space_pos + 1) npos s) (\<lambda>asset_id_s.
      bindE (asset_part l asset_id_s) (\<lambda>i. Inr (mk_asset amt i))))))"

section \<open>Amounts of an asset object\<close>

text \<open>The characters are digits, one minus sign and one point, in any order.\<close>

fun amount_chars :: "bool \<Rightarrow> bool \<Rightarrow> string \<Rightarrow> (bool \<times> bool) res" where
  "amount_chars neg dec [] = Inr (neg, dec)"
| "amount_chars neg dec (c # cs) =
     (if is_digit c then amount_chars neg dec cs
      else if c = CHR ''-'' \<and> \<not> neg then amount_chars True dec cs
      else if c = CHR ''.'' \<and> \<not> dec then amount_chars neg True cs
      else Inl Other_exn)"

definition amount_from_string :: "nat \<Rightarrow> asset_object \<Rightarrow> string \<Rightarrow> asset res" where
  "amount_from_string i x amount_string =
     bindE (amount_chars False False amount_string) (\<lambda>(negative_found, decimal_found).
     bindE (scaled_precision (aso_precision x)) (\<lambda>scale.
     let decimal_pos = find_from CHR ''.'' 0 amount_string in
     bindE (substr (if negative_found then 1 else 0) decimal_pos amount_string) (\<lambda>lhs.
     bindE (if lhs \<noteq> [] then bindE (stoll lhs) (\<lambda>v. safe_mul v scale) else Inr 0) (\<lambda>satoshis.
     bindE (if decimal_found then
              let max_rhs_size = length (tl (to_string scale)) in
              bindE (substr (decimal_pos + 1) npos amount_string) (\<lambda>rhs.
              guardE (length rhs \<le> max_rhs_size) (
              let rhs = rhs @ replicate (max_rhs_size - length rhs) CHR ''0'' in
              if rhs \<noteq> [] then bindE (stoll rhs) (safe_add satoshis) else Inr satoshis))
            else Inr satoshis) (\<lambda>satoshis.
     guardE (satoshis \<le> MUSE_MAX_SHARE_SUPPLY) (
     bindE (if negative_found then safe_mul satoshis (- 1) else Inr satoshis) (\<lambda>satoshis.
     Inr (mk_asset satoshis i))))))))"

definition amount_to_string :: "asset_object \<Rightarrow> share \<Rightarrow> string res" where
  "amount_to_string x amt =
     bindE (scaled_precision_loop (aso_precision x) 1) (\<lambda>scale.
     let decimals = crem amt scale in
     Inr (to_string (cdiv amt scale) @ (if decimals \<noteq> 0 then ''.'' @ tl (to_string (scale + decimals)) else [])))"

section \<open>Digits\<close>

lemma below_ten: "d < (10::nat) \<Longrightarrow> d = 0 \<or> d = 1 \<or> d = 2 \<or> d = 3 \<or> d = 4 \<or> d = 5 \<or> d = 6 \<or> d = 7 \<or> d = 8 \<or> d = 9"
  by presburger

lemma of_digit_char: "d < 10 \<Longrightarrow> of_char (digit_char d) = 48 + d"
  by (auto dest!: below_ten simp: digit_char_def)

lemma is_digit_char: "d < 10 \<Longrightarrow> is_digit (digit_char d)"
  by (auto dest!: below_ten simp: digit_char_def is_digit_def)

lemma is_digitD: "is_digit c \<Longrightarrow> \<not> is_space c \<and> c \<noteq> CHR ''-'' \<and> c \<noteq> CHR ''+''"
  by (auto simp: is_digit_def is_space_def)

lemma digits_value_snoc: "digits_value (s @ [c]) = 10 * digits_value s + (of_char c - 48)"
  by (simp add: digits_value_def)

lemma digits_value_Cons: "digits_value (c # s) = (of_char c - 48) * 10 ^ length s + digits_value s"
proof (induction s rule: rev_induct)
  case (snoc x s)
  have "digits_value (c # s @ [x]) = 10 * digits_value (c # s) + (of_char x - 48)" using digits_value_snoc [of "c # s" x] by simp
  then show ?case using snoc by (simp add: digits_value_snoc algebra_simps)
qed (simp add: digits_value_def)

lemma decimal_digits [simp]: "list_all is_digit (decimal n)" "decimal n \<noteq> []" "digits_value (decimal n) = n" "length (decimal n) \<le> Suc n"
proof (induction n rule: decimal.induct)
  case (1 n)
  { case 1 then show ?case using "1.IH"(1) by (subst decimal.simps) (auto simp: is_digit_char)
  next case 2 then show ?case by (subst decimal.simps) simp
  next case 3 then show ?case using "1.IH"(3) by (subst decimal.simps) (auto simp: digits_value_snoc of_digit_char digits_value_def)
  next case 4 then show ?case using "1.IH"(4) by (subst decimal.simps) auto }
qed

lemma decimal_pad:
  "r < 10 ^ k \<Longrightarrow> \<exists>ds. decimal (10 ^ k + r) = CHR ''1'' # ds \<and> length ds = k \<and> list_all is_digit ds \<and> digits_value ds = r"
proof (induction k arbitrary: r)
  case 0
  then show ?case by (subst decimal.simps) (simp add: digit_char_def digits_value_def)
next
  case (Suc k)
  have "r div 10 < 10 ^ k" using Suc.prems by (simp add: less_mult_imp_div_less mult.commute)
  with Suc.IH obtain ds where d: "decimal (10 ^ k + r div 10) = CHR ''1'' # ds" "length ds = k" "list_all is_digit ds" "digits_value ds = r div 10"
    by blast
  have "decimal (10 ^ Suc k + r) = decimal ((10 ^ Suc k + r) div 10) @ [digit_char ((10 ^ Suc k + r) mod 10)]"
  proof -
    have "10 * 1 \<le> 10 * (10::nat) ^ k" by (intro mult_le_mono2) simp
    then have "\<not> 10 ^ Suc k + r < 10" by (simp only: power_Suc)
    then show ?thesis by (subst decimal.simps) (simp only: if_False)
  qed
  moreover have "(10 ^ Suc k + r) div 10 = 10 ^ k + r div 10" "(10 ^ Suc k + r) mod 10 = r mod 10" by simp_all
  ultimately have "decimal (10 ^ Suc k + r) = CHR ''1'' # ds @ [digit_char (r mod 10)]" using d(1) by simp
  then show ?case using d by (intro exI [of _ "ds @ [digit_char (r mod 10)]"]) (simp add: digits_value_snoc of_digit_char is_digit_char)
qed

lemma stoll_digits: "list_all is_digit ds \<Longrightarrow> ds \<noteq> [] \<Longrightarrow> digits_value ds < 2 ^ 63 \<Longrightarrow> stoll ds = Inr (int (digits_value ds))"
  by (cases ds) (auto simp: stoll_def Let_def in_int64_def int64_min_def int64_max_def list_all_iff takeWhile_eq_all_conv [THEN iffD2] dest: is_digitD)

lemma amount_chars_digits: "list_all is_digit ds \<Longrightarrow> amount_chars neg dec (ds @ s) = amount_chars neg dec s"
  by (induction ds) simp_all

lemma find_from_here: "find_from c i (p @ c # q) = length p" if "i \<le> length p" "c \<notin> set (drop i p)"
proof -
  have "(p @ c # q) ! (i + k) \<noteq> c" if "k < length p - i" for k
    using \<open>c \<notin> set (drop i p)\<close> that by (auto simp: nth_append set_conv_nth)
  moreover have "k < length (p @ c # q) - i \<Longrightarrow> [i..<length (p @ c # q)] ! k = i + k" for k by (simp only: nth_upt less_diff_conv2 add.commute)
  ultimately have "find (\<lambda>j. (p @ c # q) ! j = c) [i..<length (p @ c # q)] = Some (length p)"
    unfolding find_Some_iff using \<open>i \<le> length p\<close> by (intro exI [of _ "length p - i"]) (simp del: upt_Suc)
  then show ?thesis by (simp add: find_from_def)
qed

lemma find_from_none: "c \<notin> set s \<Longrightarrow> find_from c i s = npos"
proof -
  assume "c \<notin> set s"
  then have "find (\<lambda>j. s ! j = c) [i..<length s] = None" by (auto simp: find_None_iff)
  then show ?thesis by (simp add: find_from_def)
qed

lemma not_digit: "list_all is_digit ds \<Longrightarrow> \<not> is_digit c \<Longrightarrow> c \<notin> set ds" by (auto simp: list_all_iff)

lemma no_digits [simp]: "\<not> is_digit CHR ''.''" "\<not> is_digit CHR '' ''" "\<not> is_digit CHR ''-''" by (simp_all add: is_digit_def)

lemma scaled_loop: "scaled_precision_loop n r = Inr q \<Longrightarrow> q = r * 10 ^ n"
  by (induction n arbitrary: r) (fastforce simp: res_simps)+

lemma scaled_loop_runs: "0 < r \<Longrightarrow> r * 10 ^ n < 2 ^ 63 \<Longrightarrow> scaled_precision_loop n r = Inr (r * 10 ^ n)"
proof (induction n arbitrary: r)
  case (Suc n)
  have "r * 10 \<le> r * 10 ^ Suc n" using Suc.prems by simp
  then have "in_int64 (r * 10)" using Suc.prems unfolding in_int64_def int64_min_def int64_max_def by linarith
  then show ?case using Suc.IH [of "r * 10"] Suc.prems by (simp add: safe_mul_def safeE_def bindE_def)
qed simp

lemma scale_runs: "p < 19 \<Longrightarrow> scaled_precision_loop p 1 = Inr (10 ^ p)"
proof -
  assume "p < 19"
  then have "(10::int) ^ p \<le> 10 ^ 18" by (intro power_increasing) auto
  then show ?thesis using scaled_loop_runs [of 1 p] by simp
qed

lemma crem_nonneg: "0 \<le> a \<Longrightarrow> 0 < b \<Longrightarrow> crem a b = a mod b"
  by (simp add: crem_def minus_mult_div_eq_mod)

section \<open>Round trips\<close>

text \<open>The digits after the point: of an amount in units of \<open>10 ^ p\<close>, exactly \<open>p\<close> of them.\<close>

lemma fraction_digits:
  assumes "0 \<le> r" "r < 10 ^ p"
  obtains ds where "tl (to_string (10 ^ p + r)) = ds" "length ds = p" "list_all is_digit ds" "digits_value ds = nat r"
proof -
  have "nat r < 10 ^ p" using assms by (simp add: nat_less_iff)
  from decimal_pad [OF this] obtain ds where "decimal (10 ^ p + nat r) = CHR ''1'' # ds" "length ds = p" "list_all is_digit ds" "digits_value ds = nat r"
    by blast
  moreover have "to_string (10 ^ p + r) = decimal (10 ^ p + nat r)"
    using assms by (simp add: to_string_def nat_add_distrib nat_power_eq)
  ultimately show ?thesis using that by simp
qed

lemma amount_to_string_parts:
  assumes "aso_precision x < 19" "0 \<le> amt" "q = 10 ^ aso_precision x"
  shows "amount_to_string x amt =
    Inr (decimal (nat (amt div q)) @ (if amt mod q \<noteq> 0 then ''.'' @ tl (to_string (q + amt mod q)) else []))"
proof -
  have "0 < q" using assms(3) by simp
  then have "0 \<le> amt div q" using assms(2) by (simp add: pos_imp_zdiv_nonneg_iff)
  then show ?thesis using assms \<open>0 < q\<close>
    by (simp add: amount_to_string_def scale_runs bindE_def Let_def crem_nonneg to_string_def)
qed

lemma supply_int64: "0 \<le> v \<Longrightarrow> v \<le> MUSE_MAX_SHARE_SUPPLY \<Longrightarrow> safeE v = Inr v"
  by (simp add: safeE_def in_int64_def int64_min_def int64_max_def MUSE_MAX_SHARE_SUPPLY_def)

lemma amount_string_whole:
  assumes "aso_precision x < 19" "n * 10 ^ aso_precision x \<le> MUSE_MAX_SHARE_SUPPLY" "0 \<le> n"
  shows "amount_from_string i x (decimal (nat n)) = Inr (mk_asset (n * 10 ^ aso_precision x) i)"
proof -
  let ?q = "10 ^ aso_precision x :: int"
  have "n * 1 \<le> n * ?q" using assms(3) by (intro mult_left_mono) simp_all
  then have n: "n \<le> 30000000000000" using assms(2) by (simp add: MUSE_MAX_SHARE_SUPPLY_def)
  have c: "amount_chars False False (decimal (nat n)) = Inr (False, False)"
    using amount_chars_digits [of "decimal (nat n)" False False "[]"] by simp
  have f: "find_from CHR ''.'' 0 (decimal (nat n)) = npos" by (intro find_from_none not_digit [OF decimal_digits(1)]) simp
  have "Suc (nat n) \<le> 2 ^ 60" using n by simp
  then have "length (decimal (nat n)) \<le> 2 ^ 60" using decimal_digits(4) [of "nat n"] by (rule order_trans [rotated])
  then have sub: "substr 0 npos (decimal (nat n)) = Inr (decimal (nat n))" by (simp add: substr_def npos_def)
  have v: "stoll (decimal (nat n)) = Inr n" using n assms(3) by (simp add: stoll_digits)
  have m: "safe_mul n ?q = Inr (n * ?q)"
    unfolding safe_mul_def using assms by (intro supply_int64) simp_all
  show ?thesis unfolding amount_from_string_def c scaled_precision_def Let_def f
    using assms sub v m by (simp add: bindE_def guardE_def scale_runs)
qed

lemma amount_string_fraction:
  assumes "aso_precision x < 19" "0 \<le> n" "0 < r" "r < 10 ^ aso_precision x" "n * 10 ^ aso_precision x + r \<le> MUSE_MAX_SHARE_SUPPLY"
  shows "amount_from_string i x (decimal (nat n) @ ''.'' @ tl (to_string (10 ^ aso_precision x + r))) =
    Inr (mk_asset (n * 10 ^ aso_precision x + r) i)"
proof -
  let ?p = "aso_precision x" let ?q = "10 ^ ?p :: int" let ?d = "decimal (nat n)"
  have "n * 1 \<le> n * ?q" using assms(2) by (intro mult_left_mono) simp_all
  then have n: "n \<le> 30000000000000" and r: "r \<le> 30000000000000" and nq: "0 \<le> n * ?q" "n * ?q \<le> 30000000000000"
    using assms by (simp_all add: MUSE_MAX_SHARE_SUPPLY_def)
  obtain ds where ds: "tl (to_string (?q + r)) = ds" "length ds = ?p" "list_all is_digit ds" "digits_value ds = nat r"
    using fraction_digits [of r ?p] assms by auto
  obtain zs where zs: "tl (to_string ?q) = zs" "length zs = ?p" using fraction_digits [of 0 ?p] by auto
  have c: "amount_chars False False (?d @ CHR ''.'' # ds) = Inr (False, True)"
    using amount_chars_digits [OF decimal_digits(1), of False False "nat n" "CHR ''.'' # ds"]
      amount_chars_digits [OF ds(3), of False True "[]"] by simp
  have f: "find_from CHR ''.'' 0 (?d @ CHR ''.'' # ds) = length ?d" using not_digit [OF decimal_digits(1)] by (intro find_from_here) simp_all
  have ne: "ds \<noteq> []" using ds(4) assms(3) by (auto simp: digits_value_def)
  have v: "stoll ?d = Inr n" "stoll ds = Inr r"
    using n r assms(2,3) ds(3,4) ne stoll_digits [of ds] by (simp_all add: stoll_digits)
  have m: "safe_mul n ?q = Inr (n * ?q)" "safe_add (n * ?q) r = Inr (n * ?q + r)"
    unfolding safe_mul_def safe_add_def using nq assms r by (intro supply_int64; simp add: MUSE_MAX_SHARE_SUPPLY_def)+
  have s: "substr 0 (length ?d) (?d @ CHR ''.'' # ds) = Inr ?d" "substr (length ?d + 1) npos (?d @ CHR ''.'' # ds) = Inr ds"
    using ds(2) assms(1) by (simp_all add: substr_def npos_def)
  show ?thesis unfolding ds(1) append_Cons append_Nil unfolding amount_from_string_def c scaled_precision_def Let_def f
    using assms s v m zs ds(2) ne by (simp add: bindE_def guardE_def scale_runs)
qed

text \<open>Printing an amount of an asset object and reading it back gives the amount again, for every precision the
  asset may have and every amount from zero to the maximum supply.\<close>

theorem amount_string_roundtrip:
  assumes "aso_precision x < 19" "0 \<le> amt" "amt \<le> MUSE_MAX_SHARE_SUPPLY"
  shows "bindE (amount_to_string x amt) (amount_from_string i x) = Inr (mk_asset amt i)"
proof -
  let ?q = "10 ^ aso_precision x :: int"
  have q: "0 < ?q" by simp
  have d: "amt div ?q * ?q + amt mod ?q = amt" by (rule div_mult_mod_eq)
  have n: "0 \<le> amt div ?q" using assms(2) q by (simp add: pos_imp_zdiv_nonneg_iff)
  have m: "0 \<le> amt mod ?q" "amt mod ?q < ?q" using q by simp_all
  show ?thesis
  proof (cases "amt mod ?q = 0")
    case True
    then have "amount_from_string i x (decimal (nat (amt div ?q))) = Inr (mk_asset amt i)"
      using amount_string_whole [OF assms(1) _ n] d assms(3) by simp
    then show ?thesis using True amount_to_string_parts [OF assms(1,2) refl] by (simp add: bindE_def)
  next
    case False
    then have "amount_from_string i x (decimal (nat (amt div ?q)) @ ''.'' @ tl (to_string (?q + amt mod ?q))) = Inr (mk_asset amt i)"
      using amount_string_fraction [OF assms(1) n _ m(2)] m(1) d assms(3) by simp
    then show ?thesis using False amount_to_string_parts [OF assms(1,2) refl] by (simp add: bindE_def)
  qed
qed

theorem amount_string_roundtrip_witness:
  "bindE (amount_to_string \<lparr>aso_current_supply = 0, aso_symbol_string = ''COIN'', aso_precision = 3, aso_issuer = 0,
       aso_options = \<lparr>ao_max_supply = 0, ao_market_fee_percent = 0, ao_max_market_fee = 0, ao_issuer_permissions = 0, ao_flags = 0, ao_description = []\<rparr>\<rparr> 12050)
     (amount_from_string 5 \<lparr>aso_current_supply = 0, aso_symbol_string = ''COIN'', aso_precision = 3, aso_issuer = 0,
       aso_options = \<lparr>ao_max_supply = 0, ao_market_fee_percent = 0, ao_max_market_fee = 0, ao_issuer_permissions = 0, ao_flags = 0, ao_description = []\<rparr>\<rparr>)
   = Inr (mk_asset 12050 5)"
  by (rule amount_string_roundtrip) (simp_all add: MUSE_MAX_SHARE_SUPPLY_def)

text \<open>The conversions the code takes from \<open>fc\<close>: trimming leaves a string without outer white space alone, and strings of digits
  in range are read as their decimal value.\<close>

definition reads_decimals :: "text_lib \<Rightarrow> bool" where
  "reads_decimals l \<longleftrightarrow>
     (\<forall>s. s \<noteq> [] \<and> \<not> is_space (hd s) \<and> \<not> is_space (last s) \<longrightarrow> tl_trim l s = s) \<and>
     (\<forall>ds. ds \<noteq> [] \<and> list_all is_digit ds \<and> digits_value ds < 2 ^ 63 \<longrightarrow> tl_to_int64 l ds = Inr (int (digits_value ds))) \<and>
     (\<forall>ds. ds \<noteq> [] \<and> list_all is_digit ds \<and> digits_value ds < 2 ^ 64 \<longrightarrow> tl_to_uint64 l ds = Inr (int (digits_value ds)))"

lemma asset_part_id:
  assumes "reads_decimals l" "i < 2 ^ 48"
  shows "asset_part l (id_string implementation_ids impl_asset_object_type i) = Inr i"
proof -
  let ?s = "CHR ''2'' # CHR ''.'' # CHR ''2'' # CHR ''8'' # CHR ''.'' # decimal i"
  have d: "decimal 2 = ''2''" "decimal 28 = ''28''" by (simp_all add: decimal.simps digit_char_def)
  have s: "id_string implementation_ids impl_asset_object_type i = ?s"
    by (simp add: id_string_def implementation_ids_def impl_asset_object_type_def d)
  have "Suc i \<le> 2 ^ 48" using assms(2) by simp
  with decimal_digits(4) have l: "length (decimal i) \<le> 2 ^ 48" by (rule order_trans)
  have f: "find_from CHR ''.'' 0 ?s = 1" using find_from_here [of 0 "''2''" "CHR ''.''" "''28.'' @ decimal i"] by simp
  have g: "find_from CHR ''.'' (Suc (Suc 0)) ?s = 4" using find_from_here [of "Suc (Suc 0)" "''2.28''" "CHR ''.''" "decimal i"] by simp
  have n: "tl_to_uint64 l (decimal i) = Inr (int i)" using assms by (simp add: reads_decimals_def)
  show ?thesis unfolding s asset_part_def Let_def f
    using assms(2) n l by (simp add: after_npos_def g guardE_def bindE_def substr_def npos_def)
qed

lemma last_digit: "list_all is_digit ds \<Longrightarrow> ds \<noteq> [] \<Longrightarrow> \<not> is_space (last ds)" "list_all is_digit ds \<Longrightarrow> ds \<noteq> [] \<Longrightarrow> \<not> is_space (hd ds)"
  using is_digitD last_in_set hd_in_set unfolding list_all_iff by blast+

lemma amount_part_reads:
  assumes "reads_decimals l" "0 \<le> n" "0 \<le> r" "r < static_precision" "n * static_precision + r < 2 ^ 63"
    and "length fs = 6" "list_all is_digit fs" "digits_value fs = nat r" "i = length (decimal (nat n))"
  shows "amount_part l (decimal (nat n) @ CHR ''.'' # fs @ rest) i (i + 7) = Inr (n * static_precision + r)"
proof -
  have n: "n < 2 ^ 63" "r < 2 ^ 63" "0 \<le> n * static_precision" using assms(2-5) by (simp_all add: static_precision_def)
  have a: "tl_to_int64 l (decimal (nat n)) = Inr n" using assms(1,2) n(1) by (simp add: reads_decimals_def)
  have "fs \<noteq> []" using assms(6) by auto
  then have b: "tl_to_int64 l fs = Inr r" using assms(1,3,7,8) n(2) by (simp add: reads_decimals_def)
  have w: "wrap_int64 (n * static_precision) = n * static_precision" "wrap_int64 (n * static_precision + r) = n * static_precision + r"
    using n(3) assms(3,5) by (simp_all add: wrap_int64_def)
  show ?thesis using a b w assms(6)
    by (simp add: amount_part_def assms(9) substr_def bindE_def MUSE_ASSET_PRECISION_def)
qed

text \<open>Property C35. An asset with a non-negative amount, printed with its id and read back, is the same asset: the six digits of the
  fraction and the instance number of the asset survive.\<close>

theorem asset_string_roundtrip:
  assumes "reads_decimals l" "0 \<le> amount a" "amount a < 2 ^ 63" "asset_id a < 2 ^ 48"
  shows "asset_from_string l (asset_to_string a) = Inr a"
proof -
  let ?n = "amount a div static_precision" let ?r = "amount a mod static_precision"
  let ?d = "decimal (nat ?n)" let ?ids = "id_string implementation_ids impl_asset_object_type (asset_id a)"
  have q: "static_precision = 10 ^ 6" by (simp add: static_precision_def)
  have r: "0 \<le> ?r" "?r < 10 ^ 6" by (simp_all add: static_precision_def)
  obtain fs where fs: "tl (to_string (10 ^ 6 + ?r)) = fs" "length fs = 6" "list_all is_digit fs" "digits_value fs = nat ?r"
    using fraction_digits [OF r] by blast
  have n: "0 \<le> ?n" using assms(2) by (simp add: static_precision_def pos_imp_zdiv_nonneg_iff)
  have "crem (amount a) static_precision = ?r" using assms(2) by (simp add: crem_nonneg static_precision_def)
  moreover have "cdiv (amount a) static_precision = ?n" using assms(2) by (simp add: static_precision_def)
  moreover have "?r mod 2 ^ 64 = ?r" "(static_precision + ?r) mod 2 ^ 64 = 10 ^ 6 + ?r" using r unfolding q by simp_all
  ultimately have s: "asset_to_string a = ?d @ CHR ''.'' # fs @ CHR '' '' # ?ids"
    using n r fs(1) by (simp add: asset_to_string_def Let_def to_string_def)
  have sp: "CHR '' '' \<notin> set ?d" "CHR '' '' \<notin> set fs" "CHR ''.'' \<notin> set ?d"
    by (rule not_digit, rule decimal_digits fs(3), simp)+
  have f: "find_from CHR ''.'' 0 (asset_to_string a) = length ?d" unfolding s using sp by (intro find_from_here) simp_all
  have "find_from CHR '' '' 0 ((?d @ CHR ''.'' # fs) @ CHR '' '' # ?ids) = length (?d @ CHR ''.'' # fs)"
    using sp by (intro find_from_here) simp_all
  then have g: "find_from CHR '' '' 0 (asset_to_string a) = length ?d + 7" using fs(2) by (simp add: s)
  have ids: "?ids = (decimal implementation_ids @ ''.'' @ decimal impl_asset_object_type @ ''.'') @ decimal (asset_id a)" by (simp add: id_string_def)
  have "last (asset_to_string a) = last (decimal (asset_id a))" "hd (asset_to_string a) = hd ?d" "asset_to_string a \<noteq> []"
    by (simp_all add: s ids)
  then have "\<not> is_space (last (asset_to_string a))" "\<not> is_space (hd (asset_to_string a))" "asset_to_string a \<noteq> []"
    using last_digit [OF decimal_digits(1,2)] by simp_all
  then have t: "tl_trim l (asset_to_string a) = asset_to_string a" using assms(1) by (simp add: reads_decimals_def)
  have "?n * static_precision + ?r < 2 ^ 63" using assms(3) by simp
  then have p: "amount_part l (asset_to_string a) (length ?d) (length ?d + 7) = Inr (amount a)"
    using amount_part_reads [OF assms(1) n _ _ _ fs(2,3,4) refl, of "CHR '' '' # ?ids"] r by (simp add: s q)
  have "Suc (nat ?n) \<le> 2 ^ 63" using assms(2,3) n by (simp add: static_precision_def)
  with decimal_digits(4) have ld: "length ?d \<le> 2 ^ 63" by (rule order_trans)
  have "Suc (asset_id a) \<le> 2 ^ 48" using assms(4) by simp
  with decimal_digits(4) have "length (decimal (asset_id a)) \<le> 2 ^ 48" by (rule order_trans)
  then have "length ?ids \<le> npos" unfolding ids by (simp add: npos_def implementation_ids_def impl_asset_object_type_def decimal.simps)
  then have u: "substr (length ?d + 7 + 1) npos (asset_to_string a) = Inr ?ids" using fs(2) by (simp add: s substr_def)
  show ?thesis unfolding asset_from_string_def Let_def t f g
    using p u asset_part_id [OF assms(1,4)] ld by (simp add: guardE_def bindE_def npos_def)
qed

text \<open>An instance of the conversions, for the witness.\<close>

definition plain_text :: text_lib where
  "plain_text = \<lparr>tl_trim = (\<lambda>s. s), tl_to_int64 = (\<lambda>s. Inr (int (digits_value s))), tl_to_uint64 = (\<lambda>s. Inr (int (digits_value s)))\<rparr>"

theorem asset_string_roundtrip_witness:
  "reads_decimals plain_text \<and> asset_from_string plain_text (asset_to_string (mk_asset 1500000 2)) = Inr (mk_asset 1500000 2)"
proof -
  have "reads_decimals plain_text" by (simp add: reads_decimals_def plain_text_def)
  then show ?thesis using asset_string_roundtrip [of plain_text "mk_asset 1500000 2"] by simp
qed

text \<open>What the code does with negative amounts: the sixth digit of the fraction is lost, and a minus sign may follow digits,
  which are then ignored.\<close>

lemma negative_asset_string: "asset_to_string (mk_asset (- 1500000) 0) = ''-1.00000 2.28.0''"
  by (simp add: asset_to_string_def Let_def cdiv_def crem_def static_precision_def to_string_def id_string_def implementation_ids_def
      impl_asset_object_type_def decimal.simps digit_char_def)

lemma digits_before_minus: "aso_precision x = 0 \<Longrightarrow> amount_from_string i x ''5-3'' = Inr (mk_asset 3 i)"
  by (simp add: amount_from_string_def scaled_precision_def is_digit_def bindE_def guardE_def substr_def npos_def find_from_def
      stoll_def Let_def is_space_def digits_value_def in_int64_def int64_min_def int64_max_def safe_mul_def safeE_def MUSE_MAX_SHARE_SUPPLY_def
      upt_conv_Cons)

end
