(* ===== verification/Genesis.thy ===== *)
theory Genesis
  imports Production Asset_Text
begin

text \<open>
  The first state of the chain: \<open>database::init_genesis\<close> on a \<open>genesis_state_type\<close> (\<open>genesis_state.hpp\<close>), and
  \<open>database::validate_invariants\<close>, which recounts the supplies. The key of the initial witness is an argument: its text is a
  constant of the configuration that is read by code outside the sources.
\<close>

section \<open>The genesis state\<close>

record initial_account_type =
  ia_name :: string
  ia_owner_key :: public_key
  ia_active_key :: public_key

record initial_asset_type =
  ias_symbol :: string
  ias_issuer_name :: string
  ias_description :: string
  ias_max_supply :: share

record initial_balance_type =
  ib_owner :: nat
  ib_amount :: share

record initial_vesting_balance_type =
  iv_owner :: nat
  iv_amount :: share

record genesis_state_type =
  init_supply :: share
  initial_accounts :: "initial_account_type list"
  initial_assets :: "initial_asset_type list"
  initial_balances :: "initial_balance_type list"
  initial_vesting_balances :: "initial_vesting_balance_type list"

definition MUSE_NUM_INIT_MINERS :: nat where "MUSE_NUM_INIT_MINERS = 1"
definition MUSE_MINER_ACCOUNT :: string where "MUSE_MINER_ACCOUNT = ''miners''"
definition MUSE_NULL_ACCOUNT :: string where "MUSE_NULL_ACCOUNT = ''null''"
definition charge_market_fee :: "16 word" where "charge_market_fee = 1"
definition transfer_restricted :: "16 word" where "transfer_restricted = 8"
definition disable_confidential :: "16 word" where "disable_confidential = 0x40"
definition UIA_ASSET_ISSUER_PERMISSION_MASK :: "16 word" where
  "UIA_ASSET_ISSUER_PERMISSION_MASK = or charge_market_fee (or transfer_restricted disable_confidential)"

section \<open>Objects with their default values\<close>

definition default_options :: asset_options where
  "default_options = \<lparr>ao_max_supply = MUSE_MAX_SHARE_SUPPLY, ao_market_fee_percent = 0, ao_max_market_fee = MUSE_MAX_SHARE_SUPPLY,
     ao_issuer_permissions = UIA_ASSET_ISSUER_PERMISSION_MASK, ao_flags = 0, ao_description = []\<rparr>"

definition default_asset :: asset_object where
  "default_asset = \<lparr>aso_current_supply = 0, aso_symbol_string = [], aso_precision = 6, aso_issuer = 0, aso_options = default_options\<rparr>"

definition default_dgp :: dynamic_global_property where
  "default_dgp =
     \<lparr>head_block_number = 0, head_block_id = null_block_id, dgp_time = 0, current_witness = [], virtual_supply = 0, current_supply = 0,
      current_mbd_supply = 0, total_vesting_fund_muse = 0, total_vesting_shares = 0, total_reward_fund_muse = 0, supply_delta = 0,
      maximum_proposal_lifetime = 86400, mbd_interest_rate = 0, average_block_size = 0, maximum_block_size = 0, current_aslot = 0,
      recent_slots_filled = 0, participation_count = 0, last_irreversible_block_num = 0, max_virtual_bandwidth = 0,
      current_reserve_ratio = 1\<rparr>"

text \<open>A database with no objects but the single ones, which the code creates on the way.\<close>

definition empty_chain :: chain where
  "empty_chain =
     \<lparr>accounts = empty_index, account_balances = empty_index, witnesses = empty_index, witness_votes = empty_index,
      platforms = empty_index, platform_votes = empty_index, contents = empty_index, reports = empty_index,
      converts = empty_index, orders = empty_index, withdraw_routes = empty_index, balances = empty_index,
      owner_histories = empty_index, recovery_requests = empty_index, change_recovery_requests = empty_index,
      asset_objects = empty_index, content_approvals = empty_index, content_votes = empty_index, proposals = empty_index,
      transaction_objects = empty_index, block_summaries = (\<lambda>_. null_block_id), dgp = default_dgp,
      wso = \<lparr>wso_current_virtual_time = 0, wso_next_shuffle_block_num = 1, wso_current_shuffled_witnesses = [],
             wso_median_props = default_props, wso_majority_version = \<lparr>v_num = 0\<rparr>\<rparr>,
      feed_history = \<lparr>fh_current_median_history = null_price, fh_price_history = []\<rparr>,
      hardforks = \<lparr>hf_processed_hardforks = [], hf_last_hardfork = 0, hf_current_hardfork_version = \<lparr>v_num = 0\<rparr>,
                   hf_next_hardfork = \<lparr>v_num = 0\<rparr>, hf_next_hardfork_time = 0\<rparr>,
      virtual_ops = []\<rparr>"

section \<open>Initial objects\<close>

definition bare_account :: "string \<Rightarrow> 32 word \<Rightarrow> account" where
  "bare_account n w = default_account\<lparr>acc_name := n, acc_owner := empty_authority\<lparr>weight_threshold := w\<rparr>,
     acc_active := empty_authority\<lparr>weight_threshold := w\<rparr>\<rparr>"

definition key_authority :: "public_key \<Rightarrow> authority" where
  "key_authority k = \<lparr>weight_threshold = 1, account_auths = [], key_auths = [(k, 1)]\<rparr>"

definition miner_name :: "nat \<Rightarrow> string" where
  "miner_name i = MUSE_INIT_MINER_NAME @ (if i \<noteq> 0 then decimal i else [])"

definition init_miner :: "public_key \<Rightarrow> share \<Rightarrow> nat \<Rightarrow> account" where
  "init_miner key supply i = default_account\<lparr>acc_name := miner_name i, acc_owner := key_authority key, acc_active := key_authority key,
     acc_basic := key_authority key, acc_memo_key := key, acc_balance := (if i \<noteq> 0 then 10 else supply)\<rparr>"

definition create_miner :: "public_key \<Rightarrow> share \<Rightarrow> nat \<Rightarrow> chain \<Rightarrow> chain res" where
  "create_miner key supply i s =
     bindE (create_account (init_miner key supply i) s) (\<lambda>s.
     create_witness (default_witness\<lparr>wit_owner := miner_name i, wit_signing_key := key\<rparr>) s)"

definition create_asset :: "asset_object \<Rightarrow> chain \<Rightarrow> chain res" where
  "create_asset x = change_assets (idx_insert (\<lambda>x y. aso_symbol_string x = aso_symbol_string y) x)"

definition core_asset :: "string \<Rightarrow> string \<Rightarrow> asset_object" where
  "core_asset symbol description = default_asset\<lparr>aso_symbol_string := symbol, aso_options := default_options\<lparr>ao_description := description\<rparr>\<rparr>"

definition genesis_dgp :: "share \<Rightarrow> dynamic_global_property" where
  "genesis_dgp supply = default_dgp
     \<lparr>current_witness := MUSE_INIT_MINER_NAME, dgp_time := MUSE_GENESIS_TIME, recent_slots_filled := u128_max, participation_count := 128,
      current_supply := supply, virtual_supply := supply, maximum_block_size := MUSE_MAX_BLOCK_SIZE\<rparr>"

definition initial_objects :: "public_key \<Rightarrow> genesis_state_type \<Rightarrow> chain res" where
  "initial_objects key g =
     bindE (create_account (bare_account MUSE_MINER_ACCOUNT 1) empty_chain) (\<lambda>s.
     bindE (create_account (bare_account MUSE_NULL_ACCOUNT 1) s) (\<lambda>s.
     bindE (create_account (bare_account MUSE_TEMP_ACCOUNT 0) s) (\<lambda>s.
     bindE (foldE (create_miner key (init_supply g)) [0..<MUSE_NUM_INIT_MINERS] s) (\<lambda>s.
     bindE (safe_add (init_supply g) (10 * (int MUSE_NUM_INIT_MINERS - 1))) (\<lambda>supply.
     bindE (create_asset (core_asset ''MUSE'' ''MUSE Core asset'') (s\<lparr>dgp := genesis_dgp supply\<rparr>)) (\<lambda>s.
     bindE (create_asset (core_asset ''VEST'' ''MUSE Power asset'') s) (\<lambda>s.
     bindE (create_asset (core_asset ''MBD'' ''MUSE backed dollars'') s) (\<lambda>s.
     Inr (s\<lparr>hardforks := (hardforks s)\<lparr>hf_processed_hardforks := [MUSE_GENESIS_TIME]\<rparr>,
            wso := (wso s)\<lparr>wso_current_shuffled_witnesses := [MUSE_INIT_MINER_NAME]\<rparr>\<rparr>)))))))))"

section \<open>Imported objects\<close>

definition import_operation :: "initial_account_type \<Rightarrow> account_create_operation" where
  "import_operation a =
     (let key = (if ia_active_key a = 0 then ia_owner_key a else ia_active_key a) in
      \<lparr>ac_fee = mk_asset 0 MUSE_SYMBOL, ac_creator = MUSE_TEMP_ACCOUNT, ac_new_account_name = ia_name a,
       ac_owner = key_authority (ia_owner_key a), ac_active = key_authority key, ac_basic = key_authority key, ac_memo_key = key,
       ac_json_metadata = []\<rparr>)"

definition import_account :: "env \<Rightarrow> initial_account_type \<Rightarrow> chain \<Rightarrow> chain res" where
  "import_account e a = evaluate e (Account_create (import_operation a))"

definition import_asset :: "initial_asset_type \<Rightarrow> chain \<Rightarrow> chain res" where
  "import_asset x s =
     bindE (get_account (ias_issuer_name x) s) (\<lambda>(k, a).
     create_asset (default_asset\<lparr>aso_symbol_string := ias_symbol x, aso_issuer := k,
       aso_options := default_options\<lparr>ao_description := ias_description x, ao_max_supply := ias_max_supply x, ao_flags := disable_confidential,
         ao_issuer_permissions := UIA_ASSET_ISSUER_PERMISSION_MASK\<rparr>\<rparr>) s)"

definition import_balance :: "initial_balance_type \<Rightarrow> chain \<Rightarrow> chain res" where
  "import_balance h s =
     bindE (modify_dgp (\<lambda>p. bindE (safe_add (current_supply p) (ib_amount h)) (\<lambda>x. Inr (p\<lparr>current_supply := x, virtual_supply := x\<rparr>)))
        (s\<lparr>balances := idx_create \<lparr>gb_owner = ib_owner h, gb_balance = ib_amount h, gb_last_claim_date = 0\<rparr> (balances s)\<rparr>)) (
     change_assets (idx_modify MUSE_SYMBOL (add_supply (ib_amount h))))"

definition import_vesting :: "initial_vesting_balance_type \<Rightarrow> chain \<Rightarrow> chain res" where
  "import_vesting v s =
     bindE (modify_account (iv_owner v) (add_vesting (mk_asset (iv_amount v) VESTS_SYMBOL)) s) (
     modify_dgp (\<lambda>p. bindE (plus_asset VESTS_SYMBOL (total_vesting_shares p) (mk_asset (iv_amount v) VESTS_SYMBOL)) (\<lambda>x.
       Inr (p\<lparr>total_vesting_shares := x\<rparr>))))"

definition init_genesis :: "env \<Rightarrow> public_key \<Rightarrow> genesis_state_type \<Rightarrow> chain res" where
  "init_genesis e key g =
     bindE (initial_objects key g) (\<lambda>s.
     bindE (foldE (import_account e) (initial_accounts g) s) (\<lambda>s.
     bindE (foldE import_asset (initial_assets g) s) (\<lambda>s.
     bindE (foldE import_balance (initial_balances g) s) (
     foldE import_vesting (initial_vesting_balances g)))))"

section \<open>Recounting the supplies\<close>

record totals =
  total_supply :: share
  total_mbd :: share
  total_vesting :: share
  total_vsf_votes :: share

definition add_muse :: "share \<Rightarrow> totals \<Rightarrow> totals res" where
  "add_muse d t = bindE (safe_add (total_supply t) d) (\<lambda>x. Inr (t\<lparr>total_supply := x\<rparr>))"

definition add_mbd :: "share \<Rightarrow> totals \<Rightarrow> totals res" where
  "add_mbd d t = bindE (safe_add (total_mbd t) d) (\<lambda>x. Inr (t\<lparr>total_mbd := x\<rparr>))"

definition tally_weight :: "account \<Rightarrow> share res" where
  "tally_weight a = (if acc_proxy a = MUSE_PROXY_TO_SELF_ACCOUNT then witness_vote_weight a
     else Inr (acc_proxied_vsf_votes a ! (MUSE_MAX_PROXY_RECURSION_DEPTH - 1)))"

definition tally_account :: "account \<Rightarrow> totals \<Rightarrow> totals res" where
  "tally_account a t =
     bindE (add_muse (acc_balance a) t) (\<lambda>t.
     bindE (add_mbd (acc_mbd_balance a) t) (\<lambda>t.
     bindE (safe_add (total_vesting t) (acc_vesting_shares a)) (\<lambda>v.
     bindE (tally_weight a) (\<lambda>w.
     bindE (safe_add (total_vsf_votes t) w) (\<lambda>x. Inr (t\<lparr>total_vesting := v, total_vsf_votes := x\<rparr>))))))"

definition tally_convert :: "convert_request \<Rightarrow> totals \<Rightarrow> totals res" where
  "tally_convert c t =
     (if asset_id (cr_amount c) = MUSE_SYMBOL then add_muse (amount (cr_amount c)) t
      else if asset_id (cr_amount c) = MBD_SYMBOL then add_mbd (amount (cr_amount c)) t
      else Inl Assert_exn)"

definition tally_order :: "limit_order \<Rightarrow> totals \<Rightarrow> totals res" where
  "tally_order ord t =
     (if asset_id (base (lo_sell_price ord)) = MUSE_SYMBOL then add_muse (lo_for_sale ord) t
      else if asset_id (base (lo_sell_price ord)) = MBD_SYMBOL then add_mbd (lo_for_sale ord) t
      else Inr t)"

definition tally_content :: "content \<Rightarrow> totals \<Rightarrow> totals res" where
  "tally_content c t = bindE (add_muse (con_accumulated_balance_master c) t) (add_muse (con_accumulated_balance_comp c))"

definition over_rows :: "('a \<Rightarrow> totals \<Rightarrow> totals res) \<Rightarrow> (nat \<times> 'a) list \<Rightarrow> totals \<Rightarrow> totals res" where
  "over_rows f = foldE (\<lambda>(k, x). f x)"

definition accounts_by_name :: "chain \<Rightarrow> (nat \<times> account) list" where
  "accounts_by_name s = sort_key (\<lambda>(k, a). acc_name a) (rows (accounts s))"

definition recount_supplies :: "chain \<Rightarrow> totals res" where
  "recount_supplies s =
     bindE (over_rows tally_account (accounts_by_name s) \<lparr>total_supply = 0, total_mbd = 0, total_vesting = 0, total_vsf_votes = 0\<rparr>) (\<lambda>t.
     bindE (over_rows tally_convert (rows (converts s)) t) (\<lambda>t.
     bindE (over_rows tally_order (rows (orders s)) t) (\<lambda>t.
     bindE (over_rows (\<lambda>b. add_muse (gb_balance b)) (rows (balances s)) t) (\<lambda>t.
     bindE (over_rows tally_content (rows (contents s)) t) (
     add_muse (total_vesting_fund_muse (dgp s)))))))"

definition check_virtual :: "chain \<Rightarrow> unit res" where
  "check_virtual s =
     guardE (virtual_supply (dgp s) \<ge> current_supply (dgp s)) (
     if price_is_null (median_price s) then Inr ()
     else
       bindE (asset_mul_price (mk_asset (current_mbd_supply (dgp s)) MBD_SYMBOL) (median_price s)) (\<lambda>m.
       bindE (asset_add m (mk_asset (current_supply (dgp s)) MUSE_SYMBOL)) (\<lambda>v.
       assertE (v = mk_asset (virtual_supply (dgp s)) MUSE_SYMBOL))))"

definition validate_invariants :: "chain \<Rightarrow> unit res" where
  "validate_invariants s =
     (if \<not> has_hardfork MUSE_HARDFORK_0_2 s then Inr ()
      else
        guardE (list_all (\<lambda>(k, w). wit_votes w < total_vesting_shares (dgp s)) (rows (witnesses s))) (
        bindE (recount_supplies s) (\<lambda>t.
        guardE (current_supply (dgp s) = total_supply t) (
        guardE (current_mbd_supply (dgp s) = total_mbd t) (
        guardE (total_vesting_shares (dgp s) = total_vesting t) (
        guardE (total_vesting_shares (dgp s) = total_vsf_votes t) (
        check_virtual s)))))))"

end
