(* ===== verification/Genesis_Laws.thy ===== *)
theory Genesis_Laws
  imports Genesis Block_Laws "HOL-Library.Multiset"
begin

text \<open>
  The chain starts balanced and stays balanced: \<open>init_genesis\<close> gives a state in which the recorded supplies are what the
  objects hold, and so is every state reached from it by blocks. \<open>validate_invariants\<close> decides exactly that.
\<close>

section \<open>Genesis\<close>

definition unproxied :: "chain \<Rightarrow> bool" where
  "unproxied s \<longleftrightarrow> list_all (\<lambda>(k, a). acc_proxy a = MUSE_PROXY_TO_SELF_ACCOUNT) (rows (accounts s))"

definition balanced :: "chain \<Rightarrow> bool" where
  "balanced s \<longleftrightarrow> muse_gap s = 0 \<and> mbd_gap s = 0 \<and> vests_gap s = 0 \<and> vsf_gap s = 0"

lemma balanced_conserves: "conserves e s t \<Longrightarrow> books_ok e s \<Longrightarrow> balanced s \<Longrightarrow> balanced t \<and> books_ok e t"
  by (auto simp: conserves_def moves_def balanced_def)

definition genesis_ok :: "env \<Rightarrow> chain \<Rightarrow> bool" where
  "genesis_ok e s \<longleftrightarrow> books_ok e s \<and> balanced s \<and> unproxied s"

lemma unproxied_loops: "unproxied s \<Longrightarrow> no_proxy_loops s"
  by (rule no_proxies) (simp add: unproxied_def MUSE_PROXY_TO_SELF_ACCOUNT_def)

lemma unproxied_update: "unproxied s \<Longrightarrow> acc_proxy b = MUSE_PROXY_TO_SELF_ACCOUNT \<Longrightarrow>
    unproxied (s\<lparr>accounts := (accounts s)\<lparr>rows := table_update k b (rows (accounts s))\<rparr>\<rparr>)"
  by (auto simp: unproxied_def list_all_iff table_update_def)

lemma unproxied_find: "unproxied s \<Longrightarrow> idx_find k (accounts s) = Some a \<Longrightarrow> acc_proxy a = MUSE_PROXY_TO_SELF_ACCOUNT"
  by (auto simp: unproxied_def list_all_iff idx_find_def dest!: map_of_SomeD)

lemma initial_objects_ok:
  assumes "initial_objects key g = Inr s"
  shows "genesis_ok e s"
proof -
  have "unproxied s \<and> tables_ok s \<and> balanced s \<and> rows (proposals s) = [] \<and> rows (withdraw_routes s) = []"
    using assms
    by (auto simp: initial_objects_def res_simps create_account_def create_asset_def change_assets_def create_miner_def create_witness_def
        MUSE_NUM_INIT_MINERS_def empty_chain_def empty_index_def idx_create_def unproxied_def balanced_def tables_ok_def
        index_ok_def table_ok_def account_ok_def muse_gap_def mbd_gap_def vests_gap_def vsf_gap_def muse_held_def mbd_held_def
        vests_held_def vsf_held_def idx_sum_def vsf_weight_def bare_account_def init_miner_def default_account_def genesis_dgp_def
        default_dgp_def MUSE_PROXY_TO_SELF_ACCOUNT_def MUSE_MAX_PROXY_RECURSION_DEPTH_def in_int64_def int64_min_def int64_max_def sum_list_replicate)
  then show ?thesis using unproxied_loops
    by (simp add: genesis_ok_def books_ok_def proposals_sound_def routes_bounded_def)
qed

lemma import_account_ok:
  assumes "import_account e a s = Inr t" "genesis_ok e s"
  shows "genesis_ok e t"
proof -
  have t: "account_create_apply e (import_operation a) s = Inr t" using assms(1) by (simp add: import_account_def)
  have fee: "0 \<le> amount (ac_fee (import_operation a))" "amount (ac_fee (import_operation a)) = 0" by (simp_all add: import_operation_def Let_def)
  have "conserves e s t"
    using t by (intro conservesI ensuresD(1) [OF booked.new_account_step [OF fee(1)]] ensuresD(1) [OF still.outer_new_account]
        ensuresD(1) [OF routed.outer_new_account])
  moreover have "unproxied t"
  proof -
    obtain k u where u: "modify_account k (sub_balance (ac_fee (import_operation a))) s = Inr u"
      and c: "create_account (new_account (import_operation a) (head_block_time u)) u = Inr t"
      using t fee(2) by (auto simp: account_create_apply_def bindE_Inr_iff Let_def)
    have up: "unproxied s" using assms(2) by (simp add: genesis_ok_def)
    have "unproxied u" using u by (auto simp: modify_account_Inr sub_balance_def bindE_Inr_iff unproxied_find [OF up] intro!: unproxied_update [OF up])
    then show ?thesis using c
      by (auto simp: create_account_def bindE_Inr_iff idx_insert_Inr unproxied_def rows_create new_account_def default_account_def MUSE_PROXY_TO_SELF_ACCOUNT_def)
  qed
  ultimately show ?thesis using assms(2) balanced_conserves by (auto simp: genesis_ok_def)
qed

lemma import_asset_ok: "import_asset x s = Inr t \<Longrightarrow> genesis_ok e s \<Longrightarrow> genesis_ok e t"
proof -
  assume t: "import_asset x s = Inr t" and s: "genesis_ok e s"
  then obtain ix where ix: "t = s\<lparr>asset_objects := ix\<rparr>" by (auto simp: import_asset_def create_asset_def change_assets_def bindE_Inr_iff)
  then have "conserves e s t" "unproxied t \<longleftrightarrow> unproxied s" by (auto simp: unproxied_def intro!: conserves_outside)
  then show ?thesis using s balanced_conserves by (auto simp: genesis_ok_def)
qed

lemma import_balance_ok: "import_balance h s = Inr t \<Longrightarrow> genesis_ok e s \<Longrightarrow> genesis_ok e t"
proof -
  assume t: "import_balance h s = Inr t" and s: "genesis_ok e s"
  then obtain ix where ix: "t = s\<lparr>balances := idx_create \<lparr>gb_owner = ib_owner h, gb_balance = ib_amount h, gb_last_claim_date = 0\<rparr> (balances s),
      dgp := (dgp s)\<lparr>current_supply := current_supply (dgp s) + ib_amount h, virtual_supply := current_supply (dgp s) + ib_amount h\<rparr>, asset_objects := ix\<rparr>"
    by (auto simp: import_balance_def change_assets_def modify_dgp_def bindE_Inr_iff safe_ops_Inr_iff)
  have "no_proxy_loops t \<longleftrightarrow> no_proxy_loops s" by (rule loops_idents) (simp add: idents_def ix)
  then show ?thesis using s
    by (simp add: ix genesis_ok_def books_ok_def balanced_def unproxied_def tables_ok_def proposals_sound_def index_ok_create muse_gap_def
        mbd_gap_def vests_gap_def vsf_gap_def muse_held_def mbd_held_def vests_held_def vsf_held_def)
qed

lemma import_vesting_ok: "import_vesting v s = Inr t \<Longrightarrow> genesis_ok e s \<Longrightarrow> genesis_ok e t"
proof -
  assume t: "import_vesting v s = Inr t" and s: "genesis_ok e s"
  then have tab: "tables_ok s" and up: "unproxied s" by (simp_all add: genesis_ok_def books_ok_def)
  obtain u where u: "modify_account (iv_owner v) (add_vesting (mk_asset (iv_amount v) VESTS_SYMBOL)) s = Inr u"
    and d: "modify_dgp (\<lambda>p. bindE (plus_asset VESTS_SYMBOL (total_vesting_shares p) (mk_asset (iv_amount v) VESTS_SYMBOL)) (\<lambda>x.
       Inr (p\<lparr>total_vesting_shares := x\<rparr>))) u = Inr t"
    using t by (auto simp: import_vesting_def bindE_Inr_iff)
  have 1: "moves (0, 0, - iv_amount v, - iv_amount v) s u"
    by (rule moves_account [OF u tab]) (auto simp: add_vesting_def res_simps account_ok_def vsf_weight_def dest!: unproxied_find [OF up])
  have 2: "moves (0, 0, iv_amount v, iv_amount v) u t"
    by (rule moves_dgp [OF d moves_tables [OF 1]]) (auto simp: res_simps)
  have m: "moves (0, 0, 0, 0) s t" using moves_trans [OF 1 2] by simp
  have "unproxied u" using u by (auto simp: modify_account_Inr add_vesting_def bindE_Inr_iff unproxied_find [OF up] intro!: unproxied_update [OF up])
  then have ut: "unproxied t" using d by (auto simp: modify_dgp_def bindE_Inr_iff unproxied_def)
  have "proposals t = proposals s" "withdraw_routes t = withdraw_routes s"
    using u d by (auto simp: modify_account_Inr modify_dgp_def bindE_Inr_iff)
  then show ?thesis using m s ut unproxied_loops moves_tables [OF m]
    by (simp add: genesis_ok_def books_ok_def balanced_def moves_def proposals_sound_def)
qed

lemma init_genesis_ok:
  assumes "init_genesis e key g = Inr s"
  shows "genesis_ok e s"
proof -
  obtain a b c d where o: "initial_objects key g = Inr a" "foldE (import_account e) (initial_accounts g) a = Inr b"
    "foldE import_asset (initial_assets g) b = Inr c" "foldE import_balance (initial_balances g) c = Inr d"
    "foldE import_vesting (initial_vesting_balances g) d = Inr s"
    using assms by (auto simp: init_genesis_def bindE_Inr_iff)
  note keep = foldE_invariant [where I = "genesis_ok e"]
  have "genesis_ok e a" by (rule initial_objects_ok [OF o(1)])
  then have "genesis_ok e b" by (rule keep [OF o(2)]) (rule import_account_ok)
  then have "genesis_ok e c" by (rule keep [OF o(3)]) (rule import_asset_ok)
  then have "genesis_ok e d" by (rule keep [OF o(4)]) (rule import_balance_ok)
  then show ?thesis by (rule keep [OF o(5)]) (rule import_vesting_ok)
qed

section \<open>Every block after it\<close>

text \<open>The states reached from a genesis allocation by blocks whose operations are validated (neither the flags nor the checkpoints skip
  that) and do not issue or reserve MUSE or MBD. Issuing them takes the authority of an account nobody can sign for; reserving them is
  treated below.\<close>

inductive grown :: "node_env \<Rightarrow> public_key \<Rightarrow> genesis_state_type \<Rightarrow> chain \<Rightarrow> bool" for ne key g where
  start: "init_genesis (ne_env ne) key g = Inr s \<Longrightarrow> grown ne key g s"
| block: "grown ne key g s \<Longrightarrow> apply_block ne cps sk b s = Some (Inr t) \<Longrightarrow> checkpoint_flags ne cps sk b = Inr sk' \<Longrightarrow> \<not> skip_validate sk' \<Longrightarrow>
    list_all (\<lambda>trx. list_all native_free (tx_operations trx)) (transactions b) \<Longrightarrow> grown ne key g t"

lemma grown_books: "grown ne key g s \<Longrightarrow> balanced s \<and> books_ok (ne_env ne) s"
proof (induction rule: grown.induct)
  case (start s)
  then show ?case using init_genesis_ok by (auto simp: genesis_ok_def)
next
  case (block s cps sk b t sk')
  have "apply_block_body ne sk' b s = Some (Inr t)" using block.hyps(2,3) by (simp add: apply_block_def)
  then show ?case using conserves_block [OF _ block.hyps(4,5)] block.IH balanced_conserves by blast
qed

text \<open>Property C1. From the genesis state on, through any number of blocks whose operations are validated and do not issue or reserve
  MUSE or MBD, directly or in a proposal, the recorded supplies of MUSE (with the correction pending
  until hardfork 0.2), MBD and vesting shares and the voting weight are exactly what accounts, conversions, orders, unclaimed balances,
  content and the vesting fund hold together.\<close>

theorem supplies_from_genesis:
  assumes "grown ne key g s"
  shows "current_supply (dgp s) + supply_delta (dgp s) = muse_held s \<and> current_mbd_supply (dgp s) = mbd_held s \<and>
    total_vesting_shares (dgp s) = vests_held s \<and> total_vesting_shares (dgp s) = vsf_held s"
  using grown_books [OF assms] by (simp add: balanced_def muse_gap_def mbd_gap_def vests_gap_def vsf_gap_def)

definition demo_allocation :: genesis_state_type where
  "demo_allocation = \<lparr>init_supply = 1000, initial_accounts = [\<lparr>ia_name = ''alice'', ia_owner_key = 5, ia_active_key = 0\<rparr>], initial_assets = [],
     initial_balances = [\<lparr>ib_owner = 9, ib_amount = 500\<rparr>], initial_vesting_balances = [\<lparr>iv_owner = 4, iv_amount = 70\<rparr>]\<rparr>"

definition demo_objects :: chain where
  "demo_objects = empty_chain
     \<lparr>accounts := index_of [bare_account ''miners'' 1, bare_account ''null'' 1, bare_account ''temp'' 0, init_miner 7 1000 0],
      witnesses := index_of [default_witness\<lparr>wit_owner := ''initminer'', wit_signing_key := 7\<rparr>],
      asset_objects := index_of [core_asset ''MUSE'' ''MUSE Core asset'', core_asset ''VEST'' ''MUSE Power asset'', core_asset ''MBD'' ''MUSE backed dollars''],
      dgp := genesis_dgp 1000,
      hardforks := (hardforks empty_chain)\<lparr>hf_processed_hardforks := [MUSE_GENESIS_TIME]\<rparr>,
      wso := (wso empty_chain)\<lparr>wso_current_shuffled_witnesses := [''initminer'']\<rparr>\<rparr>"

lemma demo_objects: "initial_objects 7 demo_allocation = Inr demo_objects"
  by (simp add: initial_objects_def demo_allocation_def demo_objects_def create_account_def create_asset_def change_assets_def create_miner_def
      create_witness_def MUSE_NUM_INIT_MINERS_def empty_chain_def empty_index_def idx_create_def idx_insert_def index_of_def bindE_def guardE_def
      MUSE_NULL_ACCOUNT_def MUSE_MINER_ACCOUNT_def MUSE_TEMP_ACCOUNT_def miner_name_def MUSE_INIT_MINER_NAME_def bare_account_def init_miner_def
      core_asset_def safe_add_def safeE_def in_int64_def int64_min_def int64_max_def default_witness_def default_asset_def)

lemma demo_import: "\<exists>s. foldE (import_account demo_env) (initial_accounts demo_allocation) demo_objects = Inr s \<and> rows (asset_objects s) = rows (asset_objects demo_objects) \<and>
   dgp s = dgp demo_objects \<and> (\<exists>a. idx_find 4 (accounts s) = Some a \<and> acc_vesting_shares a = 0)"
  by (simp add: demo_allocation_def import_account_def import_operation_def account_create_apply_def demo_objects_def empty_chain_def check_json_def
      has_hardfork_def get_account_def find_account_def idx_by_def index_of_def bare_account_def init_miner_def default_account_def head_block_num_def
      genesis_dgp_def default_dgp_def modify_account_def idx_modify_def idx_get_def getE_def idx_find_def sub_balance_def minus_asset_def safe_sub_def
      safeE_def in_int64_def int64_min_def int64_max_def create_account_def idx_insert_def idx_create_def new_account_def table_update_def
      bindE_def guardE_def MUSE_HARDFORK_0_3_def MUSE_TEMP_ACCOUNT_def miner_name_def MUSE_INIT_MINER_NAME_def)

lemma demo_genesis_runs: "\<exists>s. init_genesis demo_env 7 demo_allocation = Inr s \<and> current_supply (dgp s) = 1500"
proof -
  obtain s a where s: "foldE (import_account demo_env) (initial_accounts demo_allocation) demo_objects = Inr s"
    and r: "rows (asset_objects s) = rows (asset_objects demo_objects)" "dgp s = dgp demo_objects" "idx_find 4 (accounts s) = Some a" "acc_vesting_shares a = 0"
    using demo_import by blast
  have small: "in_int64 1500" "in_int64 500" "in_int64 70" by (simp_all add: in_int64_def int64_min_def int64_max_def)
  have f: "idx_find MUSE_SYMBOL (asset_objects s) = Some (core_asset ''MUSE'' ''MUSE Core asset'')"
    using r(1) by (simp add: idx_find_def demo_objects_def index_of_def MUSE_SYMBOL_def upt_rec)
  have d: "current_supply (dgp s) = 1000" "total_vesting_shares (dgp s) = 0" using r(2) by (simp_all add: demo_objects_def genesis_dgp_def default_dgp_def)
  obtain t where t: "import_balance \<lparr>ib_owner = 9, ib_amount = 500\<rparr> s = Inr t" "current_supply (dgp t) = 1500" "total_vesting_shares (dgp t) = 0" "accounts t = accounts s"
    using f d small by (auto simp: import_balance_def modify_dgp_def bindE_def safe_add_def safeE_def change_assets_def idx_modify_def idx_get_def getE_def
        add_supply_def core_asset_def default_asset_def)
  have "\<exists>u. import_vesting \<lparr>iv_owner = 4, iv_amount = 70\<rparr> t = Inr u \<and> current_supply (dgp u) = 1500"
    using t(2-4) r(3,4) small by (simp add: import_vesting_def modify_account_def modify_dgp_def bindE_def plus_asset_def guardE_def safe_add_def safeE_def
        idx_modify_def idx_get_def getE_def add_vesting_def)
  then obtain u where u: "import_vesting \<lparr>iv_owner = 4, iv_amount = 70\<rparr> t = Inr u" "current_supply (dgp u) = 1500" by blast
  have l: "initial_assets demo_allocation = []" "initial_balances demo_allocation = [\<lparr>ib_owner = 9, ib_amount = 500\<rparr>]"
    "initial_vesting_balances demo_allocation = [\<lparr>iv_owner = 4, iv_amount = 70\<rparr>]" by (simp_all add: demo_allocation_def)
  show ?thesis using s t(1) u by (simp add: init_genesis_def demo_objects l bindE_def)
qed

theorem supplies_from_genesis_witness:
  "\<exists>s. grown demo_node_env 7 demo_allocation s \<and> current_supply (dgp s) = 1500 \<and> 1500 + supply_delta (dgp s) = muse_held s"
proof -
  obtain s where s: "init_genesis demo_env 7 demo_allocation = Inr s" "current_supply (dgp s) = 1500" using demo_genesis_runs by blast
  then have g: "grown demo_node_env 7 demo_allocation s" by (intro grown.start) (simp add: demo_node_env_def)
  then show ?thesis using supplies_from_genesis [OF g] s(2) by auto
qed

text \<open>Property C11. In every state reached from genesis by blocks whose operations are validated and do not issue or reserve MUSE or MBD, the
  objects that hold value are well formed: the tables of accounts, conversions, orders, unclaimed
  balances and contents have ascending, distinct ids below the next one to be given; every account holds one slot of proxied votes
  for each level of proxies, and vesting shares and a withdraw rate of 64 bits; proxies have no loops; no withdraw route takes more
  than all of a withdrawal; and every operation of a stored proposal has passed validation.\<close>

theorem well_formed_from_genesis:
  assumes "grown ne key g s"
  shows "index_ok (accounts s) \<and> index_ok (converts s) \<and> index_ok (orders s) \<and> index_ok (balances s) \<and> index_ok (contents s) \<and>
    list_all (\<lambda>(k, a). account_ok a) (rows (accounts s)) \<and> no_proxy_loops s \<and> routes_bounded (withdraw_routes s) \<and>
    list_all (\<lambda>(k, p). list_all (\<lambda>op. operation_validate (ne_env ne) op = Inr ()) (tx_operations (prop_proposed_transaction p))) (rows (proposals s))"
  using grown_books [OF assms] by (auto simp: books_ok_def tables_ok_def proposals_sound_def op_sound_def list_all_iff)

theorem well_formed_from_genesis_witness:
  "\<exists>s. grown demo_node_env 7 demo_allocation s \<and> current_supply (dgp s) = 1500 \<and> index_ok (accounts s) \<and> no_proxy_loops s"
proof -
  obtain s where s: "init_genesis demo_env 7 demo_allocation = Inr s" "current_supply (dgp s) = 1500" using demo_genesis_runs by blast
  then have g: "grown demo_node_env 7 demo_allocation s" by (intro grown.start) (simp add: demo_node_env_def)
  then show ?thesis using well_formed_from_genesis [OF g] s(2) by blast
qed

section \<open>Burning the balance of others\<close>

text \<open>Property C12. \<open>asset_reserve\<close> takes from any account: for every account that is to pay and every amount, the operation passes validation and needs
  the active authority of nobody but the account it names as issuer, which need not be the issuer of anything; its evaluator succeeds
  (unless a 64 bit amount overflows), takes the amount from the balance of the payer, whether or not he has it, and does not book it in the supply of MUSE.\<close>

theorem asset_reserve_takes_from_anyone:
  assumes "get_account payer s = Inr (k, a)" "tables_ok s" "idx_find MUSE_SYMBOL (asset_objects s) = Some x"
    and "0 < d" "d \<le> MUSE_MAX_SHARE_SUPPLY" "in_int64 (acc_balance a - d)" "in_int64 (aso_current_supply x - d)"
    and "op = Asset_reserve \<lparr>ars_issuer = anyone, ars_payer = payer, ars_amount_to_reserve = mk_asset d MUSE_SYMBOL\<rparr>"
  shows "operation_validate e op = Inr () \<and> operation_auths op = need_active [anyone] \<and>
    (\<exists>t. evaluate e op s = Inr t \<and> get_account payer t = Inr (k, a\<lparr>acc_balance := acc_balance a - d\<rparr>) \<and> muse_gap t = muse_gap s + d)"
proof -
  let ?d = "mk_asset d MUSE_SYMBOL" let ?b = "a\<lparr>acc_balance := acc_balance a - d\<rparr>"
  have f: "idx_find k (accounts s) = Some a" "acc_name a = payer" using get_account_Inr [OF assms(1,2)] by simp_all
  have neg: "asset_neg ?d = Inr (mk_asset (- d) MUSE_SYMBOL)"
    using assms(4,5) by (simp add: asset_neg_def safeE_def in_int64_def int64_min_def int64_max_def MUSE_MAX_SHARE_SUPPLY_def)
  let ?u = "s\<lparr>accounts := (accounts s)\<lparr>rows := table_update k ?b (rows (accounts s))\<rparr>\<rparr>"
  have u: "modify_account k (add_balance (- d)) s = Inr ?u"
    using f(1) assms(6) by (simp add: modify_account_def idx_modify_def idx_get_def getE_def add_balance_def safe_add_def safeE_def)
  let ?ix = "(asset_objects s)\<lparr>rows := table_update MUSE_SYMBOL (x\<lparr>aso_current_supply := aso_current_supply x - d\<rparr>) (rows (asset_objects s))\<rparr>"
  let ?t = "?u\<lparr>asset_objects := ?ix\<rparr>"
  have "evaluate e op s = Inr ?t"
    using assms(1,3,7) u neg by (simp add: assms(8) asset_reserve_apply_def is_authorized_asset_def guardE_def adjust_balance_def change_assets_def
        idx_modify_def idx_get_def getE_def sub_supply_def safe_sub_def safeE_def)
  moreover have "get_account payer ?t = Inr (k, ?b)"
  proof -
    have "find (\<lambda>(j, c). acc_name c = payer) (table_update k ?b ps) = Some (k, ?b)"
      if "find (\<lambda>(j, c). acc_name c = payer) ps = Some (k, a)" for ps
      using that f(2) by (induction ps) (auto simp: table_update_def split: if_splits)
    moreover have "find (\<lambda>(j, c). acc_name c = payer) (rows (accounts s)) = Some (k, a)"
      using assms(1) by (simp add: get_account_def find_account_def idx_by_def split: option.splits)
    ultimately show ?thesis by (simp add: get_account_def find_account_def idx_by_def)
  qed
  moreover have "muse_gap ?t = muse_gap s + d"
  proof -
    have "moves (d, 0, 0, 0) s ?u"
      by (rule moves_account [OF u assms(2)]) (auto simp: add_balance_def res_simps account_ok_def vsf_weight_def)
    then show ?thesis by (simp add: moves_def muse_gap_def muse_held_def)
  qed
  moreover have "operation_validate e op = Inr ()" "operation_auths op = need_active [anyone]"
    using assms(4,5) by (simp_all add: assms(8) asset_reserve_validate_def guardE_def assertE_def)
  ultimately show ?thesis by blast
qed

definition demo_rich :: chain where
  [chain_eval]: "demo_rich = (demo_chain [demo_account ''alice'' 100 0 0, demo_account ''mallory'' 0 0 0] [] (demo_dgp 100 0 0 0))
     \<lparr>asset_objects := index_of [core_asset ''MUSE'' ''MUSE Core asset'']\<rparr>"

theorem asset_reserve_takes_from_anyone_witness:
  "\<exists>t k a. evaluate demo_env (Asset_reserve \<lparr>ars_issuer = ''mallory'', ars_payer = ''alice'', ars_amount_to_reserve = mk_asset 40 MUSE_SYMBOL\<rparr>) demo_rich = Inr t \<and>
     get_account ''alice'' t = Inr (k, a) \<and> acc_balance a = 60 \<and> muse_gap t = muse_gap demo_rich + 40"
proof -
  have g: "get_account ''alice'' demo_rich = Inr (0, demo_account ''alice'' 100 0 0)" by (simp add: chain_eval)
  have t: "tables_ok demo_rich" by (simp add: tables_ok_def account_ok_def chain_eval)
  have x: "idx_find MUSE_SYMBOL (asset_objects demo_rich) = Some (core_asset ''MUSE'' ''MUSE Core asset'')" by (simp add: chain_eval MUSE_SYMBOL_def)
  have n: "0 < (40 :: int)" "40 \<le> MUSE_MAX_SHARE_SUPPLY" "in_int64 (acc_balance (demo_account ''alice'' 100 0 0) - 40)"
    "in_int64 (aso_current_supply (core_asset ''MUSE'' ''MUSE Core asset'') - 40)"
    by (simp_all add: chain_eval MUSE_MAX_SHARE_SUPPLY_def core_asset_def default_asset_def in_int64_def int64_min_def int64_max_def)
  have b: "acc_balance (demo_account ''alice'' 100 0 0) = 100" by (simp add: chain_eval)
  from asset_reserve_takes_from_anyone [OF g t x n refl, of demo_env "''mallory''"] show ?thesis using b by auto
qed

section \<open>The recount\<close>

definition add_totals :: "totals \<Rightarrow> totals \<Rightarrow> totals" where
  "add_totals a b = \<lparr>total_supply = total_supply a + total_supply b, total_mbd = total_mbd a + total_mbd b,
     total_vesting = total_vesting a + total_vesting b, total_vsf_votes = total_vsf_votes a + total_vsf_votes b\<rparr>"

definition no_totals :: totals where
  "no_totals = \<lparr>total_supply = 0, total_mbd = 0, total_vesting = 0, total_vsf_votes = 0\<rparr>"

definition sum_totals :: "('a \<Rightarrow> totals) \<Rightarrow> (nat \<times> 'a) list \<Rightarrow> totals" where
  "sum_totals d rs = foldr (\<lambda>(k, x). add_totals (d x)) rs no_totals"

definition parts :: "totals \<Rightarrow> int list" where
  "parts t = [total_supply t, total_mbd t, total_vesting t, total_vsf_votes t]"

definition nonneg_totals :: "totals \<Rightarrow> bool" where "nonneg_totals t \<longleftrightarrow> list_all (\<lambda>x. 0 \<le> x) (parts t)"
definition fitting :: "totals \<Rightarrow> bool" where "fitting t \<longleftrightarrow> list_all (\<lambda>x. x < 2 ^ 63) (parts t)"

lemmas totals_defs = add_totals_def no_totals_def parts_def nonneg_totals_def fitting_def

lemma add_totals_simps [simp]: "add_totals t no_totals = t" "add_totals (add_totals a b) c = add_totals a (add_totals b c)"
  by (simp_all add: totals_defs)

lemma sum_totals_simps [simp]: "sum_totals d [] = no_totals" "sum_totals d ((k, x) # rs) = add_totals (d x) (sum_totals d rs)"
  by (simp_all add: sum_totals_def)

lemma nonneg_sum: "list_all (\<lambda>(k, x). P x \<and> nonneg_totals (d x)) rs \<Longrightarrow> nonneg_totals (sum_totals d rs)"
  by (induction rs) (auto simp: totals_defs)

lemma fitting_prefix: "fitting (add_totals a (add_totals b c)) \<Longrightarrow> nonneg_totals c \<Longrightarrow> fitting (add_totals a b)"
  by (simp add: totals_defs)

text \<open>What a step of the recount adds, whenever it returns, and when it does return.\<close>

definition counts :: "('a \<Rightarrow> bool) \<Rightarrow> ('a \<Rightarrow> totals) \<Rightarrow> ('a \<Rightarrow> totals \<Rightarrow> totals res) \<Rightarrow> bool" where
  "counts P d f \<longleftrightarrow> (\<forall>x t t'. f x t = Inr t' \<longrightarrow> t' = add_totals t (d x)) \<and>
     (\<forall>x t. P x \<and> nonneg_totals t \<and> nonneg_totals (d x) \<and> fitting (add_totals t (d x)) \<longrightarrow> f x t = Inr (add_totals t (d x)))"

lemma over_rows_exact: "counts P d f \<Longrightarrow> over_rows f rs t = Inr t' \<Longrightarrow> t' = add_totals t (sum_totals d rs)"
  unfolding over_rows_def
proof (induction rs arbitrary: t)
  case (Cons kx rs)
  obtain k x where kx: "kx = (k, x)" by (cases kx)
  then obtain u where u: "f x t = Inr u" "foldE (\<lambda>(k, x). f x) rs u = Inr t'" using Cons.prems(2) by (auto simp: bindE_Inr_iff)
  have "u = add_totals t (d x)" using Cons.prems(1) u(1) by (auto simp: counts_def)
  then show ?case using Cons.IH [OF Cons.prems(1) u(2)] by (simp add: kx)
qed simp

lemma over_rows_runs:
  assumes "counts P d f" "list_all (\<lambda>(k, x). P x \<and> nonneg_totals (d x)) rs" "nonneg_totals t" "fitting (add_totals t (sum_totals d rs))"
  shows "over_rows f rs t = Inr (add_totals t (sum_totals d rs))"
  using assms unfolding over_rows_def
proof (induction rs arbitrary: t)
  case (Cons kx rs)
  obtain k x where kx: "kx = (k, x)" by (cases kx)
  have r: "list_all (\<lambda>(k, x). P x \<and> nonneg_totals (d x)) rs" and x: "P x" "nonneg_totals (d x)" using Cons.prems(2) by (simp_all add: kx)
  have "nonneg_totals (sum_totals d rs)" using r by (rule nonneg_sum)
  then have "fitting (add_totals t (d x))" using Cons.prems(4) fitting_prefix [of t "d x" "sum_totals d rs"] by (simp add: kx)
  then have f: "f x t = Inr (add_totals t (d x))" using Cons.prems(1,3) x unfolding counts_def by blast
  have "nonneg_totals (add_totals t (d x))" using Cons.prems(3) x(2) by (simp add: totals_defs)
  then show ?case using Cons.IH [OF Cons.prems(1) r] Cons.prems(4) f by (simp add: kx bindE_def)
qed simp

definition muse_only :: "share \<Rightarrow> totals" where "muse_only m = no_totals\<lparr>total_supply := m\<rparr>"

definition account_totals :: "account \<Rightarrow> totals" where
  "account_totals a = \<lparr>total_supply = acc_balance a, total_mbd = acc_mbd_balance a, total_vesting = acc_vesting_shares a, total_vsf_votes = vsf_weight a\<rparr>"

definition native_totals :: "asset \<Rightarrow> totals" where
  "native_totals d = no_totals\<lparr>total_supply := of_symbol MUSE_SYMBOL d, total_mbd := of_symbol MBD_SYMBOL d\<rparr>"

definition content_totals :: "content \<Rightarrow> totals" where
  "content_totals c = muse_only (con_accumulated_balance_master c + con_accumulated_balance_comp c)"

definition convert_native :: "convert_request \<Rightarrow> bool" where
  "convert_native c \<longleftrightarrow> asset_id (cr_amount c) = MUSE_SYMBOL \<or> asset_id (cr_amount c) = MBD_SYMBOL"

lemma safe_small: "0 \<le> x \<Longrightarrow> x < 2 ^ 63 \<Longrightarrow> safeE x = Inr x"
  by (simp add: safeE_def in_int64_nonneg)

lemma weight_exact: "foldE (\<lambda>v t. safe_add t v) vs x = Inr y \<Longrightarrow> y = x + sum_list vs"
  by (induction vs arbitrary: x) (fastforce simp: res_simps)+

lemma weight_runs: "list_all (\<lambda>v. 0 \<le> v) vs \<Longrightarrow> 0 \<le> x \<Longrightarrow> x + sum_list vs < 2 ^ 63 \<Longrightarrow>
    foldE (\<lambda>v t. safe_add t v) vs x = Inr (x + sum_list vs)"
proof (induction vs arbitrary: x)
  case (Cons v vs)
  have "0 \<le> sum_list vs" using Cons.prems(1) by (intro sum_list_nonneg) (auto simp: list_all_iff)
  then have "safe_add x v = Inr (x + v)" using Cons.prems unfolding safe_add_def by (intro safe_small) auto
  then show ?case using Cons.IH [of "x + v"] Cons.prems by (simp add: bindE_def)
qed simp

lemma counts_account:
  "counts (\<lambda>a. list_all (\<lambda>v. 0 \<le> v) (acc_proxied_vsf_votes a) \<and> 0 \<le> acc_vesting_shares a) account_totals tally_account"
  unfolding counts_def
proof (intro conjI allI impI)
  fix a t t' assume "tally_account a t = Inr t'"
  then show "t' = add_totals t (account_totals a)"
    by (auto simp: tally_account_def add_muse_def add_mbd_def tally_weight_def witness_vote_weight_def account_totals_def add_totals_def
        vsf_weight_def res_simps dest!: weight_exact split: if_splits)
next
  fix a t
  assume "(list_all (\<lambda>v. 0 \<le> v) (acc_proxied_vsf_votes a) \<and> 0 \<le> acc_vesting_shares a) \<and> nonneg_totals t \<and>
    nonneg_totals (account_totals a) \<and> fitting (add_totals t (account_totals a))"
  then have n: "list_all (\<lambda>v. 0 \<le> v) (acc_proxied_vsf_votes a)" "0 \<le> acc_vesting_shares a" "nonneg_totals t" "nonneg_totals (account_totals a)"
    and f: "fitting (add_totals t (account_totals a))" by simp_all
  have "tally_weight a = Inr (vsf_weight a)"
  proof (cases "acc_proxy a = MUSE_PROXY_TO_SELF_ACCOUNT")
    case True
    then have "acc_vesting_shares a + sum_list (acc_proxied_vsf_votes a) < 2 ^ 63"
      using n(3) f by (simp add: vsf_weight_def account_totals_def totals_defs)
    then show ?thesis using True weight_runs [OF n(1,2)] by (simp add: tally_weight_def vsf_weight_def witness_vote_weight_def)
  qed (simp add: tally_weight_def vsf_weight_def)
  then show "tally_account a t = Inr (add_totals t (account_totals a))"
    using n f by (simp add: tally_account_def add_muse_def add_mbd_def safe_add_def safe_small bindE_def account_totals_def totals_defs)
qed

lemma add_muse_Inr: "add_muse d t = Inr t' \<longleftrightarrow> t' = add_totals t (muse_only d) \<and> in_int64 (total_supply t + d)"
  by (auto simp: add_muse_def muse_only_def totals_defs res_simps)

lemma add_mbd_Inr: "add_mbd d t = Inr t' \<longleftrightarrow> t' = add_totals t (no_totals\<lparr>total_mbd := d\<rparr>) \<and> in_int64 (total_mbd t + d)"
  by (auto simp: add_mbd_def totals_defs res_simps)

lemmas count_simps = add_muse_Inr add_mbd_Inr muse_only_def native_totals_def of_symbol_def MUSE_SYMBOL_def MBD_SYMBOL_def in_int64_nonneg totals_defs

lemma counts_convert: "counts convert_native (\<lambda>c. native_totals (cr_amount c)) tally_convert"
  unfolding counts_def by (auto simp: tally_convert_def convert_native_def count_simps split: if_splits)

lemma counts_order: "counts (\<lambda>_. True) (\<lambda>ord. native_totals (amount_for_sale ord)) tally_order"
  unfolding counts_def by (auto simp: tally_order_def amount_for_sale_def count_simps split: if_splits)

lemma counts_balance: "counts (\<lambda>_. True) (\<lambda>b. muse_only (gb_balance b)) (\<lambda>b. add_muse (gb_balance b))"
  unfolding counts_def by (auto simp: count_simps)

lemma counts_content:
  "counts (\<lambda>c. 0 \<le> con_accumulated_balance_master c \<and> 0 \<le> con_accumulated_balance_comp c) content_totals tally_content"
  unfolding counts_def by (auto simp: tally_content_def content_totals_def bindE_Inr_iff count_simps)

definition held_totals :: "chain \<Rightarrow> totals" where
  "held_totals s = add_totals (sum_totals account_totals (accounts_by_name s)) (add_totals (sum_totals (\<lambda>c. native_totals (cr_amount c)) (rows (converts s)))
     (add_totals (sum_totals (\<lambda>ord. native_totals (amount_for_sale ord)) (rows (orders s)))
     (add_totals (sum_totals (\<lambda>b. muse_only (gb_balance b)) (rows (balances s)))
     (add_totals (sum_totals content_totals (rows (contents s))) (muse_only (total_vesting_fund_muse (dgp s)))))))"

lemma sum_parts:
  "total_supply (sum_totals d rs) = sum_list (map (\<lambda>(k, x). total_supply (d x)) rs)"
  "total_mbd (sum_totals d rs) = sum_list (map (\<lambda>(k, x). total_mbd (d x)) rs)"
  "total_vesting (sum_totals d rs) = sum_list (map (\<lambda>(k, x). total_vesting (d x)) rs)"
  "total_vsf_votes (sum_totals d rs) = sum_list (map (\<lambda>(k, x). total_vsf_votes (d x)) rs)"
  by (induction rs) (auto simp: totals_defs)

lemma sum_by_name: "sum_list (map (\<lambda>(k, a). q a) (accounts_by_name s)) = idx_sum q (accounts s)" for q :: "account \<Rightarrow> int"
proof -
  have "sum_mset (image_mset (\<lambda>(k, a). q a) (mset (accounts_by_name s))) = sum_mset (image_mset (\<lambda>(k, a). q a) (mset (rows (accounts s))))"
    by (simp add: accounts_by_name_def)
  then show ?thesis by (simp only: idx_sum_def flip: mset_map sum_mset_sum_list)
qed

lemma held_totals_parts:
  "total_supply (held_totals s) = muse_held s" "total_mbd (held_totals s) = mbd_held s" "total_vesting (held_totals s) = vests_held s"
  "total_vsf_votes (held_totals s) = vsf_held s"
  unfolding held_totals_def muse_held_def mbd_held_def vests_held_def vsf_held_def
  by (simp_all add: add_totals_def sum_parts account_totals_def native_totals_def muse_only_def content_totals_def no_totals_def sum_by_name)
    (simp_all add: idx_sum_def case_prod_unfold)

lemma tally_exact: "recount_supplies s = Inr t \<Longrightarrow> t = held_totals s \<and> list_all (\<lambda>(k, c). convert_native c) (rows (converts s))"
proof -
  assume "recount_supplies s = Inr t"
  then obtain a b c d e where 1: "over_rows tally_account (accounts_by_name s) no_totals = Inr a" "over_rows tally_convert (rows (converts s)) a = Inr b"
    "over_rows tally_order (rows (orders s)) b = Inr c" "over_rows (\<lambda>b. add_muse (gb_balance b)) (rows (balances s)) c = Inr d"
    "over_rows tally_content (rows (contents s)) d = Inr e" "add_muse (total_vesting_fund_muse (dgp s)) e = Inr t"
    by (auto simp: recount_supplies_def bindE_Inr_iff no_totals_def)
  have t: "t = add_totals e (muse_only (total_vesting_fund_muse (dgp s)))" using 1(6) by (auto simp: add_muse_def muse_only_def totals_defs res_simps)
  have "t = held_totals s"
    unfolding t held_totals_def over_rows_exact [OF counts_content 1(5)] over_rows_exact [OF counts_balance 1(4)]
      over_rows_exact [OF counts_order 1(3)] over_rows_exact [OF counts_convert 1(2)] over_rows_exact [OF counts_account 1(1)]
    by (simp add: totals_defs)
  moreover have "over_rows tally_convert rs u = Inr v \<Longrightarrow> list_all (\<lambda>(k, c). convert_native c) rs" for rs u v
    by (induction rs arbitrary: u) (auto simp: over_rows_def bindE_Inr_iff tally_convert_def convert_native_def split: if_splits)
  ultimately show ?thesis using 1(2) by blast
qed

text \<open>All amounts that are held are non-negative.\<close>

definition holdings_nonneg :: "chain \<Rightarrow> bool" where
  "holdings_nonneg s \<longleftrightarrow>
     list_all (\<lambda>(k, a). 0 \<le> acc_balance a \<and> 0 \<le> acc_mbd_balance a \<and> 0 \<le> acc_vesting_shares a \<and> list_all (\<lambda>v. 0 \<le> v) (acc_proxied_vsf_votes a))
       (rows (accounts s)) \<and>
     list_all (\<lambda>(k, c). 0 \<le> amount (cr_amount c)) (rows (converts s)) \<and> list_all (\<lambda>(k, ord). 0 \<le> lo_for_sale ord) (rows (orders s)) \<and>
     list_all (\<lambda>(k, b). 0 \<le> gb_balance b) (rows (balances s)) \<and>
     list_all (\<lambda>(k, c). 0 \<le> con_accumulated_balance_master c \<and> 0 \<le> con_accumulated_balance_comp c) (rows (contents s)) \<and>
     0 \<le> total_vesting_fund_muse (dgp s)"

lemma account_totals_nonneg:
  assumes "account_ok a" "0 \<le> acc_balance a" "0 \<le> acc_mbd_balance a" "0 \<le> acc_vesting_shares a" "list_all (\<lambda>v. 0 \<le> v) (acc_proxied_vsf_votes a)"
  shows "nonneg_totals (account_totals a)"
proof -
  have "0 \<le> sum_list (acc_proxied_vsf_votes a)" using assms(5) by (intro sum_list_nonneg) (auto simp: list_all_iff)
  moreover have "0 \<le> acc_proxied_vsf_votes a ! (MUSE_MAX_PROXY_RECURSION_DEPTH - 1)"
    using assms(1,5) by (auto simp: account_ok_def list_all_length MUSE_MAX_PROXY_RECURSION_DEPTH_def)
  ultimately show ?thesis using assms by (simp add: account_totals_def totals_defs vsf_weight_def)
qed

lemma recount_runs:
  assumes "holdings_nonneg s" "tables_ok s" "list_all (\<lambda>(k, c). convert_native c) (rows (converts s))" "fitting (held_totals s)"
  shows "recount_supplies s = Inr (held_totals s)"
proof -
  let ?a = "sum_totals account_totals (accounts_by_name s)" let ?b = "sum_totals (\<lambda>c. native_totals (cr_amount c)) (rows (converts s))"
  let ?c = "sum_totals (\<lambda>ord. native_totals (amount_for_sale ord)) (rows (orders s))" let ?d = "sum_totals (\<lambda>b. muse_only (gb_balance b)) (rows (balances s))"
  let ?e = "sum_totals content_totals (rows (contents s))" let ?f = "muse_only (total_vesting_fund_muse (dgp s))"
  have pa: "list_all (\<lambda>(k, a). (list_all (\<lambda>v. 0 \<le> v) (acc_proxied_vsf_votes a) \<and> 0 \<le> acc_vesting_shares a) \<and> nonneg_totals (account_totals a)) (accounts_by_name s)"
  proof -
    have "(list_all (\<lambda>v. 0 \<le> v) (acc_proxied_vsf_votes a) \<and> 0 \<le> acc_vesting_shares a) \<and> nonneg_totals (account_totals a)"
      if "(k, a) \<in> set (rows (accounts s))" for k a
      using assms(1,2) that account_totals_nonneg [of a] unfolding holdings_nonneg_def tables_ok_def list_all_iff by blast
    then show ?thesis by (auto simp: list_all_iff accounts_by_name_def)
  qed
  have pb: "list_all (\<lambda>(k, c). convert_native c \<and> nonneg_totals (native_totals (cr_amount c))) (rows (converts s))"
    using assms(1,3) by (auto simp: holdings_nonneg_def list_all_iff native_totals_def totals_defs of_symbol_def)
  have pc: "list_all (\<lambda>(k, x). True \<and> nonneg_totals (native_totals (amount_for_sale x))) (rows (orders s))"
    using assms(1) by (auto simp: holdings_nonneg_def list_all_iff native_totals_def totals_defs of_symbol_def amount_for_sale_def)
  have pd: "list_all (\<lambda>(k, x). True \<and> nonneg_totals (muse_only (gb_balance x))) (rows (balances s))"
    using assms(1) by (auto simp: holdings_nonneg_def list_all_iff muse_only_def totals_defs)
  have pe: "list_all (\<lambda>(k, c). (0 \<le> con_accumulated_balance_master c \<and> 0 \<le> con_accumulated_balance_comp c) \<and> nonneg_totals (content_totals c)) (rows (contents s))"
    using assms(1) by (auto simp: holdings_nonneg_def list_all_iff content_totals_def muse_only_def totals_defs)
  note n = nonneg_sum [OF pa] nonneg_sum [OF pb] nonneg_sum [OF pc] nonneg_sum [OF pd] nonneg_sum [OF pe]
  have n6: "nonneg_totals ?f" using assms(1) by (simp add: holdings_nonneg_def muse_only_def totals_defs)
  have n0: "nonneg_totals no_totals" by (simp add: totals_defs)
  have f: "fitting (add_totals ?a (add_totals ?b (add_totals ?c (add_totals ?d (add_totals ?e ?f)))))" using assms(4) by (simp add: held_totals_def)
  have nn: "nonneg_totals a \<Longrightarrow> nonneg_totals b \<Longrightarrow> nonneg_totals (add_totals a b)" for a b by (simp add: totals_defs)
  have fs: "fitting (add_totals a b) \<Longrightarrow> nonneg_totals b \<Longrightarrow> fitting a" for a b by (simp add: totals_defs)
  have z: "add_totals no_totals a = a" for a by (simp add: totals_defs)
  let ?ab = "add_totals ?a ?b" let ?abc = "add_totals ?ab ?c" let ?abcd = "add_totals ?abc ?d" let ?abcde = "add_totals ?abcd ?e"
  have f5: "fitting (add_totals ?abcde ?f)" using f by simp
  have f4: "fitting ?abcde" by (rule fs [OF f5 n6])
  have f3: "fitting ?abcd" by (rule fs [OF f4 n(5)])
  have f2: "fitting ?abc" by (rule fs [OF f3 n(4)])
  have f1: "fitting ?ab" by (rule fs [OF f2 n(3)])
  have f0: "fitting (add_totals no_totals ?a)" unfolding z by (rule fs [OF f1 n(2)])
  have 1: "over_rows tally_account (accounts_by_name s) no_totals = Inr ?a" using over_rows_runs [OF counts_account pa n0 f0] by (simp add: z)
  have 2: "over_rows tally_convert (rows (converts s)) ?a = Inr ?ab" by (rule over_rows_runs [OF counts_convert pb n(1) f1])
  have 3: "over_rows tally_order (rows (orders s)) ?ab = Inr ?abc" by (intro over_rows_runs [OF counts_order pc _ f2] nn n)
  have 4: "over_rows (\<lambda>b. add_muse (gb_balance b)) (rows (balances s)) ?abc = Inr ?abcd" by (intro over_rows_runs [OF counts_balance pd _ f3] nn n)
  have 5: "over_rows tally_content (rows (contents s)) ?abcd = Inr ?abcde" by (intro over_rows_runs [OF counts_content pe _ f4] nn n)
  have 6: "add_muse (total_vesting_fund_muse (dgp s)) ?abcde = Inr (add_totals ?abcde ?f)"
    using f5 nn [OF nn [OF nn [OF nn [OF n(1,2)] n(3)] n(4)] n(5)] n6
    by (simp add: add_muse_def safe_add_def safe_small bindE_def muse_only_def totals_defs)
  show ?thesis using 1 2 3 4 5 6 by (simp add: recount_supplies_def held_totals_def bindE_def flip: no_totals_def)
qed

lemma validate_recount_iff:
  assumes "has_hardfork MUSE_HARDFORK_0_2 s" "holdings_nonneg s" "tables_ok s"
    and "in_int64 (current_supply (dgp s))" "in_int64 (current_mbd_supply (dgp s))" "in_int64 (total_vesting_shares (dgp s))"
  shows "validate_invariants s = Inr () \<longleftrightarrow>
    list_all (\<lambda>(k, w). wit_votes w < total_vesting_shares (dgp s)) (rows (witnesses s)) \<and>
    list_all (\<lambda>(k, c). convert_native c) (rows (converts s)) \<and>
    current_supply (dgp s) = muse_held s \<and> current_mbd_supply (dgp s) = mbd_held s \<and>
    total_vesting_shares (dgp s) = vests_held s \<and> total_vesting_shares (dgp s) = vsf_held s \<and> check_virtual s = Inr ()"
    (is "_ \<longleftrightarrow> ?w \<and> ?c \<and> ?eqs")
proof
  assume "validate_invariants s = Inr ()"
  then show "?w \<and> ?c \<and> ?eqs"
    using assms(1) tally_exact [of s] by (auto simp: validate_invariants_def guardE_Inr_iff bindE_Inr_iff held_totals_parts)
next
  assume r: "?w \<and> ?c \<and> ?eqs"
  then have "fitting (held_totals s)"
    using assms(4-6) by (auto simp: fitting_def parts_def held_totals_parts in_int64_def int64_max_def)
  then have "recount_supplies s = Inr (held_totals s)" using r by (intro recount_runs assms) auto
  then show "validate_invariants s = Inr ()" using r assms(1)
    by (elim conjE) (simp only: validate_invariants_def guardE_Inr_iff bindE_Inr_iff held_totals_parts sum.inject ex_simps simp_thms if_False)
qed

text \<open>The virtual supply counts the MBD at the median price, rounded down; a feed pairs MUSE and MBD in either order.\<close>

definition native_feed :: "price \<Rightarrow> bool" where
  "native_feed p \<longleftrightarrow> price_amounts_ok p \<and> (asset_id (base p) = MUSE_SYMBOL \<and> asset_id (quote p) = MBD_SYMBOL \<or>
     asset_id (base p) = MBD_SYMBOL \<and> asset_id (quote p) = MUSE_SYMBOL)"

definition muse_value :: "price \<Rightarrow> share \<Rightarrow> share" where
  "muse_value p x = (if asset_id (base p) = MBD_SYMBOL then x * amount (quote p) div amount (base p) else x * amount (base p) div amount (quote p))"

lemma muse_value_exact:
  assumes "native_feed p" "0 \<le> x" "in_int64 x"
  shows "0 \<le> muse_value p x" "in_int64 (muse_value p x) \<Longrightarrow> asset_mul_price (mk_asset x MBD_SYMBOL) p = Inr (mk_asset (muse_value p x) MUSE_SYMBOL)"
    "asset_mul_price (mk_asset x MBD_SYMBOL) p = Inr r \<Longrightarrow> 0 \<le> amount r \<Longrightarrow> r = mk_asset (muse_value p x) MUSE_SYMBOL"
  using assms asset_mul_price_base [of p "mk_asset x MBD_SYMBOL"] asset_mul_price_quote [of p "mk_asset x MBD_SYMBOL"]
    asset_mul_price_base_Inr [of "mk_asset x MBD_SYMBOL" p r] asset_mul_price_quote_Inr [of "mk_asset x MBD_SYMBOL" p r]
  by (auto simp: native_feed_def muse_value_def price_amounts_ok_def pos_imp_zdiv_nonneg_iff MUSE_SYMBOL_def MBD_SYMBOL_def)

lemma check_virtual_iff:
  assumes "price_is_null (median_price s) \<or> native_feed (median_price s)" "in_int64 (virtual_supply (dgp s))"
    and "0 \<le> current_supply (dgp s)" "0 \<le> current_mbd_supply (dgp s)" "in_int64 (current_mbd_supply (dgp s))"
  shows "check_virtual s = Inr () \<longleftrightarrow> current_supply (dgp s) \<le> virtual_supply (dgp s) \<and>
    (price_is_null (median_price s) \<or> virtual_supply (dgp s) = current_supply (dgp s) + muse_value (median_price s) (current_mbd_supply (dgp s)))"
proof (cases "price_is_null (median_price s)")
  case False
  then have f: "native_feed (median_price s)" using assms(1) by simp
  let ?m = "muse_value (median_price s) (current_mbd_supply (dgp s))"
  note m = muse_value_exact [OF f assms(4,5)]
  show ?thesis
  proof
    assume "check_virtual s = Inr ()"
    then obtain r where r: "asset_mul_price (mk_asset (current_mbd_supply (dgp s)) MBD_SYMBOL) (median_price s) = Inr r"
      "amount r + current_supply (dgp s) = virtual_supply (dgp s)" "current_supply (dgp s) \<le> virtual_supply (dgp s)"
      using False by (auto simp: check_virtual_def asset_add_def res_simps assertE_def split: if_splits)
    then show "current_supply (dgp s) \<le> virtual_supply (dgp s) \<and> (price_is_null (median_price s) \<or> virtual_supply (dgp s) = current_supply (dgp s) + ?m)"
      using m(3) [OF r(1)] by auto
  next
    assume "current_supply (dgp s) \<le> virtual_supply (dgp s) \<and> (price_is_null (median_price s) \<or> virtual_supply (dgp s) = current_supply (dgp s) + ?m)"
    then have v: "current_supply (dgp s) \<le> virtual_supply (dgp s)" "virtual_supply (dgp s) = current_supply (dgp s) + ?m" using False by simp_all
    then have "in_int64 ?m" using assms(2,3) m(1) by (simp add: in_int64_def int64_min_def int64_max_def)
    from m(2) [OF this] v assms(2) show "check_virtual s = Inr ()"
      by (simp add: check_virtual_def False guardE_def asset_add_def safe_add_def safeE_def assertE_def add.commute)
  qed
qed (simp add: check_virtual_def guardE_Inr_iff)

lemma idx_sum_nonneg: "list_all (\<lambda>(k, x). 0 \<le> q x) (rows ix) \<Longrightarrow> 0 \<le> idx_sum q ix"
  unfolding idx_sum_def by (intro sum_list_nonneg) (auto simp: list_all_iff)

lemma held_nonneg: "holdings_nonneg s \<Longrightarrow> 0 \<le> muse_held s \<and> 0 \<le> mbd_held s"
  unfolding muse_held_def mbd_held_def holdings_nonneg_def
  by (intro conjI add_nonneg_nonneg idx_sum_nonneg) (auto simp: list_all_iff of_symbol_def amount_for_sale_def)

text \<open>Property C10. From hardfork 0.2 on, when no holding is negative, the recorded supplies are 64 bit values and the median price, if there is
  one, is a price of MUSE and MBD, \<open>validate_invariants\<close> accepts a state exactly if no witness has as many votes as there are vesting
  shares, conversions are of MUSE or MBD, the four recorded totals are what the objects hold, and the virtual supply is at least the
  supply and, if there is a median price, exceeds it by the value of all MBD at that price, rounded down. Neither the recount nor the
  check of the virtual supply overflows then.\<close>

theorem validate_invariants_iff:
  assumes "has_hardfork MUSE_HARDFORK_0_2 s" "holdings_nonneg s" "tables_ok s" "price_is_null (median_price s) \<or> native_feed (median_price s)"
    and "in_int64 (current_supply (dgp s))" "in_int64 (current_mbd_supply (dgp s))" "in_int64 (total_vesting_shares (dgp s))"
      "in_int64 (virtual_supply (dgp s))"
  shows "validate_invariants s = Inr () \<longleftrightarrow>
    list_all (\<lambda>(k, w). wit_votes w < total_vesting_shares (dgp s)) (rows (witnesses s)) \<and>
    list_all (\<lambda>(k, c). convert_native c) (rows (converts s)) \<and>
    current_supply (dgp s) = muse_held s \<and> current_mbd_supply (dgp s) = mbd_held s \<and>
    total_vesting_shares (dgp s) = vests_held s \<and> total_vesting_shares (dgp s) = vsf_held s \<and>
    current_supply (dgp s) \<le> virtual_supply (dgp s) \<and>
    (price_is_null (median_price s) \<or> virtual_supply (dgp s) = current_supply (dgp s) + muse_value (median_price s) (current_mbd_supply (dgp s)))"
proof -
  have "check_virtual s = Inr () \<longleftrightarrow> current_supply (dgp s) \<le> virtual_supply (dgp s) \<and>
    (price_is_null (median_price s) \<or> virtual_supply (dgp s) = current_supply (dgp s) + muse_value (median_price s) (current_mbd_supply (dgp s)))"
    if "current_supply (dgp s) = muse_held s" "current_mbd_supply (dgp s) = mbd_held s"
    using held_nonneg [OF assms(2)] that by (intro check_virtual_iff assms) simp_all
  then show ?thesis unfolding validate_recount_iff [OF assms(1-3,5-7)] by blast
qed

definition demo_recount :: chain where
  [chain_eval]: "demo_recount = (demo_chain [demo_account ''alice'' 100 5 50] [] ((demo_dgp 130 5 30 50)\<lparr>virtual_supply := 133\<rparr>))
     \<lparr>feed_history := \<lparr>fh_current_median_history = mk_price (mk_asset 3 MBD_SYMBOL) (mk_asset 2 MUSE_SYMBOL), fh_price_history = []\<rparr>\<rparr>"

theorem validate_invariants_iff_witness:
  "holdings_nonneg demo_recount \<and> tables_ok demo_recount \<and> \<not> price_is_null (median_price demo_recount) \<and>
   muse_value (median_price demo_recount) 5 = 3 \<and> validate_invariants demo_recount = Inr ()"
proof -
  have h: "holdings_nonneg demo_recount" "tables_ok demo_recount" "has_hardfork MUSE_HARDFORK_0_2 demo_recount"
    by (simp_all add: holdings_nonneg_def tables_ok_def account_ok_def chain_eval)
  have m: "median_price demo_recount = mk_price (mk_asset 3 MBD_SYMBOL) (mk_asset 2 MUSE_SYMBOL)" by (simp add: median_price_def demo_recount_def)
  have f: "native_feed (median_price demo_recount)" by (simp add: m native_feed_def price_amounts_ok_def in_int64_def int64_min_def int64_max_def)
  have p: "\<not> price_is_null (median_price demo_recount)" "muse_value (median_price demo_recount) 5 = 3"
    by (simp_all add: m muse_value_def price_is_null_def null_price_def price_eq_def price_lt_def MBD_SYMBOL_def MUSE_SYMBOL_def)
  have i: "in_int64 (current_supply (dgp demo_recount))" "in_int64 (current_mbd_supply (dgp demo_recount))" "in_int64 (total_vesting_shares (dgp demo_recount))"
    "in_int64 (virtual_supply (dgp demo_recount))" by (simp_all add: chain_eval)
  have "list_all (\<lambda>(k, w). wit_votes w < total_vesting_shares (dgp demo_recount)) (rows (witnesses demo_recount))"
    "list_all (\<lambda>(k, c). convert_native c) (rows (converts demo_recount))"
    "current_supply (dgp demo_recount) = muse_held demo_recount" "current_mbd_supply (dgp demo_recount) = mbd_held demo_recount"
    "total_vesting_shares (dgp demo_recount) = vests_held demo_recount" "total_vesting_shares (dgp demo_recount) = vsf_held demo_recount"
    "current_supply (dgp demo_recount) \<le> virtual_supply (dgp demo_recount)"
    "virtual_supply (dgp demo_recount) = current_supply (dgp demo_recount) + 3" "current_mbd_supply (dgp demo_recount) = 5"
    by (simp_all add: chain_eval muse_held_def mbd_held_def vests_held_def vsf_held_def vsf_weight_def)
  then show ?thesis using validate_invariants_iff [OF h(3,1,2) disjI2 [OF f] i] h p by simp
qed

end
