(* ===== verification/Sync.thy ===== *)
theory Sync
  imports Node_Laws Head_Laws
begin

text \<open>
  What a node answers to its peers: the delegate of the network in \<open>application.cpp\<close> and the queries of \<open>database.cpp\<close> it uses.
  A node summarises its chain in a synopsis of block ids that get denser towards the head; a peer replies with the ids that
  follow the last block of the synopsis it shares. The clock is an argument; items are blocks by id and transactions by id.
\<close>

section \<open>Queries\<close>

definition get_block_id_for_num :: "nat \<Rightarrow> node \<Rightarrow> block_id res" where
  "get_block_id_for_num num n = bs_fetch_block_id (of_nat num) (nd_store n)"

definition get_recent_transaction :: "nat \<Rightarrow> chain \<Rightarrow> signed_transaction res" where
  "get_recent_transaction i s =
     (case idx_by (\<lambda>t. tro_trx_id t = i) (transaction_objects s) of None \<Rightarrow> Inl Assert_exn | Some (k, t) \<Rightarrow> Inr (tro_trx t))"

definition get_block_ids_on_fork :: "block_id \<Rightarrow> node \<Rightarrow> block_id list run" where
  "get_block_ids_on_fork head_of_fork n =
     bindR (fetch_branch_from (2 ^ 32) (nd_fork n) (nd_head_id n) head_of_fork) (\<lambda>(first, second).
     Some (Inr (map fi_id second @ [fi_previous_id (last first)])))"

definition last_non_undoable_block_num :: "node \<Rightarrow> nat" where
  "last_non_undoable_block_num n = nat ((int (head_block_num (nd_chain n)) - int (length (h_saved (nd_hist n)))) mod 2 ^ 32)"

section \<open>The delegate of the network\<close>

datatype item_id = Block_item block_id | Trx_item nat
datatype item = Block_message block | Trx_message signed_transaction

definition has_item :: "item_id \<Rightarrow> node \<Rightarrow> bool" where
  "has_item it n = (case it of Block_item i \<Rightarrow> is_known_block i n | Trx_item i \<Rightarrow> is_known_transaction i (nd_chain n))"

definition allow_future_time :: nat where "allow_future_time = 5"

definition handle_block :: "node_env \<Rightarrow> bool \<Rightarrow> time_sec \<Rightarrow> block \<Rightarrow> bool act" where
  "handle_block ne validating now b n =
     (if timestamp b \<le> now + allow_future_time
      then push_block ne (if validating then skip_nothing else skip_nothing\<lparr>skip_transaction_signatures := True\<rparr>) b n
      else Some (Inl Assert_exn, n))"

definition handle_transaction :: "node_env \<Rightarrow> signed_transaction \<Rightarrow> unit act" where
  "handle_transaction ne trx = push_transaction ne skip_nothing trx"

definition get_item :: "node_env \<Rightarrow> item_id \<Rightarrow> node \<Rightarrow> item res" where
  "get_item ne it n =
     (case it of
        Block_item i \<Rightarrow> (case fetch_block_by_id ne i n of None \<Rightarrow> Inl Assert_exn | Some b \<Rightarrow> Inr (Block_message b))
      | Trx_item i \<Rightarrow> bindE (get_recent_transaction i (nd_chain n)) (\<lambda>t. Inr (Trx_message t)))"

definition get_block_time :: "node_env \<Rightarrow> block_id \<Rightarrow> node \<Rightarrow> time_sec" where
  "get_block_time ne i n = (case fetch_block_by_id ne i n of None \<Rightarrow> 0 | Some b \<Rightarrow> timestamp b)"

definition is_included_block :: "block_id \<Rightarrow> node \<Rightarrow> bool res" where
  "is_included_block i n = bindE (get_block_id_for_num (unat (num_from_id i)) n) (\<lambda>j. Inr (i = j))"

section \<open>Ids for a peer\<close>

text \<open>The last block of a synopsis, read from its end, that is the null id or on our chain.\<close>

fun last_shared :: "node \<Rightarrow> block_id list \<Rightarrow> block_id res" where
  "last_shared n [] = Inl Other_exn"
| "last_shared n (i # rest) =
     (if i = null_block_id then Inr i
      else if is_known_block i n
      then bindE (is_included_block i n) (\<lambda>inc. if inc then Inr i else last_shared n rest)
      else last_shared n rest)"

fun collect_ids :: "node \<Rightarrow> nat list \<Rightarrow> block_id list res" where
  "collect_ids n [] = Inr []"
| "collect_ids n (num # nums) = bindE (get_block_id_for_num num n) (\<lambda>i. bindE (collect_ids n nums) (\<lambda>is. Inr (i # is)))"

definition get_block_ids :: "block_id list \<Rightarrow> nat \<Rightarrow> node \<Rightarrow> (block_id list \<times> nat) res" where
  "get_block_ids synopsis limit n =
     (let head = head_block_num (nd_chain n) in
      if head = 0 then Inr ([], 0)
      else
        bindE (if synopsis = [] \<or> synopsis = [null_block_id] then Inr null_block_id else last_shared n (rev synopsis)) (\<lambda>last_known.
        bindE (collect_ids n (take limit (filter (\<lambda>num. num > 0) [unat (num_from_id last_known)..<head + 1]))) (\<lambda>result.
        Inr (result, if result \<noteq> [] \<and> unat (num_from_id (last result)) < head then head - unat (num_from_id (last result)) else 0))))"

section \<open>The synopsis of our chain\<close>

text \<open>The range to summarise: the lowest and the highest block number, the last number on the preferred chain, and the ids of the
  fork above it.\<close>

definition synopsis_range :: "block_id \<Rightarrow> node \<Rightarrow> (nat \<times> nat \<times> nat \<times> block_id list) run" where
  "synopsis_range reference n =
     (let low = last_non_undoable_block_num n in
      if reference \<noteq> null_block_id then
        bindR (Some (is_included_block reference n)) (\<lambda>inc.
        if inc then
          let num = unat (num_from_id reference) in Some (Inr (if num < low then num else low, num, num, []))
        else
          bindR (get_block_ids_on_fork reference n) (\<lambda>ids.
          let common = last ids; fork_history = rev (butlast ids);
              non_fork_high = (if common = null_block_id then 0 else unat (num_from_id common)) in
          if non_fork_high < low then Some (Inl Other_exn)
          else Some (Inr (low, non_fork_high + length fork_history, non_fork_high, fork_history))))
      else let head = head_block_num (nd_chain n) in Some (Inr (low, head, head, [])))"

definition synopsis_id :: "node \<Rightarrow> nat \<Rightarrow> block_id list \<Rightarrow> nat \<Rightarrow> block_id res" where
  "synopsis_id n non_fork_high fork_history num =
     (if num \<le> non_fork_high then get_block_id_for_num num n
      else if num - non_fork_high - 1 < length fork_history then Inr (fork_history ! (num - non_fork_high - 1)) else Inl Other_exn)"

definition synopsis_step :: "nat \<Rightarrow> nat \<Rightarrow> nat" where
  "synopsis_step true_high low = nat ((int low + (int true_high - int low + 2) mod 2 ^ 32 div 2) mod 2 ^ 32)"

partial_function (option) synopsis_loop :: "(nat \<Rightarrow> block_id res) \<Rightarrow> nat \<Rightarrow> nat \<Rightarrow> nat \<Rightarrow> block_id list run" where
  "synopsis_loop pick true_high high low =
     (case pick low of
        Inl e \<Rightarrow> Some (Inl e)
      | Inr i \<Rightarrow>
          if synopsis_step true_high low \<le> high
          then Option.bind (synopsis_loop pick true_high high (synopsis_step true_high low)) (\<lambda>r. Some (bindE r (\<lambda>is. Inr (i # is))))
          else Some (Inr [i]))"

definition get_blockchain_synopsis :: "block_id \<Rightarrow> nat \<Rightarrow> node \<Rightarrow> block_id list run" where
  "get_blockchain_synopsis reference after n =
     bindR (synopsis_range reference n) (\<lambda>(low, high, non_fork_high, fork_history).
     if reference = null_block_id \<and> high = 0 then Some (Inr [])
     else synopsis_loop (synopsis_id n non_fork_high fork_history) ((high + after) mod 2 ^ 32) high (if low = 0 then 1 else low))"

section \<open>Shape of the synopsis\<close>

lemma synopsis_step_eq: "1 \<le> low \<Longrightarrow> low \<le> top_num \<Longrightarrow> top_num < 2 ^ 32 - 1 \<Longrightarrow> synopsis_step top_num low = low + (top_num - low + 2) div 2"
proof -
  assume a: "1 \<le> low" "low \<le> top_num" "top_num < 2 ^ 32 - 1"
  have "(int top_num - int low + 2) mod 2 ^ 32 = int (top_num - low + 2)" using a by (simp add: of_nat_diff)
  moreover have "low + (top_num - low + 2) div 2 < 2 ^ 32" using a by linarith
  ultimately show ?thesis by (simp add: synopsis_step_def zdiv_int [symmetric] flip: of_nat_add) 
qed

text \<open>The summary of the blocks from \<open>low\<close> to \<open>high\<close>, seen from the end \<open>far\<close> of what will be appended to it.\<close>

definition summarises :: "nat list \<Rightarrow> nat \<Rightarrow> nat \<Rightarrow> nat \<Rightarrow> bool" where
  "summarises ns low high far \<longleftrightarrow> ns \<noteq> [] \<and> hd ns = low \<and> sorted_wrt (<) ns \<and> set ns \<subseteq> {low..high} \<and>
     2 ^ length ns \<le> 2 * (far - low + 1) \<and> (high = far \<longrightarrow> last ns = high) \<and>
     (\<forall>x\<in>{low..high}. \<exists>y\<in>set ns. y \<le> x \<and> 2 * (x - y) \<le> far - y)"

lemma summarises_one: "low \<le> high \<Longrightarrow> high \<le> far \<Longrightarrow> high < low + (far - low + 2) div 2 \<Longrightarrow> summarises [low] low high far"
  by (auto simp: summarises_def)

lemma summarises_Cons:
  assumes "summarises ns next high far" "next = low + (far - low + 2) div 2" "low \<le> far" "next \<le> high" "high \<le> far"
  shows "summarises (low # ns) low high far"
proof -
  have n: "ns \<noteq> []" "hd ns = next" "sorted_wrt (<) ns" "set ns \<subseteq> {next..high}" "2 ^ length ns \<le> 2 * (far - next + 1)" "high = far \<longrightarrow> last ns = high"
    and gap: "\<And>x. x \<in> {next..high} \<Longrightarrow> \<exists>y\<in>set ns. y \<le> x \<and> 2 * (x - y) \<le> far - y"
    using assms(1) unfolding summarises_def by blast+
  obtain d where d: "far = low + d" using assms(3) by (auto simp: le_iff_add)
  then have lt: "low < next" "2 * (far - next + 1) \<le> far - low + 1" using assms(2,4,5) by auto
  have "\<exists>y\<in>set (low # ns). y \<le> x \<and> 2 * (x - y) \<le> far - y" if "x \<in> {low..high}" for x
  proof (cases "x < next")
    case True
    then have "2 * (x - low) \<le> far - low" using that assms(2,3) by auto
    then show ?thesis using that by auto
  next
    case False
    then show ?thesis using gap [of x] that by auto
  qed
  moreover have "2 ^ length (low # ns) \<le> 2 * (far - low + 1)" using n(5) lt(2) by simp
  moreover have "set (low # ns) \<subseteq> {low..high}" using n(4) lt(1) assms(4) by auto
  moreover have "sorted_wrt (<) (low # ns)" using n(3,4) lt(1) by auto
  ultimately show ?thesis using n(1,6) unfolding summarises_def by simp
qed

lemma synopsis_loop_returns:
  assumes "1 \<le> low" "low \<le> high" "high \<le> far" "far < 2 ^ 32 - 1" "\<And>k. low \<le> k \<Longrightarrow> k \<le> high \<Longrightarrow> pick k = Inr (ids k)"
  shows "\<exists>ns. synopsis_loop pick far high low = Some (Inr (map ids ns)) \<and> summarises ns low high far"
  using assms(1,2,5)
proof (induction "far - low" arbitrary: low rule: less_induct)
  case less
  let ?next = "low + (far - low + 2) div 2"
  have step: "synopsis_step far low = ?next" using less.prems assms(3,4) by (intro synopsis_step_eq) auto
  have pick: "pick low = Inr (ids low)" using less.prems by auto
  show ?case
  proof (cases "?next \<le> high")
    case True
    have "low < ?next" "?next \<le> far" using True assms(3) by auto
    then have "far - ?next < far - low" by (intro diff_less_mono2) auto
    from less.hyps [OF this _ True] obtain ns where ns: "synopsis_loop pick far high ?next = Some (Inr (map ids ns))" "summarises ns ?next high far"
      using less.prems by auto
    have "synopsis_loop pick far high low = Some (Inr (map ids (low # ns)))"
      by (subst synopsis_loop.simps) (simp only: pick step True ns(1) sum.case if_True Option.bind.simps bindE_simps list.map)
    moreover have "summarises (low # ns) low high far"
      using ns(2) less.prems assms(3) True by (intro summarises_Cons [OF ns(2) refl]) auto
    ultimately show ?thesis by blast
  next
    case False
    have "synopsis_loop pick far high low = Some (Inr (map ids [low]))"
      by (subst synopsis_loop.simps) (simp only: pick step False sum.case if_False list.map)
    moreover have "summarises [low] low high far" using False less.prems assms(3) by (intro summarises_one) auto
    ultimately show ?thesis by blast
  qed
qed

text \<open>The ids a node has for the blocks up to its head.\<close>

definition stores_chain :: "(nat \<Rightarrow> block_id) \<Rightarrow> node \<Rightarrow> bool" where
  "stores_chain ids n \<longleftrightarrow> (\<forall>k. 1 \<le> k \<and> k \<le> head_block_num (nd_chain n) \<longrightarrow> get_block_id_for_num k n = Inr (ids k))"

text \<open>A reference point is null, which stands for the head, or a block of the chain.\<close>

definition reference_at :: "(nat \<Rightarrow> block_id) \<Rightarrow> node \<Rightarrow> block_id \<Rightarrow> nat \<Rightarrow> bool" where
  "reference_at ids n reference h \<longleftrightarrow> 1 \<le> h \<and> h \<le> head_block_num (nd_chain n) \<and>
     (if reference = null_block_id then h = head_block_num (nd_chain n) else reference = ids h \<and> num_from_id (ids h) = of_nat h)"

lemma synopsis_range_on_chain:
  assumes "stores_chain ids n" "reference_at ids n reference h" "head_block_num (nd_chain n) < 2 ^ 32 - 1"
    and "length (h_saved (nd_hist n)) \<le> head_block_num (nd_chain n)"
  shows "synopsis_range reference n = Some (Inr (min h (head_block_num (nd_chain n) - length (h_saved (nd_hist n))), h, h, []))"
proof -
  let ?h = "head_block_num (nd_chain n)"
  have low: "last_non_undoable_block_num n = ?h - length (h_saved (nd_hist n))"
    using assms(3,4) by (simp add: last_non_undoable_block_num_def nat_diff_distrib flip: of_nat_diff)
  show ?thesis
  proof (cases "reference = null_block_id")
    case True
    then show ?thesis using assms(2) by (simp add: synopsis_range_def low reference_at_def Let_def)
  next
    case False
    then have r: "reference = ids h" "unat (num_from_id reference) = h" "1 \<le> h" "h \<le> ?h"
      using assms(2,3) by (auto simp: reference_at_def unat_of_nat)
    then have "is_included_block reference n = Inr True" using assms(1) by (simp add: is_included_block_def stores_chain_def)
    then show ?thesis using False r(2) by (auto simp: synopsis_range_def low bindR_def min_def Let_def)
  qed
qed

lemma synopsis_of_chain:
  assumes "stores_chain ids n" "reference_at ids n reference h" "head_block_num (nd_chain n) < 2 ^ 32 - 1" "h + after < 2 ^ 32 - 1"
    and "length (h_saved (nd_hist n)) \<le> head_block_num (nd_chain n)"
  shows "\<exists>ns. get_blockchain_synopsis reference after n = Some (Inr (map ids ns)) \<and>
    summarises ns (max 1 (min h (head_block_num (nd_chain n) - length (h_saved (nd_hist n))))) h (h + after)"
proof -
  let ?low = "min h (head_block_num (nd_chain n) - length (h_saved (nd_hist n)))"
  have h: "1 \<le> h" "h \<le> head_block_num (nd_chain n)" using assms(2) by (simp_all add: reference_at_def)
  have m: "(if ?low = 0 then 1 else ?low) = max 1 ?low" by auto
  have "\<exists>ns. synopsis_loop (synopsis_id n h []) (h + after) h (max 1 ?low) = Some (Inr (map ids ns)) \<and> summarises ns (max 1 ?low) h (h + after)"
    using assms h by (intro synopsis_loop_returns) (auto simp: synopsis_id_def stores_chain_def)
  moreover have "(h + after) mod 2 ^ 32 = h + after" using assms(4) by simp
  moreover have "h \<noteq> 0" using h by simp
  ultimately show ?thesis using m
    by (simp only: get_blockchain_synopsis_def synopsis_range_on_chain [OF assms(1,2,3,5)] bindR_def option.case sum.case prod.case simp_thms if_False)
qed

text \<open>Property C25. The synopsis of a chain comes out when there are not more undo states than blocks, that is, without a session of pending
  transactions on a chain of which every block can be undone. Up to the head (the null reference point) or to a block of the chain it starts at
  the last block that cannot be undone or the reference point if that is lower, ascends, ends at the head or reference point when
  nothing is to be appended, has at most one entry more than the number of bits of the range, and to any block of the range it
  has one at or below it whose distance is at most half of the way to the end, so that a peer that forked off anywhere finds
  a shared block near the fork.\<close>

theorem synopsis_shape:
  assumes "stores_chain ids n" "reference_at ids n reference h" "head_block_num (nd_chain n) < 2 ^ 32 - 1" "h + after < 2 ^ 32 - 1"
    and "length (h_saved (nd_hist n)) \<le> head_block_num (nd_chain n)"
    and "low = max 1 (min h (head_block_num (nd_chain n) - length (h_saved (nd_hist n))))"
  shows "\<exists>ns. get_blockchain_synopsis reference after n = Some (Inr (map ids ns)) \<and>
    hd ns = low \<and> sorted_wrt (<) ns \<and> set ns \<subseteq> {low..h} \<and> (after = 0 \<longrightarrow> last ns = h) \<and>
    2 ^ length ns \<le> 2 * (h + after - low + 1) \<and>
    (\<forall>x\<in>{low..h}. \<exists>y\<in>set ns. y \<le> x \<and> 2 * (x - y) \<le> h + after - y)"
proof -
  obtain ns where ns: "get_blockchain_synopsis reference after n = Some (Inr (map ids ns))" "summarises ns low h (h + after)"
    using synopsis_of_chain [OF assms(1-5)] unfolding assms(6) by blast
  then show ?thesis by (intro exI [of _ ns]) (simp add: summarises_def)
qed

section \<open>The reply\<close>

lemma collect_ids_map: "(\<And>k. k \<in> set nums \<Longrightarrow> get_block_id_for_num k n = Inr (ids k)) \<Longrightarrow> collect_ids n nums = Inr (map ids nums)"
  by (induction nums) simp_all

lemma last_range: "0 < limit \<Longrightarrow> a \<le> b \<Longrightarrow> last (take limit [a..<b + 1]) = min b (a + limit - 1)"
proof -
  assume "0 < limit" "a \<le> b"
  have "take limit [a..<b + 1] = [a..<min (a + limit) (b + 1)]"
    by (rule nth_equalityI) (auto simp del: upt_Suc)
  then show ?thesis using \<open>0 < limit\<close> \<open>a \<le> b\<close> by (auto simp: min_def simp del: upt_Suc)
qed

lemma get_block_ids_reply:
  assumes "0 < head_block_num (nd_chain p)" "synopsis \<noteq> []" "synopsis \<noteq> [null_block_id]" "last_shared p (rev synopsis) = Inr i"
    and "collect_ids p (take limit (filter (\<lambda>num. num > 0) [unat (num_from_id i)..<head_block_num (nd_chain p) + 1])) = Inr rs"
    and "rs \<noteq> []" "unat (num_from_id (last rs)) = m" "m \<le> head_block_num (nd_chain p)"
  shows "get_block_ids synopsis limit p = Inr (rs, head_block_num (nd_chain p) - m)"
proof -
  have "head_block_num (nd_chain p) \<noteq> 0" using assms(1) by simp
  then show ?thesis using assms(2,3,6-8)
    by (simp only: get_block_ids_def Let_def assms(4,5) bindE_simps if_False simp_thms) simp
qed

text \<open>Property C24. Synchronising with a peer that has the same chain and more: the synopsis the node sends, with not more undo states than blocks, is
  answered with the ids on the chain of the peer from the node's head block on, as many as the limit allows, and with the exact
  number of blocks that remain beyond them. The reply starts with the shared block itself, as the comment on \<open>get_blockchain_synopsis\<close>
  describes it (the blocks starting from the last block in common); the comment on \<open>get_block_ids\<close> promises the ids after it.\<close>

theorem sync_with_longer_peer:
  assumes "stores_chain ids a" "stores_chain ids p" "ha = head_block_num (nd_chain a)" "hp = head_block_num (nd_chain p)"
    and "0 < ha" "ha \<le> hp" "hp < 2 ^ 32 - 1" "length (h_saved (nd_hist a)) \<le> ha" "0 < limit"
    and "\<And>k. 1 \<le> k \<Longrightarrow> k \<le> hp \<Longrightarrow> num_from_id (ids k) = of_nat k" "is_known_block (ids ha) p"
  shows "\<exists>synopsis. get_blockchain_synopsis null_block_id 0 a = Some (Inr synopsis) \<and>
    get_block_ids synopsis limit p = Inr (map ids (take limit [ha..<hp + 1]), hp - min hp (ha + limit - 1))"
proof -
  have "reference_at ids a null_block_id ha" using assms(3,5) by (simp add: reference_at_def)
  then obtain ns low where ns: "get_blockchain_synopsis null_block_id 0 a = Some (Inr (map ids ns))" "summarises ns low ha ha"
    using synopsis_of_chain [OF assms(1), of null_block_id ha 0] assms(3,6-8) by auto
  then have l: "ns \<noteq> []" "last ns = ha" by (simp_all add: summarises_def)
  have num: "unat (num_from_id (ids k)) = k" if "1 \<le> k" "k \<le> hp" for k
    using assms(7) assms(10) [OF that] that by (simp add: unat_of_nat)
  have nn: "ids ha \<noteq> null_block_id" using num [of ha] assms(5,6) by (auto simp: null_block_id_def num_from_id_def)
  have "is_included_block (ids ha) p = Inr True"
    using num [of ha] assms(2,4,5,6) by (simp add: is_included_block_def stores_chain_def)
  then have "last_shared p (rev (map ids ns)) = Inr (ids ha)"
    using l nn assms(11) by (cases ns rule: rev_cases) auto
  moreover have "map ids ns \<noteq> []" "map ids ns \<noteq> [null_block_id]" using l nn by (cases ns; auto)+
  moreover have "filter (\<lambda>num. num > 0) [ha..<hp + 1] = [ha..<hp + 1]" using assms(5) by (intro filter_True) auto
  moreover have "collect_ids p (take limit [ha..<hp + 1]) = Inr (map ids (take limit [ha..<hp + 1]))"
    using assms(2,4,5) by (intro collect_ids_map) (auto simp: stores_chain_def dest!: in_set_takeD)
  moreover have ne: "take limit [ha..<hp + 1] \<noteq> []" using assms(6,9) by (simp del: upt_Suc)
  moreover have "unat (num_from_id (last (map ids (take limit [ha..<hp + 1])))) = min hp (ha + limit - 1)"
  proof -
    have "1 \<le> min hp (ha + limit - 1)" using assms(5,6,9) by simp
    then show ?thesis unfolding last_map [OF ne] last_range [OF assms(9,6)] by (rule num) simp
  qed
  ultimately have "get_block_ids (map ids ns) limit p = Inr (map ids (take limit [ha..<hp + 1]), hp - min hp (ha + limit - 1))"
    using num [of ha] assms(5,6) unfolding assms(4) by (intro get_block_ids_reply) (simp_all only: list.map_disc_iff simp_thms min.cobounded1, simp)
  then show ?thesis using ns(1) by blast
qed

section \<open>Pending transactions on a young chain\<close>

lemma too_many_undo_states:
  assumes "0 < head_block_num (nd_chain n)" "head_block_num (nd_chain n) < length (h_saved (nd_hist n))" "length (h_saved (nd_hist n)) < 2 ^ 31"
  shows "get_blockchain_synopsis null_block_id after n = Some (Inl Other_exn)"
proof -
  let ?h = "head_block_num (nd_chain n)" let ?l = "length (h_saved (nd_hist n))"
  have "(int ?h - int ?l) mod 2 ^ 32 = int ?h - int ?l + 2 ^ 32"
  proof -
    have "(int ?h - int ?l + 2 ^ 32) mod 2 ^ 32 = int ?h - int ?l + 2 ^ 32" using assms(2,3) by (intro mod_pos_pos_trivial) auto
    then show ?thesis by simp
  qed
  then have low: "?h < last_non_undoable_block_num n" using assms by (simp add: last_non_undoable_block_num_def)
  then have "synopsis_id n ?h [] (last_non_undoable_block_num n) = Inl Other_exn" by (simp add: synopsis_id_def)
  then have "synopsis_loop (synopsis_id n ?h []) far ?h (last_non_undoable_block_num n) = Some (Inl Other_exn)" for far
    by (subst synopsis_loop.simps) simp
  then show ?thesis using low assms(1) by (simp add: get_blockchain_synopsis_def synopsis_range_def Let_def bindR_def)
qed

text \<open>The first transaction to a node with nothing pending opens the session of the pending transactions, one more undo state.\<close>

lemma push_transaction_opens:
  assumes "push_transaction ne sk trx n = Some (Inr u, n')" "node_ok ne n" "\<not> nd_session n" "length (h_saved (nd_hist n)) < h_max (nd_hist n)"
  shows "nd_session n' \<and> length (h_saved (nd_hist n')) = Suc (length (h_saved (nd_hist n))) \<and> head_block_num (nd_chain n') = head_block_num (nd_chain n)"
proof -
  let ?n = "(start_session n)\<lparr>nd_session := True\<rparr>"
  obtain m where m: "h_max (nd_hist n) = Suc m" using assms(4) by (cases "h_max (nd_hist n)") auto
  have h: "h_saved (nd_hist ?n) = nd_chain n # h_saved (nd_hist n)" "h_active (nd_hist ?n) = 1" "h_max (nd_hist ?n) = Suc m" "nd_chain ?n = nd_chain n"
    using assms(2-4) m by (simp_all add: node_ok_def start_session_def h_start_def)
  have "push_transaction_inner ne sk trx n = Some (Inr u, n')" using assms(1) by (simp add: push_transaction_def split: if_splits)
  then have "(case apply_transaction ne sk trx (nd_chain n) of
        None \<Rightarrow> None
      | Some (Inl e) \<Rightarrow> Some (Inl e, ?n\<lparr>nd_hist := (nd_hist ?n)\<lparr>h_saved := nd_chain n # take m (h_saved (nd_hist n))\<rparr>\<rparr>)
      | Some (Inr s) \<Rightarrow> Some (Inr (), ?n\<lparr>nd_hist := (nd_hist ?n)\<lparr>h_now := s, h_saved := nd_chain n # take m (h_saved (nd_hist n))\<rparr>,
                                     nd_pending := nd_pending ?n @ [trx]\<rparr>)) = Some (Inr u, n')"
    using apply_over_pending [OF h(1-3), where ne = ne and sk = sk and trx = trx] assms(3) h(4)
    by (simp add: push_transaction_inner_def bindN_def updN_def)
  then obtain s where s: "apply_transaction ne sk trx (nd_chain n) = Some (Inr s)"
    and n': "n' = ?n\<lparr>nd_hist := (nd_hist ?n)\<lparr>h_now := s, h_saved := nd_chain n # take m (h_saved (nd_hist n))\<rparr>, nd_pending := nd_pending ?n @ [trx]\<rparr>"
    by (auto split: option.splits sum.splits)
  have "head_block_num s = head_block_num (nd_chain n)" using head_transaction [OF s] by (simp add: same_head_def head_block_num_def)
  then show ?thesis using assms(4) m by (simp add: n')
qed


section \<open>Examples\<close>

definition demo_ids :: "nat \<Rightarrow> block_id" where "demo_ids k = \<lparr>bid_num = of_nat k, bid_hash = 5\<rparr>"

definition demo_peer :: "nat \<Rightarrow> nat \<Rightarrow> node" where
  "demo_peer h undoable =
     (let s = demo_chain [] [] ((demo_dgp 0 0 0 0)\<lparr>head_block_number := h\<rparr>) in
      \<lparr>nd_hist = \<lparr>h_now = s, h_saved = replicate undoable s, h_active = 0, h_max = 10\<rparr>, nd_fork = \<lparr>fd_index = [], fd_unlinked = [], fd_head = None, fd_max_size = 10\<rparr>,
       nd_store = \<lparr>bs_blocks = [], bs_index = map (\<lambda>k. \<lparr>ie_pos = 0, ie_size = 1, ie_id = demo_ids k\<rparr>) [0..<h + 1]\<rparr>,
       nd_pending = [], nd_session = False, nd_popped = [], nd_checkpoints = []\<rparr>)"

lemma demo_peer_simps [simp]: "head_block_num (nd_chain (demo_peer h u)) = h" "length (h_saved (nd_hist (demo_peer h u))) = u"
  by (simp_all add: demo_peer_def head_block_num_def demo_chain_def Let_def)

lemma demo_peer_id: "k \<le> h \<Longrightarrow> h < 1000 \<Longrightarrow> get_block_id_for_num k (demo_peer h u) = Inr (demo_ids k)"
  by (simp add: get_block_id_for_num_def demo_peer_def Let_def bs_fetch_block_id_def unat_of_nat demo_ids_def null_block_id_def guardE_def nth_append
      del: upt_Suc)

lemma demo_peer_stores: "h < 1000 \<Longrightarrow> stores_chain demo_ids (demo_peer h u)"
  by (simp add: stores_chain_def demo_peer_id)

theorem synopsis_shape_witness:
  "\<exists>ns. get_blockchain_synopsis null_block_id 0 (demo_peer 26 25) = Some (Inr (map demo_ids ns)) \<and> hd ns = 1 \<and> last ns = 26 \<and> length ns \<le> 5"
proof -
  have "reference_at demo_ids (demo_peer 26 25) null_block_id 26" by (simp add: reference_at_def)
  then obtain ns where ns: "get_blockchain_synopsis null_block_id 0 (demo_peer 26 25) = Some (Inr (map demo_ids ns))" "hd ns = 1" "last ns = 26"
    "2 ^ length ns \<le> 2 * (26 + 0 - 1 + 1 :: nat)"
    using synopsis_shape [OF demo_peer_stores [of 26 25], of null_block_id 26 0 1] by auto
  have "length ns < 6"
  proof (rule ccontr)
    assume "\<not> length ns < 6"
    then have "(2::nat) ^ 6 \<le> 2 ^ length ns" by (intro power_increasing) auto
    then show False using ns(4) by simp
  qed
  then show ?thesis using ns by auto
qed

theorem sync_with_longer_peer_witness:
  "\<exists>synopsis. get_blockchain_synopsis null_block_id 0 (demo_peer 3 2) = Some (Inr synopsis) \<and>
     get_block_ids synopsis 2 (demo_peer 9 4) = Inr ([demo_ids 3, demo_ids 4], 5)"
proof -
  have "bs_contains (demo_ids 3) (nd_store (demo_peer 9 4))"
    by (simp add: bs_contains_def demo_peer_def Let_def demo_ids_def null_block_id_def num_from_id_def nth_append)
  then have "is_known_block (demo_ids 3) (demo_peer 9 4)" by (simp add: is_known_block_def)
  then show ?thesis
    using sync_with_longer_peer [OF demo_peer_stores [of 3 2] demo_peer_stores [of 9 4], of 3 9 2]
    by (simp add: demo_ids_def num_from_id_def upt_rec)
qed

text \<open>A node after its first block, which accepts a transfer.\<close>

definition demo_young :: node where
  "demo_young = \<lparr>nd_hist = \<lparr>h_now = demo_paid, h_saved = [demo_genesis], h_active = 0, h_max = 2\<rparr>, nd_fork = demo_fork demo_next_block,
     nd_store = \<lparr>bs_blocks = [], bs_index = map (\<lambda>k. \<lparr>ie_pos = 0, ie_size = 1, ie_id = demo_ids k\<rparr>) [0, 1]\<rparr>,
     nd_pending = [], nd_session = False, nd_popped = [], nd_checkpoints = []\<rparr>"

definition demo_pending :: signed_transaction where
  [chain_eval]: "demo_pending = \<lparr>tx_ref_block_num = 0, tx_ref_block_prefix = 0, tx_expiration = 60,
     tx_operations = [Transfer \<lparr>tr_from = ''initminer'', tr_to = ''initminer'', tr_amount = mk_asset 5 MUSE_SYMBOL, tr_memo = []\<rparr>],
     tx_signatures = []\<rparr>"

definition demo_lenient :: skip_flags where
  [chain_eval]: "demo_lenient = skip_nothing\<lparr>skip_transaction_signatures := True, skip_tapos_check := True\<rparr>"

lemma demo_pending_applies: "\<exists>s. apply_transaction demo_node_env demo_lenient demo_pending demo_paid = Some (Inr s)"
  by (simp add: chain_eval block_eval name_loop.simps)

lemma demo_young_ok: "node_ok demo_node_env demo_young" "\<not> nd_session demo_young" "stores_chain demo_ids demo_young"
  "head_block_num (nd_chain demo_young) = 1" "length (h_saved (nd_hist demo_young)) = 1" "h_max (nd_hist demo_young) = 2"
proof -
  show h: "head_block_num (nd_chain demo_young) = 1"
    by (simp add: demo_young_def head_block_num_def demo_paid_def demo_signed_def demo_head_def)
  have "replays demo_node_env [] demo_paid [demo_genesis]" using demo_block_applies by (intro replays.intros)
  then show "node_ok demo_node_env demo_young" by (simp add: node_ok_def demo_young_def)
  have "get_block_id_for_num 1 demo_young = Inr (demo_ids 1)"
    by (simp add: get_block_id_for_num_def demo_young_def bs_fetch_block_id_def demo_ids_def null_block_id_def guardE_def)
  then show "stores_chain demo_ids demo_young" unfolding stores_chain_def h by (metis le_antisym)
qed (simp_all add: demo_young_def)

lemma demo_young_accepts: "\<exists>n. push_transaction demo_node_env demo_lenient demo_pending demo_young = Some (Inr (), n)"
proof -
  obtain s where s: "apply_transaction demo_node_env demo_lenient demo_pending demo_paid = Some (Inr s)" using demo_pending_applies by blast
  have "int (ne_tx_size demo_node_env demo_pending) \<le> (int (maximum_block_size (dgp (nd_chain demo_young))) - 256) mod 2 ^ 32"
    by (simp add: demo_young_def chain_eval)
  then show ?thesis using s
    by (simp add: push_transaction_def push_transaction_inner_def bindN_def updN_def demo_young_def start_session_def h_start_def Let_def
        catchN_def tryN_def on_hist_def h_merge_def)
qed


end
