(* ===== verification/Witness_Plugin.thy ===== *)
theory Witness_Plugin
  imports Production Node_Laws "HOL-Library.Sublist"
begin

text \<open>
  The witness plugin (\<open>plugins/witness/witness.cpp\<close>), which decides every second whether to produce a block. A key is given by its
  public part and the signatures it gives to blocks; the clock, in microseconds, is an argument. What is shown: a block is produced only
  in a slot of a witness the node controls, at the time of that slot, and it carries pending transactions that fit.
\<close>

section \<open>Deciding to produce\<close>

datatype block_production_condition =
    Produced | Not_synced | Not_my_turn | Not_time_yet | No_private_key | Low_participation | Lag | Consecutive | Wait_for_genesis
  | Exception_producing_block

record witness_plugin =
  wp_production_enabled :: bool
  wp_required_witness_participation :: nat
  wp_production_skip_flags :: skip_flags
  wp_private_keys :: "(public_key \<times> (block \<Rightarrow> nat)) list"
  wp_witnesses :: "string list"

definition plugin_startup :: "witness_plugin \<Rightarrow> witness_plugin" where
  "plugin_startup w = (if wp_witnesses w \<noteq> [] \<and> wp_production_enabled w
     then w\<lparr>wp_production_skip_flags := (wp_production_skip_flags w)\<lparr>skip_undo_history_check := True\<rparr>\<rparr> else w)"

text \<open>The time to sleep until the next decision.\<close>

definition next_wakeup :: "nat \<Rightarrow> nat" where
  "next_wakeup now = (let d = 1000000 - now mod 1000000 in now + (if d < 50000 then d + 1000000 else d))"

text \<open>At most two attempts; a failed one drops the pending transactions.\<close>

primrec produce_retry :: "nat \<Rightarrow> block act \<Rightarrow> node \<Rightarrow> ((block_production_condition \<times> block option) \<times> node) option" where
  "produce_retry 0 gen n = Some ((Exception_producing_block, None), n)"
| "produce_retry (Suc k) gen n =
     (case gen n of
        None \<Rightarrow> None
      | Some (Inr b, n') \<Rightarrow> Some ((Produced, Some b), n')
      | Some (Inl e, n') \<Rightarrow> produce_retry k gen (clear_pending n'))"

text \<open>The clock is rounded to the nearest second; the block that was produced is what is broadcast.\<close>

definition production_now :: "nat \<Rightarrow> time_sec" where "production_now now = (now + 500000) div 1000000"

definition maybe_produce_block ::
  "node_env \<Rightarrow> nat \<Rightarrow> witness_plugin \<Rightarrow> node \<Rightarrow> ((block_production_condition \<times> block option) res \<times> witness_plugin \<times> node) option" where
  "maybe_produce_block ne clock w n =
     (let s = nd_chain n; now = production_now clock in
      if \<not> wp_production_enabled w \<and> get_slot_time 1 s < now then Some (Inr (Not_synced, None), w, n)
      else
        let w = w\<lparr>wp_production_enabled := True\<rparr>; slot = get_slot_at_time now s in
        if slot = 0 then Some (Inr (Not_time_yet, None), w, n)
        else case get_scheduled_witness slot s of
          Inl e \<Rightarrow> Some (Inl e, w, n)
        | Inr scheduled \<Rightarrow>
            if scheduled \<notin> set (wp_witnesses w) then Some (Inr (Not_my_turn, None), w, n)
            else case get_witness scheduled s of
              Inl e \<Rightarrow> Some (Inl e, w, n)
            | Inr (k, wit) \<Rightarrow>
                (case map_of (wp_private_keys w) (wit_signing_key wit) of
                   None \<Rightarrow> Some (Inr (No_private_key, None), w, n)
                 | Some sign \<Rightarrow>
                     if witness_participation_rate s < wp_required_witness_participation w then Some (Inr (Low_participation, None), w, n)
                     else if get_slot_time slot s \<noteq> now then Some (Inr (Lag, None), w, n)
                     else
                       (case produce_retry 2 (generate_block ne (wp_production_skip_flags w) (get_slot_time slot s) scheduled (wit_signing_key wit) sign) n of
                          None \<Rightarrow> None
                        | Some (r, n') \<Rightarrow> Some (Inr r, w, n'))))"

definition block_production_loop ::
  "node_env \<Rightarrow> nat \<Rightarrow> witness_plugin \<Rightarrow> node \<Rightarrow> ((block_production_condition \<times> block option) \<times> witness_plugin \<times> node) option" where
  "block_production_loop ne clock w n =
     (if clock < MUSE_GENESIS_TIME * 1000000 then Some ((Wait_for_genesis, None), w, n)
      else case maybe_produce_block ne clock w n of
        None \<Rightarrow> None
      | Some (Inl e, w, n) \<Rightarrow> Some ((Exception_producing_block, None), w, n)
      | Some (Inr r, w, n) \<Rightarrow> Some (r, w, n))"

section \<open>What a generated block holds\<close>

lemma fill_block_selects:
  assumes "fill_block ne sk at_time max_block pending size0 txs n = Some (Inr r, n')"
  shows "\<exists>sel. r = txs @ sel \<and> subseq sel pending \<and> list_all (\<lambda>trx. at_time \<le> tx_expiration trx) sel \<and>
    (sel \<noteq> [] \<longrightarrow> size0 + sum_list (map (ne_tx_size ne) sel) < max_block)"
  using assms
proof (induction pending arbitrary: size0 txs n)
  case Nil
  then show ?case by (simp add: returnN_def)
next
  case (Cons trx pending)
  let ?size = "size0 + ne_tx_size ne trx"
  show ?case
  proof (cases "tx_expiration trx < at_time \<or> ?size \<ge> max_block")
    case True
    then have "fill_block ne sk at_time max_block pending size0 txs n = Some (Inr r, n')" using Cons.prems by simp
    from Cons.IH [OF this] show ?thesis by (blast intro: subseq_order.order_trans list_emb_Cons)
  next
    case False
    then obtain ok m where m: "try_transaction ne sk trx n = Some (Inr ok, m)"
      and rest: "(if ok then fill_block ne sk at_time max_block pending ?size (txs @ [trx]) else fill_block ne sk at_time max_block pending size0 txs) m = Some (Inr r, n')"
      using Cons.prems by (auto simp: bindN_def split: option.splits sum.splits prod.splits)
    show ?thesis
    proof (cases ok)
      case True
      with rest have "fill_block ne sk at_time max_block pending ?size (txs @ [trx]) m = Some (Inr r, n')" by simp
      from Cons.IH [OF this] obtain sel where sel: "r = (txs @ [trx]) @ sel" "subseq sel pending" "list_all (\<lambda>trx. at_time \<le> tx_expiration trx) sel"
        "sel \<noteq> [] \<longrightarrow> ?size + sum_list (map (ne_tx_size ne) sel) < max_block" by blast
      then show ?thesis using False by (intro exI [of _ "trx # sel"]) (cases "sel = []"; auto)
    next
      case no: False
      with rest have "fill_block ne sk at_time max_block pending size0 txs m = Some (Inr r, n')" by simp
      from Cons.IH [OF this] show ?thesis by (blast intro: subseq_order.order_trans list_emb_Cons)
    qed
  qed
qed

text \<open>Property C26. A block the node generates is of the witness scheduled for the slot of its time, made with the key of that witness
  unless signatures are skipped, links to the head block, reports the witness's version and hardfork vote, commits to its
  transactions by their Merkle root, is signed unless signatures are skipped, and holds pending transactions in the order they came,
  none of them expired; if there are any, their sizes with the empty block stay below the maximum block size of the chain.\<close>

theorem generated_block_holds:
  assumes "generate_block ne sk at_time owner key sign n = Some (Inr b, n')"
  shows "\<exists>k w. get_slot_at_time at_time (nd_chain n) > 0 \<and> get_scheduled_witness (get_slot_at_time at_time (nd_chain n)) (nd_chain n) = Inr owner \<and>
    get_witness owner (nd_chain n) = Inr (k, w) \<and> (skip_witness_signature sk \<or> wit_signing_key w = key) \<and>
    previous b = nd_head_id n \<and> timestamp b = at_time \<and> witness b = owner \<and> extensions b = reported_extensions w (hardforks (nd_chain n)) \<and>
    transaction_merkle_root b = calculate_merkle_root (ne_pair_hash ne) (ne_root_hash ne) (ne_tx_digest ne) b \<and>
    witness_signature b = (if skip_witness_signature sk then 0 else sign (b\<lparr>witness_signature := 0\<rparr>)) \<and>
    subseq (transactions b) (nd_pending n) \<and> list_all (\<lambda>trx. at_time \<le> tx_expiration trx) (transactions b) \<and>
    (transactions b \<noteq> [] \<longrightarrow>
      block_size ne (empty_block at_time owner w (nd_chain n)) + 4 + sum_list (map (ne_tx_size ne) (transactions b))
        < maximum_block_size (dgp (nd_chain n)))"
proof -
  obtain w where w: "check_producer sk at_time owner key (nd_chain n) = Inr w"
    using assms by (auto simp: generate_block_def split: sum.splits)
  let ?b0 = "empty_block at_time owner w (nd_chain n)"
  let ?root = "\<lambda>txs. calculate_merkle_root (ne_pair_hash ne) (ne_root_hash ne) (ne_tx_digest ne) (?b0\<lparr>transactions := txs\<rparr>)"
  obtain m txs m' where f: "fill_block ne sk at_time (maximum_block_size (dgp (nd_chain n))) (nd_pending n) (block_size ne ?b0 + 4) [] m = Some (Inr txs, m')"
    and b: "b = (if skip_witness_signature sk then ?b0\<lparr>transactions := txs, transaction_merkle_root := ?root txs\<rparr>
      else sign_header sign (?b0\<lparr>transactions := txs, transaction_merkle_root := ?root txs\<rparr>))"
    using assms w by (auto simp: generate_block_def bindN_def updN_def returnN_def throwN_def Let_def split: option.splits sum.splits prod.splits if_splits)
  note sel = fill_block_selects [OF f]
  obtain k where k: "get_slot_at_time at_time (nd_chain n) > 0" "get_scheduled_witness (get_slot_at_time at_time (nd_chain n)) (nd_chain n) = Inr owner"
    "get_witness owner (nd_chain n) = Inr (k, w)" "skip_witness_signature sk \<or> wit_signing_key w = key"
    using w by (auto simp: check_producer_def Let_def res_simps)
  have "transactions b = txs" "previous b = nd_head_id n" "timestamp b = at_time" "witness b = owner"
    "extensions b = reported_extensions w (hardforks (nd_chain n))" "transaction_merkle_root b = ?root txs"
    "witness_signature b = (if skip_witness_signature sk then 0 else sign (b\<lparr>witness_signature := 0\<rparr>))"
    "?root txs = calculate_merkle_root (ne_pair_hash ne) (ne_root_hash ne) (ne_tx_digest ne) b"
    unfolding b by (simp_all add: empty_block_def nd_head_id_def sign_header_def calculate_merkle_root_def)
  with k sel show ?thesis by (intro exI [of _ k] exI [of _ w]) auto
qed

section \<open>When a block is produced\<close>

lemma produce_retry_produced:
  "produce_retry k gen n = Some ((Produced, r), n') \<Longrightarrow> \<exists>b m. r = Some b \<and> gen m = Some (Inr b, n')"
  by (induction k arbitrary: n) (auto split: option.splits sum.splits prod.splits)

text \<open>The plugin produces a block only when production is enabled or the chain is in step with the clock, in a slot of a witness it is configured
  for and has the key of, with enough participation, and exactly at the time of the slot; the block it hands to the network is one
  that \<open>generate_block\<close> made for that slot and witness with that key.\<close>

theorem produced_on_schedule:
  assumes "maybe_produce_block ne clock w n = Some (Inr (Produced, r), w', n')"
  shows "\<exists>slot owner k wit sign b m. r = Some b \<and> slot = get_slot_at_time (production_now clock) (nd_chain n) \<and> slot > 0 \<and>
    get_slot_time slot (nd_chain n) = production_now clock \<and> get_scheduled_witness slot (nd_chain n) = Inr owner \<and> owner \<in> set (wp_witnesses w) \<and>
    get_witness owner (nd_chain n) = Inr (k, wit) \<and> map_of (wp_private_keys w) (wit_signing_key wit) = Some sign \<and>
    witness_participation_rate (nd_chain n) \<ge> wp_required_witness_participation w \<and>
    (wp_production_enabled w \<or> production_now clock \<le> get_slot_time 1 (nd_chain n)) \<and>
    generate_block ne (wp_production_skip_flags w) (production_now clock) owner (wit_signing_key wit) sign m = Some (Inr b, n')"
proof -
  note m = assms
  let ?s = "nd_chain n" let ?now = "production_now clock" let ?slot = "get_slot_at_time ?now ?s"
  have en: "wp_production_enabled w \<or> ?now \<le> get_slot_time 1 ?s" and sl: "?slot > 0"
    using m by (auto simp: maybe_produce_block_def Let_def split: if_splits)
  obtain owner where ow: "get_scheduled_witness ?slot ?s = Inr owner" "owner \<in> set (wp_witnesses w)"
    using m en sl by (auto simp: maybe_produce_block_def Let_def split: if_splits sum.splits)
  obtain k wit where wit: "get_witness owner ?s = Inr (k, wit)"
    using m en sl ow by (auto simp: maybe_produce_block_def Let_def split: if_splits sum.splits prod.splits)
  obtain sign where sign: "map_of (wp_private_keys w) (wit_signing_key wit) = Some sign"
    using m en sl ow wit by (auto simp: maybe_produce_block_def Let_def split: if_splits option.splits)
  have pr: "witness_participation_rate ?s \<ge> wp_required_witness_participation w" "get_slot_time ?slot ?s = ?now"
    using m en sl ow wit sign by (auto simp: maybe_produce_block_def Let_def split: if_splits)
  then have "produce_retry 2 (generate_block ne (wp_production_skip_flags w) ?now owner (wit_signing_key wit) sign) n = Some ((Produced, r), n')"
    using m en sl ow wit sign by (auto simp: maybe_produce_block_def Let_def split: if_splits option.splits prod.splits)
  then show ?thesis using en sl ow wit sign pr by (auto dest!: produce_retry_produced)
qed

section \<open>An example\<close>

lemma demo_idle: "reset_session ((start_session (reset_session demo_node))\<lparr>nd_session := True\<rparr>) = demo_node"
  by (simp add: reset_session_def start_session_def drop_session_def demo_node_def h_start_def h_undo_def guardE_def)

definition demo_signing_key :: public_key where "demo_signing_key = 1"

lemma demo_check: "check_producer skip_nothing 53 ''initminer'' demo_signing_key demo_genesis = Inr demo_producer"
  by (simp add: check_producer_def chain_eval demo_signing_key_def)

lemma demo_skips: "\<not> skip_witness_signature skip_nothing" "\<not> skip_block_size_check skip_nothing"
  by (simp_all add: skip_nothing_def)

definition demo_sign :: "block \<Rightarrow> nat" where "demo_sign b = timestamp b"

lemma demo_produced_eval: "empty_block 53 ''initminer'' demo_producer demo_genesis = demo_next_block\<lparr>witness_signature := 0\<rparr>"
  by (simp add: empty_block_def reported_extensions_def demo_next_block_def MUSE_BLOCKCHAIN_VERSION_def MUSE_BLOCKCHAIN_HARDFORK_VERSION_def
      hardfork_version_def mk_version_def version_lt_def version_gt_def chain_eval)

lemma demo_generate: "\<exists>n. generate_block demo_node_env skip_nothing 53 ''initminer'' demo_signing_key demo_sign demo_node = Some (Inr demo_next_block, n)"
proof -
  obtain n where "push_block demo_node_env skip_nothing demo_next_block demo_node = Some (Inr False, n)" using demo_push by blast
  moreover have "nd_chain demo_node = demo_genesis" "nd_pending demo_node = []" by (simp_all add: demo_node_def)
  moreover have "block_size demo_node_env b \<le> MUSE_MAX_BLOCK_SIZE" for b
    by (simp add: block_size_def demo_node_env_def MUSE_MAX_BLOCK_SIZE_def MUSE_MAX_TRANSACTION_SIZE_def MUSE_BLOCK_INTERVAL_def)
  moreover have "sign_header demo_sign (demo_next_block\<lparr>witness_signature := 0, transactions := [], transaction_merkle_root := 0\<rparr>) = demo_next_block"
    by (simp add: sign_header_def demo_sign_def demo_next_block_def)
  ultimately show ?thesis
    by (simp add: generate_block_def demo_check bindN_def updN_def returnN_def Let_def demo_idle demo_skips demo_produced_eval calculate_merkle_root_def)
qed

theorem generated_block_holds_witness:
  "\<exists>n' k w. generate_block demo_node_env skip_nothing 53 ''initminer'' demo_signing_key demo_sign demo_node = Some (Inr demo_next_block, n') \<and>
     get_witness ''initminer'' (nd_chain demo_node) = Inr (k, w) \<and> wit_signing_key w = demo_signing_key \<and>
     previous demo_next_block = nd_head_id demo_node \<and> witness_signature demo_next_block = demo_sign (demo_next_block\<lparr>witness_signature := 0\<rparr>) \<and>
     subseq (transactions demo_next_block) (nd_pending demo_node)"
proof -
  obtain n' where n: "generate_block demo_node_env skip_nothing 53 ''initminer'' demo_signing_key demo_sign demo_node = Some (Inr demo_next_block, n')"
    using demo_generate by blast
  from generated_block_holds [OF n] n demo_skips(1) show ?thesis by auto
qed

definition demo_plugin :: witness_plugin where
  "demo_plugin = \<lparr>wp_production_enabled = True, wp_required_witness_participation = 0, wp_production_skip_flags = skip_nothing,
     wp_private_keys = [(demo_signing_key, demo_sign)], wp_witnesses = [''initminer'']\<rparr>"

theorem produced_on_schedule_witness:
  "\<exists>w' n' owner. maybe_produce_block demo_node_env 53000000 demo_plugin demo_node = Some (Inr (Produced, Some demo_next_block), w', n') \<and>
     get_scheduled_witness (get_slot_at_time 53 (nd_chain demo_node)) (nd_chain demo_node) = Inr owner \<and> owner \<in> set (wp_witnesses demo_plugin)"
proof -
  obtain n' where g: "generate_block demo_node_env skip_nothing 53 ''initminer'' demo_signing_key demo_sign demo_node = Some (Inr demo_next_block, n')"
    using demo_generate by blast
  have c: "nd_chain demo_node = demo_genesis" by (simp add: demo_node_def)
  have s: "get_slot_at_time 53 demo_genesis = 1" "get_slot_time 1 demo_genesis = 53" "get_scheduled_witness 1 demo_genesis = Inr ''initminer''"
    "get_witness ''initminer'' demo_genesis = Inr (0, demo_producer)" by (simp_all add: chain_eval)
  have k: "wit_signing_key demo_producer = demo_signing_key" by (simp add: chain_eval demo_signing_key_def)
  have "produce_retry 2 (generate_block demo_node_env skip_nothing 53 ''initminer'' demo_signing_key demo_sign) demo_node = Some ((Produced, Some demo_next_block), n')"
    using g by (simp add: numeral_2_eq_2)
  then have m: "maybe_produce_block demo_node_env 53000000 demo_plugin demo_node = Some (Inr (Produced, Some demo_next_block), demo_plugin, n')"
    by (simp add: maybe_produce_block_def production_now_def demo_plugin_def c s k Let_def del: One_nat_def)
  from produced_on_schedule [OF m] m show ?thesis by (auto simp: production_now_def)
qed

end
