(* ===== verification/Member_Index.thy ===== *)
theory Member_Index
  imports Evaluators Demo_Chain
begin

text \<open>
  The secondary index \<open>account_member_index\<close> (\<open>base_objects.cpp\<close>): for every account and every key it keeps the names of the
  accounts whose authorities hold it, updated by the callbacks of the account index. A map with sets as values is a function that is
  empty where the map has no entry. What is shown: after any history of callbacks the lookup is exact.
\<close>

section \<open>The index\<close>

record member_index =
  account_to_account_memberships :: "string \<Rightarrow> string set"
  account_to_key_memberships :: "public_key \<Rightarrow> string set"
  before_account_members :: "string set"
  before_key_members :: "public_key set"

definition get_account_members :: "account \<Rightarrow> string set" where
  "get_account_members a = set (map fst (account_auths (acc_owner a))) \<union> set (map fst (account_auths (acc_active a))) \<union>
     set (map fst (account_auths (acc_basic a)))"

definition get_key_members :: "account \<Rightarrow> public_key set" where
  "get_key_members a = set (map fst (key_auths (acc_owner a))) \<union> set (map fst (key_auths (acc_active a))) \<union>
     set (map fst (key_auths (acc_basic a))) \<union> {acc_memo_key a}"

text \<open>The loops that insert a name into, and erase it from, the sets of some keys.\<close>

definition enter_all :: "'k::linorder set \<Rightarrow> string \<Rightarrow> ('k \<Rightarrow> string set) \<Rightarrow> ('k \<Rightarrow> string set)" where
  "enter_all ks n m = fold (\<lambda>k m. m(k := insert n (m k))) (sorted_list_of_set ks) m"

definition leave_all :: "'k::linorder set \<Rightarrow> string \<Rightarrow> ('k \<Rightarrow> string set) \<Rightarrow> ('k \<Rightarrow> string set)" where
  "leave_all ks n m = fold (\<lambda>k m. m(k := m k - {n})) (sorted_list_of_set ks) m"

definition object_inserted :: "account \<Rightarrow> member_index \<Rightarrow> member_index" where
  "object_inserted a m = m
     \<lparr>account_to_account_memberships := enter_all (get_account_members a) (acc_name a) (account_to_account_memberships m),
      account_to_key_memberships := enter_all (get_key_members a) (acc_name a) (account_to_key_memberships m)\<rparr>"

definition object_removed :: "account \<Rightarrow> member_index \<Rightarrow> member_index" where
  "object_removed a m = m
     \<lparr>account_to_key_memberships := leave_all (get_key_members a) (acc_name a) (account_to_key_memberships m),
      account_to_account_memberships := leave_all (get_account_members a) (acc_name a) (account_to_account_memberships m)\<rparr>"

definition about_to_modify :: "account \<Rightarrow> member_index \<Rightarrow> member_index" where
  "about_to_modify a m = m\<lparr>before_key_members := get_key_members a, before_account_members := get_account_members a\<rparr>"

text \<open>Both halves of \<open>object_modified\<close>: leave what is gone, then enter what is new.\<close>

definition change_members :: "'k::linorder set \<Rightarrow> 'k set \<Rightarrow> string \<Rightarrow> ('k \<Rightarrow> string set) \<Rightarrow> ('k \<Rightarrow> string set)" where
  "change_members before after n m = enter_all (after - before) n (leave_all (before - after) n m)"

definition object_modified :: "account \<Rightarrow> member_index \<Rightarrow> member_index" where
  "object_modified a m = m
     \<lparr>account_to_account_memberships :=
        change_members (before_account_members m) (get_account_members a) (acc_name a) (account_to_account_memberships m),
      account_to_key_memberships :=
        change_members (before_key_members m) (get_key_members a) (acc_name a) (account_to_key_memberships m)\<rparr>"

definition empty_members :: member_index where
  "empty_members = \<lparr>account_to_account_memberships = (\<lambda>_. {}), account_to_key_memberships = (\<lambda>_. {}), before_account_members = {}, before_key_members = {}\<rparr>"

section \<open>The reverse lookup\<close>

definition referrers :: "(account \<Rightarrow> 'k set) \<Rightarrow> account index \<Rightarrow> 'k \<Rightarrow> string set" where
  "referrers mem ix k = {acc_name a | i a. idx_find i ix = Some a \<and> k \<in> mem a}"

definition names_unique :: "account index \<Rightarrow> bool" where
  "names_unique ix \<longleftrightarrow> (\<forall>i j a b. idx_find i ix = Some a \<longrightarrow> idx_find j ix = Some b \<longrightarrow> acc_name a = acc_name b \<longrightarrow> i = j)"

lemma enter_all_apply: "finite ks \<Longrightarrow> enter_all ks n m k = (if k \<in> ks then insert n (m k) else m k)"
proof -
  have "fold (\<lambda>k m. m(k := insert n (m k))) xs m k = (if k \<in> set xs then insert n (m k) else m k)" for xs m
    by (induction xs arbitrary: m) auto
  then show "finite ks \<Longrightarrow> ?thesis" by (simp add: enter_all_def)
qed

lemma leave_all_apply: "finite ks \<Longrightarrow> leave_all ks n m k = (if k \<in> ks then m k - {n} else m k)"
proof -
  have "fold (\<lambda>k m. m(k := m k - {n})) xs m k = (if k \<in> set xs then m k - {n} else m k)" for xs m
    by (induction xs arbitrary: m) auto
  then show "finite ks \<Longrightarrow> ?thesis" by (simp add: leave_all_def)
qed

definition others :: "(account \<Rightarrow> 'k set) \<Rightarrow> account index \<Rightarrow> nat \<Rightarrow> 'k \<Rightarrow> string set" where
  "others mem ix i k = {acc_name a | j a. j \<noteq> i \<and> idx_find j ix = Some a \<and> k \<in> mem a}"

lemma not_among_others: "names_unique ix \<Longrightarrow> idx_find i ix = Some a \<Longrightarrow> acc_name a \<notin> others mem ix i k"
  unfolding names_unique_def others_def by force

lemma find_names: "list_all (\<lambda>(k, y). acc_name a \<noteq> acc_name y) (rows ix) \<Longrightarrow> idx_find i ix = Some b \<Longrightarrow> acc_name b \<noteq> acc_name a"
  by (auto simp: idx_find_def list_all_iff dest!: map_of_SomeD)

text \<open>The two lookups have one contract: the members an account contributes are finitely many.\<close>

locale reverse_lookup =
  fixes mem :: "account \<Rightarrow> 'k::linorder set"
  assumes finite_mem: "finite (mem a)"
begin

lemma referrers_at: "idx_find i ix = Some a \<Longrightarrow> referrers mem ix k = others mem ix i k \<union> (if k \<in> mem a then {acc_name a} else {})"
  unfolding referrers_def others_def by (auto; metis option.inject)

lemma referrers_absent: "idx_find i ix = None \<Longrightarrow> referrers mem ix k = others mem ix i k"
  unfolding referrers_def others_def by force

lemma referrers_insert:
  assumes "index_ok ix" "list_all (\<lambda>(k, y). acc_name a \<noteq> acc_name y) (rows ix)"
  shows "referrers mem (idx_create a ix) = enter_all (mem a) (acc_name a) (referrers mem ix)"
proof
  fix k
  let ?i = "next_instance ix"
  have "idx_find ?i ix = None" using assms(1)
    by (auto simp: idx_find_def index_ok_def list_all_iff map_of_eq_None_iff)
  moreover have "idx_find ?i (idx_create a ix) = Some a" "others mem (idx_create a ix) ?i k = others mem ix ?i k"
    using assms(1) by (simp_all add: idx_find_create others_def cong: conj_cong)
  ultimately show "referrers mem (idx_create a ix) k = enter_all (mem a) (acc_name a) (referrers mem ix) k"
    by (simp add: referrers_at referrers_absent enter_all_apply finite_mem)
qed

lemma referrers_remove:
  assumes "names_unique ix" "idx_find i ix = Some a"
  shows "referrers mem (ix\<lparr>rows := table_delete i (rows ix)\<rparr>) = leave_all (mem a) (acc_name a) (referrers mem ix)"
proof
  fix k
  let ?ix = "ix\<lparr>rows := table_delete i (rows ix)\<rparr>"
  have "idx_find i ?ix = None" "others mem ?ix i k = others mem ix i k"
    by (simp_all add: idx_find_delete others_def cong: conj_cong)
  then show "referrers mem ?ix k = leave_all (mem a) (acc_name a) (referrers mem ix) k"
    using not_among_others [OF assms, of mem k] by (auto simp: referrers_at [OF assms(2)] referrers_absent leave_all_apply finite_mem)
qed

lemma referrers_modify:
  assumes "names_unique ix" "idx_find i ix = Some a" "acc_name b = acc_name a"
  shows "referrers mem (ix\<lparr>rows := table_update i b (rows ix)\<rparr>) = change_members (mem a) (mem b) (acc_name b) (referrers mem ix)"
proof
  fix k
  let ?ix = "ix\<lparr>rows := table_update i b (rows ix)\<rparr>"
  have "idx_find i ?ix = Some b" "others mem ?ix i k = others mem ix i k"
    using assms(2) by (simp_all add: idx_find_update others_def cong: conj_cong)
  then show "referrers mem ?ix k = change_members (mem a) (mem b) (acc_name b) (referrers mem ix) k"
    using not_among_others [OF assms(1,2), of mem k] assms(3)
    by (auto simp: referrers_at [OF assms(2)] referrers_at change_members_def enter_all_apply leave_all_apply finite_mem)
qed

end

interpretation by_account: reverse_lookup get_account_members
  by unfold_locales (simp add: get_account_members_def)

interpretation by_key: reverse_lookup get_key_members
  by unfold_locales (simp add: get_key_members_def)

section \<open>Histories\<close>

text \<open>The account index and its secondary index after any calls of \<open>create\<close>, \<open>remove\<close> and \<open>modify\<close>, from which undo sessions too are
  built; no code changes the name of an account.\<close>

inductive tracked :: "account index \<Rightarrow> member_index \<Rightarrow> bool" where
  empty: "tracked empty_index empty_members"
| insert: "tracked ix m \<Longrightarrow> idx_insert (\<lambda>x y. acc_name x = acc_name y) a ix = Inr ix' \<Longrightarrow> tracked ix' (object_inserted a m)"
| remove: "tracked ix m \<Longrightarrow> idx_find i ix = Some a \<Longrightarrow> idx_remove i ix = Inr ix' \<Longrightarrow> tracked ix' (object_removed a m)"
| modify: "tracked ix m \<Longrightarrow> idx_find i ix = Some a \<Longrightarrow> f a = Inr b \<Longrightarrow> acc_name b = acc_name a \<Longrightarrow> idx_modify i f ix = Inr ix' \<Longrightarrow>
    tracked ix' (object_modified b (about_to_modify a m))"

lemma names_unique_create:
  assumes "index_ok ix" "names_unique ix" "list_all (\<lambda>(k, y). acc_name a \<noteq> acc_name y) (rows ix)"
  shows "names_unique (idx_create a ix)"
  unfolding names_unique_def
proof (intro allI impI)
  fix i j b c
  assume "idx_find i (idx_create a ix) = Some b" "idx_find j (idx_create a ix) = Some c" "acc_name b = acc_name c"
  then show "i = j" using assms(2) find_names [OF assms(3)] unfolding names_unique_def idx_find_create [OF assms(1)]
    by (metis option.inject)
qed

lemma names_unique_delete: "names_unique ix \<Longrightarrow> names_unique (ix\<lparr>rows := table_delete i (rows ix)\<rparr>)"
  unfolding names_unique_def idx_find_delete by (metis option.distinct(1))

lemma names_unique_update:
  assumes "names_unique ix" "idx_find i ix = Some a" "acc_name b = acc_name a"
  shows "names_unique (ix\<lparr>rows := table_update i b (rows ix)\<rparr>)"
  unfolding names_unique_def
proof (intro allI impI)
  fix j l c d
  assume "idx_find j (ix\<lparr>rows := table_update i b (rows ix)\<rparr>) = Some c" "idx_find l (ix\<lparr>rows := table_update i b (rows ix)\<rparr>) = Some d" "acc_name c = acc_name d"
  then show "j = l" using assms(1,3) assms(2) [THEN idx_find_update, of j b] assms(2) [THEN idx_find_update, of l b] assms(2)
    unfolding names_unique_def by (auto split: if_splits)
qed

lemma tracked_exact:
  "tracked ix m \<Longrightarrow> index_ok ix \<and> names_unique ix \<and> account_to_account_memberships m = referrers get_account_members ix \<and>
     account_to_key_memberships m = referrers get_key_members ix"
proof (induction rule: tracked.induct)
  case empty
  then show ?case by (simp add: empty_members_def referrers_def fun_eq_iff names_unique_def idx_find_def empty_index_def index_ok_def table_ok_def)
next
  case (insert ix m a ix')
  then have "list_all (\<lambda>(k, y). acc_name a \<noteq> acc_name y) (rows ix)" "ix' = idx_create a ix" by (simp_all add: idx_insert_Inr)
  then show ?case using insert.IH
    by (simp add: object_inserted_def index_ok_create names_unique_create by_account.referrers_insert by_key.referrers_insert)
next
  case (remove ix m i a ix')
  then have "ix' = ix\<lparr>rows := table_delete i (rows ix)\<rparr>" by (auto simp: idx_remove_Inr)
  then show ?case using remove
    by (simp add: object_removed_def index_ok_delete names_unique_delete by_account.referrers_remove by_key.referrers_remove)
next
  case (modify ix m i a f b ix')
  then have "ix' = ix\<lparr>rows := table_update i b (rows ix)\<rparr>" by (auto simp: idx_modify_Inr)
  then show ?case using modify
    by (simp add: object_modified_def about_to_modify_def index_ok_update names_unique_update [of ix i a]
        by_account.referrers_modify [of ix i a] by_key.referrers_modify [of ix i a])
qed

text \<open>Property C37. The reverse lookup is exact: after any history of accounts created, changed and removed, the accounts listed under a name or
  a key are those, and only those, with that name or key in one of their owner, active or basic authorities or, for a key, as memo key. The
  comment on the maps in \<open>account_object.hpp\<close> names the owner and active authorities only.\<close>

theorem memberships_exact:
  assumes "tracked ix m"
  shows "account_to_account_memberships m n = {acc_name a | i a. idx_find i ix = Some a \<and> n \<in> get_account_members a} \<and>
    account_to_key_memberships m key = {acc_name a | i a. idx_find i ix = Some a \<and> key \<in> get_key_members a}"
  using tracked_exact [OF assms] by (simp add: referrers_def)

theorem memberships_exact_witness:
  "\<exists>ix m. tracked ix m \<and> account_to_key_memberships m 0 = {acc_name a | i a. idx_find i ix = Some a \<and> 0 \<in> get_key_members a} \<and>
     account_to_key_memberships m 0 = {''alice''}"
proof -
  let ?a = "demo_account ''alice'' 0 0 0"
  have "tracked (idx_create ?a empty_index) (object_inserted ?a empty_members)"
    by (rule tracked.insert [OF tracked.empty]) (simp add: idx_insert_Inr empty_index_def)
  moreover have "account_to_key_memberships (object_inserted ?a empty_members) 0 = {''alice''}"
    by (simp add: object_inserted_def enter_all_apply empty_members_def get_key_members_def chain_eval)
  ultimately show ?thesis using memberships_exact [of "idx_create ?a empty_index" "object_inserted ?a empty_members" "''alice''" 0] by blast
qed

end
