(* ===== verification/Account_History.thy ===== *)
theory Account_History
  imports Operations Demo_Chain
begin

text \<open>
  The account history plugin (\<open>plugins/account_history\<close>) with the visitor of \<open>app/impacted.cpp\<close> that says which accounts an
  operation touches. The plugin is called with every operation before it is applied and keeps, per account, a numbered list of
  operations. What is shown: without ranges to track, every operation is appended once to the history of exactly the accounts it
  impacts, and these include the accounts whose authority it needed; with ranges to track, nothing is ever recorded.
\<close>

section \<open>Impacted accounts\<close>

definition content_impacted :: "content_operation \<Rightarrow> string list" where
  "content_impacted x = co_uploader x # map dist_payee (co_distributions x) @
     (case co_distributions_comp x of None \<Rightarrow> [] | Some ds \<Rightarrow> map dist_payee ds) @ map mv_voter (co_management x) @
     (case co_management_comp x of None \<Rightarrow> [] | Some ms \<Rightarrow> map mv_voter ms)"

fun virtual_impacted :: "virtual_op \<Rightarrow> string list" where
  "virtual_impacted (Interest owner _) = [owner]"
| "virtual_impacted (Fill_order current_owner _ _ open_owner _ _) = [current_owner, open_owner]"
| "virtual_impacted (Fill_vesting_withdraw from_account to_account _ _) = [from_account, to_account]"
| "virtual_impacted (Content_reward payee _ _ _) = [payee]"
| "virtual_impacted (Playing_reward platform _ _ _) = [platform]"
| "virtual_impacted (Curate_reward curator _ _ _) = [curator]"
| "virtual_impacted (Fill_convert_request owner _ _ _) = [owner]"
| "virtual_impacted (Liquidity_reward owner _) = [owner]"

text \<open>The last case is the template of the visitor: the required active and owner authorities.\<close>

fun impacted_accounts :: "operation \<Rightarrow> string list" where
  "impacted_accounts (Account_create x) = [ac_new_account_name x, ac_creator x]"
| "impacted_accounts (Account_update x) = [au_account x]"
| "impacted_accounts (Vote x) = [vo_voter x]"
| "impacted_accounts (Transfer x) = [tr_from x, tr_to x]"
| "impacted_accounts (Transfer_to_vesting x) = tv_from x # (if tv_to x \<noteq> [] \<and> tv_to x \<noteq> tv_from x then [tv_to x] else [])"
| "impacted_accounts (Withdraw_vesting x) = [wd_account x]"
| "impacted_accounts (Witness_update x) = [wu_owner x]"
| "impacted_accounts (Account_witness_vote x) = [awv_account x, awv_witness x]"
| "impacted_accounts (Account_witness_proxy x) = [awp_account x, awp_proxy x]"
| "impacted_accounts (Feed_publish x) = [fp_publisher x]"
| "impacted_accounts (Limit_order_create x) = [lc_owner x]"
| "impacted_accounts (Limit_order_cancel x) = [lx_owner x]"
| "impacted_accounts (Custom x) = cu_required_auths x"
| "impacted_accounts (Request_account_recovery x) = [rr_account_to_recover x]"
| "impacted_accounts (Recover_account x) = [ra_account_to_recover x]"
| "impacted_accounts (Change_recovery_account x) = [cr_op_account_to_recover x]"
| "impacted_accounts (Streaming_platform_update x) = [spu_owner x]"
| "impacted_accounts (Account_streaming_platform_vote x) = [asv_account x, asv_streaming_platform x]"
| "impacted_accounts (Streaming_platform_report x) = [spr_streaming_platform x, spr_consumer x]"
| "impacted_accounts (Friendship x) = [fr_who x, fr_whom x]"
| "impacted_accounts (Unfriend x) = [uf_who x, uf_whom x]"
| "impacted_accounts (Content x) = content_impacted x"
| "impacted_accounts (Content_update x) = map dist_payee (cup_new_distributions x) @ map mv_voter (cup_new_management x)"
| "impacted_accounts (Content_approve x) = [cap_approver x]"
| "impacted_accounts (Virtual v) = virtual_impacted v"
| "impacted_accounts op = req_active (operation_auths op) @ req_owner (operation_auths op)"

definition operation_get_impacted_accounts :: "operation \<Rightarrow> string list \<Rightarrow> string list" where
  "operation_get_impacted_accounts op r = ins (impacted_accounts op) r"

definition transaction_get_impacted_accounts :: "signed_transaction \<Rightarrow> string list \<Rightarrow> string list" where
  "transaction_get_impacted_accounts tx r = fold operation_get_impacted_accounts (tx_operations tx) r"

section \<open>The plugin\<close>

record operation_object =
  oo_trx_id :: nat
  oo_block :: nat
  oo_trx_in_block :: nat
  oo_op_in_trx :: nat
  oo_virtual_op :: nat
  oo_timestamp :: time_sec
  oo_op :: operation

record account_history_object =
  ah_account :: string
  ah_sequence :: nat
  ah_op :: nat

record history_tables =
  ht_operations :: "operation_object index"
  ht_history :: "account_history_object index"

text \<open>The entries of an account; the index by account orders them from the highest sequence number down.\<close>

definition entries :: "string \<Rightarrow> history_tables \<Rightarrow> account_history_object list" where
  "entries item h = filter (\<lambda>x. ah_account x = item) (map snd (rows (ht_history h)))"

definition next_sequence :: "string \<Rightarrow> history_tables \<Rightarrow> nat" where
  "next_sequence item h =
     (case map ah_sequence (entries item h) of [] \<Rightarrow> 0 | q # qs \<Rightarrow> (fold max qs q + 1) mod 2 ^ 32)"

definition stored_operation :: "time_sec \<Rightarrow> operation_object \<Rightarrow> nat option \<times> history_tables \<Rightarrow> nat \<times> history_tables" where
  "stored_operation now ob st = (case st of
     (Some k, h) \<Rightarrow> (k, h)
   | (None, h) \<Rightarrow> (next_instance (ht_operations h), h\<lparr>ht_operations := idx_create (ob\<lparr>oo_timestamp := now\<rparr>) (ht_operations h)\<rparr>))"

definition operation_visitor :: "time_sec \<Rightarrow> operation_object \<Rightarrow> string \<Rightarrow> nat option \<times> history_tables \<Rightarrow> (nat option \<times> history_tables) res" where
  "operation_visitor now ob item st =
     (let (k, h) = stored_operation now ob st in
      bindE (idx_insert (\<lambda>x y. ah_account x = ah_account y \<and> ah_sequence x = ah_sequence y)
        \<lparr>ah_account = item, ah_sequence = next_sequence item h, ah_op = k\<rparr> (ht_history h)) (\<lambda>ix.
      Inr (Some k, h\<lparr>ht_history := ix\<rparr>)))"

text \<open>The ranges are a map ordered by their first name, searched with \<open>lower_bound\<close>.\<close>

definition is_tracked :: "(string \<times> string) list \<Rightarrow> string \<Rightarrow> bool" where
  "is_tracked ranges item \<longleftrightarrow> ranges = [] \<or>
     (case find (\<lambda>(first, second). item \<le> first) ranges of None \<Rightarrow> False | Some (first, second) \<Rightarrow> first \<le> item \<and> second < item)"

definition on_operation :: "(string \<times> string) list \<Rightarrow> time_sec \<Rightarrow> operation_object \<Rightarrow> history_tables \<Rightarrow> history_tables res" where
  "on_operation ranges now ob h =
     bindE (foldE (\<lambda>item st. if is_tracked ranges item then operation_visitor now ob item st else Inr st)
       (operation_get_impacted_accounts (oo_op ob) []) (None, h)) (\<lambda>(k, h). Inr h)"

section \<open>Whom an operation impacts\<close>

lemma set_ins: "set (ins new old) = set new \<union> set old"
  by (induction new arbitrary: old) (auto simp: ins_def set_insort_insert)

lemma distinct_ins: "distinct old \<Longrightarrow> distinct (ins new old)"
  by (induction new arbitrary: old) (auto simp: ins_def distinct_insort_insert)

lemmas auth_defs = need_active_def need_owner_def need_basic_def no_auths_def content_update_auths_def custom_json_auths_def proposal_update_auths_def
  proposal_delete_auths_def balance_claim_auths_def

text \<open>Every account whose active or owner authority an operation needs is impacted, but for the account that requests a recovery.\<close>

lemma impacted_required:
  assumes "n \<in> set (req_active (operation_auths op)) \<union> set (req_owner (operation_auths op))" "\<And>x. op \<noteq> Request_account_recovery x"
  shows "n \<in> set (operation_get_impacted_accounts op [])"
  using assms by (cases op) (auto simp: operation_get_impacted_accounts_def set_ins auth_defs content_impacted_def Let_def split: if_splits authority_type.splits)

lemma recovery_account_not_impacted:
  "req_active (operation_auths (Request_account_recovery x)) = [rr_recovery_account x] \<and>
   operation_get_impacted_accounts (Request_account_recovery x) [] = [rr_account_to_recover x]"
  by (simp add: operation_get_impacted_accounts_def ins_def auth_defs insort_insert_key_def)

section \<open>What is recorded\<close>

definition history_ok :: "history_tables \<Rightarrow> bool" where
  "history_ok h \<longleftrightarrow> (\<forall>n. map ah_sequence (entries n h) = [0..<length (entries n h)] \<and> length (entries n h) < 2 ^ 32 - 1)"

lemma fold_max_upt: "fold max [a..<b] (c::nat) = (if a < b then max c (b - 1) else c)"
  by (induction b) auto

lemma next_sequence_ok: "history_ok h \<Longrightarrow> next_sequence n h = length (entries n h)"
proof -
  assume h: "history_ok h"
  show ?thesis
  proof (cases "entries n h")
    case Nil
    then show ?thesis by (simp add: next_sequence_def)
  next
    case (Cons x xs)
    have q: "map ah_sequence (entries n h) = [0..<length (entries n h)]" "length (entries n h) < 2 ^ 32 - 1"
      using h unfolding history_ok_def by blast+
    then have "ah_sequence x # map ah_sequence xs = 0 # [1..<length (entries n h)]" using Cons by (simp add: upt_conv_Cons del: upt_Suc)
    then show ?thesis using Cons q(2) by (auto simp: next_sequence_def fold_max_upt simp del: upt_Suc)
  qed
qed

definition entry :: "nat \<Rightarrow> history_tables \<Rightarrow> string \<Rightarrow> account_history_object" where
  "entry k h n = \<lparr>ah_account = n, ah_sequence = length (entries n h), ah_op = k\<rparr>"

lemma visit_stored:
  assumes "history_ok h"
  shows "operation_visitor now ob n (Some k, h) = Inr (Some k, h\<lparr>ht_history := idx_create (entry k h n) (ht_history h)\<rparr>)"
proof -
  have "\<not> (ah_account x = n \<and> ah_sequence x = length (entries n h))" if "x \<in> set (map snd (rows (ht_history h)))" for x
  proof
    assume a: "ah_account x = n \<and> ah_sequence x = length (entries n h)"
    then have "x \<in> set (entries n h)" using that by (auto simp: entries_def)
    then have "ah_sequence x \<in> set [0..<length (entries n h)]" using assms unfolding history_ok_def by (metis image_eqI set_map)
    then show False using a by simp
  qed
  then show ?thesis
    by (force simp: operation_visitor_def stored_operation_def next_sequence_ok [OF assms] idx_insert_def guardE_def list_all_iff entry_def)
qed

lemma entries_create:
  "entries m (h\<lparr>ht_history := idx_create x (ht_history h)\<rparr>) = entries m h @ (if m = ah_account x then [x] else [])"
  by (simp add: entries_def idx_create_def)

lemma visit_all:
  assumes "history_ok h" "\<And>n. length (entries n h) < 2 ^ 32 - 2" "distinct ns"
  shows "\<exists>h'. foldE (operation_visitor now ob) ns (Some k, h) = Inr (Some k, h') \<and> ht_operations h' = ht_operations h \<and> history_ok h' \<and>
    (\<forall>n. entries n h' = entries n h @ (if n \<in> set ns then [entry k h n] else []))"
proof -
  have "\<exists>h'. foldE (operation_visitor now ob) ms (Some k, g) = Inr (Some k, h') \<and> ht_operations h' = ht_operations h \<and> history_ok h' \<and>
    (\<forall>n. entries n h' = entries n g @ (if n \<in> set ms then [entry k h n] else []))"
    if "distinct ms" "history_ok g" "ht_operations g = ht_operations h" "\<And>n. n \<in> set ms \<Longrightarrow> entries n g = entries n h" for ms g
    using that
  proof (induction ms arbitrary: g)
    case Nil
    then show ?case by simp
  next
    case (Cons m ms)
    let ?g = "g\<lparr>ht_history := idx_create (entry k g m) (ht_history g)\<rparr>"
    have en: "entries n ?g = entries n g @ (if n = m then [entry k h m] else [])" for n
      using Cons.prems(4) [of m] by (simp add: entries_create entry_def)
    have m: "entries m g = entries m h" using Cons.prems(4) by simp
    have "history_ok ?g" unfolding history_ok_def
    proof
      fix n
      show "map ah_sequence (entries n ?g) = [0..<length (entries n ?g)] \<and> length (entries n ?g) < 2 ^ 32 - 1"
        using spec [OF Cons.prems(2) [unfolded history_ok_def], of n] assms(2) [of m] m unfolding en by (cases "n = m") (simp_all add: entry_def)
    qed
    note ok = this
    have "entries n ?g = entries n h" if "n \<in> set ms" for n using that Cons.prems(1) Cons.prems(4) [of n] by (auto simp: en)
    with Cons.IH [OF _ ok] Cons.prems(1,3) obtain h' where h':
      "foldE (operation_visitor now ob) ms (Some k, ?g) = Inr (Some k, h')" "ht_operations h' = ht_operations h" "history_ok h'"
      "\<And>n. entries n h' = entries n ?g @ (if n \<in> set ms then [entry k h n] else [])"
      by auto
    then show ?case using Cons.prems(1) by (intro exI [of _ h']) (auto simp: visit_stored [OF Cons.prems(2)] en)
  qed
  from this [of ns h] show ?thesis using assms by simp
qed

lemma visit_first:
  "operation_visitor now ob n (None, h) =
   operation_visitor now ob n (Some (next_instance (ht_operations h)), h\<lparr>ht_operations := idx_create (ob\<lparr>oo_timestamp := now\<rparr>) (ht_operations h)\<rparr>)"
  by (simp add: operation_visitor_def stored_operation_def)

text \<open>Property C38. Without ranges to track, and as long as no history holds \<open>2^32 - 2\<close> entries, the account history plugin records an operation that
  impacts any account once, with the time of the head block, and one that impacts nobody not at all; it appends the operation to the
  history of exactly the accounts it impacts, under the next consecutive sequence number of each of them.\<close>

theorem history_records_impacted:
  assumes "history_ok h" "\<And>n. length (entries n h) < 2 ^ 32 - 2" "k = next_instance (ht_operations h)"
  shows "\<exists>h'. on_operation [] now ob h = Inr h' \<and> history_ok h' \<and>
    rows (ht_operations h') = rows (ht_operations h) @ (if operation_get_impacted_accounts (oo_op ob) [] = [] then [] else [(k, ob\<lparr>oo_timestamp := now\<rparr>)]) \<and>
    (\<forall>n. entries n h' = entries n h @ (if n \<in> set (operation_get_impacted_accounts (oo_op ob) [])
       then [\<lparr>ah_account = n, ah_sequence = length (entries n h), ah_op = k\<rparr>] else []))"
proof (cases "operation_get_impacted_accounts (oo_op ob) [] = []")
  case True
  then show ?thesis using assms(1) by (intro exI [of _ h]) (simp add: on_operation_def)
next
  case False
  let ?ns = "operation_get_impacted_accounts (oo_op ob) []"
  let ?h = "h\<lparr>ht_operations := idx_create (ob\<lparr>oo_timestamp := now\<rparr>) (ht_operations h)\<rparr>"
  have e: "entries n ?h = entries n h" for n by (simp add: entries_def)
  have "distinct ?ns" by (simp add: operation_get_impacted_accounts_def distinct_ins)
  then obtain h' where h': "foldE (operation_visitor now ob) ?ns (Some k, ?h) = Inr (Some k, h')" "ht_operations h' = ht_operations ?h" "history_ok h'"
    "\<forall>n. entries n h' = entries n ?h @ (if n \<in> set ?ns then [entry k ?h n] else [])"
    using visit_all [of ?h ?ns now ob k] assms(1,2) by (auto simp: history_ok_def e)
  have "foldE (operation_visitor now ob) ?ns (None, h) = foldE (operation_visitor now ob) ?ns (Some k, ?h)"
    using False assms(3) by (cases ?ns) (simp_all add: visit_first)
  then have "on_operation [] now ob h = Inr h'" using h'(1) by (simp add: on_operation_def is_tracked_def)
  moreover have "rows (ht_operations h') = rows (ht_operations h) @ [(k, ob\<lparr>oo_timestamp := now\<rparr>)]"
    using h'(2) assms(3) by (simp add: idx_create_def)
  ultimately show ?thesis using False h'(3,4) unfolding e entry_def by (intro exI [of _ h']) simp
qed

text \<open>Property C39. With ranges to track, nothing is recorded: the test compares the account with both ends of a range the wrong way round, so
  for ranges whose first name is not behind their second one no account is ever tracked.\<close>

theorem tracked_ranges_record_nothing:
  assumes "ranges \<noteq> []" "list_all (\<lambda>(first, second). first \<le> second) ranges"
  shows "\<not> is_tracked ranges item \<and> on_operation ranges now ob h = Inr h"
proof -
  have no: "\<not> is_tracked ranges n" for n
    using assms by (auto simp: is_tracked_def list_all_iff find_Some_iff2 split: option.splits) (metis (mono_tags, lifting) case_prodD find_Some_iff leD nth_mem order_antisym_conv)
  have "foldE (\<lambda>item st. if is_tracked ranges item then operation_visitor now ob item st else Inr st) ns st = Inr st" for ns st
    by (induction ns) (simp_all add: no)
  then show ?thesis using no by (simp add: on_operation_def)
qed

section \<open>An example\<close>

definition demo_payment :: operation_object where
  "demo_payment = \<lparr>oo_trx_id = 1, oo_block = 2, oo_trx_in_block = 0, oo_op_in_trx = 0, oo_virtual_op = 0, oo_timestamp = 0,
     oo_op = Transfer \<lparr>tr_from = ''alice'', tr_to = ''bob'', tr_amount = mk_asset 5 MUSE_SYMBOL, tr_memo = []\<rparr>\<rparr>"

definition no_history :: history_tables where
  "no_history = \<lparr>ht_operations = empty_index, ht_history = empty_index\<rparr>"

theorem history_records_impacted_witness:
  "\<exists>h'. on_operation [] 60 demo_payment no_history = Inr h' \<and> entries ''bob'' h' = [\<lparr>ah_account = ''bob'', ah_sequence = 0, ah_op = 0\<rparr>] \<and> entries ''carol'' h' = []"
proof -
  have e: "entries n no_history = []" for n by (simp add: entries_def no_history_def empty_index_def)
  have i: "set (operation_get_impacted_accounts (oo_op demo_payment) []) = {''alice'', ''bob''}"
    by (auto simp: operation_get_impacted_accounts_def set_ins demo_payment_def)
  have ok: "history_ok no_history" "\<And>n. length (entries n no_history) < 2 ^ 32 - 2" by (simp_all add: history_ok_def e)
  have k: "next_instance (ht_operations no_history) = 0" by (simp add: no_history_def empty_index_def)
  obtain h' where "on_operation [] 60 demo_payment no_history = Inr h'"
    "\<And>n. entries n h' = (if n = ''alice'' \<or> n = ''bob'' then [\<lparr>ah_account = n, ah_sequence = 0, ah_op = 0\<rparr>] else [])"
    using history_records_impacted [OF ok k [symmetric], of 60 demo_payment] unfolding e i insert_iff empty_iff list.size append_Nil simp_thms by blast
  then show ?thesis by (intro exI [of _ h']) simp
qed

theorem tracked_ranges_record_nothing_witness:
  "\<not> is_tracked [(''alice'', ''carol'')] ''bob'' \<and> on_operation [(''alice'', ''carol'')] 60 demo_payment no_history = Inr no_history"
proof -
  have "list_all (\<lambda>(first, second). first \<le> second) [(''alice'', ''carol'')]" by (simp add: less_eq_char_def)
  then show ?thesis using tracked_ranges_record_nothing [of "[(''alice'', ''carol'')]" "''bob''" 60 demo_payment no_history] by simp
qed

end
