(* ===== verification/Market_History.thy ===== *)
theory Market_History
  imports Operations Asset_Laws Demo_Chain "HOL-Library.Product_Lexorder"
begin

text \<open>
  The market history plugin (\<open>plugins/market_history\<close>): for every tracked length of time it keeps a bucket per interval with the
  opening, closing, highest and lowest rate and the volume of the orders filled in it, and drops the buckets that are too old. What is
  shown: on the market of MUSE and MBD every bucket it keeps is the exact summary of the fills of its interval.
\<close>

section \<open>Buckets\<close>

record bucket_object =
  bk_open :: time_sec
  bk_seconds :: nat
  high_muse :: share
  high_mbd :: share
  low_muse :: share
  low_mbd :: share
  open_muse :: share
  open_mbd :: share
  close_muse :: share
  close_mbd :: share
  muse_volume :: share
  mbd_volume :: share

record order_history_object =
  oh_time :: time_sec
  oh_op :: virtual_op

record market_tables =
  mt_buckets :: "bucket_object index"
  mt_orders :: "order_history_object index"

definition bucket_high :: "bucket_object \<Rightarrow> price res" where
  "bucket_high b = asset_div_asset (mk_asset (high_mbd b) MBD_SYMBOL) (mk_asset (high_muse b) MUSE_SYMBOL)"

definition bucket_low :: "bucket_object \<Rightarrow> price res" where
  "bucket_low b = asset_div_asset (mk_asset (low_mbd b) MBD_SYMBOL) (mk_asset (low_muse b) MUSE_SYMBOL)"

text \<open>The amounts taken as MUSE and as MBD: the open order pays MUSE, or else the new one is taken to.\<close>

definition muse_side :: "asset \<Rightarrow> asset \<Rightarrow> asset" where
  "muse_side current_pays open_pays = (if asset_id open_pays = MUSE_SYMBOL then open_pays else current_pays)"

definition mbd_side :: "asset \<Rightarrow> asset \<Rightarrow> asset" where
  "mbd_side current_pays open_pays = (if asset_id open_pays = MUSE_SYMBOL then current_pays else open_pays)"

definition new_bucket :: "time_sec \<Rightarrow> nat \<Rightarrow> asset \<Rightarrow> asset \<Rightarrow> bucket_object" where
  "new_bucket opened seconds m d =
     \<lparr>bk_open = opened, bk_seconds = seconds, high_muse = amount m, high_mbd = amount d, low_muse = amount m, low_mbd = amount d,
      open_muse = amount m, open_mbd = amount d, close_muse = amount m, close_mbd = amount d, muse_volume = amount m, mbd_volume = amount d\<rparr>"

definition raise_high :: "asset \<Rightarrow> asset \<Rightarrow> bucket_object \<Rightarrow> bucket_object res" where
  "raise_high m d b = bindE (bucket_high b) (\<lambda>h.
     Inr (if price_lt h (mk_price d m) then b\<lparr>high_muse := amount m, high_mbd := amount d\<rparr> else b))"

definition drop_low :: "asset \<Rightarrow> asset \<Rightarrow> bucket_object \<Rightarrow> bucket_object res" where
  "drop_low m d b = bindE (bucket_low b) (\<lambda>l.
     Inr (if price_gt l (mk_price d m) then b\<lparr>low_muse := amount m, low_mbd := amount d\<rparr> else b))"

definition update_bucket :: "asset \<Rightarrow> asset \<Rightarrow> bucket_object \<Rightarrow> bucket_object res" where
  "update_bucket m d b =
     bindE (safe_add (muse_volume b) (amount m)) (\<lambda>x.
     bindE (safe_add (mbd_volume b) (amount d)) (\<lambda>y.
     bindE (raise_high m d (b\<lparr>muse_volume := x, mbd_volume := y, close_muse := amount m, close_mbd := amount d\<rparr>)) (
     drop_low m d)))"

section \<open>Old buckets\<close>

text \<open>The buckets from the first one of some length on, in the order of length and time. Reading past the last one is undefined.\<close>

definition buckets_from :: "nat \<Rightarrow> bucket_object index \<Rightarrow> (nat \<times> bucket_object) list" where
  "buckets_from seconds ix = filter (\<lambda>(k, b). seconds \<le> bk_seconds b) (sort_key (\<lambda>(k, b). (bk_seconds b, bk_open b)) (rows ix))"

fun trim_buckets :: "nat \<Rightarrow> int \<Rightarrow> (nat \<times> bucket_object) list \<Rightarrow> bucket_object index \<Rightarrow> bucket_object index res" where
  "trim_buckets seconds cutoff [] ix = Inl Other_exn"
| "trim_buckets seconds cutoff ((k, b) # bs) ix =
     (if bk_seconds b = seconds \<and> int (bk_open b) < cutoff
      then bindE (idx_remove k ix) (trim_buckets seconds cutoff bs)
      else Inr ix)"

section \<open>The plugin\<close>

definition bucket_cutoff :: "int \<Rightarrow> time_sec \<Rightarrow> nat \<Rightarrow> int" where
  "bucket_cutoff max_history now bucket = int now - int bucket * max_history mod 2 ^ 32"

definition track_bucket :: "int \<Rightarrow> time_sec \<Rightarrow> asset \<Rightarrow> asset \<Rightarrow> nat \<Rightarrow> bucket_object index \<Rightarrow> bucket_object index res" where
  "track_bucket max_history now m d bucket ix =
     (if bucket = 0 then Inl Div_by_zero_exn
      else
        let opened = now div bucket * bucket in
        case idx_by (\<lambda>b. bk_seconds b = bucket \<and> bk_open b = opened) ix of
          None \<Rightarrow> idx_insert (\<lambda>x y. bk_seconds x = bk_seconds y \<and> bk_open x = bk_open y) (new_bucket opened bucket m d) ix
        | Some (k, b) \<Rightarrow>
            bindE (idx_modify k (update_bucket m d) ix) (\<lambda>ix.
            if max_history > 0 then trim_buckets bucket (bucket_cutoff max_history now bucket) (buckets_from bucket ix) ix else Inr ix))"

definition update_market_histories :: "nat list \<Rightarrow> int \<Rightarrow> time_sec \<Rightarrow> operation \<Rightarrow> market_tables \<Rightarrow> market_tables res" where
  "update_market_histories tracked_buckets max_history now op mt =
     (case op of
        Virtual (Fill_order current_owner current_orderid current_pays open_owner open_orderid open_pays) \<Rightarrow>
          let mt = mt\<lparr>mt_orders := idx_create
            \<lparr>oh_time = now, oh_op = Fill_order current_owner current_orderid current_pays open_owner open_orderid open_pays\<rparr> (mt_orders mt)\<rparr> in
          if max_history = 0 then Inr mt
          else bindE (foldE (track_bucket max_history now (muse_side current_pays open_pays) (mbd_side current_pays open_pays)) tracked_buckets (mt_buckets mt)) (\<lambda>ix.
            Inr (mt\<lparr>mt_buckets := ix\<rparr>))
      | _ \<Rightarrow> Inr mt)"

section \<open>A bucket sums up its fills\<close>

text \<open>A fill is a pair of amounts in MUSE and MBD; its rate is MBD per MUSE.\<close>

definition rate_le :: "int \<times> int \<Rightarrow> int \<times> int \<Rightarrow> bool" where
  "rate_le f g \<longleftrightarrow> snd f * fst g \<le> snd g * fst f"

definition fill_ok :: "int \<times> int \<Rightarrow> bool" where
  "fill_ok f \<longleftrightarrow> 0 < fst f \<and> in_int64 (fst f) \<and> 0 < snd f \<and> in_int64 (snd f)"

definition sums_up :: "bucket_object \<Rightarrow> (int \<times> int) list \<Rightarrow> bool" where
  "sums_up b fs \<longleftrightarrow> fs \<noteq> [] \<and> (open_muse b, open_mbd b) = hd fs \<and> (close_muse b, close_mbd b) = last fs \<and>
     muse_volume b = sum_list (map fst fs) \<and> mbd_volume b = sum_list (map snd fs) \<and>
     (high_muse b, high_mbd b) \<in> set fs \<and> (low_muse b, low_mbd b) \<in> set fs \<and>
     (\<forall>f\<in>set fs. rate_le f (high_muse b, high_mbd b) \<and> rate_le (low_muse b, low_mbd b) f)"

lemma rate_trans:
  assumes "rate_le f g" "rate_le g h" "fill_ok f" "fill_ok g" "fill_ok h"
  shows "rate_le f h"
proof -
  have "snd f * fst g * fst h \<le> snd g * fst f * fst h" using assms(1,5) by (simp add: rate_le_def fill_ok_def mult_right_mono)
  also have "\<dots> = snd g * fst h * fst f" by simp
  also have "\<dots> \<le> snd h * fst g * fst f" using assms(2,3) by (simp add: rate_le_def fill_ok_def mult_right_mono)
  finally have "fst g * (snd f * fst h) \<le> fst g * (snd h * fst f)" by (simp add: mult_ac)
  then show ?thesis using assms(4) by (simp add: rate_le_def fill_ok_def)
qed

lemma rate_linear: "rate_le f g \<or> rate_le g f"
  by (auto simp: rate_le_def mult_ac)

lemma price_rate:
  assumes "fill_ok (m, d)" "fill_ok (m', d')" "x \<noteq> y"
  shows "price_lt (mk_price (mk_asset d x) (mk_asset m y)) (mk_price (mk_asset d' x) (mk_asset m' y)) \<longleftrightarrow> \<not> rate_le (m', d') (m, d)"
    and "price_gt (mk_price (mk_asset d x) (mk_asset m y)) (mk_price (mk_asset d' x) (mk_asset m' y)) \<longleftrightarrow> \<not> rate_le (m, d) (m', d')"
  using assms price_lt_iff [of "mk_price (mk_asset d x) (mk_asset m y)" "mk_price (mk_asset d' x) (mk_asset m' y)"]
  by (auto simp: price_gt_def price_le_def rate_le_def fill_ok_def price_amounts_ok_def not_le)

lemma new_bucket_sums: "sums_up (new_bucket t s m d) [(amount m, amount d)]"
  by (simp add: sums_up_def new_bucket_def rate_le_def)

lemma sums_up_high: "sums_up b fs \<Longrightarrow> list_all fill_ok fs \<Longrightarrow> fill_ok (high_muse b, high_mbd b) \<and> fill_ok (low_muse b, low_mbd b)"
  by (auto simp: sums_up_def list_all_iff)

lemma update_bucket_sums:
  assumes "update_bucket m d b = Inr b'" "sums_up b fs" "list_all fill_ok fs" "fill_ok (amount m, amount d)"
    and "asset_id m = MUSE_SYMBOL" "asset_id d = MBD_SYMBOL"
  shows "sums_up b' (fs @ [(amount m, amount d)]) \<and> bk_seconds b' = bk_seconds b \<and> bk_open b' = bk_open b"
proof -
  let ?f = "(amount m, amount d)"
  have ok: "fill_ok (high_muse b, high_mbd b)" "fill_ok (low_muse b, low_mbd b)" using sums_up_high [OF assms(2,3)] by blast+
  have md: "m = mk_asset (amount m) MUSE_SYMBOL" "d = mk_asset (amount d) MBD_SYMBOL" using assms(5,6) by (simp_all flip: assms(5,6))
  have ne: "MBD_SYMBOL \<noteq> MUSE_SYMBOL" by (simp add: MBD_SYMBOL_def MUSE_SYMBOL_def)
  have b': "b' = b\<lparr>muse_volume := muse_volume b + amount m, mbd_volume := mbd_volume b + amount d, close_muse := amount m, close_mbd := amount d,
      high_muse := (if rate_le ?f (high_muse b, high_mbd b) then high_muse b else amount m),
      high_mbd := (if rate_le ?f (high_muse b, high_mbd b) then high_mbd b else amount d),
      low_muse := (if rate_le (low_muse b, low_mbd b) ?f then low_muse b else amount m),
      low_mbd := (if rate_le (low_muse b, low_mbd b) ?f then low_mbd b else amount d)\<rparr>"
    using assms(1) price_rate(1) [OF ok(1) assms(4) ne] price_rate(2) [OF ok(2) assms(4) ne]
    by (auto simp: update_bucket_def raise_high_def drop_low_def bucket_high_def bucket_low_def asset_div_asset_def guardE_def ne md [symmetric] res_simps)
  have fs: "fill_ok f" if "f \<in> set fs" for f using assms(3) that by (simp add: list_all_iff)
  have hi: "rate_le f ?f" if "f \<in> set fs" "\<not> rate_le ?f (high_muse b, high_mbd b)" for f
    using that assms(2) rate_linear fs rate_trans [OF _ _ _ ok(1) assms(4)] unfolding sums_up_def by blast
  have lo: "rate_le ?f f" if "f \<in> set fs" "\<not> rate_le (low_muse b, low_mbd b) ?f" for f
    using that assms(2) rate_linear fs rate_trans [OF _ _ assms(4) ok(2)] unfolding sums_up_def by blast
  show ?thesis unfolding b' using assms(2) hi lo by (auto simp: sums_up_def rate_le_def)
qed

section \<open>The buckets of one length\<close>

definition sized :: "nat \<Rightarrow> bucket_object index \<Rightarrow> (nat \<times> bucket_object) set" where
  "sized s ix = {(k, b). idx_find k ix = Some b \<and> bk_seconds b = s}"

text \<open>The fills, given with their times, of the interval of length \<open>s\<close> from \<open>opened\<close> on.\<close>

definition fills_in :: "nat \<Rightarrow> time_sec \<Rightarrow> (time_sec \<times> int \<times> int) list \<Rightarrow> (int \<times> int) list" where
  "fills_in s opened fs = map snd (filter (\<lambda>(t, f). t div s * s = opened) fs)"

text \<open>Every bucket sums up its interval, no two are of one interval, and a fill without a bucket is of an interval that is over.\<close>

definition kept_exact :: "nat \<Rightarrow> (time_sec \<times> int \<times> int) list \<Rightarrow> time_sec \<Rightarrow> (nat \<times> bucket_object) set \<Rightarrow> bool" where
  "kept_exact s fs now S \<longleftrightarrow>
     (\<forall>k b. (k, b) \<in> S \<longrightarrow> sums_up b (fills_in s (bk_open b) fs)) \<and>
     (\<forall>k b j c. (k, b) \<in> S \<longrightarrow> (j, c) \<in> S \<longrightarrow> bk_open b = bk_open c \<longrightarrow> k = j) \<and>
     (\<forall>t f. (t, f) \<in> set fs \<longrightarrow> (\<exists>k b. (k, b) \<in> S \<and> bk_open b = t div s * s) \<or> t div s * s + s \<le> now)"

lemma kept_exact_later: "kept_exact s fs now S \<Longrightarrow> now \<le> now' \<Longrightarrow> kept_exact s fs now' S"
  unfolding kept_exact_def by (meson le_trans)

lemma unique_insert:
  assumes "\<And>k b j c. (k, b) \<in> S \<Longrightarrow> (j, c) \<in> S \<Longrightarrow> bk_open b = bk_open c \<Longrightarrow> k = j"
    and "\<And>k c. (k, c) \<in> S' \<Longrightarrow> (k, c) \<in> S \<and> (k \<noteq> i \<longrightarrow> bk_open c \<noteq> bk_open b)"
    and "(k, c) \<in> insert (i, b) S'" "(j, d) \<in> insert (i, b) S'" "bk_open c = bk_open d"
  shows "k = j"
proof (cases "(k, c) = (i, b)"; cases "(j, d) = (i, b)")
  assume "(k, c) = (i, b)" "(j, d) \<noteq> (i, b)"
  then show ?thesis using assms(2) [of j d] assms(4,5) by auto
next
  assume "(k, c) \<noteq> (i, b)" "(j, d) = (i, b)"
  then show ?thesis using assms(2) [of k c] assms(3,5) by auto
next
  assume "(k, c) \<noteq> (i, b)" "(j, d) \<noteq> (i, b)"
  then show ?thesis using assms(1) [of k c j d] assms(2) assms(3-5) by blast
qed simp

lemma kept_unique: "kept_exact s fs now S \<Longrightarrow> (k, b) \<in> S \<Longrightarrow> (j, c) \<in> S \<Longrightarrow> bk_open b = bk_open c \<Longrightarrow> k = j"
  unfolding kept_exact_def by blast

lemma kept_sums: "kept_exact s fs now S \<Longrightarrow> (k, b) \<in> S \<Longrightarrow> sums_up b (fills_in s (bk_open b) fs)"
  unfolding kept_exact_def by blast

lemma kept_there: "kept_exact s fs now S \<Longrightarrow> (t, f) \<in> set fs \<Longrightarrow> (\<exists>k b. (k, b) \<in> S \<and> bk_open b = t div s * s) \<or> t div s * s + s \<le> now"
  unfolding kept_exact_def by blast

lemma interval_bounds: "0 < s \<Longrightarrow> t div s * s \<le> t \<and> t < t div s * s + (s :: nat)"
  by (metis div_times_less_eq_dividend dividend_less_div_times add.commute mult.commute)

lemma fills_in_snoc: "fills_in s opened (fs @ [(t, f)]) = fills_in s opened fs @ (if t div s * s = opened then [f] else [])"
  by (simp add: fills_in_def)

lemma kept_exact_new:
  assumes "kept_exact s fs now S" "0 < s" "\<And>k b. (k, b) \<in> S \<Longrightarrow> bk_open b \<noteq> now div s * s"
    and "i \<notin> fst ` S" "bk_open b = now div s * s" "sums_up b [f]"
  shows "kept_exact s (fs @ [(now, f)]) now (insert (i, b) S)"
proof -
  let ?o = "now div s * s"
  have "t div s * s \<noteq> ?o" if "(t, g) \<in> set fs" for t g
  proof
    assume eq: "t div s * s = ?o"
    from kept_there [OF assms(1) that] show False
    proof (elim disjE exE conjE)
      fix k b assume "(k, b) \<in> S" "bk_open b = t div s * s"
      then show False using assms(3) [of k b] eq by simp
    next
      assume "t div s * s + s \<le> now"
      then show False using interval_bounds [OF assms(2), of now] unfolding eq by simp
    qed
  qed
  then have "filter (\<lambda>(t, f). t div s * s = ?o) fs = []" by (auto simp: filter_empty_conv)
  then have old: "fills_in s ?o fs = []" by (simp add: fills_in_def)
  have "sums_up c (fills_in s (bk_open c) (fs @ [(now, f)]))" if "(k, c) \<in> insert (i, b) S" for k c
  proof (cases "(k, c) = (i, b)")
    case True
    then show ?thesis using assms(5,6) old by (simp add: fills_in_snoc)
  next
    case False
    then have c: "(k, c) \<in> S" using that by auto
    then show ?thesis using kept_sums [OF assms(1) c] assms(3) [OF c] by (simp add: fills_in_snoc)
  qed
  moreover have "k = j" if "(k, c) \<in> insert (i, b) S" "(j, d) \<in> insert (i, b) S" "bk_open c = bk_open d" for k c j d
  proof (rule unique_insert [of S S i b k c j d])
    show "k' = j'" if "(k', x) \<in> S" "(j', y) \<in> S" "bk_open x = bk_open y" for k' x j' y using kept_unique [OF assms(1)] that by blast
    show "(k', x) \<in> S \<and> (k' \<noteq> i \<longrightarrow> bk_open x \<noteq> bk_open b)" if "(k', x) \<in> S" for k' x using assms(3,5) that by simp
  qed (use that in auto)
  moreover have "(\<exists>k c. (k, c) \<in> insert (i, b) S \<and> bk_open c = t div s * s) \<or> t div s * s + s \<le> now" if "(t, g) \<in> set (fs @ [(now, f)])" for t g
    using that kept_there [OF assms(1), of t g] assms(5) by auto
  ultimately show ?thesis unfolding kept_exact_def by blast
qed

lemma kept_exact_update:
  assumes "kept_exact s fs now S" "(i, b) \<in> S" "bk_open b = now div s * s" "bk_open b' = bk_open b" "\<And>c. (i, c) \<in> S \<Longrightarrow> c = b"
    and "sums_up b' (fills_in s (bk_open b) fs @ [f])"
  shows "kept_exact s (fs @ [(now, f)]) now (insert (i, b') (S - {(i, b)}))"
proof -
  have other: "bk_open c \<noteq> bk_open b" if "(k, c) \<in> S" "k \<noteq> i" for k c using that kept_unique [OF assms(1) that(1) assms(2)] by blast
  have "sums_up c (fills_in s (bk_open c) (fs @ [(now, f)]))" if "(k, c) \<in> insert (i, b') (S - {(i, b)})" for k c
  proof (cases "k = i")
    case True
    then have "c = b'" using that assms(5) by auto
    then show ?thesis using assms(3,4,6) by (simp add: fills_in_snoc)
  next
    case False
    then have c: "(k, c) \<in> S" using that by auto
    then show ?thesis using kept_sums [OF assms(1) c] other [OF c False] assms(3) by (simp add: fills_in_snoc)
  qed
  moreover have "k = j" if "(k, c) \<in> insert (i, b') (S - {(i, b)})" "(j, d) \<in> insert (i, b') (S - {(i, b)})" "bk_open c = bk_open d" for k c j d
  proof (rule unique_insert [of S "S - {(i, b)}" i b' k c j d])
    show "k' = j'" if "(k', x) \<in> S" "(j', y) \<in> S" "bk_open x = bk_open y" for k' x j' y using kept_unique [OF assms(1)] that by blast
    show "(k', x) \<in> S \<and> (k' \<noteq> i \<longrightarrow> bk_open x \<noteq> bk_open b')" if "(k', x) \<in> S - {(i, b)}" for k' x using other [of k' x] assms(4) that by auto
  qed (use that in auto)
  moreover have "(\<exists>k c. (k, c) \<in> insert (i, b') (S - {(i, b)}) \<and> bk_open c = t div s * s) \<or> t div s * s + s \<le> now" if "(t, g) \<in> set (fs @ [(now, f)])" for t g
  proof (cases "t div s * s = bk_open b")
    case True
    then have "(i, b') \<in> insert (i, b') (S - {(i, b)}) \<and> bk_open b' = t div s * s" using assms(4) by simp
    then show ?thesis by blast
  next
    case False
    then have "(t, g) \<in> set fs" using that assms(3) by auto
    from kept_there [OF assms(1) this] show ?thesis
    proof (elim disjE exE conjE)
      fix k c assume "(k, c) \<in> S" "bk_open c = t div s * s"
      then have "(k, c) \<in> insert (i, b') (S - {(i, b)}) \<and> bk_open c = t div s * s" using False by auto
      then show ?thesis by blast
    qed blast
  qed
  ultimately show ?thesis unfolding kept_exact_def by blast
qed

lemma kept_exact_trim:
  assumes "kept_exact s fs now S" "\<And>k b. (k, b) \<in> R \<Longrightarrow> bk_open b + s \<le> now"
  shows "kept_exact s fs now (S - R)"
  using assms unfolding kept_exact_def by (metis DiffD1 DiffI)

section \<open>Trimming\<close>

lemma trim_buckets_removes:
  assumes "trim_buckets s cutoff ls ix = Inr ix'" "index_ok ix" "\<And>k b. (k, b) \<in> set ls \<Longrightarrow> idx_find k ix = Some b" "distinct (map fst ls)"
  shows "\<exists>R. index_ok ix' \<and> R \<subseteq> sized s ix \<and> (\<forall>k b. (k, b) \<in> R \<longrightarrow> int (bk_open b) < cutoff) \<and>
    (\<forall>k. idx_find k ix' = (if k \<in> fst ` R then None else idx_find k ix))"
  using assms
proof (induction ls arbitrary: ix)
  case (Cons p ls)
  obtain k b where p: "p = (k, b)" by (cases p)
  show ?case
  proof (cases "bk_seconds b = s \<and> int (bk_open b) < cutoff")
    case True
    have f: "idx_find k ix = Some b" using Cons.prems(3) p by simp
    let ?ix = "ix\<lparr>rows := table_delete k (rows ix)\<rparr>"
    have "trim_buckets s cutoff ls ?ix = Inr ix'" using Cons.prems(1) True f by (auto simp: p bindE_Inr_iff idx_remove_Inr)
    moreover have "idx_find j ?ix = Some c" if "(j, c) \<in> set ls" for j c
      using that Cons.prems(3) [of j c] Cons.prems(4) p by (auto simp: idx_find_delete image_iff)
    ultimately obtain R where R: "index_ok ix'" "R \<subseteq> sized s ?ix" "\<forall>k b. (k, b) \<in> R \<longrightarrow> int (bk_open b) < cutoff"
      "\<forall>j. idx_find j ix' = (if j \<in> fst ` R then None else idx_find j ?ix)"
      using Cons.IH [of ?ix] Cons.prems(2,4) by (auto simp: index_ok_delete)
    have "insert (k, b) R \<subseteq> sized s ix" using R(2) f True by (auto simp: sized_def idx_find_delete split: if_splits)
    then show ?thesis using R True by (intro exI [of _ "insert (k, b) R"]) (auto simp: idx_find_delete)
  next
    case False
    then show ?thesis using Cons.prems by (intro exI [of _ "{}"]) (auto simp: p)
  qed
qed simp

lemma trim_buckets_stops:
  assumes "(k, b) \<in> set ls" "\<not> (bk_seconds b = s \<and> int (bk_open b) < cutoff)" "\<And>k b. (k, b) \<in> set ls \<Longrightarrow> idx_find k ix = Some b" "distinct (map fst ls)"
  shows "\<exists>ix'. trim_buckets s cutoff ls ix = Inr ix'"
  using assms
proof (induction ls arbitrary: ix)
  case (Cons p ls)
  obtain j c where p: "p = (j, c)" by (cases p)
  let ?ix = "ix\<lparr>rows := table_delete j (rows ix)\<rparr>"
  show ?case
  proof (cases "bk_seconds c = s \<and> int (bk_open c) < cutoff")
    case True
    have "idx_remove j ix = Inr ?ix" using Cons.prems(3) [of j c] p by (simp add: idx_remove_Inr)
    moreover have "idx_find i ?ix = Some d" if "(i, d) \<in> set ls" for i d
      using that Cons.prems(3) [of i d] Cons.prems(4) p by (auto simp: idx_find_delete image_iff)
    moreover have "(k, b) \<in> set ls" using Cons.prems(1,2) True p by auto
    ultimately show ?thesis using Cons.IH [of ?ix] Cons.prems(2,4) True p by auto
  qed (auto simp: p)
qed simp

lemma buckets_from_rows:
  assumes "index_ok ix"
  shows "(k, b) \<in> set (buckets_from s ix) \<longleftrightarrow> idx_find k ix = Some b \<and> s \<le> bk_seconds b" "distinct (map fst (buckets_from s ix))"
proof -
  have d: "distinct (map fst (rows ix))" using assms by (simp add: index_ok_def table_ok_def)
  then show "(k, b) \<in> set (buckets_from s ix) \<longleftrightarrow> idx_find k ix = Some b \<and> s \<le> bk_seconds b"
    by (auto simp: buckets_from_def idx_find_def)
  have "distinct (map fst (sort_key (\<lambda>(k, b). (bk_seconds b, bk_open b)) (rows ix)))"
    using d by (simp add: distinct_map)
  then show "distinct (map fst (buckets_from s ix))" unfolding buckets_from_def by (rule distinct_map_filter)
qed

section \<open>One fill\<close>

lemma sized_modify:
  assumes "idx_find i ix = Some b" "bk_seconds b' = bk_seconds b" "bk_seconds b = s"
  shows "sized s (ix\<lparr>rows := table_update i b' (rows ix)\<rparr>) = insert (i, b') (sized s ix - {(i, b)})"
    and "s' \<noteq> s \<Longrightarrow> sized s' (ix\<lparr>rows := table_update i b' (rows ix)\<rparr>) = sized s' ix"
  using assms by (auto simp: sized_def idx_find_update split: if_splits)

lemma sized_create:
  assumes "index_ok ix"
  shows "sized (bk_seconds b) (idx_create b ix) = insert (next_instance ix, b) (sized (bk_seconds b) ix)"
    and "s' \<noteq> bk_seconds b \<Longrightarrow> sized s' (idx_create b ix) = sized s' ix" and "next_instance ix \<notin> fst ` sized s ix"
proof -
  have "idx_find (next_instance ix) ix = None" using assms by (auto simp: idx_find_def index_ok_def list_all_iff map_of_eq_None_iff)
  then show "sized (bk_seconds b) (idx_create b ix) = insert (next_instance ix, b) (sized (bk_seconds b) ix)"
    "s' \<noteq> bk_seconds b \<Longrightarrow> sized s' (idx_create b ix) = sized s' ix" "next_instance ix \<notin> fst ` sized s ix"
    by (auto simp: sized_def idx_find_create [OF assms] split: if_splits)
qed

lemma cutoff_exact: "0 < max_history \<Longrightarrow> int s * max_history < 2 ^ 32 \<Longrightarrow> bucket_cutoff max_history now s \<le> int now - int s"
proof -
  assume a: "0 < max_history" "int s * max_history < 2 ^ 32"
  have "int s * 1 \<le> int s * max_history" using a(1) by (intro mult_left_mono) auto
  then show ?thesis using a by (simp add: bucket_cutoff_def)
qed

lemma sized_trim:
  assumes "trim_buckets s cutoff (buckets_from s ix) ix = Inr ix'" "index_ok ix"
  shows "\<exists>R. index_ok ix' \<and> (\<forall>k b. (k, b) \<in> R \<longrightarrow> int (bk_open b) < cutoff) \<and> sized s ix' = sized s ix - R \<and> (\<forall>s'. s' \<noteq> s \<longrightarrow> sized s' ix' = sized s' ix)"
proof -
  have "\<And>k b. (k, b) \<in> set (buckets_from s ix) \<Longrightarrow> idx_find k ix = Some b" using buckets_from_rows(1) [OF assms(2)] by blast
  from trim_buckets_removes [OF assms this buckets_from_rows(2) [OF assms(2)]] obtain R where
    R: "index_ok ix'" "R \<subseteq> sized s ix" "\<forall>k b. (k, b) \<in> R \<longrightarrow> int (bk_open b) < cutoff" "\<forall>k. idx_find k ix' = (if k \<in> fst ` R then None else idx_find k ix)" by blast
  have "idx_find k ix = Some b \<and> bk_seconds b = s" if "(k, b) \<in> R" for k b using that R(2) by (auto simp: sized_def)
  then have "sized s ix' = sized s ix - R" "\<forall>s'. s' \<noteq> s \<longrightarrow> sized s' ix' = sized s' ix"
    using R(4) by (fastforce simp: sized_def image_iff split: if_splits)+
  then show ?thesis using R(1,3) by blast
qed

lemma fills_ok_in: "list_all (\<lambda>(t, f). fill_ok f) fs \<Longrightarrow> list_all fill_ok (fills_in s opened fs)"
  by (auto simp: fills_in_def list_all_iff)

lemma track_bucket_exact:
  assumes "track_bucket max_history now m d s ix = Inr ix'" "index_ok ix" "kept_exact s fs now (sized s ix)"
    and "0 < max_history" "int s * max_history < 2 ^ 32" "asset_id m = MUSE_SYMBOL" "asset_id d = MBD_SYMBOL" "fill_ok (amount m, amount d)"
    and "list_all (\<lambda>(t, f). fill_ok f) fs"
  shows "index_ok ix' \<and> kept_exact s (fs @ [(now, amount m, amount d)]) now (sized s ix') \<and> (\<forall>s'. s' \<noteq> s \<longrightarrow> sized s' ix' = sized s' ix)"
proof -
  let ?o = "now div s * s"
  have s: "0 < s" using assms(1) by (simp add: track_bucket_def split: if_splits)
  show ?thesis
  proof (cases "idx_by (\<lambda>b. bk_seconds b = s \<and> bk_open b = ?o) ix")
    case None
    let ?b = "new_bucket ?o s m d"
    have ix': "ix' = idx_create ?b ix" using assms(1) None s by (auto simp: track_bucket_def idx_insert_Inr)
    have none: "bk_open b \<noteq> ?o" if "(k, b) \<in> sized s ix" for k b
      using that None by (auto simp: sized_def idx_by_def find_None_iff idx_find_def dest!: map_of_SomeD)
    have b: "bk_open ?b = ?o" "bk_seconds ?b = s" by (simp_all add: new_bucket_def)
    have "kept_exact s (fs @ [(now, amount m, amount d)]) now (insert (next_instance ix, ?b) (sized s ix))"
      using none sized_create(3) [OF assms(2)] by (rule kept_exact_new [OF assms(3) s _ _ b(1) new_bucket_sums])
    then show ?thesis using sized_create(1) [OF assms(2), of ?b] sized_create(2) [OF assms(2), of _ ?b] b(2) assms(2) unfolding ix' by (simp add: index_ok_create)
  next
    case (Some p)
    then obtain k b where p: "idx_by (\<lambda>b. bk_seconds b = s \<and> bk_open b = ?o) ix = Some (k, b)" by (cases p) simp
    from idx_by_Some [OF p assms(2)] have b: "idx_find k ix = Some b" "bk_seconds b = s" "bk_open b = ?o" by simp_all
    obtain b' where b': "update_bucket m d b = Inr b'"
      and tr: "trim_buckets s (bucket_cutoff max_history now s) (buckets_from s (ix\<lparr>rows := table_update k b' (rows ix)\<rparr>)) (ix\<lparr>rows := table_update k b' (rows ix)\<rparr>) = Inr ix'"
      using assms(1,4) p b(1) s by (auto simp: track_bucket_def bindE_Inr_iff idx_modify_Inr)
    let ?ix = "ix\<lparr>rows := table_update k b' (rows ix)\<rparr>"
    have kb: "(k, b) \<in> sized s ix" using b by (simp add: sized_def)
    note u = update_bucket_sums [OF b' kept_sums [OF assms(3) kb] fills_ok_in [OF assms(9)] assms(8,6,7)]
    have "kept_exact s (fs @ [(now, amount m, amount d)]) now (insert (k, b') (sized s ix - {(k, b)}))"
      using u b by (intro kept_exact_update [OF assms(3) kb]) (auto simp: sized_def)
    then have k1: "kept_exact s (fs @ [(now, amount m, amount d)]) now (sized s ?ix)" using sized_modify(1) [OF b(1) _ b(2), of b'] u by simp
    have k2: "sized s' ?ix = sized s' ix" if "s' \<noteq> s" for s' using sized_modify(2) [OF b(1) _ b(2) that] u by simp
    obtain R where R: "index_ok ix'" "\<forall>k b. (k, b) \<in> R \<longrightarrow> int (bk_open b) < bucket_cutoff max_history now s" "sized s ix' = sized s ?ix - R"
      "\<forall>s'. s' \<noteq> s \<longrightarrow> sized s' ix' = sized s' ?ix"
      using sized_trim [OF tr index_ok_update [OF assms(2)]] by blast
    have "bk_open c + s \<le> now" if "(j, c) \<in> R" for j c using R(2) that cutoff_exact [OF assms(4,5), of now] by force
    then show ?thesis using kept_exact_trim [OF k1] R k2 by simp
  qed
qed

lemma track_all_exact:
  assumes "foldE (track_bucket max_history now m d) ss ix = Inr ix'" "index_ok ix" "distinct ss" "\<And>s. s \<in> set ss \<Longrightarrow> kept_exact s fs now (sized s ix)"
    and "0 < max_history" "list_all (\<lambda>s. int s * max_history < 2 ^ 32) ss" "asset_id m = MUSE_SYMBOL" "asset_id d = MBD_SYMBOL" "fill_ok (amount m, amount d)"
    and "list_all (\<lambda>(t, f). fill_ok f) fs"
  shows "index_ok ix' \<and> (\<forall>s. if s \<in> set ss then kept_exact s (fs @ [(now, amount m, amount d)]) now (sized s ix') else sized s ix' = sized s ix)"
  using assms(1-4,6)
proof (induction ss arbitrary: ix)
  case (Cons s ss)
  obtain jx where j: "track_bucket max_history now m d s ix = Inr jx" "foldE (track_bucket max_history now m d) ss jx = Inr ix'"
    using Cons.prems(1) by (auto simp: bindE_Inr_iff)
  have one: "index_ok jx" "kept_exact s (fs @ [(now, amount m, amount d)]) now (sized s jx)" "\<And>s'. s' \<noteq> s \<Longrightarrow> sized s' jx = sized s' ix"
    using track_bucket_exact [OF j(1) Cons.prems(2) Cons.prems(4) assms(5) _ assms(7-10)] Cons.prems(5) by auto
  have "kept_exact s' fs now (sized s' jx)" if "s' \<in> set ss" for s'
    using that Cons.prems(3,4) one(3) [of s'] by (cases "s' = s") auto
  from Cons.IH [OF j(2) one(1) _ this] Cons.prems(3,5)
  have rest: "index_ok ix'" "\<And>s'. if s' \<in> set ss then kept_exact s' (fs @ [(now, amount m, amount d)]) now (sized s' ix') else sized s' ix' = sized s' jx"
    by auto
  have "if s' \<in> set (s # ss) then kept_exact s' (fs @ [(now, amount m, amount d)]) now (sized s' ix') else sized s' ix' = sized s' ix" for s'
    using rest(2) [of s'] one(2) one(3) [of s'] Cons.prems(3) by (cases "s' = s") auto
  then show ?case using rest(1) by blast
qed simp

text \<open>A fill is always booked, unless a volume leaves the range of 64 bits: the search for old buckets never runs past the last one.\<close>

lemma update_bucket_returns: "(\<exists>b'. update_bucket m d b = Inr b' \<and> bk_seconds b' = bk_seconds b \<and> bk_open b' = bk_open b) \<or> update_bucket m d b = Inl Overflow_exn"
  by (auto simp: update_bucket_def raise_high_def drop_low_def bucket_high_def bucket_low_def asset_div_asset_def guardE_def bindE_def safe_add_def safeE_def
      MUSE_SYMBOL_def MBD_SYMBOL_def)

lemma track_bucket_returns:
  assumes "index_ok ix" "0 < s" "0 < max_history" "int s * max_history < 2 ^ 32"
  shows "(\<exists>ix'. track_bucket max_history now m d s ix = Inr ix') \<or> track_bucket max_history now m d s ix = Inl Overflow_exn"
proof (cases "idx_by (\<lambda>b. bk_seconds b = s \<and> bk_open b = now div s * s) ix")
  case None
  then have "list_all (\<lambda>(k, y). \<not> (s = bk_seconds y \<and> now div s * s = bk_open y)) (rows ix)"
    by (force simp: idx_by_def find_None_iff list_all_iff)
  then show ?thesis using None assms(2) by (simp add: track_bucket_def idx_insert_def new_bucket_def guardE_def)
next
  case (Some p)
  then obtain k b where p: "idx_by (\<lambda>b. bk_seconds b = s \<and> bk_open b = now div s * s) ix = Some (k, b)" by (cases p) simp
  from idx_by_Some [OF p assms(1)] have b: "idx_find k ix = Some b" "bk_seconds b = s" "bk_open b = now div s * s" by simp_all
  have run: "track_bucket max_history now m d s ix = bindE (idx_modify k (update_bucket m d) ix) (\<lambda>ix.
      trim_buckets s (bucket_cutoff max_history now s) (buckets_from s ix) ix)"
    using p assms(2,3) by (simp add: track_bucket_def)
  from update_bucket_returns [of m d b] show ?thesis
  proof (elim disjE exE conjE)
    fix b' assume b': "update_bucket m d b = Inr b'" "bk_seconds b' = bk_seconds b" "bk_open b' = bk_open b"
    let ?ix = "ix\<lparr>rows := table_update k b' (rows ix)\<rparr>"
    have ok: "index_ok ?ix" by (rule index_ok_update [OF assms(1)])
    have "(k, b') \<in> set (buckets_from s ?ix)" using b b'(2) by (simp add: buckets_from_rows(1) [OF ok] idx_find_update)
    moreover have "\<not> int (bk_open b') < bucket_cutoff max_history now s"
      using cutoff_exact [OF assms(3,4), of now] interval_bounds [OF assms(2), of now] b(3) b'(3) by linarith
    ultimately have "\<exists>ix'. trim_buckets s (bucket_cutoff max_history now s) (buckets_from s ?ix) ?ix = Inr ix'"
      using buckets_from_rows [OF ok] by (intro trim_buckets_stops) auto
    then show ?thesis using b(1) b'(1) by (simp add: run idx_modify_def idx_get_def getE_def)
  qed (use b(1) in \<open>simp add: run idx_modify_def idx_get_def getE_def\<close>)
qed

section \<open>Any sequence of fills\<close>

inductive traded :: "nat list \<Rightarrow> int \<Rightarrow> (time_sec \<times> int \<times> int) list \<Rightarrow> market_tables \<Rightarrow> bool" for sizes max_history where
  start: "traded sizes max_history [] \<lparr>mt_buckets = empty_index, mt_orders = empty_index\<rparr>"
| fill: "traded sizes max_history fs mt \<Longrightarrow> list_all (\<lambda>(t, f). t \<le> now) fs \<Longrightarrow>
    asset_id cp = MUSE_SYMBOL \<and> asset_id op = MBD_SYMBOL \<or> asset_id cp = MBD_SYMBOL \<and> asset_id op = MUSE_SYMBOL \<Longrightarrow>
    fill_ok (amount (muse_side cp op), amount (mbd_side cp op)) \<Longrightarrow>
    update_market_histories sizes max_history now (Virtual (Fill_order co ci cp oo oi op)) mt = Inr mt' \<Longrightarrow>
    traded sizes max_history (fs @ [(now, amount (muse_side cp op), amount (mbd_side cp op))]) mt'"

lemma traded_exact:
  assumes "traded sizes max_history fs mt" "distinct sizes" "0 < max_history" "list_all (\<lambda>s. int s * max_history < 2 ^ 32) sizes"
  shows "index_ok (mt_buckets mt) \<and> list_all (\<lambda>(t, f). fill_ok f) fs \<and>
    (\<forall>s now. list_all (\<lambda>(t, f). t \<le> now) fs \<longrightarrow> (if s \<in> set sizes then kept_exact s fs now (sized s (mt_buckets mt)) else sized s (mt_buckets mt) = {}))"
  using assms(1)
proof (induction rule: traded.induct)
  case start
  then show ?case by (auto simp: sized_def idx_find_def empty_index_def index_ok_def table_ok_def kept_exact_def)
next
  case (fill fs mt now cp op co ci oo oi mt')
  let ?m = "muse_side cp op" and ?d = "mbd_side cp op"
  have run: "foldE (track_bucket max_history now ?m ?d) sizes (mt_buckets mt) = Inr (mt_buckets mt')"
    using fill.hyps(5) assms(3) by (auto simp: update_market_histories_def Let_def bindE_Inr_iff)
  have md: "asset_id ?m = MUSE_SYMBOL" "asset_id ?d = MBD_SYMBOL"
    using fill.hyps(3) by (auto simp: muse_side_def mbd_side_def MUSE_SYMBOL_def MBD_SYMBOL_def)
  have ih: "index_ok (mt_buckets mt)" "list_all (\<lambda>(t, f). fill_ok f) fs"
    "\<And>s. if s \<in> set sizes then kept_exact s fs now (sized s (mt_buckets mt)) else sized s (mt_buckets mt) = {}"
    using fill.IH fill.hyps(2) by blast+
  have new: "index_ok (mt_buckets mt')" "\<And>s. if s \<in> set sizes then kept_exact s (fs @ [(now, amount ?m, amount ?d)]) now (sized s (mt_buckets mt'))
      else sized s (mt_buckets mt') = sized s (mt_buckets mt)"
    using track_all_exact [OF run ih(1) assms(2) _ assms(3,4) md fill.hyps(4) ih(2)] ih(3) by presburger+
  have "if s \<in> set sizes then kept_exact s (fs @ [(now, amount ?m, amount ?d)]) now' (sized s (mt_buckets mt')) else sized s (mt_buckets mt') = {}"
    if "now \<le> now'" for s now'
    using new(2) [of s] ih(3) [of s] kept_exact_later [OF _ that] by (cases "s \<in> set sizes") auto
  then show ?case using new(1) ih(2) fill.hyps(4) by auto
qed

text \<open>Property C40. Whatever orders are filled on the market of MUSE and MBD, every bucket the market history plugin keeps sums up exactly the fills of
  its interval: the first and the last of them, the volumes, and the highest and the lowest rate. No bucket that is still being
  filled is dropped as too old.\<close>

theorem buckets_exact:
  assumes "traded sizes max_history fs mt" "distinct sizes" "0 < max_history" "list_all (\<lambda>s. int s * max_history < 2 ^ 32) sizes"
    and "idx_find k (mt_buckets mt) = Some b" "fills = map snd (filter (\<lambda>(t, f). t div bk_seconds b * bk_seconds b = bk_open b) fs)"
  shows "bk_seconds b \<in> set sizes \<and> fills \<noteq> [] \<and> (open_muse b, open_mbd b) = hd fills \<and> (close_muse b, close_mbd b) = last fills \<and>
     muse_volume b = sum_list (map fst fills) \<and> mbd_volume b = sum_list (map snd fills) \<and>
     (high_muse b, high_mbd b) \<in> set fills \<and> (low_muse b, low_mbd b) \<in> set fills \<and>
     (\<forall>m d. (m, d) \<in> set fills \<longrightarrow> d * high_muse b \<le> high_mbd b * m \<and> low_mbd b * m \<le> d * low_muse b)"
proof -
  let ?s = "bk_seconds b"
  obtain now where now: "list_all (\<lambda>(t, f). t \<le> now) fs"
  proof
    show "list_all (\<lambda>(t, f). t \<le> sum_list (map fst fs)) fs" by (force simp: list_all_iff intro: member_le_sum_list)
  qed
  have e: "if ?s \<in> set sizes then kept_exact ?s fs now (sized ?s (mt_buckets mt)) else sized ?s (mt_buckets mt) = {}"
    using traded_exact [OF assms(1-4)] now by blast
  have b: "(k, b) \<in> sized ?s (mt_buckets mt)" using assms(5) by (simp add: sized_def)
  then have s: "?s \<in> set sizes" using e by (metis empty_iff)
  then have "sums_up b fills" using e kept_sums [OF _ b] assms(6) by (simp add: fills_in_def)
  then show ?thesis using s by (auto simp: sums_up_def rate_le_def)
qed

definition demo_fill :: "share \<Rightarrow> share \<Rightarrow> operation" where
  "demo_fill m d = Virtual (Fill_order ''alice'' 1 (mk_asset d MBD_SYMBOL) ''bob'' 2 (mk_asset m MUSE_SYMBOL))"

theorem buckets_exact_witness:
  "\<exists>mt b. traded [60] 10 [(125, 100, 7), (130, 50, 4)] mt \<and> idx_find 0 (mt_buckets mt) = Some b \<and> muse_volume b = 150 \<and> (high_muse b, high_mbd b) \<in> {(100, 7), (50, 4)}"
proof -
  let ?b = "new_bucket 120 60 (mk_asset 100 MUSE_SYMBOL) (mk_asset 7 MBD_SYMBOL)"
  let ?c = "?b\<lparr>muse_volume := 150, mbd_volume := 11, close_muse := 50, close_mbd := 4, high_muse := 50, high_mbd := 4\<rparr>"
  have "\<exists>mt. update_market_histories [60] 10 125 (demo_fill 100 7) \<lparr>mt_buckets = empty_index, mt_orders = empty_index\<rparr> = Inr mt \<and> mt_buckets mt = idx_create ?b empty_index"
    by (simp add: demo_fill_def update_market_histories_def track_bucket_def idx_by_def idx_insert_def guardE_def empty_index_def muse_side_def mbd_side_def)
  then obtain mt where 1: "update_market_histories [60] 10 125 (demo_fill 100 7) \<lparr>mt_buckets = empty_index, mt_orders = empty_index\<rparr> = Inr mt" "mt_buckets mt = idx_create ?b empty_index" by blast
  have lt: "price_lt (mk_price (mk_asset 7 MBD_SYMBOL) (mk_asset 100 MUSE_SYMBOL)) (mk_price (mk_asset 4 MBD_SYMBOL) (mk_asset 50 MUSE_SYMBOL))"
    "\<not> price_gt (mk_price (mk_asset 7 MBD_SYMBOL) (mk_asset 100 MUSE_SYMBOL)) (mk_price (mk_asset 4 MBD_SYMBOL) (mk_asset 50 MUSE_SYMBOL))"
    by (simp_all add: price_rate MUSE_SYMBOL_def MBD_SYMBOL_def fill_ok_def rate_le_def in_int64_def int64_min_def int64_max_def)
  have u: "update_bucket (mk_asset 50 MUSE_SYMBOL) (mk_asset 4 MBD_SYMBOL) ?b = Inr ?c"
    using lt by (simp add: update_bucket_def raise_high_def drop_low_def bucket_high_def bucket_low_def new_bucket_def asset_div_asset_def guardE_def
        safe_add_def safeE_def in_int64_def int64_min_def int64_max_def MUSE_SYMBOL_def MBD_SYMBOL_def)
  have "\<exists>mt'. update_market_histories [60] 10 130 (demo_fill 50 4) mt = Inr mt' \<and> mt_buckets mt' = \<lparr>rows = [(0, ?c)], next_instance = 1\<rparr>"
    using u by (simp add: 1 demo_fill_def update_market_histories_def track_bucket_def idx_by_def idx_create_def empty_index_def idx_modify_def idx_get_def getE_def
        idx_find_def table_update_def buckets_from_def bucket_cutoff_def muse_side_def mbd_side_def new_bucket_def)
  then obtain mt' where 2: "update_market_histories [60] 10 130 (demo_fill 50 4) mt = Inr mt'" "mt_buckets mt' = \<lparr>rows = [(0, ?c)], next_instance = 1\<rparr>" by blast
  have side: "muse_side (mk_asset d MBD_SYMBOL) (mk_asset m MUSE_SYMBOL) = mk_asset m MUSE_SYMBOL" "mbd_side (mk_asset d MBD_SYMBOL) (mk_asset m MUSE_SYMBOL) = mk_asset d MBD_SYMBOL" for m d
    by (simp_all add: muse_side_def mbd_side_def)
  have step: "traded [60] 10 (fs @ [(now, m, d)]) w'" if "traded [60] 10 fs w" "list_all (\<lambda>(t, f). t \<le> now) fs" "fill_ok (m, d)"
    "update_market_histories [60] 10 now (demo_fill m d) w = Inr w'" for fs w w' now m d
    using traded.fill [OF that(1,2) _ _ that(4) [unfolded demo_fill_def]] that(3) by (simp add: side)
  have ok: "fill_ok (100, 7)" "fill_ok (50, 4)" by (simp_all add: fill_ok_def in_int64_def int64_min_def int64_max_def)
  have "traded [60] 10 ([] @ [(125, 100, 7)]) mt" by (rule step [OF traded.start _ ok(1) 1(1)]) simp
  then have "traded [60] 10 (([] @ [(125, 100, 7)]) @ [(130, 50, 4)]) mt'" by (rule step [OF _ _ ok(2) 2(1)]) simp
  then have "traded [60] 10 [(125, 100, 7), (130, 50, 4)] mt'" by simp
  note t = this
  have f: "idx_find 0 (mt_buckets mt') = Some ?c" by (simp add: 2 idx_find_def)
  from buckets_exact [OF t _ _ _ f refl] show ?thesis using t f by (intro exI [of _ mt'] exI [of _ ?c]) (simp add: new_bucket_def)
qed

text \<open>The fills of every market are booked as if they were of MUSE and MBD: the amount of a user asset becomes an amount of MUSE.\<close>

lemma foreign_fill_booked:
  "asset_id op \<noteq> MUSE_SYMBOL \<Longrightarrow> high_muse (new_bucket t s (muse_side cp op) (mbd_side cp op)) = amount cp \<and>
     high_mbd (new_bucket t s (muse_side cp op) (mbd_side cp op)) = amount op"
  by (simp add: new_bucket_def muse_side_def mbd_side_def)

end
