(* ===== verification/Maintenance.thy ===== *)
theory Maintenance
  imports Ledger Evaluators Node
begin

text \<open>
  Operations of \<open>database.cpp\<close> that no hardfork of this chain calls: the split of vesting shares, the recount of the witnesses an
  account votes for, and the trial application of a transaction. What is shown: a split scales holdings and recorded totals alike,
  and a trial leaves the chain as it was.
\<close>

section \<open>Operations\<close>

fun scale_all :: "int \<Rightarrow> share list \<Rightarrow> share list res" where
  "scale_all m [] = Inr []"
| "scale_all m (v # vs) = bindE (safe_mul v m) (\<lambda>x. bindE (scale_all m vs) (\<lambda>xs. Inr (x # xs)))"

definition split_account :: "nat \<Rightarrow> account \<Rightarrow> account res" where
  "split_account magnitude a =
     bindE (safe_mul (acc_vesting_shares a) (int magnitude)) (\<lambda>v.
     bindE (safe_mul (acc_withdrawn a) (int magnitude)) (\<lambda>w.
     bindE (safe_mul (acc_to_withdraw a) (int magnitude)) (\<lambda>t.
     bindE (safe_div t MUSE_VESTING_WITHDRAW_INTERVALS) (\<lambda>r.
     bindE (scale_all (int magnitude) (acc_proxied_vsf_votes a)) (\<lambda>p.
     Inr (a\<lparr>acc_vesting_shares := v, acc_withdrawn := w, acc_to_withdraw := t, acc_vesting_withdraw_rate := (if r = 0 then 1 else r),
       acc_proxied_vsf_votes := p\<rparr>))))))"

definition perform_vesting_share_split :: "nat \<Rightarrow> chain \<Rightarrow> chain res" where
  "perform_vesting_share_split magnitude s =
     bindE (modify_dgp (\<lambda>p. bindE (safe_mul (total_vesting_shares p) (int magnitude)) (\<lambda>x. Inr (p\<lparr>total_vesting_shares := x\<rparr>))) s) (\<lambda>s.
     foldE (\<lambda>(k, a). modify_account k (split_account magnitude)) (rows (accounts s)) s)"

definition witnesses_voted :: "bool \<Rightarrow> nat \<Rightarrow> account \<Rightarrow> chain \<Rightarrow> nat" where
  "witnesses_voted force k a s =
     (if force \<or> acc_proxy a \<noteq> MUSE_PROXY_TO_SELF_ACCOUNT
      then length (filter (\<lambda>(i, v). wv_account v = k) (rows (witness_votes s))) mod 2 ^ 16 else 0)"

definition retally_witness_vote_counts :: "bool \<Rightarrow> chain \<Rightarrow> chain res" where
  "retally_witness_vote_counts force s =
     foldE (\<lambda>(k, a) s.
       let n = witnesses_voted force k a s in
       if acc_witnesses_voted_for a \<noteq> n then modify_account k (\<lambda>a. Inr (a\<lparr>acc_witnesses_voted_for := n\<rparr>)) s else Inr s) (rows (accounts s)) s"

definition validate_transaction :: "node_env \<Rightarrow> signed_transaction \<Rightarrow> unit act" where
  "validate_transaction ne trx n =
     (let n = start_session n in
      case apply_transaction ne skip_nothing trx (nd_chain n) of
        None \<Rightarrow> None
      | Some (Inl e) \<Rightarrow> Some (Inl e, drop_session n)
      | Some (Inr s) \<Rightarrow> Some (Inr (), drop_session (n\<lparr>nd_hist := (nd_hist n)\<lparr>h_now := s\<rparr>\<rparr>)))"

section \<open>A change of every account\<close>

text \<open>A loop over all accounts that changes each of them leaves a table with every row changed and nothing else.\<close>

lemma modify_each:
  assumes "foldE (\<lambda>(k, a). modify_account k f) suf s = Inr t" "rows (accounts s) = pre @ suf" "distinct (map fst (rows (accounts s)))"
  shows "\<exists>suf'. t = s\<lparr>accounts := (accounts s)\<lparr>rows := pre @ suf'\<rparr>\<rparr> \<and> list_all2 (\<lambda>(k, a) (j, b). k = j \<and> f a = Inr b) suf suf'"
  using assms
proof (induction suf arbitrary: s pre)
  case Nil
  then show ?case by (intro exI [of _ "[]"]) simp
next
  case (Cons p suf)
  obtain k a where p: "p = (k, a)" by (cases p)
  have keys: "k \<notin> fst ` set pre" "k \<notin> fst ` set suf" using Cons.prems(2,3) p by (auto simp: image_iff)
  have "idx_find k (accounts s) = Some a" using Cons.prems(2) p keys(1) by (force simp: idx_find_def map_add_def split: option.splits dest!: map_of_SomeD)
  then obtain b u where b: "f a = Inr b" and u: "u = s\<lparr>accounts := (accounts s)\<lparr>rows := table_update k b (rows (accounts s))\<rparr>\<rparr>"
    and rest: "foldE (\<lambda>(k, a). modify_account k f) suf u = Inr t"
    using Cons.prems(1) p by (auto simp: bindE_Inr_iff modify_account_Inr)
  have same: "table_update k b ps = ps" if "k \<notin> fst ` set ps" for ps using that by (induction ps) (auto simp: table_update_def)
  have "table_update k b (pre @ (k, a) # suf) = table_update k b pre @ (k, b) # table_update k b suf" by (simp add: table_update_def)
  then have r: "rows (accounts u) = (pre @ [(k, b)]) @ suf" using Cons.prems(2) p keys by (simp add: u same)
  moreover have "distinct (map fst (rows (accounts u)))" using Cons.prems(2,3) p r by simp
  ultimately obtain suf' where suf': "t = u\<lparr>accounts := (accounts u)\<lparr>rows := (pre @ [(k, b)]) @ suf'\<rparr>\<rparr>"
    "list_all2 (\<lambda>(k, a) (j, b). k = j \<and> f a = Inr b) suf suf'" using Cons.IH [OF rest] by blast
  then show ?case using b p by (intro exI [of _ "(k, b) # suf'"]) (simp add: u)
qed

lemma sum_rows_scaled:
  assumes "list_all2 (\<lambda>(k, a) (j, b). k = j \<and> f a = Inr b) xs ys" "\<And>k a b. (k, a) \<in> set xs \<Longrightarrow> f a = Inr b \<Longrightarrow> g b = c * (g a :: int)"
  shows "sum_list (map (\<lambda>(k, x). g x) ys) = c * sum_list (map (\<lambda>(k, x). g x) xs)"
  using assms
proof (induction rule: list_all2_induct)
  case (Cons x xs y ys)
  obtain k a b where x: "x = (k, a)" "y = (k, b)" "f a = Inr b" using Cons.hyps(1) by (cases x; cases y) auto
  have "g b = c * g a" using Cons.prems [of k a b] x by simp
  moreover have "sum_list (map (\<lambda>(k, x). g x) ys) = c * sum_list (map (\<lambda>(k, x). g x) xs)" by (rule Cons.IH) (use Cons.prems in auto)
  ultimately show ?case using x by (simp add: distrib_left)
qed simp

lemma scale_all_Inr: "scale_all m vs = Inr ws \<Longrightarrow> ws = map (\<lambda>v. v * m) vs"
  by (induction vs arbitrary: ws) (auto simp: res_simps)

lemma split_account_Inr:
  assumes "split_account magnitude a = Inr b" "length (acc_proxied_vsf_votes a) = MUSE_MAX_PROXY_RECURSION_DEPTH"
  shows "acc_vesting_shares b = int magnitude * acc_vesting_shares a \<and> vsf_weight b = int magnitude * vsf_weight a \<and>
    acc_balance b = acc_balance a \<and> acc_mbd_balance b = acc_mbd_balance a"
  using assms by (auto simp: split_account_def res_simps vsf_weight_def sum_list_mult_const mult_ac distrib_left nth_map MUSE_MAX_PROXY_RECURSION_DEPTH_def dest!: scale_all_Inr)

text \<open>A split multiplies what is recorded and what is held of vesting shares and voting weight, and touches no other holdings.\<close>

lemma split_scales:
  assumes "perform_vesting_share_split magnitude s = Inr t" "tables_ok s"
  shows "vests_gap t = int magnitude * vests_gap s \<and> vsf_gap t = int magnitude * vsf_gap s \<and> muse_gap t = muse_gap s \<and> mbd_gap t = mbd_gap s"
proof -
  obtain u where u: "u = s\<lparr>dgp := (dgp s)\<lparr>total_vesting_shares := total_vesting_shares (dgp s) * int magnitude\<rparr>\<rparr>"
    and run: "foldE (\<lambda>(k, a). modify_account k (split_account magnitude)) (rows (accounts u)) u = Inr t"
    using assms(1) by (auto simp: perform_vesting_share_split_def modify_dgp_def bindE_Inr_iff safe_ops_Inr_iff)
  have ok: "distinct (map fst (rows (accounts u)))" "\<And>k a. (k, a) \<in> set (rows (accounts u)) \<Longrightarrow> length (acc_proxied_vsf_votes a) = MUSE_MAX_PROXY_RECURSION_DEPTH"
    using assms(2) by (auto simp: u tables_ok_def index_ok_def table_ok_def account_ok_def list_all_iff)
  obtain rs where t: "t = u\<lparr>accounts := (accounts u)\<lparr>rows := rs\<rparr>\<rparr>" and rs: "list_all2 (\<lambda>(k, a) (j, b). k = j \<and> split_account magnitude a = Inr b) (rows (accounts u)) rs"
    using modify_each [OF run _ ok(1), of "[]"] by auto
  have sums: "idx_sum acc_vesting_shares (accounts t) = int magnitude * idx_sum acc_vesting_shares (accounts s)"
    "idx_sum vsf_weight (accounts t) = int magnitude * idx_sum vsf_weight (accounts s)"
    "idx_sum acc_balance (accounts t) = 1 * idx_sum acc_balance (accounts s)" "idx_sum acc_mbd_balance (accounts t) = 1 * idx_sum acc_mbd_balance (accounts s)"
    unfolding idx_sum_def t using split_account_Inr [OF _ ok(2)] u
    by (auto simp del: mult_1 intro!: trans [OF sum_rows_scaled [OF rs]])
  show ?thesis using sums unfolding vests_gap_def vsf_gap_def muse_gap_def mbd_gap_def vests_held_def vsf_held_def muse_held_def mbd_held_def
    by (simp add: t u right_diff_distrib mult.commute)
qed

lemma validate_transaction_changes_nothing:
  "validate_transaction ne trx n = Some (r, n') \<Longrightarrow> nd_chain n' = nd_chain n \<and> nd_pending n' = nd_pending n \<and> nd_store n' = nd_store n \<and> nd_fork n' = nd_fork n"
  by (auto simp: validate_transaction_def start_session_def drop_session_def h_start_def h_undo_def guardE_def Let_def split: option.splits sum.splits)

end
