(* ===== verification/Spec2Isabelle.thy ===== *)
theory Spec2Isabelle
  imports Undo_Sessions Asset_Laws Fork_Laws Block_Store Authority_Laws Market_Laws Reward_Laws Withdrawal_Laws Proposal_Laws Schedule_Laws Stored_Branch Genesis_Laws Sync Witness_Plugin Member_Index Account_History Market_History Maintenance
begin

text \<open>
  A verification of the node of the Muse blockchain (\<open>src/libraries\<close>): its object database with undo sessions, its fork
  and block databases, its asset arithmetic and authorities, and the chain itself: the operations users submit, their
  evaluators, the maintenance the chain runs with every block, the node that pushes, pops, produces and replays blocks, what
  it answers to peers, and the plugins that produce blocks and keep histories.

  \<^bold>\<open>The program.\<close> \<open>libraries/db\<close> keeps typed objects in indexes under 64 bit ids and can undo, merge and commit sessions of
  changes. \<open>libraries/chain\<close> builds on it: \<open>fork_database\<close> keeps the tree of recent blocks, \<open>block_database\<close> stores blocks
  on disk, \<open>protocol/\<close> defines assets, authorities, operations, transactions and blocks with their stateless checks, the
  \<open>*_evaluator.cpp\<close> files apply operations, and \<open>database.cpp\<close> ties them together: balances, votes, market, rewards,
  withdrawals, proposals, schedule and blocks. All state changes go through the object database, so an exception undoes them.
  \<open>app/application.cpp\<close> answers the network, and \<open>plugins/\<close> produce blocks and record what happened.

  \<^bold>\<open>How the model corresponds to the code.\<close> Objects are records with the source's fields, a table of objects is an
  \<open>index\<close> (rows sorted by instance number and the next instance), the state of the chain is the record \<open>chain\<close>
  (\<open>Chain_State\<close>). A C++ function that may throw returns \<open>error + value\<close>; \<open>bindE\<close>, \<open>guardE\<close> and \<open>foldE\<close> (\<open>Muse_Prelude\<close>) are
  sequencing, \<open>FC_ASSERT\<close> and loops. \<open>share_type\<close> is \<open>fc::safe<int64_t>\<close>: an integer whose operations raise outside 64 bits.
  Other machine integers are words, or naturals with the reduction written out. Hashes, signatures, UTF-8, JSON and the
  serialised size of objects are code outside the sources and are parameters.

  \<^bold>\<open>The theories.\<close>
  \<^item> \<open>Muse_Prelude\<close>: errors, loops, safe integers, sorted tables, word lemmas.
  \<^item> \<open>Object_Database\<close>, \<open>Undo_Refinement\<close>, \<open>Undo_Sessions\<close>: \<open>libraries/db\<close>. An undo state is a compact form of a change
    of the whole store (\<open>covers\<close>); creating, modifying, removing, merging and rolling back refine operations on
    snapshots, so undo restores a store exactly, merge composes two sessions, pop and commit agree with them.
  \<^item> \<open>Blocks\<close>, \<open>Fork_Database\<close>, \<open>Fork_Laws\<close>, \<open>Block_Store\<close>: ids, versions and Merkle roots; the fork tree, where two
    branches always meet and the head has the largest number; the two block files, whose entries read back what was stored.
  \<^item> \<open>Assets\<close>, \<open>Asset_Laws\<close>: prices and square roots; prices order as fractions, products round down.
  \<^item> \<open>Authority\<close>, \<open>Authority_Laws\<close>: account names, weighted authorities, \<open>sign_state\<close> and \<open>verify_authority\<close>; what is accepted
    has a derivation of enough weight from the signatures.
  \<^item> \<open>Operations\<close>, \<open>Operation_Checks\<close>: every operation, the authorities it requires, and its \<open>validate\<close>.
  \<^item> \<open>Chain_State\<close>, \<open>Votes\<close>, \<open>Ledger\<close>, \<open>Balances\<close>, \<open>Account_Views\<close>: objects and lookups, votes through proxies and scores,
    and the books: \<open>moves\<close> says how a step changes the four differences that \<open>validate_invariants\<close> requires to be zero.
  \<^item> \<open>Market\<close>, \<open>Market_Laws\<close>; \<open>Rewards\<close>, \<open>Reward_Laws\<close>; \<open>Withdrawals\<close>, \<open>Withdrawal_Laws\<close>: matching orders; paying the
    producer, content and conversions; powering down. Each conserves the books; matching makes progress; the loop over
    withdrawals ends.
  \<^item> \<open>Evaluators\<close>, \<open>Content_Evaluators\<close>, \<open>Proposals\<close>: \<open>do_apply\<close> of every operation, the dispatcher and proposals.
  \<^item> \<open>Frames\<close>, \<open>Evaluator_Contract\<close>, \<open>Proxy_Laws\<close>, \<open>Evaluator_Laws\<close>, \<open>Operation_Laws\<close>, \<open>Proposal_Laws\<close>: a calculus of
    relations along calls, the contract of the evaluators as a locale and its interpretations; every operation keeps
    the books, the proxies stay free of loops; when executing proposals ends and when it does not.
  \<^item> \<open>Schedule\<close>, \<open>Schedule_Laws\<close>: slots, the witnesses of a round, medians, the last irreversible block.
  \<^item> \<open>Transactions\<close>, \<open>Block_Application\<close>, \<open>Reward_Frames\<close>, \<open>Block_Laws\<close>, \<open>Head_Laws\<close>: \<open>_apply_transaction\<close> and \<open>_apply_block\<close> with all their steps and
    the hardforks; a block keeps the books, what it does to the register of recent slots, and it links to the head and becomes the head.
  \<^item> \<open>Snapshots\<close>, \<open>Node\<close>, \<open>Node_Laws\<close>, \<open>Stored_Branch\<close>: the undo database as a stack of whole states, which the real one simulates; on it
    \<open>push_block\<close> with fork switches, \<open>push_transaction\<close> and \<open>pop_block\<close>. The head state is always what applying blocks to the snapshots gives;
    the block database holds those blocks, unless a fork switch failed; a block refused without a switch changes neither the head
    state nor the block database.
  \<^item> \<open>Production\<close>, \<open>Witness_Plugin\<close>: \<open>_generate_block\<close>, \<open>reindex\<close>, \<open>close\<close>, and the timer of \<open>witness.cpp\<close>; what a produced block holds
    and when it is produced.
  \<^item> \<open>Asset_Text\<close>: amounts as text and back.
  \<^item> \<open>Genesis\<close>, \<open>Genesis_Laws\<close>: \<open>init_genesis\<close> and \<open>validate_invariants\<close>; from genesis on, through validated blocks that do not issue or
    reserve MUSE or MBD, all states are well formed and balanced, and the recount accepts exactly the balanced ones.
  \<^item> \<open>Sync\<close>: the delegate of the network in \<open>application.cpp\<close>; the synopsis of a chain is short and dense, a peer answers it with the
    blocks from the last shared one on, and a pending transaction on a young chain breaks it.
  \<^item> \<open>Member_Index\<close>: the reverse lookup of authorities in \<open>base_objects.cpp\<close>, exact after any history.
  \<^item> \<open>Account_History\<close>, \<open>Market_History\<close>: the two history plugins; what they record, and where they record nothing.
  \<^item> \<open>Maintenance\<close>: operations of \<open>database.cpp\<close> that nothing calls.
  \<^item> \<open>Demo_Chain\<close>: builders for the concrete states of the witnesses.

  \<^bold>\<open>Fuel.\<close> Most loops are structural or have a measure. \<open>fetch_branch_from\<close> climbs at most \<open>2 ^ 32\<close> links, the number of block
  numbers; \<open>withdraw_fuel\<close> counts the payouts that are owed, and the loop is shown to end within it; \<open>push_proposal\<close> takes the
  depth of nested executions the stack allows, \<open>None\<close> is a stack overflow, and the theorems say when it occurs. \<open>cutoff_blocks\<close> has a round per stored block. The loop of the
  synopsis steps in 32 bit numbers that may wrap; it is a partial function, shown to return for every chain below \<open>2 ^ 32 - 1\<close> blocks.

  \<^bold>\<open>Not modelled.\<close> The peer-to-peer network, the wallet, the read-only APIs, the other plugins, start-up and options, and the
  generated tables in \<open>egenesis\<close> and \<open>utilities\<close>: they hold no consensus logic, depend on sockets, threads, keys and JSON, or are
  data. Of the chain, the serialisation of objects, the signals to observers (the two history plugins are functions of the
  operations they are given), and code that only logs.
\<close>

end
